(* ===== verification/Prelude.thy ===== *)
theory Prelude
  imports Main "HOL-Library.Multiset" "HOL-Library.List_Lexorder" "HOL-Library.Sublist"
begin

text \<open>
  Shared vocabulary of the development: the parts of the Rust core language and standard
  library that every component uses.
  \<^item> results: \<open>Result<T, E>\<close> is the sum \<open>'e + 'a\<close> (\<open>Inl\<close> the error) and the \<open>?\<close> operator is
    \<open>try_bind\<close>;
  \<^item> machine integers: \<open>nat\<close> or \<open>int\<close> with the saturating, checked and converting operations
    of the source written out against the type's maximum;
  \<^item> orderings: \<open>Ordering\<close>, \<open>cmp\<close>, \<open>then_with\<close> and the stable sort behind \<open>slice::sort_by\<close>;
    the locale \<open>comparator\<close> states what a comparison function owes to that sort.
\<close>

named_theorems rust_int \<comment> \<open>definitions of the machine-integer helpers\<close>

subsection \<open>Results\<close>

definition try_bind :: "'e + 'a \<Rightarrow> ('a \<Rightarrow> 'e + 'b) \<Rightarrow> 'e + 'b" where
  "try_bind r f = (case r of Inl e \<Rightarrow> Inl e | Inr a \<Rightarrow> f a)"

definition map_err :: "('e \<Rightarrow> 'f) \<Rightarrow> 'e + 'a \<Rightarrow> 'f + 'a" where
  "map_err g r = (case r of Inl e \<Rightarrow> Inl (g e) | Inr a \<Rightarrow> Inr a)"

definition ok_or :: "'e \<Rightarrow> 'a option \<Rightarrow> 'e + 'a" where
  "ok_or e x = (case x of None \<Rightarrow> Inl e | Some a \<Rightarrow> Inr a)"

definition is_ok :: "'e + 'a \<Rightarrow> bool" where
  "is_ok r = (case r of Inl _ \<Rightarrow> False | Inr _ \<Rightarrow> True)"

lemma try_bind_simps [simp]:
  "try_bind (Inl e) f = Inl e" "try_bind (Inr a) f = f a"
  by (simp_all add: try_bind_def)

lemma map_err_simps [simp]:
  "map_err g (Inl e) = Inl (g e)" "map_err g (Inr a) = Inr a"
  by (simp_all add: map_err_def)

lemma ok_or_simps [simp]: "ok_or e None = Inl e" "ok_or e (Some a) = Inr a"
  by (simp_all add: ok_or_def)

lemma is_ok_simps [simp]: "\<not> is_ok (Inl e)" "is_ok (Inr a)"
  by (simp_all add: is_ok_def)

lemma try_bind_Inr_iff [simp]:
  "try_bind r f = Inr b \<longleftrightarrow> (\<exists>a. r = Inr a \<and> f a = Inr b)"
  by (cases r) simp_all

lemma try_bind_Inl_iff:
  "try_bind r f = Inl e \<longleftrightarrow> r = Inl e \<or> (\<exists>a. r = Inr a \<and> f a = Inl e)"
  by (cases r) simp_all

lemma map_err_Inr_iff [simp]: "map_err g r = Inr a \<longleftrightarrow> r = Inr a"
  by (cases r) simp_all

subsection \<open>Machine integers\<close>

definition u16_max :: nat where "u16_max = 65535"
definition u32_max :: nat where "u32_max = 4294967295"
definition u64_max :: nat where "u64_max = 18446744073709551615"
definition usize_max :: nat where "usize_max = 18446744073709551615"
definition i64_max :: int where "i64_max = 9223372036854775807"
definition i64_min :: int where "i64_min = - 9223372036854775808"

declare u16_max_def [rust_int] u32_max_def [rust_int] u64_max_def [rust_int]
  usize_max_def [rust_int] i64_max_def [rust_int] i64_min_def [rust_int]

text \<open>\<open>u32::try_from(n).unwrap_or(u32::MAX)\<close> and \<open>i64::try_from(n).unwrap_or(i64::MAX)\<close>.\<close>

definition u32_sat :: "nat \<Rightarrow> nat" where "u32_sat n = min n u32_max"
definition u64_sat :: "nat \<Rightarrow> nat" where "u64_sat n = min n u64_max"
definition i64_sat :: "nat \<Rightarrow> int" where "i64_sat n = min (int n) i64_max"

text \<open>\<open>saturating_add\<close> and \<open>saturating_mul\<close> on \<open>usize\<close>, and on \<open>i64\<close>.\<close>

definition usize_sat_add :: "nat \<Rightarrow> nat \<Rightarrow> nat" where
  "usize_sat_add a b = min (a + b) usize_max"

definition usize_sat_mul :: "nat \<Rightarrow> nat \<Rightarrow> nat" where
  "usize_sat_mul a b = min (a * b) usize_max"

definition u32_sat_add :: "nat \<Rightarrow> nat \<Rightarrow> nat" where
  "u32_sat_add a b = min (a + b) u32_max"

definition i64_sat_add :: "int \<Rightarrow> int \<Rightarrow> int" where
  "i64_sat_add a b = max i64_min (min (a + b) i64_max)"

definition i64_checked_mul :: "int \<Rightarrow> int \<Rightarrow> int option" where
  "i64_checked_mul a b = (if i64_min \<le> a * b \<and> a * b \<le> i64_max then Some (a * b) else None)"

definition div_ceil :: "nat \<Rightarrow> nat \<Rightarrow> nat" where
  "div_ceil n d = (n + d - 1) div d"

declare u32_sat_def [rust_int] u64_sat_def [rust_int] i64_sat_def [rust_int]
  usize_sat_add_def [rust_int] usize_sat_mul_def [rust_int] u32_sat_add_def [rust_int]
  i64_sat_add_def [rust_int] i64_checked_mul_def [rust_int]

lemma usize_sat_add_le_iff:
  "b < usize_max \<Longrightarrow> usize_sat_add x y \<le> b \<longleftrightarrow> x + y \<le> b"
  by (auto simp: usize_sat_add_def)

subsection \<open>Orderings and the stable sort\<close>

datatype ordering = Less | Equal | Greater

definition cmp :: "'a::linorder \<Rightarrow> 'a \<Rightarrow> ordering" where
  "cmp a b = (if a < b then Less else if a = b then Equal else Greater)"

fun then_with :: "ordering \<Rightarrow> ordering \<Rightarrow> ordering" where
  "then_with Equal r = r"
| "then_with l r = l"

lemma cmp_simps [simp]:
  "cmp a b = Less \<longleftrightarrow> a < b" "cmp a b = Equal \<longleftrightarrow> a = b" "cmp a b = Greater \<longleftrightarrow> b < a"
  by (auto simp: cmp_def)

lemma then_with_eq_iff [simp]:
  "then_with l r = Less \<longleftrightarrow> l = Less \<or> l = Equal \<and> r = Less"
  "then_with l r = Equal \<longleftrightarrow> l = Equal \<and> r = Equal"
  "then_with l r = Greater \<longleftrightarrow> l = Greater \<or> l = Equal \<and> r = Greater"
  by (cases l; simp)+

fun insert_by :: "('a \<Rightarrow> 'a \<Rightarrow> ordering) \<Rightarrow> 'a \<Rightarrow> 'a list \<Rightarrow> 'a list" where
  "insert_by c x [] = [x]"
| "insert_by c x (y # ys) = (if c x y \<noteq> Greater then x # y # ys else y # insert_by c x ys)"

fun sort_by :: "('a \<Rightarrow> 'a \<Rightarrow> ordering) \<Rightarrow> 'a list \<Rightarrow> 'a list" where
  "sort_by c [] = []"
| "sort_by c (x # xs) = insert_by c x (sort_by c xs)"

lemma mset_insert_by [simp]: "mset (insert_by c x xs) = add_mset x (mset xs)"
  by (induction xs) auto

lemma mset_sort_by [simp]: "mset (sort_by c xs) = mset xs"
  by (induction xs) auto

lemma set_insert_by [simp]: "set (insert_by c x xs) = insert x (set xs)"
  by (induction xs) auto

lemma set_sort_by [simp]: "set (sort_by c xs) = set xs"
  by (induction xs) auto

lemma length_insert_by [simp]: "length (insert_by c x xs) = Suc (length xs)"
  by (induction xs) auto

lemma distinct_sort_by [simp]: "distinct (sort_by c xs) = distinct xs"
  by (metis mset_sort_by mset_eq_imp_distinct_iff)

lemma length_sort_by [simp]: "length (sort_by c xs) = length xs"
  by (induction xs) auto

text \<open>
  What \<open>sort_by\<close> expects of its comparison: on the elements \<open>A\<close> that are sorted it is a total
  preorder. (Rust leaves the result of an inconsistent comparison unspecified.)
\<close>

locale comparator =
  fixes c :: "'a \<Rightarrow> 'a \<Rightarrow> ordering" and A :: "'a set"
  assumes refl: "a \<in> A \<Longrightarrow> c a a = Equal"
    and swap: "a \<in> A \<Longrightarrow> b \<in> A \<Longrightarrow> c a b = Greater \<longleftrightarrow> c b a = Less"
    and trans: "a \<in> A \<Longrightarrow> b \<in> A \<Longrightarrow> d \<in> A \<Longrightarrow> c a b \<noteq> Greater \<Longrightarrow> c b d \<noteq> Greater \<Longrightarrow> c a d \<noteq> Greater"
begin

lemma total: "a \<in> A \<Longrightarrow> b \<in> A \<Longrightarrow> c a b = Greater \<Longrightarrow> c b a \<noteq> Greater"
  using swap by (metis ordering.distinct(3))

lemma sorted_insert_by:
  "insert x (set xs) \<subseteq> A \<Longrightarrow> sorted_wrt (\<lambda>a b. c a b \<noteq> Greater) xs
    \<Longrightarrow> sorted_wrt (\<lambda>a b. c a b \<noteq> Greater) (insert_by c x xs)"
proof (induction xs)
  case Nil
  then show ?case by simp
next
  case (Cons y ys)
  then show ?case
  proof (cases "c x y = Greater")
    case True
    with Cons show ?thesis by (auto simp: total)
  next
    case False
    have "c x z \<noteq> Greater" if "z \<in> set ys" for z
      using trans [of x y z] False that Cons.prems by auto
    with False Cons.prems show ?thesis by auto
  qed
qed

lemma sorted_sort_by:
  "set xs \<subseteq> A \<Longrightarrow> sorted_wrt (\<lambda>a b. c a b \<noteq> Greater) (sort_by c xs)"
  by (induction xs) (simp_all add: sorted_insert_by)

text \<open>Cutting a sorted list keeps the least elements.\<close>

lemma take_sort_by:
  assumes "set xs \<subseteq> A" "x \<in> set xs" "x \<notin> set (take n (sort_by c xs))"
  shows "length (take n (sort_by c xs)) = n \<and> (\<forall>y \<in> set (take n (sort_by c xs)). c y x \<noteq> Greater)"
proof -
  let ?s = "sort_by c xs"
  have "x \<in> set (take n ?s @ drop n ?s)" using assms(2) by simp
  with assms(3) have d: "x \<in> set (drop n ?s)" by (metis Un_iff set_append)
  then have "drop n ?s \<noteq> []" by auto
  then have "length (take n ?s) = n" by simp
  moreover have "sorted_wrt (\<lambda>a b. c a b \<noteq> Greater) (take n ?s @ drop n ?s)"
    using sorted_sort_by [OF assms(1)] by simp
  ultimately show ?thesis using d unfolding sorted_wrt_append by blast
qed

text \<open>Where equal elements are identical the sorted list is unique, so the order in which the
  elements arrive does not matter.\<close>

lemma sorted_unique:
  assumes "sorted_wrt (\<lambda>a b. c a b \<noteq> Greater) xs" "sorted_wrt (\<lambda>a b. c a b \<noteq> Greater) ys"
    and "mset xs = mset ys" "set xs \<subseteq> A"
    and strict: "\<And>a b. a \<in> A \<Longrightarrow> b \<in> A \<Longrightarrow> c a b = Equal \<Longrightarrow> a = b"
  shows "xs = ys"
  using assms(1-4)
proof (induction xs arbitrary: ys)
  case Nil
  then show ?case by simp
next
  case (Cons x xs)
  then obtain y zs where ys: "ys = y # zs" by (cases ys) auto
  have sets: "set (x # xs) = set ys"
    using Cons.prems(3) by (metis set_mset_mset)
  have inA: "x \<in> A" "y \<in> A"
    using Cons.prems(4) sets ys by auto
  have "x = y"
  proof (rule ccontr)
    assume neq: "x \<noteq> y"
    then have "y \<in> set xs" "x \<in> set zs" using sets ys by auto
    then have "c x y \<noteq> Greater" "c y x \<noteq> Greater"
      using Cons.prems(1,2) ys by auto
    then have "c x y = Equal" using swap [OF inA(2,1)] by (cases "c x y") auto
    with strict inA neq show False by blast
  qed
  with Cons ys show ?case by auto
qed

lemma sort_by_perm:
  assumes "mset xs = mset ys" "set xs \<subseteq> A"
    and "\<And>a b. a \<in> A \<Longrightarrow> b \<in> A \<Longrightarrow> c a b = Equal \<Longrightarrow> a = b"
  shows "sort_by c xs = sort_by c ys"
proof (rule sorted_unique)
  have "set ys \<subseteq> A" using assms(1,2) by (metis set_mset_mset)
  then show "sorted_wrt (\<lambda>a b. c a b \<noteq> Greater) (sort_by c ys)" by (rule sorted_sort_by)
qed (use assms in \<open>auto intro: sorted_sort_by\<close>)

end

lemma comparator_pull:
  assumes "comparator c A" shows "comparator (\<lambda>a b. c (f a) (f b)) {a. f a \<in> A}"
proof
  fix a b d assume "a \<in> {a. f a \<in> A}" "b \<in> {a. f a \<in> A}" "d \<in> {a. f a \<in> A}"
  then have A: "f a \<in> A" "f b \<in> A" "f d \<in> A" by simp_all
  show "c (f a) (f a) = Equal" using assms A(1) by (rule comparator.refl)
  show "c (f a) (f b) = Greater \<longleftrightarrow> c (f b) (f a) = Less" using assms A(1,2) by (rule comparator.swap)
  assume "c (f a) (f b) \<noteq> Greater" "c (f b) (f d) \<noteq> Greater"
  then show "c (f a) (f d) \<noteq> Greater" by (rule comparator.trans [OF assms A])
qed

lemma comparator_subset: "comparator c A \<Longrightarrow> B \<subseteq> A \<Longrightarrow> comparator c B"
  unfolding comparator_def by (meson subsetD)

lemma comparator_key [intro]: "comparator (\<lambda>a b. cmp (f a) (f b)) A"
  by unfold_locales (auto simp: cmp_def split: if_splits)

lemma comparator_rev:
  assumes "comparator c A" shows "comparator (\<lambda>a b. c b a) A"
proof
  fix a b d assume A: "a \<in> A" "b \<in> A" "d \<in> A"
  show "c a a = Equal" using assms A(1) by (rule comparator.refl)
  show "c b a = Greater \<longleftrightarrow> c a b = Less" using assms A(2,1) by (rule comparator.swap)
  assume "c b a \<noteq> Greater" "c d b \<noteq> Greater"
  then show "c d a \<noteq> Greater" using comparator.trans [OF assms A(3,2,1)] by blast
qed

lemma comparator_trans_strict:
  assumes "comparator c A" "a \<in> A" "b \<in> A" "d \<in> A" "c a b \<noteq> Greater" "c b d \<noteq> Greater"
    and eq: "c a d = Equal"
  shows "c a b = Equal \<and> c b d = Equal"
proof -
  have "c d a = Equal"
    using eq comparator.swap [OF assms(1)] assms(2,4) by (metis ordering.exhaust ordering.distinct)
  then have "c b a \<noteq> Greater" "c d b \<noteq> Greater"
    using comparator.trans [OF assms(1)] assms by (metis ordering.distinct(5))+
  then show ?thesis
    using assms comparator.swap [OF assms(1)] by (metis ordering.exhaust ordering.distinct)
qed

lemma comparator_then:
  assumes c: "comparator c A" and d: "comparator d A"
  shows "comparator (\<lambda>a b. then_with (c a b) (d a b)) A"
proof
  fix a b e assume A: "a \<in> A" "b \<in> A" "e \<in> A"
  show "then_with (c a a) (d a a) = Equal"
    using comparator.refl [OF c A(1)] comparator.refl [OF d A(1)] by simp
  have eq: "c a b = Equal \<longleftrightarrow> c b a = Equal"
    using comparator.swap [OF c A(1,2)] comparator.swap [OF c A(2,1)]
    by (cases "c a b"; cases "c b a") auto
  show "then_with (c a b) (d a b) = Greater \<longleftrightarrow> then_with (c b a) (d b a) = Less"
    using comparator.swap [OF c A(1,2)] comparator.swap [OF d A(1,2)] eq by auto
  assume ab: "then_with (c a b) (d a b) \<noteq> Greater" and be: "then_with (c b e) (d b e) \<noteq> Greater"
  then have ne: "c a b \<noteq> Greater" "c b e \<noteq> Greater" by auto
  from comparator.trans [OF c A ne] have "c a e \<noteq> Greater" .
  moreover have "d a e \<noteq> Greater" if "c a e = Equal"
  proof -
    from comparator_trans_strict [OF c A ne that] ab be
    have "d a b \<noteq> Greater" "d b e \<noteq> Greater" by auto
    then show ?thesis using comparator.trans [OF d A] by blast
  qed
  ultimately show "then_with (c a e) (d a e) \<noteq> Greater" by auto
qed

end
