(* ===== verification/Text.thy ===== *)
theory Text
  imports Prelude
begin

text \<open>
  Rust strings. A \<open>char\<close> is a Unicode scalar value, here its code point (\<open>nat\<close>); a \<open>String\<close> is
  the list of its scalars. \<open>str_len\<close> is \<open>str::len\<close> (UTF-8 bytes), \<open>length\<close> is
  \<open>chars().count()\<close>. String order is lexicographic on scalars, which is the byte order of
  UTF-8. The character classes are those of the Unicode standard (\<open>White_Space\<close>, \<open>Cc\<close>).
  Case mapping beyond ASCII (\<open>to_lowercase\<close>) is a parameter where it is used.
\<close>

type_synonym uchar = nat
type_synonym ustring = "uchar list"

definition lit :: "string \<Rightarrow> ustring" where
  "lit s = map of_char s"

lemma lit_eq [simp]: "lit s = lit t \<longleftrightarrow> s = t"
proof -
  have "inj (of_char :: char \<Rightarrow> nat)"
    by (rule injI) (metis of_char_eq_iff)
  then show ?thesis by (simp add: lit_def inj_map_eq_map)
qed

lemma lit_nil_iff [simp]: "lit s = [] \<longleftrightarrow> s = []" "[] = lit s \<longleftrightarrow> s = []"
  by (auto simp: lit_def)

subsection \<open>Characters\<close>

definition is_whitespace :: "uchar \<Rightarrow> bool" where
  "is_whitespace c \<longleftrightarrow> 9 \<le> c \<and> c \<le> 13 \<or> c = 32 \<or> c = 133 \<or> c = 160 \<or> c = 5760
     \<or> 8192 \<le> c \<and> c \<le> 8202 \<or> c = 8232 \<or> c = 8233 \<or> c = 8239 \<or> c = 8287 \<or> c = 12288"

definition is_control :: "uchar \<Rightarrow> bool" where
  "is_control c \<longleftrightarrow> c < 32 \<or> 127 \<le> c \<and> c < 160"

definition is_ascii_digit :: "uchar \<Rightarrow> bool" where
  "is_ascii_digit c \<longleftrightarrow> 48 \<le> c \<and> c \<le> 57"

definition is_ascii_alphanumeric :: "uchar \<Rightarrow> bool" where
  "is_ascii_alphanumeric c \<longleftrightarrow> 48 \<le> c \<and> c \<le> 57 \<or> 65 \<le> c \<and> c \<le> 90 \<or> 97 \<le> c \<and> c \<le> 122"

definition to_ascii_lowercase :: "uchar \<Rightarrow> uchar" where
  "to_ascii_lowercase c = (if 65 \<le> c \<and> c \<le> 90 then c + 32 else c)"

definition utf8_len :: "uchar \<Rightarrow> nat" where
  "utf8_len c = (if c < 128 then 1 else if c < 2048 then 2 else if c < 65536 then 3 else 4)"

lemma utf8_len_bounds: "1 \<le> utf8_len c" "utf8_len c \<le> 4"
  by (auto simp: utf8_len_def)

lemma utf8_len_pos [simp]: "0 < utf8_len c"
  by (simp add: utf8_len_def)

definition str_len :: "ustring \<Rightarrow> nat" where
  "str_len s = sum_list (map utf8_len s)"

lemma str_len_simps [simp]:
  "str_len [] = 0" "str_len (c # s) = utf8_len c + str_len s" "str_len (s @ t) = str_len s + str_len t"
  by (simp_all add: str_len_def)

lemma length_le_str_len: "length s \<le> str_len s"
  by (induction s) (auto simp: le_less_trans Suc_le_eq intro: add_le_mono [of 1 _ _ _, simplified])

lemma str_len_eq_0 [simp]: "str_len s = 0 \<longleftrightarrow> s = []"
  by (cases s) auto

lemma str_len_take_mono: "i \<le> j \<Longrightarrow> str_len (take i s) \<le> str_len (take j s)"
proof -
  assume "i \<le> j"
  then have "take j s = take i s @ take (j - i) (drop i s)"
    by (metis le_add_diff_inverse take_add)
  then show ?thesis by simp
qed

subsection \<open>Splitting, joining, trimming\<close>

fun split_on :: "('a \<Rightarrow> bool) \<Rightarrow> 'a list \<Rightarrow> 'a list list" where
  "split_on P [] = [[]]"
| "split_on P (c # cs) =
     (if P c then [] # split_on P cs
      else case split_on P cs of [] \<Rightarrow> [[c]] | w # ws \<Rightarrow> (c # w) # ws)"

fun join :: "'a list \<Rightarrow> 'a list list \<Rightarrow> 'a list" where
  "join sep [] = []"
| "join sep [w] = w"
| "join sep (w # v # ws) = w @ sep @ join sep (v # ws)"

definition trim_start_matches :: "('a \<Rightarrow> bool) \<Rightarrow> 'a list \<Rightarrow> 'a list" where
  "trim_start_matches P s = dropWhile P s"

definition trim_end_matches :: "('a \<Rightarrow> bool) \<Rightarrow> 'a list \<Rightarrow> 'a list" where
  "trim_end_matches P s = rev (dropWhile P (rev s))"

definition trim_matches :: "('a \<Rightarrow> bool) \<Rightarrow> 'a list \<Rightarrow> 'a list" where
  "trim_matches P s = trim_end_matches P (trim_start_matches P s)"

definition trim :: "ustring \<Rightarrow> ustring" where
  "trim s = trim_matches is_whitespace s"

definition split_whitespace :: "ustring \<Rightarrow> ustring list" where
  "split_whitespace s = filter (\<lambda>w. w \<noteq> []) (split_on is_whitespace s)"

definition strip_prefix :: "'a list \<Rightarrow> 'a list \<Rightarrow> 'a list option" where
  "strip_prefix p s = (if prefix p s then Some (drop (length p) s) else None)"

definition contains :: "ustring \<Rightarrow> ustring \<Rightarrow> bool" where
  "contains needle hay = sublist needle hay"

text \<open>\<open>str::lines\<close>: the pieces between line feeds, a final empty piece dropped, and one carriage
  return at the end of a terminated line removed.\<close>

definition strip_cr :: "ustring \<Rightarrow> ustring" where
  "strip_cr l = (if l \<noteq> [] \<and> last l = 13 then butlast l else l)"

definition str_lines :: "ustring \<Rightarrow> ustring list" where
  "str_lines s = (let ps = split_on (\<lambda>c. c = 10) s
     in map strip_cr (butlast ps) @ (if last ps = [] then [] else [last ps]))"

lemma split_on_nonempty [simp]: "split_on P s \<noteq> []"
  by (cases s) (auto split: list.splits)

lemma split_on_no_sep:
  "w \<in> set (split_on P s) \<Longrightarrow> \<forall>c \<in> set w. \<not> P c \<and> c \<in> set s"
proof (induction s arbitrary: w)
  case Nil
  then show ?case by simp
next
  case (Cons c cs)
  obtain v vs where v: "split_on P cs = v # vs" by (cases "split_on P cs") auto
  from Cons.prems consider "P c" "w = []" | "w \<in> set (split_on P cs)" | "\<not> P c" "w = c # v"
    by (auto simp: v split: if_splits)
  then show ?case
  proof cases
    case 2
    then show ?thesis using Cons.IH by auto
  next
    case 3
    then show ?thesis using Cons.IH [of v] v by auto
  qed auto
qed

lemma split_on_append_sep:
  "\<forall>c \<in> set w. \<not> P c \<Longrightarrow> P d \<Longrightarrow> split_on P (w @ d # s) = w # split_on P s"
  by (induction w) auto

lemma split_on_id: "\<forall>c \<in> set w. \<not> P c \<Longrightarrow> split_on P w = [w]"
  by (induction w) auto

text \<open>Splitting undoes joining with a separator that occurs in no piece.\<close>

lemma split_on_join:
  assumes "ws \<noteq> []" "P d" "\<forall>w \<in> set ws. \<forall>c \<in> set w. \<not> P c"
  shows "split_on P (join [d] ws) = ws"
  using assms
  by (induction "[d]" ws rule: join.induct) (auto simp: split_on_id split_on_append_sep)

lemma set_join: "set (join sep ws) \<subseteq> \<Union> (set ` set ws) \<union> set sep"
  by (induction sep ws rule: join.induct) auto

lemma set_trim_matches: "set (trim_matches P s) \<subseteq> set s"
  unfolding trim_matches_def trim_end_matches_def trim_start_matches_def
  by (metis set_dropWhileD set_rev subsetI)

lemma set_trim: "set (trim s) \<subseteq> set s"
  by (simp add: trim_def set_trim_matches)

lemma trim_matches_decomp:
  "\<exists>p q. s = p @ trim_matches P s @ q \<and> (\<forall>c \<in> set p. P c) \<and> (\<forall>c \<in> set q. P c)"
proof -
  let ?m = "dropWhile P s"
  have "?m = rev (dropWhile P (rev ?m)) @ rev (takeWhile P (rev ?m))"
    by (metis rev_append rev_rev_ident takeWhile_dropWhile_id)
  moreover have "s = takeWhile P s @ ?m" by simp
  ultimately have "s = takeWhile P s @ trim_matches P s @ rev (takeWhile P (rev ?m))"
    unfolding trim_matches_def trim_end_matches_def trim_start_matches_def by metis
  moreover have "\<forall>c \<in> set (takeWhile P s). P c" "\<forall>c \<in> set (rev (takeWhile P (rev ?m))). P c"
    by (auto dest: set_takeWhileD)
  ultimately show ?thesis by blast
qed

lemma trim_matches_ends:
  "trim_matches P s = [] \<or> \<not> P (hd (trim_matches P s)) \<and> \<not> P (last (trim_matches P s))"
proof -
  let ?m = "dropWhile P s" let ?t = "rev (dropWhile P (rev ?m))"
  have "\<not> P (last ?t)" if "?t \<noteq> []"
    using that hd_dropWhile [of P "rev ?m"] by (simp add: last_rev)
  moreover have "\<not> P (hd ?t)" if "?t \<noteq> []"
  proof -
    have "?m = ?t @ rev (takeWhile P (rev ?m))"
      by (metis rev_append rev_rev_ident takeWhile_dropWhile_id)
    then have "hd ?m = hd ?t" "?m \<noteq> []" using that by (metis hd_append2, force)
    then show ?thesis using hd_dropWhile [of P s] by metis
  qed
  ultimately show ?thesis
    unfolding trim_matches_def trim_end_matches_def trim_start_matches_def by blast
qed

lemma trim_matches_eq_Nil: "trim_matches P s = [] \<longleftrightarrow> (\<forall>c \<in> set s. P c)"
  unfolding trim_matches_def trim_end_matches_def trim_start_matches_def
  by (auto simp: dropWhile_eq_Nil_conv dest: set_dropWhileD)
    (metis dropWhile_eq_Nil_conv hd_dropWhile hd_in_set)

subsection \<open>Decimal integers\<close>

text \<open>\<open>Display\<close> of an unsigned integer and \<open>str::parse::<i64>\<close>: an optional sign, at least one
  ASCII digit, and an error when the value leaves the range.\<close>

fun show_nat :: "nat \<Rightarrow> ustring" where
  "show_nat n = (if n < 10 then [48 + n] else show_nat (n div 10) @ [48 + n mod 10])"

declare show_nat.simps [simp del]

definition digits_val :: "ustring \<Rightarrow> nat" where
  "digits_val s = foldl (\<lambda>a c. 10 * a + (c - 48)) 0 s"

definition parse_i64 :: "ustring \<Rightarrow> int option" where
  "parse_i64 s =
     (let neg = (s \<noteq> [] \<and> hd s = 45);
          ds = (if s \<noteq> [] \<and> (hd s = 45 \<or> hd s = 43) then tl s else s);
          v = (if neg then - int (digits_val ds) else int (digits_val ds))
      in if ds = [] \<or> \<not> list_all is_ascii_digit ds then None
         else if i64_min \<le> v \<and> v \<le> i64_max then Some v else None)"

lemma is_ascii_digit_48 [simp]: "is_ascii_digit (48 + n) \<longleftrightarrow> n < 10"
  by (auto simp: is_ascii_digit_def)

lemma show_nat_digits: "list_all is_ascii_digit (show_nat n)"
proof (induction n rule: show_nat.induct)
  case (1 n)
  then show ?case by (subst show_nat.simps) auto
qed

lemma show_nat_not_nil [simp]: "show_nat n \<noteq> []"
  by (subst show_nat.simps) simp

lemma digits_val_show_nat [simp]: "digits_val (show_nat n) = n"
proof (induction n rule: show_nat.induct)
  case (1 n)
  then show ?case
    by (subst show_nat.simps) (auto simp: digits_val_def)
qed

lemma show_nat_eq_iff [simp]: "show_nat m = show_nat n \<longleftrightarrow> m = n"
  by (metis digits_val_show_nat)

lemma show_nat_hd_digit: "48 \<le> hd (show_nat n) \<and> hd (show_nat n) \<le> 57"
  using show_nat_digits [of n] by (cases "show_nat n") (auto simp: is_ascii_digit_def)

lemma parse_i64_show_nat: "int n \<le> i64_max \<Longrightarrow> parse_i64 (show_nat n) = Some (int n)"
  using show_nat_hd_digit [of n] show_nat_digits [of n]
  by (auto simp: parse_i64_def Let_def rust_int)

lemma parse_i64_range: "parse_i64 s = Some v \<Longrightarrow> i64_min \<le> v \<and> v \<le> i64_max"
  by (auto simp: parse_i64_def Let_def split: if_splits)

end
