(* ===== verification/Tokens.thy ===== *)
theory Tokens
  imports Text
begin

text \<open>
  \<open>tokens.rs\<close>: the heuristic token estimator, the response estimate and the UTF-8 safe
  truncation. Slicing a Rust string at a byte offset that is not a character boundary panics;
  \<open>is_char_boundary\<close> and \<open>slice_to\<close> model the two operations \<open>truncate_utf8\<close> uses, and
  \<open>truncate_boundary\<close> below shows that the slice it takes is always at a boundary.
\<close>

definition RESPONSE_OVERHEAD_TOKENS :: nat where "RESPONSE_OVERHEAD_TOKENS = 16"
definition RESULT_OVERHEAD_TOKENS :: nat where "RESULT_OVERHEAD_TOKENS = 8"
definition HARD_BYTE_CAP :: nat where "HARD_BYTE_CAP = 48000"
definition MAX_HIT_TEXT_BYTES :: nat where "MAX_HIT_TEXT_BYTES = 4000"

lemmas token_consts = RESPONSE_OVERHEAD_TOKENS_def RESULT_OVERHEAD_TOKENS_def
  HARD_BYTE_CAP_def MAX_HIT_TEXT_BYTES_def

text \<open>\<open>HeuristicTokenEstimator::estimate\<close>.\<close>

definition estimate :: "ustring \<Rightarrow> nat" where
  "estimate text = (let chars = length text in if chars = 0 then 0 else div_ceil chars 3)"

definition estimate_response_tokens :: "(ustring \<Rightarrow> nat) \<Rightarrow> ustring \<Rightarrow> ustring list \<Rightarrow> nat" where
  "estimate_response_tokens est query hit_texts =
     fold (\<lambda>text total. usize_sat_add total (RESULT_OVERHEAD_TOKENS + est text))
       hit_texts (RESPONSE_OVERHEAD_TOKENS + est query)"

lemma estimate_ceil: "length t \<le> 3 * estimate t \<and> 3 * estimate t < length t + 3"
  by (auto simp: estimate_def div_ceil_def Let_def)

lemma estimate_mono: "length s \<le> length t \<Longrightarrow> estimate s \<le> estimate t"
  by (auto simp: estimate_def div_ceil_def Let_def div_le_mono)

lemma estimate_Nil [simp]: "estimate [] = 0"
  by (simp add: estimate_def)

subsection \<open>Truncation\<close>

definition is_char_boundary :: "ustring \<Rightarrow> nat \<Rightarrow> bool" where
  "is_char_boundary s i \<longleftrightarrow> i \<in> set (map (\<lambda>k. str_len (take k s)) [0..<Suc (length s)])"

text \<open>\<open>&s[..i]\<close>, for a boundary \<open>i\<close>.\<close>

fun slice_to :: "ustring \<Rightarrow> nat \<Rightarrow> ustring" where
  "slice_to [] n = []"
| "slice_to (c # cs) n = (if utf8_len c \<le> n then c # slice_to cs (n - utf8_len c) else [])"

text \<open>\<open>while end > 0 && !text.is_char_boundary(end) { end -= 1 }\<close>.\<close>

fun floor_boundary :: "ustring \<Rightarrow> nat \<Rightarrow> nat" where
  "floor_boundary text 0 = 0"
| "floor_boundary text (Suc n) =
     (if is_char_boundary text (Suc n) then Suc n else floor_boundary text n)"

definition ellipsis :: uchar where "ellipsis = 8230"

definition truncate_utf8 :: "ustring \<Rightarrow> nat \<Rightarrow> ustring \<times> bool" where
  "truncate_utf8 text max_bytes =
     (if str_len text \<le> max_bytes then (text, False)
      else
        let stop = floor_boundary text (min max_bytes (str_len text));
            out = slice_to text stop;
            out = (if out \<noteq> [] \<and> last out = ellipsis then out else out @ [ellipsis])
        in (out, True))"

lemma boundary_iff: "is_char_boundary s i \<longleftrightarrow> (\<exists>k \<le> length s. i = str_len (take k s))"
  by (auto simp: is_char_boundary_def less_Suc_eq_le image_iff simp del: upt_Suc)

lemma boundary_0 [simp]: "is_char_boundary s 0"
  by (auto simp: boundary_iff intro: exI [of _ 0])

lemma boundary_Cons:
  "is_char_boundary (c # s) (utf8_len c + n) \<longleftrightarrow> is_char_boundary s n"
proof
  assume "is_char_boundary (c # s) (utf8_len c + n)"
  then obtain k where k: "k \<le> Suc (length s)" "utf8_len c + n = str_len (take k (c # s))"
    by (auto simp: boundary_iff)
  then obtain k' where "k = Suc k'" by (cases k) (auto simp: utf8_len_def split: if_splits)
  with k show "is_char_boundary s n" by (auto simp: boundary_iff)
next
  assume "is_char_boundary s n"
  then obtain k where "k \<le> length s" "n = str_len (take k s)" by (auto simp: boundary_iff)
  then show "is_char_boundary (c # s) (utf8_len c + n)"
    by (auto simp: boundary_iff intro: exI [of _ "Suc k"])
qed

lemma floor_boundary_le: "floor_boundary s n \<le> n"
  by (induction s n rule: floor_boundary.induct) auto

lemma floor_boundary_is: "is_char_boundary s (floor_boundary s n)"
  by (induction s n rule: floor_boundary.induct) auto

lemma floor_boundary_greatest:
  "is_char_boundary s m \<Longrightarrow> m \<le> n \<Longrightarrow> m \<le> floor_boundary s n"
  by (induction s n rule: floor_boundary.induct) (auto simp: le_Suc_eq)

lemma slice_to_prefix: "prefix (slice_to s n) s"
  by (induction s n rule: slice_to.induct) auto

lemma slice_to_len: "str_len (slice_to s n) \<le> n"
  by (induction s n rule: slice_to.induct) auto

lemma slice_to_boundary: "is_char_boundary s n \<Longrightarrow> str_len (slice_to s n) = n"
proof (induction s n rule: slice_to.induct)
  case (1 n)
  then show ?case by (auto simp: boundary_iff)
next
  case (2 c cs n)
  show ?case
  proof (cases "utf8_len c \<le> n")
    case True
    with 2 boundary_Cons [of c cs "n - utf8_len c"] show ?thesis by auto
  next
    case False
    from "2.prems" obtain k where k: "n = str_len (take k (c # cs))" by (auto simp: boundary_iff)
    with False have "k = 0" by (cases k) auto
    with k False show ?thesis by simp
  qed
qed

lemma slice_to_take: "slice_to s n = take (length (slice_to s n)) s"
  using slice_to_prefix by (metis append_eq_conv_conj prefixE)

text \<open>The slice keeps every character that fits: it is the longest prefix within the limit.\<close>

lemma slice_to_longest:
  "prefix p s \<Longrightarrow> str_len p \<le> n \<Longrightarrow> prefix p (slice_to s n)"
proof (induction s n arbitrary: p rule: slice_to.induct)
  case (2 c cs n)
  then show ?case by (cases p) auto
qed simp

lemma truncate_slice:
  assumes "max_bytes < str_len s"
  shows "str_len (slice_to s (floor_boundary s (min max_bytes (str_len s))))
           = floor_boundary s (min max_bytes (str_len s))"
  by (rule slice_to_boundary [OF floor_boundary_is])

lemma slice_floor: "slice_to s (floor_boundary s n) = slice_to s n"
proof (rule prefix_order.antisym)
  let ?f = "floor_boundary s n"
  have "str_len (slice_to s ?f) \<le> n" using slice_to_len floor_boundary_le le_trans by metis
  then show "prefix (slice_to s ?f) (slice_to s n)"
    by (rule slice_to_longest [OF slice_to_prefix])
  have "is_char_boundary s (str_len (slice_to s n))"
    unfolding boundary_iff using slice_to_take slice_to_prefix prefix_length_le by metis
  then have "str_len (slice_to s n) \<le> ?f" by (rule floor_boundary_greatest [OF _ slice_to_len])
  then show "prefix (slice_to s n) (slice_to s ?f)"
    by (rule slice_to_longest [OF slice_to_prefix])
qed

lemma truncate_utf8_long:
  "max_bytes < str_len s \<Longrightarrow> truncate_utf8 s max_bytes =
    (let out = slice_to s max_bytes
     in (if out \<noteq> [] \<and> last out = ellipsis then out else out @ [ellipsis], True))"
  by (simp add: truncate_utf8_def slice_floor min_def Let_def)

lemma truncate_utf8_len: "str_len (fst (truncate_utf8 s n)) \<le> n + 3"
proof (cases "str_len s \<le> n")
  case True
  then show ?thesis by (simp add: truncate_utf8_def)
next
  case False
  with slice_to_len [of s n] show ?thesis
    by (auto simp: truncate_utf8_long Let_def ellipsis_def utf8_len_def)
qed

lemma truncate_utf8_chars: "length (fst (truncate_utf8 s n)) \<le> length s"
proof (cases "str_len s \<le> n")
  case True
  then show ?thesis by (simp add: truncate_utf8_def)
next
  case False
  then have ne: "slice_to s n \<noteq> s" using slice_to_len [of s n] by auto
  have "length (slice_to s n) < length s"
    using slice_to_prefix [of s n] ne by (metis le_neq_implies_less prefix_length_le
      prefix_length_prefix prefix_order.antisym prefix_order.refl order.refl)
  with False show ?thesis by (auto simp: truncate_utf8_long Let_def)
qed

text \<open>
  The truncation is exact: a s within the limit is returned unchanged and unflagged; a
  longer one is cut to its longest prefix of at most \<open>max_bytes\<close> bytes, flagged, and closed by
  one ellipsis unless the prefix already ends in one.
\<close>

theorem truncate_utf8_correct:
  "if str_len s \<le> max_bytes then truncate_utf8 s max_bytes = (s, False)
   else \<exists>p. prefix p s \<and> str_len p \<le> max_bytes
          \<and> (\<forall>q. prefix q s \<and> str_len q \<le> max_bytes \<longrightarrow> prefix q p)
          \<and> truncate_utf8 s max_bytes
              = (if p \<noteq> [] \<and> last p = ellipsis then p else p @ [ellipsis], True)"
proof (cases "str_len s \<le> max_bytes")
  case True
  then show ?thesis by (simp add: truncate_utf8_def)
next
  case False
  then show ?thesis
    using slice_to_prefix slice_to_len slice_to_longest
    by (simp only: if_False) (intro exI [of _ "slice_to s max_bytes"] conjI allI impI;
      simp add: truncate_utf8_long Let_def)
qed

theorem truncate_utf8_correct_witness:
  "\<exists>p. prefix p (lit ''abcd'') \<and> str_len p \<le> 3
     \<and> truncate_utf8 (lit ''abcd'') 3 = (if p \<noteq> [] \<and> last p = ellipsis then p else p @ [ellipsis], True)"
proof -
  have "\<not> str_len (lit ''abcd'') \<le> 3" by (simp add: lit_def utf8_len_def)
  then show ?thesis using truncate_utf8_correct [of "lit ''abcd''" 3] by auto
qed

text \<open>
  The result may be longer than \<open>max_bytes\<close>, contrary to the function's documentation: by the
  three bytes of the ellipsis and never more.
\<close>

theorem truncate_utf8_overshoot:
  "(\<exists>s n. str_len (fst (truncate_utf8 s n)) > n)
   \<and> (\<forall>s n. str_len (fst (truncate_utf8 s n)) \<le> n + 3)"
proof
  have "str_len (fst (truncate_utf8 (lit ''abcd'') 3)) > 3" by (simp add: truncate_utf8_long lit_def utf8_len_def ellipsis_def Let_def)
  then show "\<exists>s n. str_len (fst (truncate_utf8 s n)) > n" by blast
qed (simp add: truncate_utf8_len)

end
