(* ===== verification/Domain.thy ===== *)
theory Domain
  imports Text
begin

text \<open>
  \<open>domain.rs\<close>: identifiers, timestamps, the storage tokens of the domain enumerations with their
  \<open>as_str\<close>/\<open>FromStr\<close> pairs (one interface, \<open>token_enum\<close>, interpreted for each of the seven),
  the validated numeric newtypes, the duration parser and the records of the domain.

  A UUID is an opaque value (\<open>nat\<close>): its hyphenated lower-case text has a fixed width, so
  comparing texts is comparing values. A \<open>SystemTime\<close> is a signed count of nanoseconds relative
  to the Unix epoch.
\<close>

type_synonym uuid = nat
type_synonym timestamp = int
type_synonym content_hash = ustring
type_synonym path = ustring

datatype domain_error =
  InvalidRetrievalLimit | InvalidTokenBudget | InvalidTimestamp | InvalidIdentifier
| InvalidSensitivityScope | InvalidFileType | InvalidSourceState | InvalidRevisionStatus
| InvalidSegmentType | InvalidScanStatus | InvalidDuration | InvalidRetrievalMode
| QueryEmpty | QueryInvalid ustring | RetrievalModeUnavailable ustring
| DomainBudgetPresetNotFound ustring

subsection \<open>Timestamps\<close>

definition try_from_system_time :: "int \<Rightarrow> domain_error + timestamp" where
  "try_from_system_time time =
     (if time < 0 then Inl InvalidTimestamp
      else let millis = time div 1000000
           in if millis \<le> i64_max then Inr millis else Inl InvalidTimestamp)"

lemma try_from_system_time_range:
  "try_from_system_time t = Inr m \<Longrightarrow> 0 \<le> m \<and> m \<le> i64_max"
  by (auto simp: try_from_system_time_def Let_def pos_imp_zdiv_nonneg_iff split: if_splits)

lemma try_from_system_time_mono:
  "try_from_system_time s = Inr m \<Longrightarrow> try_from_system_time t = Inr n \<Longrightarrow> s \<le> t \<Longrightarrow> m \<le> n"
  by (auto simp: try_from_system_time_def Let_def zdiv_mono1 split: if_splits)

subsection \<open>Enumerations and their storage tokens\<close>

datatype sensitivity_scope = NeverReturnToMcp | RequireExplicitQuery
datatype supported_file_type = Markdown | PlainText
datatype source_state = Active | Deleted | Excluded | Unsupported | SourceError
datatype revision_status = Prepared | Indexed | RevisionFailed
datatype segment_type =
  DocumentTitle | Heading | Paragraph | ListSegment | Blockquote | CodeFence | TableSegment | Frontmatter
datatype scan_status = ScanCompleted | ScanFailed
datatype retrieval_mode = Lexical | Semantic | Hybrid | Auto
datatype explanation_kind = LexicalTermOverlap | SemanticNeighbor | StructuralExpansion
datatype freshness_status = Current | PendingReindex | Unknown

fun sensitivity_scope_as_str :: "sensitivity_scope \<Rightarrow> ustring" where
  "sensitivity_scope_as_str NeverReturnToMcp = lit ''never_return_to_mcp''"
| "sensitivity_scope_as_str RequireExplicitQuery = lit ''require_explicit_query''"

definition sensitivity_scope_from_str :: "ustring \<Rightarrow> domain_error + sensitivity_scope" where
  "sensitivity_scope_from_str value =
     (if value = lit ''never_return_to_mcp'' then Inr NeverReturnToMcp
      else if value = lit ''require_explicit_query'' then Inr RequireExplicitQuery
      else Inl InvalidSensitivityScope)"

fun file_type_as_str :: "supported_file_type \<Rightarrow> ustring" where
  "file_type_as_str Markdown = lit ''markdown''"
| "file_type_as_str PlainText = lit ''plain_text''"

definition file_type_from_str :: "ustring \<Rightarrow> domain_error + supported_file_type" where
  "file_type_from_str value =
     (if value = lit ''markdown'' then Inr Markdown
      else if value = lit ''plain_text'' then Inr PlainText
      else Inl InvalidFileType)"

fun source_state_as_str :: "source_state \<Rightarrow> ustring" where
  "source_state_as_str Active = lit ''active''"
| "source_state_as_str Deleted = lit ''deleted''"
| "source_state_as_str Excluded = lit ''excluded''"
| "source_state_as_str Unsupported = lit ''unsupported''"
| "source_state_as_str SourceError = lit ''error''"

definition source_state_from_str :: "ustring \<Rightarrow> domain_error + source_state" where
  "source_state_from_str value =
     (if value = lit ''active'' then Inr Active
      else if value = lit ''deleted'' then Inr Deleted
      else if value = lit ''excluded'' then Inr Excluded
      else if value = lit ''unsupported'' then Inr Unsupported
      else if value = lit ''error'' then Inr SourceError
      else Inl InvalidSourceState)"

fun revision_status_as_str :: "revision_status \<Rightarrow> ustring" where
  "revision_status_as_str Prepared = lit ''prepared''"
| "revision_status_as_str Indexed = lit ''indexed''"
| "revision_status_as_str RevisionFailed = lit ''failed''"

definition revision_status_from_str :: "ustring \<Rightarrow> domain_error + revision_status" where
  "revision_status_from_str value =
     (if value = lit ''prepared'' then Inr Prepared
      else if value = lit ''indexed'' then Inr Indexed
      else if value = lit ''failed'' then Inr RevisionFailed
      else Inl InvalidRevisionStatus)"

fun segment_type_as_str :: "segment_type \<Rightarrow> ustring" where
  "segment_type_as_str DocumentTitle = lit ''document_title''"
| "segment_type_as_str Heading = lit ''heading''"
| "segment_type_as_str Paragraph = lit ''paragraph''"
| "segment_type_as_str ListSegment = lit ''list''"
| "segment_type_as_str Blockquote = lit ''blockquote''"
| "segment_type_as_str CodeFence = lit ''code_fence''"
| "segment_type_as_str TableSegment = lit ''table''"
| "segment_type_as_str Frontmatter = lit ''frontmatter''"

definition segment_type_from_str :: "ustring \<Rightarrow> domain_error + segment_type" where
  "segment_type_from_str value =
     (if value = lit ''document_title'' then Inr DocumentTitle
      else if value = lit ''heading'' then Inr Heading
      else if value = lit ''paragraph'' then Inr Paragraph
      else if value = lit ''list'' then Inr ListSegment
      else if value = lit ''blockquote'' then Inr Blockquote
      else if value = lit ''code_fence'' then Inr CodeFence
      else if value = lit ''table'' then Inr TableSegment
      else if value = lit ''frontmatter'' then Inr Frontmatter
      else Inl InvalidSegmentType)"

fun scan_status_as_str :: "scan_status \<Rightarrow> ustring" where
  "scan_status_as_str ScanCompleted = lit ''completed''"
| "scan_status_as_str ScanFailed = lit ''failed''"

definition scan_status_from_str :: "ustring \<Rightarrow> domain_error + scan_status" where
  "scan_status_from_str value =
     (if value = lit ''completed'' then Inr ScanCompleted
      else if value = lit ''failed'' then Inr ScanFailed
      else Inl InvalidScanStatus)"

fun retrieval_mode_as_str :: "retrieval_mode \<Rightarrow> ustring" where
  "retrieval_mode_as_str Lexical = lit ''lexical''"
| "retrieval_mode_as_str Semantic = lit ''semantic''"
| "retrieval_mode_as_str Hybrid = lit ''hybrid''"
| "retrieval_mode_as_str Auto = lit ''auto''"

definition retrieval_mode_from_str :: "ustring \<Rightarrow> domain_error + retrieval_mode" where
  "retrieval_mode_from_str value =
     (if value = lit ''lexical'' then Inr Lexical
      else if value = lit ''semantic'' then Inr Semantic
      else if value = lit ''hybrid'' then Inr Hybrid
      else if value = lit ''auto'' then Inr Auto
      else Inl InvalidRetrievalMode)"

fun explanation_kind_as_str :: "explanation_kind \<Rightarrow> ustring" where
  "explanation_kind_as_str LexicalTermOverlap = lit ''lexical_term_overlap''"
| "explanation_kind_as_str SemanticNeighbor = lit ''semantic_neighbor''"
| "explanation_kind_as_str StructuralExpansion = lit ''structural_expansion''"

fun freshness_status_as_str :: "freshness_status \<Rightarrow> ustring" where
  "freshness_status_as_str Current = lit ''current''"
| "freshness_status_as_str PendingReindex = lit ''pending_reindex''"
| "freshness_status_as_str Unknown = lit ''unknown''"

text \<open>
  The contract between the storage layer and an enumeration: decoding what was stored gives the
  value back, and a token decodes only if it is the one stored for the result.
\<close>

locale token_enum =
  fixes as_str :: "'a \<Rightarrow> ustring" and from_str :: "ustring \<Rightarrow> domain_error + 'a" and err :: domain_error
  assumes decode_encode: "from_str (as_str x) = Inr x"
    and encode_decode: "from_str s = Inr x \<Longrightarrow> as_str x = s"
    and decode_error: "from_str s = Inl e \<Longrightarrow> e = err"
begin

lemma as_str_inj: "as_str x = as_str y \<longleftrightarrow> x = y"
  by (metis decode_encode sum.inject(2))

lemma decode_iff: "from_str s = Inr x \<longleftrightarrow> s = as_str x"
  using decode_encode encode_decode by auto

lemma decode_total: "from_str s = Inl err \<or> (\<exists>x. s = as_str x \<and> from_str s = Inr x)"
  by (metis decode_error decode_iff sum.exhaust)

end

lemmas token_from_str_defs =
  sensitivity_scope_from_str_def file_type_from_str_def source_state_from_str_def
  revision_status_from_str_def segment_type_from_str_def scan_status_from_str_def
  retrieval_mode_from_str_def

interpretation scope_tokens: token_enum sensitivity_scope_as_str sensitivity_scope_from_str InvalidSensitivityScope
proof
  fix x show "sensitivity_scope_from_str (sensitivity_scope_as_str x) = Inr x"
    by (cases x) (simp_all add: token_from_str_defs)
qed (auto simp: token_from_str_defs split: if_splits)

interpretation file_type_tokens: token_enum file_type_as_str file_type_from_str InvalidFileType
proof
  fix x show "file_type_from_str (file_type_as_str x) = Inr x"
    by (cases x) (simp_all add: token_from_str_defs)
qed (auto simp: token_from_str_defs split: if_splits)

interpretation source_state_tokens: token_enum source_state_as_str source_state_from_str InvalidSourceState
proof
  fix x show "source_state_from_str (source_state_as_str x) = Inr x"
    by (cases x) (simp_all add: token_from_str_defs)
qed (auto simp: token_from_str_defs split: if_splits)

interpretation revision_tokens: token_enum revision_status_as_str revision_status_from_str InvalidRevisionStatus
proof
  fix x show "revision_status_from_str (revision_status_as_str x) = Inr x"
    by (cases x) (simp_all add: token_from_str_defs)
qed (auto simp: token_from_str_defs split: if_splits)

interpretation segment_tokens: token_enum segment_type_as_str segment_type_from_str InvalidSegmentType
proof
  fix x show "segment_type_from_str (segment_type_as_str x) = Inr x"
    by (cases x) (simp_all add: token_from_str_defs)
qed (auto simp: token_from_str_defs split: if_splits)

interpretation scan_tokens: token_enum scan_status_as_str scan_status_from_str InvalidScanStatus
proof
  fix x show "scan_status_from_str (scan_status_as_str x) = Inr x"
    by (cases x) (simp_all add: token_from_str_defs)
qed (auto simp: token_from_str_defs split: if_splits)

interpretation mode_tokens: token_enum retrieval_mode_as_str retrieval_mode_from_str InvalidRetrievalMode
proof
  fix x show "retrieval_mode_from_str (retrieval_mode_as_str x) = Inr x"
    by (cases x) (simp_all add: token_from_str_defs)
qed (auto simp: token_from_str_defs split: if_splits)

text \<open>
  Storage tokens round-trip: for each of the seven persisted enumerations a text decodes to a
  value exactly when it is that value's token.
\<close>

theorem storage_tokens_roundtrip:
  "(sensitivity_scope_from_str s = Inr a \<longleftrightarrow> s = sensitivity_scope_as_str a)
   \<and> (file_type_from_str s = Inr b \<longleftrightarrow> s = file_type_as_str b)
   \<and> (source_state_from_str s = Inr c \<longleftrightarrow> s = source_state_as_str c)
   \<and> (revision_status_from_str s = Inr d \<longleftrightarrow> s = revision_status_as_str d)
   \<and> (segment_type_from_str s = Inr e \<longleftrightarrow> s = segment_type_as_str e)
   \<and> (scan_status_from_str s = Inr f \<longleftrightarrow> s = scan_status_as_str f)
   \<and> (retrieval_mode_from_str s = Inr g \<longleftrightarrow> s = retrieval_mode_as_str g)"
  by (intro conjI scope_tokens.decode_iff file_type_tokens.decode_iff
      source_state_tokens.decode_iff revision_tokens.decode_iff segment_tokens.decode_iff
      scan_tokens.decode_iff mode_tokens.decode_iff)

subsection \<open>Validated newtypes\<close>

definition retrieval_limit_new :: "nat \<Rightarrow> domain_error + nat" where
  "retrieval_limit_new value = (if value = 0 then Inl InvalidRetrievalLimit else Inr value)"

definition token_budget_new :: "nat \<Rightarrow> domain_error + nat" where
  "token_budget_new value = (if value = 0 then Inl InvalidTokenBudget else Inr value)"

lemma retrieval_limit_new_Inr [simp]: "retrieval_limit_new v = Inr l \<longleftrightarrow> l = v \<and> 0 < v"
  by (auto simp: retrieval_limit_new_def)

lemma token_budget_new_Inr [simp]: "token_budget_new v = Inr l \<longleftrightarrow> l = v \<and> 0 < v"
  by (auto simp: token_budget_new_def)

subsection \<open>Durations\<close>

definition duration_multiplier :: "uchar \<Rightarrow> int option" where
  "duration_multiplier unit =
     (if unit = 115 then Some 1000
      else if unit = 109 then Some 60000
      else if unit = 104 then Some 3600000
      else if unit = 100 then Some 86400000
      else None)"

text \<open>
  \<open>input.split_at(input.len() - 1)\<close> splits at a byte offset and panics inside a multi-byte
  character; \<open>None\<close> is that panic. Otherwise the last byte is the last character.
\<close>

definition parse_duration_to_millis :: "ustring \<Rightarrow> (domain_error + int) option" where
  "parse_duration_to_millis input =
     (let input = trim input
      in if input = [] then Some (Inl InvalidDuration)
         else if utf8_len (last input) \<noteq> 1 then None
         else let number = butlast input; unit = last input
              in Some (case parse_i64 number of
                    None \<Rightarrow> Inl InvalidDuration
                  | Some amount \<Rightarrow>
                      if amount < 0 then Inl InvalidDuration
                      else case duration_multiplier unit of
                          None \<Rightarrow> Inl InvalidDuration
                        | Some multiplier \<Rightarrow>
                            (case i64_checked_mul amount multiplier of
                                None \<Rightarrow> Inl InvalidDuration
                              | Some r \<Rightarrow> Inr r)))"

lemma duration_multiplier_pos: "duration_multiplier u = Some m \<Longrightarrow> 1000 \<le> m"
  by (auto simp: duration_multiplier_def split: if_splits)

lemma duration_unit_not_space: "duration_multiplier u = Some m \<Longrightarrow> \<not> is_whitespace u \<and> utf8_len u = 1"
  by (auto simp: duration_multiplier_def is_whitespace_def utf8_len_def split: if_splits)

text \<open>
  The duration parser returns normally on every input but one kind: it panics exactly when the
  last character of the trimmed input is not ASCII. A value it accepts is non-negative, fits in 64
  bits and is the written amount times its unit.
\<close>

theorem parse_duration_outcome:
  "(parse_duration_to_millis s = None \<longleftrightarrow> trim s \<noteq> [] \<and> 128 \<le> last (trim s))
   \<and> (parse_duration_to_millis s = Some (Inr v) \<longrightarrow>
        0 \<le> v \<and> v \<le> i64_max
        \<and> (\<exists>n m. parse_i64 (butlast (trim s)) = Some n \<and> 0 \<le> n
             \<and> duration_multiplier (last (trim s)) = Some m \<and> v = n * m))"
proof
  show "parse_duration_to_millis s = None \<longleftrightarrow> trim s \<noteq> [] \<and> 128 \<le> last (trim s)"
    by (auto simp: parse_duration_to_millis_def Let_def utf8_len_def)
  show "parse_duration_to_millis s = Some (Inr v) \<longrightarrow>
        0 \<le> v \<and> v \<le> i64_max
        \<and> (\<exists>n m. parse_i64 (butlast (trim s)) = Some n \<and> 0 \<le> n
             \<and> duration_multiplier (last (trim s)) = Some m \<and> v = n * m)"
    by (auto simp: parse_duration_to_millis_def Let_def i64_checked_mul_def not_less
        split: if_splits option.splits dest!: duration_multiplier_pos)
qed

theorem parse_duration_outcome_witness:
  "parse_duration_to_millis (lit ''7d'') = Some (Inr 604800000)
   \<and> 604800000 \<le> i64_max \<and> parse_duration_to_millis [53, 233] = None"
proof -
  have v: "parse_duration_to_millis (lit ''7d'') = Some (Inr 604800000)"
    by (simp add: parse_duration_to_millis_def lit_def trim_def trim_matches_def
        trim_start_matches_def trim_end_matches_def is_whitespace_def utf8_len_def Let_def
        parse_i64_def digits_val_def is_ascii_digit_def duration_multiplier_def rust_int)
  moreover have "parse_duration_to_millis [53, 233] = None"
    by (simp add: parse_duration_outcome [of "[53, 233]" 0] trim_def trim_matches_def
        trim_start_matches_def trim_end_matches_def is_whitespace_def)
  ultimately show ?thesis
    using parse_duration_outcome [of "lit ''7d''" 604800000] by blast
qed

subsection \<open>Records\<close>

record sensitivity_tag =
  tag_pattern :: ustring
  tag_scope :: sensitivity_scope

record root =
  rt_id :: uuid
  rt_canonical_path :: path
  rt_display_name :: ustring
  rt_include_patterns :: "ustring list"
  rt_exclude_patterns :: "ustring list"
  rt_sensitivity_tags :: "sensitivity_tag list"
  rt_follow_symlinks :: bool
  rt_enabled :: bool
  rt_created_at :: timestamp
  rt_updated_at :: timestamp
  rt_config_fingerprint :: ustring

record discovered_document =
  dd_root_id :: uuid
  dd_canonical_path :: path
  dd_relative_path :: path
  dd_size_bytes :: nat
  dd_modified_at :: timestamp
  dd_file_type :: supported_file_type

record source_file =
  sf_id :: uuid
  sf_root_id :: uuid
  sf_relative_path :: path
  sf_canonical_path_hash :: content_hash
  sf_file_type :: supported_file_type
  sf_size_bytes :: nat
  sf_modified_at :: "timestamp option"
  sf_current_revision_id :: "uuid option"
  sf_state :: source_state
  sf_first_seen_at :: timestamp
  sf_last_seen_at :: timestamp

record revision =
  rv_id :: uuid
  rv_source_file_id :: uuid
  rv_content_hash :: content_hash
  rv_parser_id :: ustring
  rv_parser_version :: ustring
  rv_extracted_text_hash :: "content_hash option"
  rv_observed_at :: timestamp
  rv_indexed_at :: "timestamp option"
  rv_status :: revision_status
  rv_error_code :: "ustring option"
  rv_error_message :: "ustring option"

record segment =
  sg_id :: uuid
  sg_revision_id :: uuid
  sg_segment_type :: segment_type
  sg_anchor :: ustring
  sg_ordinal :: nat
  sg_text :: ustring
  sg_text_hash :: content_hash
  sg_token_count :: "nat option"
  sg_metadata :: ustring
  sg_sensitivity_scope :: "sensitivity_scope option"

record scan_run =
  sc_id :: uuid
  sc_root_id :: uuid
  sc_started_at :: timestamp
  sc_completed_at :: "timestamp option"
  sc_status :: scan_status
  sc_additions :: nat
  sc_modifications :: nat
  sc_unchanged :: nat
  sc_deletions :: nat
  sc_skipped :: nat
  sc_failures :: nat
  sc_segments_indexed :: nat
  sc_error_code :: "ustring option"

record budget_preset =
  bp_name :: ustring
  bp_token_budget :: nat
  bp_max_results :: nat

record retrieval_query =
  rq_query :: ustring
  rq_root_ids :: "uuid list"
  rq_file_types :: "supported_file_type list"
  rq_mode :: retrieval_mode
  rq_limit :: nat
  rq_token_budget :: nat
  rq_include_sensitive :: bool
  rq_budget_preset :: "ustring option"

end
