(* ===== verification/Query.thy ===== *)
theory Query
  imports Domain
begin

text \<open>
  \<open>query_parse.rs\<close>: from user text to an FTS5 MATCH expression made of quoted literals only.
  \<open>parse_terms\<close> is the \<open>while let\<close> loop over the characters with its three pieces of state (terms
  so far, the current word, the rest of the input); \<open>read_fts\<close> is a reader for the expressions
  the parser is meant to emit, the specification of what SQLite sees.
\<close>

definition MAX_QUERY_CHARS :: nat where "MAX_QUERY_CHARS = 512"

definition dquote :: uchar where "dquote = 34"

record parsed_query =
  pq_original :: ustring
  pq_terms :: "ustring list"
  pq_fts_match :: ustring

definition is_separator :: "uchar \<Rightarrow> bool" where
  "is_separator ch \<longleftrightarrow> ch \<in> set
     [40, 41, 123, 125, 91, 93, 58, 59, 44, 33, 63, 42, 94, 126, 124, 38, 43, 61, 60, 62, 47, 92,
      64, 35, 36, 37, 96]"

definition push_term :: "ustring list \<Rightarrow> ustring \<Rightarrow> ustring list" where
  "push_term terms raw =
     (let cleaned = trim_matches (\<lambda>ch. is_separator ch \<or> is_whitespace ch) raw
      in if cleaned \<noteq> [] then terms @ [cleaned] else terms)"

definition normalize_spaces :: "ustring \<Rightarrow> ustring" where
  "normalize_spaces input = join [32] (split_whitespace input)"

text \<open>The inner \<open>for\<close> loop: the phrase up to the closing quote, \<open>None\<close> when it is missing.\<close>

fun take_phrase :: "ustring \<Rightarrow> (ustring \<times> ustring) option" where
  "take_phrase [] = None"
| "take_phrase (c # cs) =
     (if c = dquote then Some ([], cs)
      else map_option (\<lambda>(p, r). (c # p, r)) (take_phrase cs))"

lemma take_phrase_Some: "take_phrase s = Some (p, r) \<Longrightarrow> s = p @ dquote # r \<and> dquote \<notin> set p"
  by (induction s arbitrary: p) (auto split: if_splits)

lemma take_phrase_None: "take_phrase s = None \<longleftrightarrow> dquote \<notin> set s"
  by (induction s) auto

lemma take_phrase_length [termination_simp]:
  "take_phrase s = Some (p, r) \<Longrightarrow> length r < Suc (length s)"
  by (auto dest: take_phrase_Some)

definition unclosed_phrase :: domain_error where
  "unclosed_phrase = QueryInvalid (lit ''unclosed quoted phrase'')"

definition query_too_long :: domain_error where
  "query_too_long = QueryInvalid (lit ''query exceeds 512 characters'')"

fun parse_terms :: "ustring list \<Rightarrow> ustring \<Rightarrow> ustring \<Rightarrow> domain_error + ustring list" where
  "parse_terms terms current [] =
     Inr (if current \<noteq> [] then push_term terms current else terms)"
| "parse_terms terms current (ch # chars) =
     (if ch = dquote then
        let terms = (if current \<noteq> [] then push_term terms current else terms)
        in case take_phrase chars of
             None \<Rightarrow> Inl unclosed_phrase
           | Some (phrase, rest) \<Rightarrow>
               let phrase = trim phrase
               in parse_terms (if phrase \<noteq> [] then terms @ [normalize_spaces phrase] else terms)
                    [] rest
      else if is_whitespace ch \<or> is_separator ch then
        parse_terms (if current \<noteq> [] then push_term terms current else terms) [] chars
      else parse_terms terms (current @ [ch]) chars)"

text \<open>\<open>term.replace('"', "\"\"")\<close> between quotes.\<close>

definition quote_fts_literal :: "ustring \<Rightarrow> ustring" where
  "quote_fts_literal t =
     [dquote] @ concat (map (\<lambda>c. if c = dquote then [dquote, dquote] else [c]) t) @ [dquote]"

definition parse_lexical_query :: "ustring \<Rightarrow> domain_error + parsed_query" where
  "parse_lexical_query input =
     (let original = trim input
      in if original = [] then Inl QueryEmpty
         else if length original > MAX_QUERY_CHARS then Inl query_too_long
         else try_bind (parse_terms [] [] original) (\<lambda>terms.
           if terms = [] then Inl QueryEmpty
           else Inr \<lparr>pq_original = original, pq_terms = terms,
                     pq_fts_match = join (lit '' OR '') (map quote_fts_literal terms)\<rparr>))"

subsection \<open>Reading a MATCH expression\<close>

fun read_literal_body :: "ustring \<Rightarrow> (ustring \<times> ustring) option" where
  "read_literal_body [] = None"
| "read_literal_body (c # cs) =
     (if c \<noteq> dquote then map_option (\<lambda>(p, r). (c # p, r)) (read_literal_body cs)
      else if cs \<noteq> [] \<and> hd cs = dquote
        then map_option (\<lambda>(p, r). (dquote # p, r)) (read_literal_body (tl cs))
      else Some ([], cs))"

lemma read_literal_body_length:
  "read_literal_body s = Some (p, r) \<Longrightarrow> length r < length s"
proof (induction s arbitrary: p r rule: read_literal_body.induct)
  case (2 c cs)
  then show ?case by (cases cs) (fastforce split: if_splits)+
qed simp

function read_fts :: "ustring \<Rightarrow> ustring list option" where
  "read_fts s =
     (if s = [] \<or> hd s \<noteq> dquote then None
      else case read_literal_body (tl s) of
          None \<Rightarrow> None
        | Some (w, r) \<Rightarrow>
            if r = [] then Some [w]
            else case strip_prefix (lit '' OR '') r of
                None \<Rightarrow> None
              | Some r' \<Rightarrow> map_option ((#) w) (read_fts r'))"
  by pat_completeness auto
termination
  by (relation "measure length")
    (auto dest!: read_literal_body_length simp: strip_prefix_def split: if_splits)

declare read_fts.simps [simp del]

lemma read_literal_body_quote:
  "r = [] \<or> hd r \<noteq> dquote \<Longrightarrow>
   read_literal_body (concat (map (\<lambda>c. if c = dquote then [dquote, dquote] else [c]) t) @ dquote # r)
     = Some (t, r)"
  by (induction t) auto

lemma or_lit: "lit '' OR '' = [32, 79, 82, 32]"
  by (simp add: lit_def)

lemma read_fts_join:
  "ts \<noteq> [] \<Longrightarrow> read_fts (join (lit '' OR '') (map quote_fts_literal ts)) = Some ts"
proof (induction ts rule: induct_list012)
  case (2 t)
  then show ?case
    by (auto simp: quote_fts_literal_def read_literal_body_quote read_fts.simps)
next
  case (3 t u us)
  let ?r = "join (lit '' OR '') (map quote_fts_literal (u # us))"
  have "read_fts ?r = Some (u # us)" using 3 by auto
  moreover have "lit '' OR '' @ ?r = [] \<or> hd (lit '' OR '' @ ?r) \<noteq> dquote"
    by (simp add: or_lit dquote_def)
  then have "read_literal_body (tl (quote_fts_literal t @ lit '' OR '' @ ?r))
      = Some (t, lit '' OR '' @ ?r)"
    using read_literal_body_quote [of "lit '' OR '' @ ?r" t] by (simp add: quote_fts_literal_def)
  ultimately show ?case
    by (subst read_fts.simps)
      (simp add: quote_fts_literal_def strip_prefix_def)
qed simp

subsection \<open>The terms\<close>

definition good_term :: "ustring \<Rightarrow> bool" where
  "good_term t \<longleftrightarrow> t \<noteq> [] \<and> dquote \<notin> set t \<and> \<not> is_whitespace (hd t) \<and> \<not> is_whitespace (last t)"

lemma push_term_good:
  assumes "\<forall>t \<in> set terms. good_term t" "dquote \<notin> set raw"
  shows "\<forall>t \<in> set (push_term terms raw). good_term t"
  using assms trim_matches_ends [of "\<lambda>ch. is_separator ch \<or> is_whitespace ch" raw]
    set_trim_matches [of "\<lambda>ch. is_separator ch \<or> is_whitespace ch" raw]
  by (auto simp: push_term_def good_term_def Let_def)

lemma join_ends:
  "ws \<noteq> [] \<Longrightarrow> \<forall>w \<in> set ws. w \<noteq> [] \<Longrightarrow>
    join sep ws \<noteq> [] \<and> hd (join sep ws) = hd (hd ws) \<and> last (join sep ws) = last (last ws)"
  by (induction sep ws rule: join.induct) auto

lemma split_whitespace_words:
  "w \<in> set (split_whitespace s) \<Longrightarrow> w \<noteq> [] \<and> (\<forall>c \<in> set w. \<not> is_whitespace c \<and> c \<in> set s)"
  by (auto simp: split_whitespace_def dest: split_on_no_sep)

lemma split_whitespace_nonempty:
  "c \<in> set s \<Longrightarrow> \<not> is_whitespace c \<Longrightarrow> split_whitespace s \<noteq> []"
proof (induction s)
  case Nil
  then show ?case by simp
next
  case (Cons d s)
  then show ?case
    by (cases "split_on is_whitespace s")
      (auto simp: split_whitespace_def filter_empty_conv split: if_splits)
qed

lemma normalize_spaces_good:
  assumes "trim p \<noteq> []" "dquote \<notin> set p"
  shows "good_term (normalize_spaces (trim p))"
proof -
  let ?ws = "split_whitespace (trim p)"
  from trim_matches_ends [of is_whitespace p] assms(1)
  have "\<not> is_whitespace (hd (trim p))" by (auto simp: trim_def)
  with assms(1) have ne: "?ws \<noteq> []" by (intro split_whitespace_nonempty [of "hd (trim p)"]) auto
  have words: "\<forall>w \<in> set ?ws. w \<noteq> []" by (auto dest: split_whitespace_words)
  from ne words have "hd ?ws \<in> set ?ws" "last ?ws \<in> set ?ws" "hd ?ws \<noteq> []" "last ?ws \<noteq> []" by auto
  then have "\<not> is_whitespace (hd (hd ?ws))" "\<not> is_whitespace (last (last ?ws))"
    using split_whitespace_words by (metis hd_in_set, metis last_in_set)
  moreover have "dquote \<notin> set (normalize_spaces (trim p))"
  proof
    assume "dquote \<in> set (normalize_spaces (trim p))"
    then have "dquote \<in> \<Union> (set ` set ?ws) \<union> {32}"
      using set_join [of "[32]" ?ws] by (auto simp: normalize_spaces_def)
    then obtain w where "w \<in> set ?ws" "dquote \<in> set w" by (auto simp: dquote_def)
    then have "dquote \<in> set (trim p)" using split_whitespace_words by blast
    then show False using assms(2) set_trim by blast
  qed
  ultimately show ?thesis
    using join_ends [OF ne words, of "[32]"] by (simp add: good_term_def normalize_spaces_def)
qed

lemma parse_terms_good:
  "parse_terms terms current chars = Inr ts \<Longrightarrow> \<forall>t \<in> set terms. good_term t \<Longrightarrow>
   dquote \<notin> set current \<Longrightarrow> \<forall>t \<in> set ts. good_term t"
proof (induction terms current chars rule: parse_terms.induct)
  case (1 terms current)
  then show ?case using push_term_good by (auto split: if_splits)
next
  case (2 terms current ch chars)
  let ?terms = "if current \<noteq> [] then push_term terms current else terms"
  have terms: "\<forall>t \<in> set ?terms. good_term t"
    using push_term_good [OF "2.prems"(2,3)] "2.prems"(2) by simp
  consider (quote) "ch = dquote" | (sep) "ch \<noteq> dquote" "is_whitespace ch \<or> is_separator ch"
    | (word) "ch \<noteq> dquote" "\<not> (is_whitespace ch \<or> is_separator ch)" by blast
  then show ?case
  proof cases
    case quote
    with "2.prems"(1) obtain p r where pr: "take_phrase chars = Some (p, r)"
      by (auto simp: Let_def split: option.splits)
    let ?terms' = "if trim p \<noteq> [] then ?terms @ [normalize_spaces (trim p)] else ?terms"
    have "\<forall>t \<in> set ?terms'. good_term t"
      using terms normalize_spaces_good take_phrase_Some [OF pr] by auto
    moreover have "parse_terms ?terms' [] r = Inr ts"
      using "2.prems"(1) quote pr by (simp add: Let_def)
    ultimately show ?thesis
      using "2.IH"(1) [OF quote refl pr refl refl] by simp
  next
    case sep
    then have "parse_terms ?terms [] chars = Inr ts" using "2.prems"(1) by auto
    then show ?thesis using "2.IH"(2) [OF sep] terms by simp
  next
    case word
    then have "parse_terms terms (current @ [ch]) chars = Inr ts" using "2.prems"(1) by auto
    then show ?thesis using "2.IH"(3) [OF word] "2.prems"(2,3) word by simp
  qed
qed

lemma parse_terms_error:
  "parse_terms terms current chars = Inl e \<longleftrightarrow> e = unclosed_phrase \<and> odd (count_list chars dquote)"
proof (induction terms current chars rule: parse_terms.induct)
  case (1 terms current)
  then show ?case by simp
next
  case (2 terms current ch chars)
  show ?case
  proof (cases "ch = dquote")
    case True
    show ?thesis
    proof (cases "take_phrase chars")
      case None
      then have "count_list chars dquote = 0" by (simp add: take_phrase_None count_list_0_iff)
      with True None show ?thesis by (auto simp: Let_def)
    next
      case (Some pr)
      then obtain p r where pr: "take_phrase chars = Some (p, r)" by (cases pr) auto
      then have "count_list chars dquote = Suc (count_list r dquote)"
        using take_phrase_Some [OF pr] by (simp add: count_list_0_iff)
      then show ?thesis
        using True pr "2.IH"(1) [OF True refl pr refl refl] by (simp add: Let_def)
    qed
  next
    case False
    then show ?thesis using "2.IH"(2,3) by auto
  qed
qed

text \<open>
  C8. No query text can reach SQLite as FTS5 syntax: whatever the user types, the MATCH expression
  of an accepted query reads back as exactly the list of its terms, as quoted literals joined by
  OR; every term is non-empty, contains no quote and neither starts nor ends with white space.
\<close>

theorem fts_match_is_literals:
  assumes "parse_lexical_query input = Inr q"
  shows "read_fts (pq_fts_match q) = Some (pq_terms q) \<and> pq_terms q \<noteq> []
    \<and> list_all good_term (pq_terms q)
    \<and> pq_original q = trim input \<and> length (pq_original q) \<le> MAX_QUERY_CHARS"
proof -
  from assms obtain ts where ts: "parse_terms [] [] (trim input) = Inr ts" "ts \<noteq> []"
    and q: "q = \<lparr>pq_original = trim input, pq_terms = ts,
                 pq_fts_match = join (lit '' OR '') (map quote_fts_literal ts)\<rparr>"
    and len: "length (trim input) \<le> MAX_QUERY_CHARS"
    by (auto simp: parse_lexical_query_def Let_def split: if_splits)
  show ?thesis
    using ts parse_terms_good [OF ts(1)] q len by (simp add: read_fts_join list_all_iff)
qed

lemmas query_eval = parse_lexical_query_def lit_def trim_def trim_matches_def
  trim_start_matches_def trim_end_matches_def is_whitespace_def is_separator_def dquote_def
  push_term_def normalize_spaces_def split_whitespace_def Let_def MAX_QUERY_CHARS_def
  quote_fts_literal_def

theorem fts_match_is_literals_witness:
  "\<exists>q. parse_lexical_query (lit ''a* OR b'') = Inr q
     \<and> read_fts (pq_fts_match q) = Some [lit ''a'', lit ''OR'', lit ''b'']"
proof -
  have "parse_lexical_query (lit ''a* OR b'') = Inr \<lparr>pq_original = lit ''a* OR b'',
      pq_terms = [lit ''a'', lit ''OR'', lit ''b''],
      pq_fts_match = join (lit '' OR '') (map quote_fts_literal [lit ''a'', lit ''OR'', lit ''b''])\<rparr>"
    by (simp add: query_eval)
  with fts_match_is_literals [OF this] show ?thesis by auto
qed

text \<open>
  When a query is rejected: it is empty after trimming, longer than 512 characters, has an odd
  number of double quotes, or leaves no term; and the error names the reason.
\<close>

theorem parse_lexical_query_errors:
  "parse_lexical_query input = Inl e \<longleftrightarrow>
     (if trim input = [] then e = QueryEmpty
      else if length (trim input) > 512 then e = query_too_long
      else if odd (count_list (trim input) dquote) then e = unclosed_phrase
      else e = QueryEmpty \<and> parse_terms [] [] (trim input) = Inr [])"
proof -
  let ?p = "parse_terms [] [] (trim input)"
  show ?thesis
  proof (cases ?p)
    case (Inl e')
    then have "e' = unclosed_phrase" "odd (count_list (trim input) dquote)"
      using parse_terms_error [of "[]" "[]" "trim input" e'] by simp_all
    with Inl show ?thesis
      by (auto simp: parse_lexical_query_def MAX_QUERY_CHARS_def Let_def)
  next
    case (Inr ts)
    then have "even (count_list (trim input) dquote)"
      using parse_terms_error [of "[]" "[]" "trim input" unclosed_phrase] by simp
    with Inr show ?thesis
      by (auto simp: parse_lexical_query_def MAX_QUERY_CHARS_def Let_def)
  qed
qed

end
