(* ===== verification/Parsing.thy ===== *)
theory Parsing
  imports Domain
begin

text \<open>
  \<open>parsing/mod.rs\<close> and \<open>parsing/plain_text.rs\<close>: the parser contract, the registry, and the
  plain-text fallback. A parser is a record of its four operations. The locale
  \<open>segment_source\<close> is what the storage layer needs from any parser: segments whose anchors and
  ordinals satisfy the UNIQUE constraints of the \<open>segments\<close> table.
\<close>

record parsed_segment =
  ps_segment_type :: segment_type
  ps_anchor :: ustring
  ps_ordinal :: nat
  ps_text :: ustring

record parser_warning =
  pw_code :: ustring
  pw_message :: ustring

record parsed_document =
  pd_title :: "ustring option"
  pd_segments :: "parsed_segment list"
  pd_warnings :: "parser_warning list"

datatype parse_error = DuplicateParser ustring | InvalidUtf8 | ParseFailed ustring

type_synonym bytes = "nat list"

record document_parser =
  dp_parser_id :: ustring
  dp_parser_version :: ustring
  dp_supports :: "discovered_document \<Rightarrow> bool"
  dp_parse :: "bytes \<Rightarrow> parse_error + parsed_document"

type_synonym parser_registry = "document_parser list"

definition registry_register ::
    "parser_registry \<Rightarrow> document_parser \<Rightarrow> parse_error + parser_registry" where
  "registry_register ps p =
     (if \<exists>item \<in> set ps. dp_parser_id item = dp_parser_id p
      then Inl (DuplicateParser (dp_parser_id p)) else Inr (ps @ [p]))"

definition registry_select :: "parser_registry \<Rightarrow> discovered_document \<Rightarrow> document_parser option" where
  "registry_select ps d = find (\<lambda>p. dp_supports p d) ps"

lemma registry_register_distinct:
  "distinct (map dp_parser_id ps) \<Longrightarrow> registry_register ps p = Inr ps'
    \<Longrightarrow> distinct (map dp_parser_id ps')"
  by (auto simp: registry_register_def split: if_splits) metis

subsection \<open>UTF-8\<close>

text \<open>\<open>std::str::from_utf8\<close> and \<open>str::as_bytes\<close>: only shortest forms, no surrogates, nothing
  beyond U+10FFFF.\<close>

definition is_scalar :: "uchar \<Rightarrow> bool" where
  "is_scalar c \<longleftrightarrow> c < 55296 \<or> 57344 \<le> c \<and> c < 1114112"

definition is_cont :: "nat \<Rightarrow> bool" where
  "is_cont b \<longleftrightarrow> 128 \<le> b \<and> b < 192"

definition utf8_encode_char :: "uchar \<Rightarrow> bytes" where
  "utf8_encode_char c =
     (if c < 128 then [c]
      else if c < 2048 then [192 + c div 64, 128 + c mod 64]
      else if c < 65536 then [224 + c div 4096, 128 + c div 64 mod 64, 128 + c mod 64]
      else [240 + c div 262144, 128 + c div 4096 mod 64, 128 + c div 64 mod 64, 128 + c mod 64])"

definition as_bytes :: "ustring \<Rightarrow> bytes" where
  "as_bytes s = concat (map utf8_encode_char s)"

fun utf8_decode_char :: "bytes \<Rightarrow> (uchar \<times> bytes) option" where
  "utf8_decode_char [] = None"
| "utf8_decode_char (b0 # r0) =
     (if b0 < 128 then Some (b0, r0)
      else case r0 of [] \<Rightarrow> None | b1 # r1 \<Rightarrow>
        if \<not> is_cont b1 then None
        else if 194 \<le> b0 \<and> b0 < 224 then Some ((b0 - 192) * 64 + (b1 - 128), r1)
        else case r1 of [] \<Rightarrow> None | b2 # r2 \<Rightarrow>
          if \<not> is_cont b2 then None
          else if 224 \<le> b0 \<and> b0 < 240 then
            let c = (b0 - 224) * 4096 + (b1 - 128) * 64 + (b2 - 128)
            in if 2048 \<le> c \<and> is_scalar c then Some (c, r2) else None
          else case r2 of [] \<Rightarrow> None | b3 # r3 \<Rightarrow>
            if \<not> is_cont b3 then None
            else if 240 \<le> b0 \<and> b0 < 245 then
              let c = (b0 - 240) * 262144 + (b1 - 128) * 4096 + (b2 - 128) * 64 + (b3 - 128)
              in if 65536 \<le> c \<and> is_scalar c then Some (c, r3) else None
            else None)"

lemma utf8_decode_char_length:
  "utf8_decode_char bs = Some (c, r) \<Longrightarrow> length r < length bs"
  by (cases bs) (auto simp: Let_def split: if_splits list.splits)

function from_utf8 :: "bytes \<Rightarrow> ustring option" where
  "from_utf8 bs =
     (if bs = [] then Some []
      else case utf8_decode_char bs of
          None \<Rightarrow> None
        | Some (c, r) \<Rightarrow> map_option ((#) c) (from_utf8 r))"
  by pat_completeness auto
termination
  by (relation "measure length") (auto dest: utf8_decode_char_length)

declare from_utf8.simps [simp del]

lemma div_64_steps:
  fixes c :: nat
  shows "c div 4096 = c div 64 div 64" "c div 262144 = c div 64 div 64 div 64"
  by (simp_all flip: div_mult2_eq)

lemma split_64: "(n :: nat) div 64 * 64 + n mod 64 = n"
  by simp

lemma utf8_decode_encode_char:
  assumes "is_scalar c"
  shows "utf8_decode_char (utf8_encode_char c @ r) = Some (c, r)"
proof -
  consider "c < 128" | "128 \<le> c" "c < 2048" | "2048 \<le> c" "c < 65536" | "65536 \<le> c" by linarith
  then show ?thesis
  proof cases
    case 2
    then have "2 \<le> c div 64" "c div 64 < 32" by (auto simp: div_less_iff_less_mult less_eq_div_iff_mult_less_eq)
    with 2 show ?thesis by (simp add: utf8_encode_char_def is_cont_def)
  next
    case 3
    then have "c div 4096 < 16" by (auto simp: div_less_iff_less_mult)
    moreover have "c div 4096 * 4096 + c div 64 mod 64 * 64 + c mod 64 = c"
      using split_64 [of c] split_64 [of "c div 64"] unfolding div_64_steps by linarith
    ultimately show ?thesis using 3 assms by (simp add: utf8_encode_char_def is_cont_def)
  next
    case 4
    then have "c div 262144 < 5" using assms by (auto simp: div_less_iff_less_mult is_scalar_def)
    moreover have "c div 262144 * 262144 + c div 4096 mod 64 * 4096 + c div 64 mod 64 * 64 + c mod 64 = c"
      using split_64 [of c] split_64 [of "c div 64"] split_64 [of "c div 64 div 64"]
      unfolding div_64_steps by linarith
    ultimately show ?thesis using 4 assms by (simp add: utf8_encode_char_def is_cont_def)
  qed (simp add: utf8_encode_char_def)
qed

lemma utf8_encode_char_not_nil [simp]: "utf8_encode_char c \<noteq> []"
  by (simp add: utf8_encode_char_def)

lemma length_utf8_encode_char: "length (utf8_encode_char c) = utf8_len c"
  by (simp add: utf8_encode_char_def utf8_len_def)

lemma length_as_bytes: "length (as_bytes s) = str_len s"
  by (induction s) (simp_all add: as_bytes_def length_utf8_encode_char)

lemma from_utf8_as_bytes: "list_all is_scalar s \<Longrightarrow> from_utf8 (as_bytes s) = Some s"
proof (induction s)
  case Nil
  then show ?case by (simp add: as_bytes_def from_utf8.simps)
next
  case (Cons c s)
  have "as_bytes (c # s) = utf8_encode_char c @ as_bytes s" by (simp add: as_bytes_def)
  with Cons utf8_decode_encode_char [of c "as_bytes s"] show ?case
    by (subst from_utf8.simps) simp
qed

subsection \<open>Size-bounded splitting\<close>

text \<open>\<open>iter().rposition(..)\<close>: the last index whose element satisfies the predicate.\<close>

definition rposition :: "('a \<Rightarrow> bool) \<Rightarrow> 'a list \<Rightarrow> nat option" where
  "rposition P xs =
     (case filter (\<lambda>i. P (xs ! i)) [0..<length xs] of [] \<Rightarrow> None | is \<Rightarrow> Some (last is))"

lemma rposition_Some: "rposition P xs = Some i \<Longrightarrow> i < length xs \<and> P (xs ! i)"
proof -
  assume r: "rposition P xs = Some i"
  let ?is = "filter (\<lambda>i. P (xs ! i)) [0..<length xs]"
  from r have "?is \<noteq> []" "i = last ?is"
    by (auto simp: rposition_def split: list.splits)
  then have "i \<in> set ?is" by (metis last_in_set)
  then show ?thesis by simp
qed

text \<open>
  The splitting loop both parsers use, on the characters not yet emitted: take at most \<open>m\<close> of
  them, but back up to just after the last break character when more remain.
\<close>

definition piece_end :: "(uchar \<Rightarrow> bool) \<Rightarrow> nat \<Rightarrow> ustring \<Rightarrow> nat" where
  "piece_end brk m rest =
     (let hard_end = min m (length rest)
      in if hard_end < length rest then
           (case rposition brk (take hard_end rest) of
              Some relative \<Rightarrow> relative + 1 | None \<Rightarrow> hard_end)
         else hard_end)"

lemma piece_end_bounds:
  assumes "0 < m" "rest \<noteq> []"
  shows "0 < piece_end brk m rest \<and> piece_end brk m rest \<le> m \<and> piece_end brk m rest \<le> length rest"
  using assms
  by (auto simp: piece_end_def Let_def min_def Suc_le_eq dest!: rposition_Some split: option.splits)

function split_pieces :: "(uchar \<Rightarrow> bool) \<Rightarrow> nat \<Rightarrow> ustring \<Rightarrow> ustring list" where
  "split_pieces brk m rest =
     (if rest = [] \<or> m = 0 then []
      else take (piece_end brk m rest) rest # split_pieces brk m (drop (piece_end brk m rest) rest))"
  by pat_completeness auto
termination
proof (relation "measure (\<lambda>(brk, m, rest). length rest)")
  fix brk and m :: nat and rest :: ustring
  assume "\<not> (rest = [] \<or> m = 0)"
  then show "((brk, m, drop (piece_end brk m rest) rest), brk, m, rest) \<in> measure (\<lambda>(brk, m, rest). length rest)"
    using piece_end_bounds [of m rest brk] by auto
qed simp

declare split_pieces.simps [simp del]

lemma concat_split_pieces: "0 < m \<Longrightarrow> concat (split_pieces brk m rest) = rest"
proof (induction brk m rest rule: split_pieces.induct)
  case (1 brk m rest)
  then show ?case by (subst split_pieces.simps) auto
qed

lemma split_pieces_bounds:
  "0 < m \<Longrightarrow> p \<in> set (split_pieces brk m rest) \<Longrightarrow> p \<noteq> [] \<and> length p \<le> m"
proof (induction brk m rest rule: split_pieces.induct)
  case (1 brk m rest)
  then show ?case
    using piece_end_bounds [of m rest brk]
    by (subst (asm) (2) split_pieces.simps) (auto split: if_splits)
qed

text \<open>Every piece but the last is full or ends in a break character.\<close>

lemma split_pieces_breaks:
  "0 < m \<Longrightarrow> p \<in> set (butlast (split_pieces brk m rest)) \<Longrightarrow> length p = m \<or> brk (last p)"
proof (induction brk m rest rule: split_pieces.induct)
  case (1 brk m rest)
  let ?e = "piece_end brk m rest"
  show ?case
  proof (cases "rest = []")
    case True
    with 1 show ?thesis by (simp add: split_pieces.simps)
  next
    case False
    then have eq: "split_pieces brk m rest = take ?e rest # split_pieces brk m (drop ?e rest)"
      using "1.prems" by (subst split_pieces.simps) simp
    have "length (take ?e rest) = m \<or> brk (last (take ?e rest))" if "?e < length rest"
      using that "1.prems"(1)
      by (auto simp: piece_end_def Let_def min_def take_Suc_conv_app_nth
          dest!: rposition_Some split: option.splits if_splits)
    moreover have "split_pieces brk m (drop ?e rest) \<noteq> [] \<longleftrightarrow> ?e < length rest"
      using "1.prems"(1) by (subst split_pieces.simps) auto
    ultimately show ?thesis
      using 1 eq False by (auto split: if_splits)
  qed
qed

subsection \<open>The plain-text parser\<close>

definition DEFAULT_MAX_SEGMENT_CHARS :: nat where "DEFAULT_MAX_SEGMENT_CHARS = 4096"

definition text_segment :: "nat \<Rightarrow> ustring \<Rightarrow> parsed_segment" where
  "text_segment index chunk =
     \<lparr>ps_segment_type = Paragraph, ps_anchor = lit ''text:'' @ show_nat index,
      ps_ordinal = index - 1, ps_text = chunk\<rparr>"

definition split_plain_text :: "ustring \<Rightarrow> nat \<Rightarrow> parsed_segment list" where
  "split_plain_text text max_chars =
     (let max_chars = max max_chars 1
      in if text = [] then [text_segment 1 []]
         else if length text \<le> max_chars then [text_segment 1 text]
         else map (\<lambda>(i, chunk). text_segment i chunk)
                (enumerate 1 (split_pieces (\<lambda>ch. ch = 10) max_chars text)))"

definition plain_text_parse :: "bytes \<Rightarrow> parse_error + parsed_document" where
  "plain_text_parse bs =
     try_bind (ok_or InvalidUtf8 (from_utf8 bs)) (\<lambda>text.
       Inr \<lparr>pd_title = None, pd_segments = split_plain_text text DEFAULT_MAX_SEGMENT_CHARS,
            pd_warnings = []\<rparr>)"

definition plain_text_parser :: document_parser where
  "plain_text_parser =
     \<lparr>dp_parser_id = lit ''plain-text-v1'', dp_parser_version = lit ''1'',
      dp_supports = (\<lambda>d. dd_file_type d = PlainText), dp_parse = plain_text_parse\<rparr>"

text \<open>The UNIQUE constraints of the \<open>segments\<close> table, for the segments of one revision.\<close>

definition well_numbered :: "parsed_segment list \<Rightarrow> bool" where
  "well_numbered segs \<longleftrightarrow>
     distinct (map ps_anchor segs) \<and> map ps_ordinal segs = [0..<length segs]"

locale segment_source =
  fixes parse :: "bytes \<Rightarrow> parse_error + parsed_document"
  assumes well_numbered: "parse bs = Inr d \<Longrightarrow> well_numbered (pd_segments d)"
begin

lemma anchors_distinct: "parse bs = Inr d \<Longrightarrow> distinct (map ps_anchor (pd_segments d))"
  using well_numbered by (auto simp: well_numbered_def)

lemma ordinals_distinct: "parse bs = Inr d \<Longrightarrow> distinct (map ps_ordinal (pd_segments d))"
  using well_numbered by (fastforce simp: well_numbered_def)

end

lemma split_plain_text_pieces:
  "split_plain_text t m =
    (let m = max m 1
     in map (\<lambda>(i, chunk). text_segment i chunk)
          (enumerate 1 (if t = [] then [[]] else split_pieces (\<lambda>ch. ch = 10) m t)))"
proof -
  have "split_pieces (\<lambda>ch. ch = 10) m' t = [t]" if "t \<noteq> []" "length t \<le> m'" for m'
    using that by (subst split_pieces.simps) (cases m'; auto simp: piece_end_def split_pieces.simps)
  then show ?thesis by (auto simp: split_plain_text_def Let_def simp del: One_nat_def)
qed

lemma text_segments_well_numbered:
  "well_numbered (map (\<lambda>(i, chunk). text_segment i chunk) (enumerate 1 ps))"
proof -
  have "map ps_anchor (map (\<lambda>(i, chunk). text_segment i chunk) (enumerate n ps))
      = map (\<lambda>i. lit ''text:'' @ show_nat i) [n..<n + length ps]" for n
    by (induction ps arbitrary: n) (auto simp: text_segment_def upt_rec)
  moreover have "map ps_ordinal (map (\<lambda>(i, chunk). text_segment i chunk) (enumerate (Suc n) ps))
      = [n..<n + length ps]" for n
    by (induction ps arbitrary: n) (auto simp: text_segment_def upt_rec)
  ultimately show ?thesis
    by (simp add: well_numbered_def distinct_map inj_on_def)
qed

interpretation plain_text: segment_source plain_text_parse
  by unfold_locales
    (auto simp: plain_text_parse_def split_plain_text_pieces Let_def ok_or_def
      text_segments_well_numbered split: option.splits simp del: One_nat_def)

lemma texts_of_text_segments:
  "map ps_text (map (\<lambda>(i, chunk). text_segment i chunk) (enumerate n ps)) = ps"
  by (induction ps arbitrary: n) (auto simp: text_segment_def)

text \<open>
  Plain text is split without loss: the segment texts concatenate to the input, each has at
  most \<open>max_chars\<close> characters, all but the last are full or end at a line break, and only the empty
  input gives an empty segment.
\<close>

theorem split_plain_text_lossless:
  fixes t :: ustring and m :: nat
  assumes "0 < m"
  defines "texts \<equiv> map ps_text (split_plain_text t m)"
  shows "concat texts = t \<and> texts \<noteq> [] \<and> (\<forall>p \<in> set texts. length p \<le> m \<and> (p = [] \<longrightarrow> t = []))
    \<and> (\<forall>p \<in> set (butlast texts). length p = m \<or> last p = 10)"
proof -
  let ?ps = "if t = [] then [[]] else split_pieces (\<lambda>ch. ch = 10) m t"
  have texts: "texts = ?ps"
    unfolding texts_def split_plain_text_pieces Let_def texts_of_text_segments
    using assms(1) by (simp add: max_absorb1 Suc_le_eq)
  show ?thesis
  proof (cases "t = []")
    case True
    then show ?thesis using texts by simp
  next
    case False
    then have "split_pieces (\<lambda>ch. ch = 10) m t \<noteq> []"
      using concat_split_pieces [OF assms(1)] by (metis concat.simps(1))
    then show ?thesis
      using texts False concat_split_pieces [OF assms(1)] split_pieces_bounds [OF assms(1)]
        split_pieces_breaks [OF assms(1), of _ "\<lambda>ch. ch = 10" t] by auto
  qed
qed

theorem split_plain_text_lossless_witness:
  "concat (map ps_text (split_plain_text (lit ''ab'' @ [10] @ lit ''cd'') 4)) = lit ''ab'' @ [10] @ lit ''cd''"
  using split_plain_text_lossless [of 4 "lit ''ab'' @ [10] @ lit ''cd''"] by simp

end
