(* ===== verification/Markdown.thy ===== *)
theory Markdown
  imports Parsing
begin

text \<open>
  \<open>parsing/markdown.rs\<close>: the event-driven Markdown parser. The event stream of \<open>pulldown-cmark\<close>
  is a parameter (\<open>events_of\<close>, a function of the body text); \<open>md_event\<close> has the events, tags and
  end tags the source tells apart, and \<open>md_state\<close> is \<open>MarkdownParseState\<close> field by field (the
  anchor counters \<open>HashMap\<close> as a map). Every handler is a definition of its own.

  The invariant \<open>md_inv\<close> says what the anchors already issued look like; it makes the parser a
  \<open>segment_source\<close>, whatever events arrive.
\<close>

definition MAX_SEGMENT_CHARS :: nat where "MAX_SEGMENT_CHARS = 8192"

datatype md_tag =
  TagHeading nat | TagParagraph | TagBlockQuote | TagList | TagItem
| TagCodeBlock "ustring option" \<comment> \<open>\<open>Fenced(lang)\<close> or \<open>Indented\<close>\<close>
| TagTable | TagTableCell | TagLink ustring | TagOther

datatype md_tag_end =
  EndHeading | EndParagraph | EndBlockQuote | EndList | EndItem | EndCodeBlock | EndTable
| EndTableHead | EndTableRow | EndLink | EndOther

datatype md_event =
  Start md_tag | End md_tag_end | TextEvent ustring | CodeEvent ustring
| SoftBreak | HardBreak | RuleEvent | IgnoredEvent

record md_state =
  md_segments :: "parsed_segment list"
  md_warnings :: "parser_warning list"
  md_title :: "ustring option"
  md_ordinal :: nat
  md_anchors :: "ustring \<rightharpoonup> nat"
  md_heading_stack :: "(nat \<times> ustring) list"
  md_text_buf :: ustring
  md_blockquote_buf :: ustring
  md_list_buf :: ustring
  md_code_buf :: ustring
  md_code_lang :: ustring
  md_table_buf :: ustring
  md_link_texts :: "(ustring \<times> ustring) list"
  md_in_heading :: bool
  md_heading_level :: nat
  md_in_paragraph :: bool
  md_in_blockquote :: bool
  md_in_list :: bool
  md_in_item :: bool
  md_in_code :: bool
  md_in_table :: bool
  md_paragraph_count :: nat
  md_list_count :: nat
  md_quote_count :: nat
  md_code_count :: nat
  md_table_count :: nat

definition md_init :: md_state where
  "md_init = \<lparr>md_segments = [], md_warnings = [], md_title = None, md_ordinal = 0,
     md_anchors = Map.empty, md_heading_stack = [], md_text_buf = [], md_blockquote_buf = [],
     md_list_buf = [], md_code_buf = [], md_code_lang = [], md_table_buf = [], md_link_texts = [],
     md_in_heading = False, md_heading_level = 1, md_in_paragraph = False,
     md_in_blockquote = False, md_in_list = False, md_in_item = False, md_in_code = False,
     md_in_table = False, md_paragraph_count = 0, md_list_count = 0, md_quote_count = 0,
     md_code_count = 0, md_table_count = 0\<rparr>"

subsection \<open>Slugs and splitting\<close>

definition slug_step :: "uchar \<Rightarrow> ustring \<times> bool \<Rightarrow> ustring \<times> bool" where
  "slug_step ch st = (case st of (slug, previous_dash) \<Rightarrow>
     if is_ascii_alphanumeric ch then (slug @ [to_ascii_lowercase ch], False)
     else if \<not> previous_dash \<and> slug \<noteq> [] then (slug @ [45], True)
     else (slug, previous_dash))"

definition slugify :: "ustring \<Rightarrow> ustring" where
  "slugify input =
     (let slug = trim_end_matches (\<lambda>c. c = 45) (fst (fold slug_step input ([], False)))
      in if slug = [] then lit ''section'' else slug)"

definition split_oversized :: "ustring \<Rightarrow> nat \<Rightarrow> ustring list" where
  "split_oversized text max_chars =
     (let max_chars = max max_chars 1
      in if length text \<le> max_chars then [text]
         else split_pieces (\<lambda>ch. ch = 10 \<or> ch = 32) max_chars text)"

subsection \<open>Operations of the parse state\<close>

definition anchor_name :: "ustring \<Rightarrow> nat \<Rightarrow> ustring" where
  "anchor_name base n = (if n = 1 then base else base @ [126] @ show_nat n)"

definition push :: "segment_type \<Rightarrow> ustring \<Rightarrow> ustring \<Rightarrow> md_state \<Rightarrow> md_state" where
  "push segment_type base_anchor text s =
     (let n = (case md_anchors s base_anchor of None \<Rightarrow> 0 | Some n \<Rightarrow> n) + 1
      in s\<lparr>md_anchors := (md_anchors s)(base_anchor \<mapsto> n),
           md_segments := md_segments s @
             [\<lparr>ps_segment_type = segment_type, ps_anchor = anchor_name base_anchor n,
               ps_ordinal = md_ordinal s, ps_text = text\<rparr>],
           md_ordinal := md_ordinal s + 1\<rparr>)"

definition append_text :: "ustring \<Rightarrow> md_state \<Rightarrow> md_state" where
  "append_text value s =
     (if md_in_heading s \<or> md_in_paragraph s then s\<lparr>md_text_buf := md_text_buf s @ value\<rparr>
      else if md_in_blockquote s then s\<lparr>md_blockquote_buf := md_blockquote_buf s @ value\<rparr>
      else if md_in_item s then s\<lparr>md_list_buf := md_list_buf s @ value\<rparr>
      else if md_in_table s then s\<lparr>md_table_buf := md_table_buf s @ value\<rparr>
      else s)"

definition finish_heading :: "md_state \<Rightarrow> md_state" where
  "finish_heading s0 =
     (let heading_text = trim (md_text_buf s0);
          s = s0\<lparr>md_in_heading := False, md_text_buf := []\<rparr>
      in if heading_text = [] then s
         else
           let slug = slugify heading_text;
               stack = filter (\<lambda>(level, _). level < md_heading_level s) (md_heading_stack s)
                         @ [(md_heading_level s, slug)];
               s = s\<lparr>md_heading_stack := stack\<rparr>;
               path = join (lit ''/'') (map snd stack);
               s = (if md_title s = None \<and> md_heading_level s = 1
                    then push DocumentTitle (lit ''title:'' @ slug) heading_text
                           (s\<lparr>md_title := Some heading_text\<rparr>)
                    else s)
           in push Heading (lit ''heading:'' @ path) heading_text s)"

definition finish_paragraph :: "md_state \<Rightarrow> md_state" where
  "finish_paragraph s0 =
     (let paragraph = trim (md_text_buf s0);
          s = s0\<lparr>md_in_paragraph := False, md_text_buf := []\<rparr>
      in if paragraph = [] then s
         else
           let s = s\<lparr>md_paragraph_count := md_paragraph_count s + 1\<rparr>
           in fold (push Paragraph (lit ''paragraph:'' @ show_nat (md_paragraph_count s)))
                (split_oversized paragraph MAX_SEGMENT_CHARS) s)"

definition finish_blockquote :: "md_state \<Rightarrow> md_state" where
  "finish_blockquote s0 =
     (let quote = trim (md_blockquote_buf s0);
          s = s0\<lparr>md_in_blockquote := False, md_blockquote_buf := []\<rparr>
      in if quote = [] then s
         else
           let s = s\<lparr>md_quote_count := md_quote_count s + 1\<rparr>
           in push Blockquote (lit ''blockquote:'' @ show_nat (md_quote_count s)) quote s)"

definition finish_list :: "md_state \<Rightarrow> md_state" where
  "finish_list s0 =
     (let list = trim (md_list_buf s0);
          s = s0\<lparr>md_in_list := False, md_list_buf := []\<rparr>
      in if list = [] then s
         else
           let s = s\<lparr>md_list_count := md_list_count s + 1\<rparr>
           in push ListSegment (lit ''list:'' @ show_nat (md_list_count s)) list s)"

definition finish_code :: "md_state \<Rightarrow> md_state" where
  "finish_code s0 =
     (let s = s0\<lparr>md_in_code := False, md_code_count := md_code_count s0 + 1\<rparr>;
          lang = (if md_code_lang s = [] then lit ''text'' else slugify (md_code_lang s));
          code = trim_end_matches (\<lambda>c. c = 10) (md_code_buf s);
          s = s\<lparr>md_code_buf := [], md_code_lang := []\<rparr>
      in fold (push CodeFence (lit ''code-fence:'' @ lang @ lit '':'' @ show_nat (md_code_count s)))
           (split_oversized code MAX_SEGMENT_CHARS) s)"

definition finish_table :: "md_state \<Rightarrow> md_state" where
  "finish_table s0 =
     (let table = trim (md_table_buf s0);
          s = s0\<lparr>md_in_table := False, md_table_buf := []\<rparr>
      in if table = [] then s
         else
           let s = s\<lparr>md_table_count := md_table_count s + 1\<rparr>
           in push TableSegment (lit ''table:'' @ show_nat (md_table_count s)) table s)"

definition ends_with_newline :: "ustring \<Rightarrow> bool" where
  "ends_with_newline b \<longleftrightarrow> b \<noteq> [] \<and> last b = 10"

fun start_tag :: "md_tag \<Rightarrow> md_state \<Rightarrow> md_state" where
  "start_tag (TagHeading level) s =
     s\<lparr>md_in_heading := True, md_heading_level := level, md_text_buf := []\<rparr>"
| "start_tag TagParagraph s =
     (if \<not> md_in_list s \<and> \<not> md_in_blockquote s \<and> \<not> md_in_table s
      then s\<lparr>md_in_paragraph := True, md_text_buf := []\<rparr> else s)"
| "start_tag TagBlockQuote s = s\<lparr>md_in_blockquote := True, md_blockquote_buf := []\<rparr>"
| "start_tag TagList s = s\<lparr>md_in_list := True\<rparr>"
| "start_tag TagItem s =
     s\<lparr>md_in_item := True,
       md_list_buf := (if md_list_buf s \<noteq> [] then md_list_buf s @ [10] else md_list_buf s) @ lit ''- ''\<rparr>"
| "start_tag (TagCodeBlock kind) s =
     s\<lparr>md_in_code := True, md_code_buf := [],
       md_code_lang := (case kind of Some lang \<Rightarrow> lang | None \<Rightarrow> [])\<rparr>"
| "start_tag TagTable s = s\<lparr>md_in_table := True, md_table_buf := []\<rparr>"
| "start_tag TagTableCell s =
     (if md_in_table s \<and> md_table_buf s \<noteq> [] \<and> \<not> ends_with_newline (md_table_buf s)
      then s\<lparr>md_table_buf := md_table_buf s @ lit ''|''\<rparr> else s)"
| "start_tag (TagLink dest_url) s = s\<lparr>md_link_texts := md_link_texts s @ [([], dest_url)]\<rparr>"
| "start_tag TagOther s = s"

fun end_tag :: "md_tag_end \<Rightarrow> md_state \<Rightarrow> md_state" where
  "end_tag EndHeading s = finish_heading s"
| "end_tag EndParagraph s = (if md_in_paragraph s then finish_paragraph s else s)"
| "end_tag EndBlockQuote s = finish_blockquote s"
| "end_tag EndList s = finish_list s"
| "end_tag EndItem s = s\<lparr>md_in_item := False\<rparr>"
| "end_tag EndCodeBlock s = finish_code s"
| "end_tag EndTable s = finish_table s"
| "end_tag EndTableHead s =
     (if md_in_table s \<and> md_table_buf s \<noteq> []
      then s\<lparr>md_table_buf := md_table_buf s @ [10]\<rparr> else s)"
| "end_tag EndTableRow s =
     (if md_in_table s \<and> \<not> ends_with_newline (md_table_buf s)
      then s\<lparr>md_table_buf := md_table_buf s @ [10]\<rparr> else s)"
| "end_tag EndLink s =
     (if md_link_texts s = [] then s
      else case last (md_link_texts s) of (label, url) \<Rightarrow>
        append_text (if label = [] then url else label @ lit '' ('' @ url @ lit '')'')
          (s\<lparr>md_link_texts := butlast (md_link_texts s)\<rparr>))"
| "end_tag EndOther s = s"

definition text_or_code :: "ustring \<Rightarrow> md_state \<Rightarrow> md_state" where
  "text_or_code value s =
     (if md_in_code s then s\<lparr>md_code_buf := md_code_buf s @ value\<rparr>
      else if md_link_texts s \<noteq> [] then
        (case last (md_link_texts s) of (label, url) \<Rightarrow>
           s\<lparr>md_link_texts := butlast (md_link_texts s) @ [(label @ value, url)]\<rparr>)
      else append_text value s)"

fun handle_event :: "md_event \<Rightarrow> md_state \<Rightarrow> md_state" where
  "handle_event (Start tag) s = start_tag tag s"
| "handle_event (End tag) s = end_tag tag s"
| "handle_event (TextEvent value) s = text_or_code value s"
| "handle_event (CodeEvent value) s = text_or_code value s"
| "handle_event SoftBreak s = append_text (lit '' '') s"
| "handle_event HardBreak s = append_text (lit '' '') s"
| "handle_event RuleEvent s =
     s\<lparr>md_warnings := md_warnings s @
        [\<lparr>pw_code = lit ''thematic_break'',
          pw_message = lit ''thematic breaks are ignored as segments''\<rparr>]\<rparr>"
| "handle_event IgnoredEvent s = s"

subsection \<open>Front matter\<close>

definition fence :: ustring where "fence = lit ''---''"

definition closing_ok :: "ustring \<Rightarrow> bool" where
  "closing_ok closing \<longleftrightarrow> prefix [10] closing \<or> prefix [13, 10] closing \<or> closing = [] \<or> closing = [13]"

definition after_closing :: "ustring \<Rightarrow> ustring" where
  "after_closing closing =
     (case strip_prefix [13, 10] closing of
        Some b \<Rightarrow> b
      | None \<Rightarrow> (case strip_prefix [10] closing of Some b \<Rightarrow> b | None \<Rightarrow> closing))"

text \<open>The loop over \<open>rest.match_indices("\n---")\<close>; occurrences cannot overlap, so every position
  is tried in order. The first argument is the text before the current position.\<close>

fun find_closing :: "ustring \<Rightarrow> ustring \<Rightarrow> (ustring \<times> ustring) option" where
  "find_closing before [] = None"
| "find_closing before (c # cs) =
     (let closing = drop 4 (c # cs)
      in if prefix (10 # fence) (c # cs) \<and> closing_ok closing
         then Some (before, after_closing closing)
         else find_closing (before @ [c]) cs)"

definition split_frontmatter :: "ustring \<Rightarrow> ustring option \<times> ustring" where
  "split_frontmatter input =
     (case strip_prefix fence input of
        None \<Rightarrow> (None, input)
      | Some after \<Rightarrow>
          (case (if prefix [10] after then Some (drop 1 after)
                 else if prefix [13, 10] after then Some (drop 2 after) else None) of
             None \<Rightarrow> (None, input)
           | Some rest \<Rightarrow>
               (case find_closing [] rest of
                  None \<Rightarrow> (None, input)
                | Some (front, body) \<Rightarrow> (Some front, body))))"

definition frontmatter_title :: "ustring \<Rightarrow> ustring option" where
  "frontmatter_title frontmatter =
     (let values = map (\<lambda>v. trim_matches (\<lambda>c. c = 39) (trim_matches (\<lambda>c. c = 34) (trim v)))
            (List.map_filter (\<lambda>line. strip_prefix (lit ''title:'') (trim line)) (str_lines frontmatter))
      in find (\<lambda>v. v \<noteq> []) values)"

definition parse_markdown :: "(ustring \<Rightarrow> md_event list) \<Rightarrow> ustring \<Rightarrow> parsed_document" where
  "parse_markdown events_of input =
     (case split_frontmatter input of (frontmatter, body) \<Rightarrow>
        let s = (case frontmatter of
              None \<Rightarrow> md_init
            | Some fm \<Rightarrow>
                push Frontmatter (lit ''frontmatter'') fm
                  (case frontmatter_title fm of
                     None \<Rightarrow> md_init | Some t \<Rightarrow> md_init\<lparr>md_title := Some t\<rparr>));
            s = fold handle_event (events_of body) s;
            s = (if md_segments s = [] \<and> trim body \<noteq> []
                 then push Paragraph (lit ''paragraph:1'') (trim body) s else s)
        in \<lparr>pd_title = md_title s, pd_segments = md_segments s, pd_warnings = md_warnings s\<rparr>)"

definition markdown_parse :: "(ustring \<Rightarrow> md_event list) \<Rightarrow> bytes \<Rightarrow> parse_error + parsed_document" where
  "markdown_parse events_of bs =
     try_bind (ok_or InvalidUtf8 (from_utf8 bs)) (\<lambda>text. Inr (parse_markdown events_of text))"

definition markdown_parser :: "(ustring \<Rightarrow> md_event list) \<Rightarrow> document_parser" where
  "markdown_parser events_of =
     \<lparr>dp_parser_id = lit ''markdown-v1'', dp_parser_version = lit ''1'',
      dp_supports = (\<lambda>d. dd_file_type d = Markdown), dp_parse = markdown_parse events_of\<rparr>"

definition registry_with_defaults ::
    "(ustring \<Rightarrow> md_event list) \<Rightarrow> parse_error + parser_registry" where
  "registry_with_defaults events_of =
     try_bind (registry_register [] (markdown_parser events_of))
       (\<lambda>ps. registry_register ps plain_text_parser)"

subsection \<open>Slugs\<close>

definition slug_char :: "uchar \<Rightarrow> bool" where
  "slug_char c \<longleftrightarrow> 48 \<le> c \<and> c \<le> 57 \<or> 97 \<le> c \<and> c \<le> 122 \<or> c = 45"

text \<open>What the loop keeps: only slug characters, no dash in front, no two dashes in a row, and the
  flag says whether the last character is a dash.\<close>

definition slug_inv :: "ustring \<times> bool \<Rightarrow> bool" where
  "slug_inv st = (case st of (slug, d) \<Rightarrow>
     list_all slug_char slug \<and> (slug \<noteq> [] \<longrightarrow> hd slug \<noteq> 45) \<and> \<not> sublist [45, 45] slug
     \<and> (d \<longleftrightarrow> slug \<noteq> [] \<and> last slug = 45))"

lemma lower_alnum:
  "is_ascii_alphanumeric c \<Longrightarrow> slug_char (to_ascii_lowercase c) \<and> to_ascii_lowercase c \<noteq> 45"
  by (auto simp: is_ascii_alphanumeric_def slug_char_def to_ascii_lowercase_def)

lemma sublist_dashes_snoc:
  "sublist [45, 45] (s @ [c]) \<longleftrightarrow> sublist [45, 45] s \<or> c = 45 \<and> s \<noteq> [] \<and> last s = (45 :: nat)"
proof -
  have "suffix [45, 45] (s @ [c]) \<longleftrightarrow> (\<exists>zs. s @ [c] = (zs @ [45]) @ [45 :: nat])"
    by (simp add: suffix_def)
  also have "\<dots> \<longleftrightarrow> c = 45 \<and> s \<noteq> [] \<and> last s = 45"
    unfolding append1_eq_conv by (cases s rule: rev_cases) auto
  finally have "suffix [45, 45] (s @ [c]) \<longleftrightarrow> c = 45 \<and> s \<noteq> [] \<and> last s = (45 :: nat)" .
  then show ?thesis unfolding sublist_snoc by blast
qed

lemma slug_step_inv: "slug_inv st \<Longrightarrow> slug_inv (slug_step c st)"
  using lower_alnum [of c]
  by (cases st)
    (auto simp: slug_inv_def slug_step_def sublist_dashes_snoc slug_char_def [of 45] hd_append
      split: if_splits)

lemma slug_fold_inv: "slug_inv st \<Longrightarrow> slug_inv (fold slug_step cs st)"
  by (induction cs arbitrary: st) (simp_all add: slug_step_inv)

lemma trim_end_prefix: "prefix (trim_end_matches P s) s"
proof -
  have "s = rev (dropWhile P (rev s)) @ rev (takeWhile P (rev s))"
    by (metis rev_append rev_rev_ident takeWhile_dropWhile_id)
  then show ?thesis unfolding trim_end_matches_def by (metis prefixI)
qed

lemma trim_end_last: "trim_end_matches P s \<noteq> [] \<Longrightarrow> \<not> P (last (trim_end_matches P s))"
  using hd_dropWhile [of P "rev s"] by (simp add: trim_end_matches_def last_rev)

lemma slugify_shape:
  "list_all slug_char (slugify t) \<and> slugify t \<noteq> [] \<and> hd (slugify t) \<noteq> 45 \<and> last (slugify t) \<noteq> 45
   \<and> \<not> sublist [45, 45] (slugify t)"
proof -
  obtain slug d where f: "fold slug_step t ([], False) = (slug, d)" by fastforce
  have inv: "slug_inv (slug, d)"
    using slug_fold_inv [of "([], False)" t] f by (simp add: slug_inv_def)
  let ?r = "trim_end_matches (\<lambda>c. c = 45) slug"
  show ?thesis
  proof (cases "?r = []")
    case True
    then have "slugify t = lit ''section''" using f by (simp add: slugify_def)
    then show ?thesis by (simp add: lit_def slug_char_def sublist_Cons_right)
  next
    case False
    then obtain z where z: "slug = ?r @ z" using trim_end_prefix prefixE by metis
    have "list_all slug_char slug" "hd slug \<noteq> 45" "\<not> sublist [45, 45] slug"
      using inv False z by (auto simp: slug_inv_def)
    moreover have "sublist ?r slug" using trim_end_prefix by (rule prefix_imp_sublist)
    moreover have "hd slug = hd ?r" using z False by (metis hd_append2)
    moreover have "set ?r \<subseteq> set slug" using z by (metis Un_iff set_append subsetI)
    ultimately have "list_all slug_char ?r" "hd ?r \<noteq> 45" "\<not> sublist [45, 45] ?r"
      using sublist_order.order.trans [of "[45, 45]" ?r slug] by (auto simp: list_all_iff)
    then show ?thesis
      using False trim_end_last [OF False] f by (simp add: slugify_def)
  qed
qed

lemma slugify_no_tilde: "126 \<notin> set (slugify t)"
  using slugify_shape [of t] by (auto simp: list_all_iff slug_char_def)

subsection \<open>Anchors stay distinct\<close>

lemma append_tilde_eq:
  "126 \<notin> set b \<Longrightarrow> 126 \<notin> set b' \<Longrightarrow> b @ 126 # x = b' @ 126 # y \<Longrightarrow> b = b' \<and> x = (y :: ustring)"
proof (induction b arbitrary: b')
  case Nil
  then show ?case by (cases b') auto
next
  case (Cons c b)
  then show ?case by (cases b') auto
qed

lemma anchor_name_inj:
  assumes "126 \<notin> set b" "126 \<notin> set b'" "anchor_name b k = anchor_name b' k'" "1 \<le> k" "1 \<le> k'"
  shows "b = b' \<and> k = k'"
proof (cases "k = 1 \<or> k' = 1")
  case True
  with assms(1-3) show ?thesis by (auto simp: anchor_name_def split: if_splits)
next
  case False
  with assms(3) have "b @ 126 # show_nat k = b' @ 126 # show_nat k'" by (simp add: anchor_name_def)
  from append_tilde_eq [OF assms(1,2) this] show ?thesis by simp
qed

definition issued :: "(ustring \<rightharpoonup> nat) \<Rightarrow> ustring set" where
  "issued m = {a. \<exists>b k n. a = anchor_name b k \<and> m b = Some n \<and> 1 \<le> k \<and> k \<le> n}"

definition md_inv :: "md_state \<Rightarrow> bool" where
  "md_inv s \<longleftrightarrow> well_numbered (md_segments s) \<and> md_ordinal s = length (md_segments s)
     \<and> set (map ps_anchor (md_segments s)) \<subseteq> issued (md_anchors s)
     \<and> (\<forall>b \<in> dom (md_anchors s). 126 \<notin> set b)
     \<and> (\<forall>(level, part) \<in> set (md_heading_stack s). 126 \<notin> set part)"

lemma md_inv_frame [simp]:
  "md_inv (s\<lparr>md_warnings := w\<rparr>) = md_inv s" "md_inv (s\<lparr>md_title := t\<rparr>) = md_inv s"
  "md_inv (s\<lparr>md_text_buf := b\<rparr>) = md_inv s" "md_inv (s\<lparr>md_blockquote_buf := b\<rparr>) = md_inv s"
  "md_inv (s\<lparr>md_list_buf := b\<rparr>) = md_inv s" "md_inv (s\<lparr>md_code_buf := b\<rparr>) = md_inv s"
  "md_inv (s\<lparr>md_code_lang := b\<rparr>) = md_inv s" "md_inv (s\<lparr>md_table_buf := b\<rparr>) = md_inv s"
  "md_inv (s\<lparr>md_link_texts := l\<rparr>) = md_inv s" "md_inv (s\<lparr>md_in_heading := f\<rparr>) = md_inv s"
  "md_inv (s\<lparr>md_heading_level := n\<rparr>) = md_inv s" "md_inv (s\<lparr>md_in_paragraph := f\<rparr>) = md_inv s"
  "md_inv (s\<lparr>md_in_blockquote := f\<rparr>) = md_inv s" "md_inv (s\<lparr>md_in_list := f\<rparr>) = md_inv s"
  "md_inv (s\<lparr>md_in_item := f\<rparr>) = md_inv s" "md_inv (s\<lparr>md_in_code := f\<rparr>) = md_inv s"
  "md_inv (s\<lparr>md_in_table := f\<rparr>) = md_inv s" "md_inv (s\<lparr>md_paragraph_count := n\<rparr>) = md_inv s"
  "md_inv (s\<lparr>md_list_count := n\<rparr>) = md_inv s" "md_inv (s\<lparr>md_quote_count := n\<rparr>) = md_inv s"
  "md_inv (s\<lparr>md_code_count := n\<rparr>) = md_inv s" "md_inv (s\<lparr>md_table_count := n\<rparr>) = md_inv s"
  by (simp_all add: md_inv_def)

lemma md_inv_init [simp]: "md_inv md_init"
  by (simp add: md_inv_def md_init_def well_numbered_def)

lemma push_inv [intro]:
  assumes inv: "md_inv s" and base: "126 \<notin> set base"
  shows "md_inv (push ty base t s)"
proof -
  let ?m = "md_anchors s"
  let ?n = "(case ?m base of None \<Rightarrow> 0 | Some n \<Rightarrow> n) + 1"
  have new: "anchor_name base ?n \<notin> issued ?m"
  proof
    assume "anchor_name base ?n \<in> issued ?m"
    then obtain b k n where b: "anchor_name base ?n = anchor_name b k" "?m b = Some n" "1 \<le> k" "k \<le> n"
      by (auto simp: issued_def)
    then have "126 \<notin> set b" using inv by (auto simp: md_inv_def)
    then have "base = b" "?n = k" using anchor_name_inj [OF base _ b(1)] b(3) by auto
    with b(2,4) show False by simp
  qed
  have grows: "issued ?m \<subseteq> issued (?m(base \<mapsto> ?n))"
  proof
    fix a assume "a \<in> issued ?m"
    then obtain b k n where b: "a = anchor_name b k" "?m b = Some n" "1 \<le> k" "k \<le> n"
      by (auto simp: issued_def)
    then have "\<exists>n'. (?m(base \<mapsto> ?n)) b = Some n' \<and> k \<le> n'" by (cases "b = base") auto
    with b show "a \<in> issued (?m(base \<mapsto> ?n))" unfolding issued_def by blast
  qed
  have "anchor_name base ?n \<in> issued (?m(base \<mapsto> ?n))"
    unfolding issued_def by auto
  with inv new grows base show ?thesis
    by (auto simp: md_inv_def push_def Let_def well_numbered_def)
qed

lemma fold_push_inv [intro]:
  "md_inv s \<Longrightarrow> 126 \<notin> set base \<Longrightarrow> md_inv (fold (push ty base) ps s)"
  by (induction ps arbitrary: s) (simp_all add: push_inv)

lemma show_nat_no_tilde [simp]: "126 \<notin> set (show_nat n)"
  using show_nat_digits [of n] by (auto simp: list_all_iff is_ascii_digit_def)

lemma lit_no_tilde [simp]: "126 \<in> set (lit t) \<longleftrightarrow> CHR ''~'' \<in> set t"
proof -
  have "(126 :: nat) = of_char (CHR ''~'')" by simp
  then show ?thesis unfolding lit_def set_map by (metis image_iff of_char_eq_iff)
qed

lemma append_text_inv [simp]: "md_inv (append_text v s) = md_inv s"
  by (simp add: append_text_def)

lemma finish_heading_inv: "md_inv s \<Longrightarrow> md_inv (finish_heading s)"
proof -
  assume inv: "md_inv s"
  let ?slug = "slugify (trim (md_text_buf s))"
  let ?stack = "filter (\<lambda>(level, _). level < md_heading_level s) (md_heading_stack s)
      @ [(md_heading_level s, ?slug)]"
  have stack: "\<forall>(level, part) \<in> set ?stack. 126 \<notin> set part"
    using inv slugify_no_tilde by (auto simp: md_inv_def)
  then have path: "126 \<notin> set (join (lit ''/'') (map snd ?stack))"
    using set_join [of "lit ''/''" "map snd ?stack"] by (fastforce simp: lit_def)
  have "md_inv (s\<lparr>md_heading_stack := ?stack\<rparr>)"
    using inv stack by (simp add: md_inv_def)
  moreover have "md_inv (s\<lparr>md_in_heading := f, md_text_buf := b, md_heading_stack := st\<rparr>)
      = md_inv (s\<lparr>md_heading_stack := st\<rparr>)" for f b st
    by (simp add: md_inv_def)
  ultimately show ?thesis
    using inv path slugify_no_tilde
    by (auto simp: finish_heading_def Let_def simp del: join.simps intro!: push_inv)
qed

lemma finish_inv:
  assumes "md_inv s"
  shows "md_inv (finish_paragraph s)" "md_inv (finish_blockquote s)" "md_inv (finish_list s)"
    "md_inv (finish_code s)" "md_inv (finish_table s)"
  using assms slugify_no_tilde
  by (auto simp: finish_paragraph_def finish_blockquote_def finish_list_def finish_code_def
      finish_table_def Let_def intro!: push_inv fold_push_inv)

lemma start_tag_inv [simp]: "md_inv (start_tag t s) = md_inv s"
  by (cases t) (simp_all add: md_inv_def)

lemma end_tag_inv: "md_inv s \<Longrightarrow> md_inv (end_tag t s)"
  by (cases t) (simp_all add: finish_heading_inv finish_inv split: prod.splits)

lemma handle_event_inv: "md_inv s \<Longrightarrow> md_inv (handle_event e s)"
  by (cases e) (simp_all add: end_tag_inv text_or_code_def split: prod.splits)

lemma fold_handle_event_inv: "md_inv s \<Longrightarrow> md_inv (fold handle_event es s)"
  by (induction es arbitrary: s) (simp_all add: handle_event_inv)

lemma parse_markdown_well_numbered: "well_numbered (pd_segments (parse_markdown events_of input))"
proof -
  obtain fm body where split: "split_frontmatter input = (fm, body)" by fastforce
  let ?s0 = "case fm of None \<Rightarrow> md_init
      | Some fm \<Rightarrow> push Frontmatter (lit ''frontmatter'') fm
          (case frontmatter_title fm of None \<Rightarrow> md_init | Some t \<Rightarrow> md_init\<lparr>md_title := Some t\<rparr>)"
  have "md_inv ?s0" by (auto split: option.splits intro!: push_inv)
  then have "md_inv (fold handle_event (events_of body) ?s0)" by (rule fold_handle_event_inv)
  then show ?thesis
    using push_inv [of "fold handle_event (events_of body) ?s0" "lit ''paragraph:1''"]
    by (auto simp: parse_markdown_def split Let_def md_inv_def)
qed

interpretation markdown: segment_source "markdown_parse events_of" for events_of
  by unfold_locales
    (auto simp: markdown_parse_def ok_or_def parse_markdown_well_numbered split: option.splits)

text \<open>
  C13. Whatever events the Markdown library emits, the segments of a document satisfy the two
  UNIQUE constraints of the \<open>segments\<close> table: anchors are distinct, and the ordinals count up
  from zero.
\<close>

theorem markdown_segments_unique:
  "distinct (map ps_anchor (pd_segments (parse_markdown events_of input)))
   \<and> map ps_ordinal (pd_segments (parse_markdown events_of input))
       = [0..<length (pd_segments (parse_markdown events_of input))]"
  using parse_markdown_well_numbered by (auto simp: well_numbered_def)

lemma slug_fold_id:
  "list_all slug_char s \<Longrightarrow> (s \<noteq> [] \<longrightarrow> hd s \<noteq> 45) \<Longrightarrow> \<not> sublist [45, 45] s \<Longrightarrow>
    fold slug_step s ([], False) = (s, s \<noteq> [] \<and> last s = 45)"
proof (induction s rule: rev_induct)
  case Nil
  then show ?case by simp
next
  case (snoc c s)
  then have "list_all slug_char s" "s \<noteq> [] \<longrightarrow> hd s \<noteq> 45" "\<not> sublist [45, 45] s"
    unfolding sublist_dashes_snoc by (cases s; simp)+
  then have IH: "fold slug_step s ([], False) = (s, s \<noteq> [] \<and> last s = 45)"
    by (rule snoc.IH)
  have "c = 45 \<longrightarrow> s \<noteq> [] \<and> last s \<noteq> 45"
    using snoc.prems(2,3) unfolding sublist_dashes_snoc by (cases s; simp)
  moreover have "c \<noteq> 45 \<longrightarrow> is_ascii_alphanumeric c \<and> to_ascii_lowercase c = c"
    using snoc.prems(1)
    by (auto simp: slug_char_def is_ascii_alphanumeric_def to_ascii_lowercase_def)
  moreover have "\<not> is_ascii_alphanumeric 45" by (simp add: is_ascii_alphanumeric_def)
  ultimately show ?case
    using IH by (auto simp: slug_step_def [of c "(s, s \<noteq> [] \<and> last s = 45)"] slug_step_def [of c "(s, False)"]
        slug_step_def [of c "([], False)"])
qed

text \<open>
  A slug is non-empty, uses only lower-case letters, digits and dashes, neither starts nor
  ends with a dash nor holds two in a row, and slugifying it again changes nothing.
\<close>

theorem slugify_canonical:
  "list_all slug_char (slugify t) \<and> slugify t \<noteq> [] \<and> hd (slugify t) \<noteq> 45
   \<and> last (slugify t) \<noteq> 45 \<and> \<not> sublist [45, 45] (slugify t)
   \<and> slugify (slugify t) = slugify t"
proof -
  let ?s = "slugify t"
  note shape = slugify_shape [of t]
  have "fold slug_step ?s ([], False) = (?s, False)"
    using slug_fold_id [of ?s] shape by auto
  moreover have "trim_end_matches (\<lambda>c. c = 45) ?s = ?s"
    using shape by (cases ?s rule: rev_cases) (auto simp: trim_end_matches_def)
  ultimately have "slugify ?s = ?s" using shape by (simp add: slugify_def [of ?s] Let_def)
  with shape show ?thesis by blast
qed

lemma find_closing_Some:
  "find_closing before rest = Some (front, body) \<Longrightarrow>
    \<exists>mid closing. front = before @ mid \<and> rest = mid @ 10 # fence @ closing
      \<and> closing_ok closing \<and> body = after_closing closing
      \<and> (\<forall>k < length mid. \<not> (prefix (10 # fence) (drop k rest) \<and> closing_ok (drop (k + 4) rest)))"
proof (induction before rest rule: find_closing.induct)
  case (1 before)
  then show ?case by simp
next
  case (2 before c cs)
  let ?here = "prefix (10 # fence) (c # cs) \<and> closing_ok (drop 4 (c # cs))"
  show ?case
  proof (cases ?here)
    case True
    then have "c # cs = 10 # fence @ drop 4 (c # cs)"
      by (auto simp: prefix_def fence_def lit_def)
    moreover have "front = before" "body = after_closing (drop 4 (c # cs))"
      using "2.prems" True by (simp_all add: Let_def)
    ultimately show ?thesis
      using True by (intro exI [of _ "[]"] exI [of _ "drop 4 (c # cs)"]) simp
  next
    case False
    then have "find_closing (before @ [c]) cs = Some (front, body)"
      using "2.prems" by (auto simp: Let_def split: if_splits)
    with "2.IH" False obtain mid closing where
      m: "front = (before @ [c]) @ mid" "cs = mid @ 10 # fence @ closing"
        "closing_ok closing" "body = after_closing closing"
      and first: "\<forall>k < length mid. \<not> (prefix (10 # fence) (drop k cs) \<and> closing_ok (drop (k + 4) cs))"
      by (auto simp: Let_def)
    have "\<forall>k < length (c # mid).
        \<not> (prefix (10 # fence) (drop k (c # cs)) \<and> closing_ok (drop (k + 4) (c # cs)))"
    proof (intro allI impI)
      fix k assume "k < length (c # mid)"
      then show "\<not> (prefix (10 # fence) (drop k (c # cs)) \<and> closing_ok (drop (k + 4) (c # cs)))"
        using False first by (cases k) (auto simp: drop_Cons' add.commute simp flip: numeral_eq_Suc)
    qed
    with m show ?thesis by (intro exI [of _ "c # mid"] exI [of _ closing]) auto
  qed
qed

text \<open>
  Front matter is taken apart without loss: either there is none and the body is the whole
  input, or the input is the opening fence, the front matter, the first closing fence line after
  it and the rest, of which the body is all but the line end.
\<close>

theorem split_frontmatter_spec:
  "case split_frontmatter input of
     (None, body) \<Rightarrow> body = input
   | (Some front, body) \<Rightarrow>
       \<exists>nl \<in> {[10], [13, 10]}. \<exists>closing.
         input = fence @ nl @ front @ 10 # fence @ closing
         \<and> closing_ok closing \<and> body = after_closing closing
         \<and> list_all (\<lambda>k. \<not> (prefix (10 # fence) (drop k (front @ 10 # fence @ closing))
                          \<and> closing_ok (drop (k + 4) (front @ 10 # fence @ closing))))
             [0..<length front]"
proof (cases "fst (split_frontmatter input)")
  case None
  then show ?thesis
    by (auto simp: split_frontmatter_def split: option.splits prod.splits if_splits)
next
  case (Some front)
  obtain body where sp: "split_frontmatter input = (Some front, body)"
    using Some by (metis prod.collapse)
  then obtain after nl where a: "input = fence @ after" "nl \<in> {[10], [13, 10]}" "prefix nl after"
      "find_closing [] (drop (length nl) after) = Some (front, body)"
    by (fastforce simp: split_frontmatter_def strip_prefix_def prefix_def numeral_2_eq_2
        split: option.splits prod.splits if_splits)
  from find_closing_Some [OF a(4)] obtain closing where
    c: "drop (length nl) after = front @ 10 # fence @ closing" "closing_ok closing"
      "body = after_closing closing"
    and first: "\<forall>k < length front. \<not> (prefix (10 # fence) (drop k (front @ 10 # fence @ closing))
        \<and> closing_ok (drop (k + 4) (front @ 10 # fence @ closing)))"
    unfolding append_Nil by metis
  have "input = fence @ nl @ front @ 10 # fence @ closing"
    using a(1,3) c(1) by (metis append_eq_conv_conj prefix_def)
  then show ?thesis using sp a(2) c(2,3) first by (auto simp: list_all_iff simp del: drop_append)
qed

text \<open>Oversized paragraphs and code blocks are split without loss too.\<close>

lemma split_oversized_lossless:
  "0 < m \<Longrightarrow> concat (split_oversized t m) = t \<and> (\<forall>p \<in> set (split_oversized t m). length p \<le> m)"
  using concat_split_pieces [of "max m 1" _ t] split_pieces_bounds [of "max m 1"]
  by (auto simp: split_oversized_def Let_def)

lemma registry_with_defaults:
  "registry_with_defaults events_of = Inr [markdown_parser events_of, plain_text_parser]"
  by (simp add: registry_with_defaults_def registry_register_def markdown_parser_def
      plain_text_parser_def lit_def)

lemma registry_select_defaults:
  "registry_select [markdown_parser events_of, plain_text_parser] d
     = Some (if dd_file_type d = Markdown then markdown_parser events_of else plain_text_parser)"
  by (cases "dd_file_type d")
    (simp_all add: registry_select_def markdown_parser_def plain_text_parser_def)

end
