(* ===== verification/Paths.thy ===== *)
theory Paths
  imports Domain
begin

text \<open>
  \<open>std::path\<close> on Unix, as far as the source uses it, and the file system the program observes.
  A path is its text; \<open>components\<close> is the iterator of the same name, and paths are compared,
  stripped and joined by components as the library does. The file system is a parameter: the
  record \<open>fs\<close> holds what each system call returns.
\<close>

datatype component = RootDir | CurDir | ParentDir | Normal ustring

fun component_key :: "component \<Rightarrow> nat \<times> ustring" where
  "component_key RootDir = (0, [])"
| "component_key CurDir = (1, [])"
| "component_key ParentDir = (2, [])"
| "component_key (Normal s) = (3, s)"

lemma component_key_inj: "component_key a = component_key b \<longleftrightarrow> a = b"
  by (cases a; cases b) auto

text \<open>The derived order of Rust's \<open>Component\<close>.\<close>

instantiation component :: linorder
begin

definition less_eq_component :: "component \<Rightarrow> component \<Rightarrow> bool" where
  "less_eq_component a b \<longleftrightarrow> fst (component_key a) < fst (component_key b)
     \<or> fst (component_key a) = fst (component_key b) \<and> snd (component_key a) \<le> snd (component_key b)"

definition less_component :: "component \<Rightarrow> component \<Rightarrow> bool" where
  "less_component a b \<longleftrightarrow> fst (component_key a) < fst (component_key b)
     \<or> fst (component_key a) = fst (component_key b) \<and> snd (component_key a) < snd (component_key b)"

instance
  by standard
    (auto simp: less_eq_component_def less_component_def component_key_inj [symmetric] prod_eq_iff)

end

definition slash :: uchar where "slash = 47"

definition is_absolute :: "path \<Rightarrow> bool" where
  "is_absolute p \<longleftrightarrow> p \<noteq> [] \<and> hd p = slash"

fun piece_component :: "ustring \<Rightarrow> component" where
  "piece_component s = (if s = [46, 46] then ParentDir else Normal s)"

definition components :: "path \<Rightarrow> component list" where
  "components p =
     (let pieces = split_on (\<lambda>c. c = slash) p
      in (if is_absolute p then [RootDir] else if hd pieces = [46] then [CurDir] else [])
         @ map piece_component (filter (\<lambda>s. s \<noteq> [] \<and> s \<noteq> [46]) pieces))"

fun as_os_str :: "component \<Rightarrow> ustring" where
  "as_os_str RootDir = [slash]"
| "as_os_str CurDir = [46]"
| "as_os_str ParentDir = [46, 46]"
| "as_os_str (Normal s) = s"

text \<open>Joining the texts of the components, as \<open>relative_to_match_str\<close> and the retrieval filters do;
  \<open>path_of_components\<close> is the text of a relative path rebuilt from its components.\<close>

definition path_of_components :: "component list \<Rightarrow> path" where
  "path_of_components cs = join [slash] (map as_os_str cs)"

definition path_join :: "path \<Rightarrow> path \<Rightarrow> path" where
  "path_join base p =
     (if is_absolute p then p
      else base @ (if base \<noteq> [] \<and> last base \<noteq> slash then [slash] else []) @ p)"

definition path_starts_with :: "path \<Rightarrow> path \<Rightarrow> bool" where
  "path_starts_with p base \<longleftrightarrow> prefix (components base) (components p)"

text \<open>\<open>Path::strip_prefix\<close>. The result is written with single separators; the library keeps the
  original text of the remainder, which has the same components.\<close>

definition path_strip_prefix :: "path \<Rightarrow> path \<Rightarrow> path option" where
  "path_strip_prefix p base =
     (if path_starts_with p base
      then Some (path_of_components (drop (length (components base)) (components p))) else None)"

definition path_cmp :: "path \<Rightarrow> path \<Rightarrow> ordering" where
  "path_cmp p q = cmp (components p) (components q)"

definition file_name :: "path \<Rightarrow> ustring option" where
  "file_name p = (case rev (components p) of Normal s # _ \<Rightarrow> Some s | _ \<Rightarrow> None)"

text \<open>\<open>Path::extension\<close>: what follows the last dot of the file name, none when there is no dot or
  nothing before it.\<close>

definition extension :: "path \<Rightarrow> ustring option" where
  "extension p =
     (case file_name p of
        None \<Rightarrow> None
      | Some f \<Rightarrow>
          (let pieces = split_on (\<lambda>c. c = 46) f
           in if length pieces = 1 \<or> length pieces = 2 \<and> hd pieces = [] then None
              else Some (last pieces)))"

subsection \<open>Safe relative paths\<close>

definition is_normal :: "component \<Rightarrow> bool" where
  "is_normal c = (case c of Normal _ \<Rightarrow> True | _ \<Rightarrow> False)"

definition is_parent_or_root :: "component \<Rightarrow> bool" where
  "is_parent_or_root c \<longleftrightarrow> c = ParentDir \<or> c = RootDir"

lemma split_on_append:
  "split_on P (s @ t) = butlast (split_on P s) @ (last (split_on P s) @ hd (split_on P t)) # tl (split_on P t)"
proof (induction s)
  case Nil
  then show ?case by simp
next
  case (Cons c s)
  show ?case
  proof (cases "split_on P s")
    case Nil
    then show ?thesis by simp
  next
    case (Cons w ws)
    with Cons.IH show ?thesis by (cases ws) auto
  qed
qed

lemma split_on_snoc_sep: "P c \<Longrightarrow> split_on P (s @ [c]) = split_on P s @ [[]]"
  by (simp add: split_on_append)

lemma components_empty [simp]: "components [] = []"
  by (simp add: components_def is_absolute_def)

text \<open>Joining a relative path without a leading dot appends its components.\<close>

lemma components_join:
  assumes "\<not> is_absolute p" "CurDir \<notin> set (components p)"
  shows "components (path_join base p) = components base @ components p"
proof -
  let ?sp = "split_on (\<lambda>c. c = slash)"
  let ?keep = "\<lambda>s :: ustring. s \<noteq> [] \<and> s \<noteq> [46]"
  have p: "components p = map piece_component (filter ?keep (?sp p))"
    using assms by (auto simp: components_def Let_def split: if_splits)
  show ?thesis
  proof (cases "base = []")
    case True
    with assms(1) show ?thesis by (simp add: path_join_def)
  next
    case False
    define b where "b = (if last base \<noteq> slash then base else butlast base)"
    have j: "path_join base p = b @ slash # p"
      using False assms(1) by (auto simp: path_join_def b_def) (metis append_butlast_last_id append_Cons append_Nil append_assoc)
    have "?sp (b @ slash # p) = ?sp b @ ?sp p"
      by (simp add: split_on_append [of _ b "slash # p"])
    moreover have "?sp base = ?sp b \<or> ?sp base = ?sp b @ [[]]"
      using False split_on_snoc_sep [of "\<lambda>c. c = slash" slash b]
      by (auto simp: b_def) (metis append_butlast_last_id)
    moreover have "is_absolute (b @ slash # p) = is_absolute base"
      using False by (cases base) (auto simp: is_absolute_def b_def hd_append)
    moreover have "hd (?sp (b @ slash # p)) = hd (?sp b)" "hd (?sp base) = hd (?sp b)"
      using calculation(1,2) by auto
    ultimately have "components (b @ slash # p) = components base @ map piece_component (filter ?keep (?sp p))"
      by (auto simp: components_def Let_def)
    then show ?thesis using j p by simp
  qed
qed

lemma components_path_of_normal:
  assumes "\<forall>c \<in> set cs. \<exists>s. c = Normal s \<and> s \<noteq> [] \<and> s \<noteq> [46] \<and> s \<noteq> [46, 46] \<and> slash \<notin> set s"
  shows "components (path_of_components cs) = cs"
proof (cases "cs = []")
  case True
  then show ?thesis by (simp add: path_of_components_def)
next
  case False
  let ?ws = "map as_os_str cs"
  have "split_on (\<lambda>c. c = slash) (join [slash] ?ws) = ?ws"
    using False assms by (intro split_on_join) fastforce+
  moreover have "filter (\<lambda>s. s \<noteq> [] \<and> s \<noteq> [46]) ?ws = ?ws"
    using assms by (fastforce simp: filter_id_conv)
  moreover have "map piece_component ?ws = cs"
    using assms by (induction cs) auto
  moreover have "hd ?ws \<noteq> [46]" "hd ?ws \<noteq> []" "slash \<notin> set (hd ?ws)"
    using False assms by (cases cs; fastforce)+
  then have "\<not> is_absolute (join [slash] ?ws)"
    using False by (cases cs rule: list.exhaust; cases "tl cs")
      (auto simp: is_absolute_def hd_append dest: hd_in_set)
  ultimately show ?thesis
    using \<open>hd ?ws \<noteq> [46]\<close> by (simp add: components_def path_of_components_def Let_def)
qed

text \<open>Normal components of a parsed path are never empty, dots or text with a slash.\<close>

lemma components_Normal:
  "Normal s \<in> set (components p) \<Longrightarrow> s \<noteq> [] \<and> s \<noteq> [46] \<and> s \<noteq> [46, 46] \<and> slash \<notin> set s"
  by (auto simp: components_def Let_def dest: split_on_no_sep split: if_splits)

subsection \<open>The file system\<close>

datatype file_kind = RegularFile | Directory | Symlink | BlockDevice | CharDevice | Fifo | Socket

record metadata =
  m_kind :: file_kind
  m_len :: nat
  m_modified :: "ustring + int" \<comment> \<open>\<open>modified()\<close>: an I/O error or a \<open>SystemTime\<close>\<close>

record fs =
  fs_symlink_metadata :: "path \<Rightarrow> ustring + metadata" \<comment> \<open>does not follow links\<close>
  fs_metadata :: "path \<Rightarrow> ustring + metadata"         \<comment> \<open>follows links\<close>
  fs_canonicalize :: "path \<Rightarrow> ustring + path"

definition fs_exists :: "fs \<Rightarrow> path \<Rightarrow> bool" where
  "fs_exists fs p = is_ok (fs_metadata fs p)"

definition fs_is_file :: "fs \<Rightarrow> path \<Rightarrow> bool" where
  "fs_is_file fs p = (case fs_metadata fs p of Inr m \<Rightarrow> m_kind m = RegularFile | Inl _ \<Rightarrow> False)"

definition fs_is_dir :: "fs \<Rightarrow> path \<Rightarrow> bool" where
  "fs_is_dir fs p = (case fs_metadata fs p of Inr m \<Rightarrow> m_kind m = Directory | Inl _ \<Rightarrow> False)"

end
