(* ===== verification/Discovery.thy ===== *)
theory Discovery
  imports Paths
begin

text \<open>
  \<open>discovery.rs\<close>: which files under an approved root may be indexed. The glob matcher
  (\<open>globset\<close>), the directory walker and the ignore matcher (\<open>ignore\<close>) are third-party code and,
  with the file system, the parameters of the component, collected in \<open>discovery_env\<close>. Both ways
  in, the recursive scan (\<open>discover_root\<close>, \<open>process_entry\<close>) and the single-path check of
  incremental indexing (\<open>validate_relative_path\<close>), end in \<open>classify_and_collect\<close>.
\<close>

definition DEFAULT_MAX_FILE_SIZE_BYTES :: nat where
  "DEFAULT_MAX_FILE_SIZE_BYTES = 10 * 1024 * 1024"

definition default_exclude_patterns :: "ustring list" where
  "default_exclude_patterns = map lit
     [''**/.git/**'', ''**/node_modules/**'', ''**/.venv/**'', ''**/target/**'', ''**/.env'',
      ''**/.env.*'', ''**/*.pem'', ''**/*.key'', ''**/id_rsa'', ''**/id_ed25519'',
      ''**/credentials.*'', ''**/secrets.*'']"

record discovery_options =
  do_max_file_size_bytes :: nat
  do_honor_gitignore :: bool
  do_ignore_hidden :: bool
  do_apply_default_excludes :: bool

definition default_discovery_options :: discovery_options where
  "default_discovery_options =
     \<lparr>do_max_file_size_bytes = DEFAULT_MAX_FILE_SIZE_BYTES, do_honor_gitignore = True,
      do_ignore_hidden = True, do_apply_default_excludes = True\<rparr>"

datatype skip_reason =
  DisabledRoot | NotAFile | Hidden | SkipSymlink | SpecialFile | OutsideRoot | IgnoredByGit
| ExcludedByRule | NotIncluded | UnsupportedType | Oversized nat | InvalidMetadata ustring

record skipped_path =
  sk_relative_path :: path
  sk_reason :: skip_reason

record discovery_report =
  dr_documents :: "discovered_document list"
  dr_skipped :: "skipped_path list"

datatype discovery_error =
  RootMissing path | RootNotDirectory path | RootCanonicalize path ustring
| InvalidPattern ustring ustring | DiscoveryIo path ustring

record dir_entry =
  en_path :: path
  en_file_type :: "file_kind option"
  en_metadata :: "ustring + metadata"

type_synonym glob_set = "ustring \<Rightarrow> bool"

record 'g discovery_env =
  dv_fs :: fs
  dv_glob_new :: "ustring \<Rightarrow> ustring + 'g"
  dv_glob_build :: "'g list \<Rightarrow> ustring + glob_set"
  dv_walk :: "path \<Rightarrow> discovery_options \<Rightarrow> (ustring + dir_entry) list"
  dv_gitignore :: "path \<Rightarrow> path list \<Rightarrow> (path \<Rightarrow> bool) option"
    \<comment> \<open>root and added files to matcher; \<open>None\<close> when \<open>GitignoreBuilder::build\<close> fails\<close>

subsection \<open>Patterns and roots\<close>

definition merged_excludes :: "root \<Rightarrow> discovery_options \<Rightarrow> ustring list" where
  "merged_excludes root options =
     (if do_apply_default_excludes options then default_exclude_patterns else [])
     @ rt_exclude_patterns root"

fun add_globs :: "'g discovery_env \<Rightarrow> ustring list \<Rightarrow> discovery_error + 'g list" where
  "add_globs env [] = Inr []"
| "add_globs env (pattern # ps) =
     try_bind (map_err (InvalidPattern pattern) (dv_glob_new env pattern)) (\<lambda>g.
       try_bind (add_globs env ps) (\<lambda>gs. Inr (g # gs)))"

definition compile_patterns :: "'g discovery_env \<Rightarrow> ustring list \<Rightarrow> discovery_error + glob_set" where
  "compile_patterns env patterns =
     try_bind (add_globs env patterns) (\<lambda>gs.
       map_err (InvalidPattern (lit ''*'')) (dv_glob_build env gs))"

definition compile_optional_patterns ::
    "'g discovery_env \<Rightarrow> ustring list \<Rightarrow> discovery_error + glob_set option" where
  "compile_optional_patterns env patterns =
     (if patterns = [] then Inr None
      else try_bind (compile_patterns env patterns) (\<lambda>s. Inr (Some s)))"

definition canonicalize_root :: "fs \<Rightarrow> path \<Rightarrow> discovery_error + path" where
  "canonicalize_root fs path =
     (if \<not> fs_exists fs path then Inl (RootMissing path)
      else case fs_metadata fs path of
          Inl e \<Rightarrow> Inl (DiscoveryIo path e)
        | Inr m \<Rightarrow> if m_kind m \<noteq> Directory then Inl (RootNotDirectory path)
                   else map_err (RootCanonicalize path) (fs_canonicalize fs path))"

subsection \<open>Paths\<close>

definition relative_within_root :: "path \<Rightarrow> path \<Rightarrow> skip_reason + path" where
  "relative_within_root root candidate =
     (case path_strip_prefix candidate root of
        None \<Rightarrow> Inl OutsideRoot
      | Some relative \<Rightarrow>
          if \<exists>c \<in> set (components relative). is_parent_or_root c then Inl OutsideRoot
          else Inr relative)"

definition path_is_within_root :: "path \<Rightarrow> path \<Rightarrow> bool" where
  "path_is_within_root root candidate = path_starts_with candidate root"

definition relative_to_match_str :: "path \<Rightarrow> ustring" where
  "relative_to_match_str path = join [slash] (map as_os_str (components path))"

definition is_hidden_relative :: "path \<Rightarrow> bool" where
  "is_hidden_relative path = (\<exists>c \<in> set (components path). prefix [46] (as_os_str c))"

definition is_special_file :: "file_kind \<Rightarrow> bool" where
  "is_special_file k \<longleftrightarrow> k = BlockDevice \<or> k = CharDevice \<or> k = Fifo \<or> k = Socket"

definition is_safe_relative_path :: "path \<Rightarrow> bool" where
  "is_safe_relative_path relative \<longleftrightarrow>
     \<not> is_absolute relative \<and> relative \<noteq> [] \<and> (\<forall>c \<in> set (components relative). is_normal c)"

definition markdown_extensions :: "ustring list" where
  "markdown_extensions = map lit [''md'', ''markdown'', ''mdown'', ''mkd'', ''mdwn'']"

definition plain_text_extensions :: "ustring list" where
  "plain_text_extensions = map lit
     [''txt'', ''text'', ''log'', ''rst'', ''adoc'', ''asciidoc'', ''org'', ''csv'', ''tsv'', ''json'',
      ''jsonl'', ''yaml'', ''yml'', ''toml'', ''ini'', ''cfg'', ''conf'', ''rs'', ''py'', ''pyi'',
      ''js'', ''jsx'', ''ts'', ''tsx'', ''mjs'', ''cjs'', ''go'', ''java'', ''kt'', ''kts'', ''c'',
      ''h'', ''cc'', ''cpp'', ''cxx'', ''hpp'', ''hh'', ''cs'', ''rb'', ''php'', ''swift'', ''scala'',
      ''sh'', ''bash'', ''zsh'', ''fish'', ''ps1'', ''bat'', ''cmd'', ''sql'', ''html'', ''htm'',
      ''css'', ''scss'', ''less'', ''xml'', ''svg'', ''r'', ''jl'', ''lua'', ''pl'', ''pm'', ''ex'',
      ''exs'', ''erl'', ''hrl'', ''hs'', ''ml'', ''mli'', ''nim'', ''zig'', ''dart'', ''groovy'',
      ''gradle'', ''cmake'', ''make'', ''proto'', ''thrift'', ''graphql'', ''tf'', ''hcl'', ''nix'',
      ''vim'', ''el'', ''lisp'', ''clj'', ''cljs'', ''edn'', ''sbt'', ''lock'', ''sum'', ''mod'',
      ''cabal'', ''v'', ''sv'', ''vhdl'', ''asm'', ''s'']"

definition classify_supported_file :: "path \<Rightarrow> supported_file_type option" where
  "classify_supported_file path =
     (case map_option (map to_ascii_lowercase) (extension path) of
        None \<Rightarrow> None
      | Some ext \<Rightarrow>
          if ext \<in> set markdown_extensions then Some Markdown
          else if ext \<in> set plain_text_extensions then Some PlainText
          else None)"

definition resolve_symlink_within_root :: "fs \<Rightarrow> path \<Rightarrow> path \<Rightarrow> skip_reason + (path \<times> metadata)" where
  "resolve_symlink_within_root fs root symlink =
     try_bind (map_err InvalidMetadata (fs_canonicalize fs symlink)) (\<lambda>resolved.
       if \<not> path_is_within_root root resolved then Inl OutsideRoot
       else try_bind (map_err InvalidMetadata (fs_metadata fs resolved)) (\<lambda>m.
         if m_kind m \<noteq> RegularFile \<or> is_special_file (m_kind m) then Inl SpecialFile
         else Inr (resolved, m)))"

subsection \<open>Classification\<close>

definition skip :: "path \<Rightarrow> skip_reason \<Rightarrow> skipped_path" where
  "skip relative reason = \<lparr>sk_relative_path = relative, sk_reason = reason\<rparr>"

definition invalid_timestamp_text :: ustring where
  "invalid_timestamp_text = lit ''timestamp is outside the representable Unix-millisecond range''"

text \<open>Returns the skip, if any, and the documents collected so far.\<close>

definition classify_and_collect ::
    "fs \<Rightarrow> root \<Rightarrow> path \<Rightarrow> path \<Rightarrow> path \<Rightarrow> metadata \<Rightarrow> glob_set \<Rightarrow> glob_set option \<Rightarrow> discovery_options
      \<Rightarrow> discovered_document list \<Rightarrow> skipped_path option \<times> discovered_document list" where
  "classify_and_collect fs root root_path absolute relative metadata exclude include options documents =
     (let relative_str = relative_to_match_str relative;
          stop = (\<lambda>reason. (Some (skip relative reason), documents))
      in if exclude relative_str then stop ExcludedByRule
         else if (case include of None \<Rightarrow> False | Some inc \<Rightarrow> \<not> inc relative_str) then stop NotIncluded
         else if m_len metadata > do_max_file_size_bytes options then stop (Oversized (m_len metadata))
         else case classify_supported_file relative of
             None \<Rightarrow> stop UnsupportedType
           | Some file_class \<Rightarrow>
               (case m_modified metadata of
                  Inl message \<Rightarrow> stop (InvalidMetadata message)
                | Inr system_time \<Rightarrow>
                    (case try_from_system_time system_time of
                       Inl _ \<Rightarrow> stop (InvalidMetadata invalid_timestamp_text)
                     | Inr modified_at \<Rightarrow>
                         (case fs_canonicalize fs absolute of
                            Inl e \<Rightarrow> stop (InvalidMetadata e)
                          | Inr canonical_path \<Rightarrow>
                              if \<not> path_is_within_root root_path canonical_path then stop OutsideRoot
                              else (None, documents @
                                [\<lparr>dd_root_id = rt_id root, dd_canonical_path = canonical_path,
                                  dd_relative_path = relative, dd_size_bytes = m_len metadata,
                                  dd_modified_at = modified_at, dd_file_type = file_class\<rparr>])))))"

definition handle_symlink ::
    "fs \<Rightarrow> root \<Rightarrow> path \<Rightarrow> discovery_options \<Rightarrow> glob_set \<Rightarrow> glob_set option \<Rightarrow> path \<Rightarrow> path
      \<Rightarrow> discovered_document list
      \<Rightarrow> (skipped_path + skipped_path option) \<times> discovered_document list" where
  "handle_symlink fs root root_path options exclude include path relative documents =
     (if \<not> rt_follow_symlinks root then (Inl (skip relative SkipSymlink), documents)
      else case resolve_symlink_within_root fs root_path path of
          Inr (resolved, resolved_meta) \<Rightarrow>
            (case classify_and_collect fs root root_path resolved relative resolved_meta exclude
                    include options documents of
               (s, documents) \<Rightarrow> (Inr s, documents))
        | Inl reason \<Rightarrow> (Inl (skip relative reason), documents))"

definition process_entry ::
    "fs \<Rightarrow> root \<Rightarrow> path \<Rightarrow> discovery_options \<Rightarrow> glob_set \<Rightarrow> glob_set option
      \<Rightarrow> ustring + dir_entry \<Rightarrow> discovered_document list
      \<Rightarrow> (skipped_path + skipped_path option) \<times> discovered_document list" where
  "process_entry fs root root_path options exclude include entry documents =
     (case entry of
        Inl e \<Rightarrow> (Inl (skip e (InvalidMetadata e)), documents)
      | Inr entry \<Rightarrow>
          let path = en_path entry
          in if components path = components root_path then (Inr None, documents)
             else case relative_within_root root_path path of
                 Inl reason \<Rightarrow> (Inl (skip path reason), documents)
               | Inr relative \<Rightarrow>
                   if en_file_type entry = Some Directory then (Inr None, documents)
                   else if do_ignore_hidden options \<and> is_hidden_relative relative
                     then (Inl (skip relative Hidden), documents)
                   else case en_metadata entry of
                       Inl e \<Rightarrow> (Inl (skip relative (InvalidMetadata e)), documents)
                     | Inr metadata \<Rightarrow>
                         if m_kind metadata = Symlink
                         then handle_symlink fs root root_path options exclude include path relative documents
                         else if m_kind metadata \<noteq> RegularFile \<or> is_special_file (m_kind metadata)
                         then (Inl (skip relative
                                 (if m_kind metadata = RegularFile then SpecialFile else NotAFile)),
                               documents)
                         else (case classify_and_collect fs root root_path path relative metadata
                                      exclude include options documents of
                                 (s, documents) \<Rightarrow> (Inr s, documents)))"

fun process_entries ::
    "fs \<Rightarrow> root \<Rightarrow> path \<Rightarrow> discovery_options \<Rightarrow> glob_set \<Rightarrow> glob_set option
      \<Rightarrow> (ustring + dir_entry) list \<Rightarrow> discovered_document list \<Rightarrow> skipped_path list
      \<Rightarrow> discovered_document list \<times> skipped_path list" where
  "process_entries fs root root_path options exclude include [] documents skipped = (documents, skipped)"
| "process_entries fs root root_path options exclude include (entry # entries) documents skipped =
     (case process_entry fs root root_path options exclude include entry documents of
        (outcome, documents) \<Rightarrow>
          process_entries fs root root_path options exclude include entries documents
            (case outcome of
               Inr None \<Rightarrow> skipped
             | Inr (Some s) \<Rightarrow> skipped @ [s]
             | Inl s \<Rightarrow> skipped @ [s]))"

definition discover_root ::
    "'g discovery_env \<Rightarrow> root \<Rightarrow> discovery_options \<Rightarrow> discovery_error + discovery_report" where
  "discover_root env root options =
     (if \<not> rt_enabled root
      then Inr \<lparr>dr_documents = [], dr_skipped = [skip [] DisabledRoot]\<rparr>
      else
        try_bind (canonicalize_root (dv_fs env) (rt_canonical_path root)) (\<lambda>root_path.
        try_bind (compile_patterns env (merged_excludes root options)) (\<lambda>exclude.
        try_bind (compile_optional_patterns env (rt_include_patterns root)) (\<lambda>include.
          case process_entries (dv_fs env) root root_path options exclude include
                 (dv_walk env root_path options) [] [] of
            (documents, skipped) \<Rightarrow>
              Inr \<lparr>dr_documents = sort_by (\<lambda>left right.
                     path_cmp (dd_relative_path left) (dd_relative_path right)) documents,
                   dr_skipped = skipped\<rparr>))))"

subsection \<open>The single-path check\<close>

text \<open>The ignore files in the order they are added: the root's, the exclude file, then one per
  directory on the way down.\<close>

fun nested_ignores :: "fs \<Rightarrow> path \<Rightarrow> component list \<Rightarrow> path list" where
  "nested_ignores fs current [] = []"
| "nested_ignores fs current (c # cs) =
     (let current = path_join current (as_os_str c);
          nested = path_join current (lit ''.gitignore'')
      in (if fs_is_dir fs current \<and> fs_is_file fs nested then [nested] else [])
         @ nested_ignores fs current cs)"

definition is_path_gitignored :: "'g discovery_env \<Rightarrow> path \<Rightarrow> path \<Rightarrow> path \<Rightarrow> bool" where
  "is_path_gitignored env root_canonical relative absolute =
     (let exclude = path_join root_canonical (lit ''.git/info/exclude'');
          files = [path_join root_canonical (lit ''.gitignore'')]
            @ (if fs_is_file (dv_fs env) exclude then [exclude] else [])
            @ nested_ignores (dv_fs env) root_canonical (components relative)
      in case dv_gitignore env root_canonical files of
           None \<Rightarrow> False
         | Some matched \<Rightarrow> matched absolute)"

definition collected :: "skipped_path option \<times> discovered_document list \<Rightarrow> skip_reason + discovered_document" where
  "collected r = (case r of (Some s, _) \<Rightarrow> Inl (sk_reason s) | (None, documents) \<Rightarrow> Inr (hd documents))"

definition validate_relative_path ::
    "'g discovery_env \<Rightarrow> root \<Rightarrow> path \<Rightarrow> path \<Rightarrow> discovery_options
      \<Rightarrow> discovery_error + (skip_reason + discovered_document)" where
  "validate_relative_path env root root_canonical relative options =
     (if \<not> is_safe_relative_path relative then Inr (Inl OutsideRoot)
      else if do_ignore_hidden options \<and> is_hidden_relative relative then Inr (Inl Hidden)
      else
        try_bind (compile_patterns env (merged_excludes root options)) (\<lambda>exclude.
        try_bind (compile_optional_patterns env (rt_include_patterns root)) (\<lambda>include.
          let relative_str = relative_to_match_str relative;
              absolute = path_join root_canonical relative
          in if exclude relative_str then Inr (Inl ExcludedByRule)
             else if (case include of None \<Rightarrow> False | Some inc \<Rightarrow> \<not> inc relative_str)
               then Inr (Inl NotIncluded)
             else if do_honor_gitignore options
                     \<and> is_path_gitignored env root_canonical relative absolute
               then Inr (Inl IgnoredByGit)
             else case fs_symlink_metadata (dv_fs env) absolute of
                 Inl e \<Rightarrow> Inr (Inl (InvalidMetadata e))
               | Inr metadata \<Rightarrow>
                   if m_kind metadata = Symlink then
                     if \<not> rt_follow_symlinks root then Inr (Inl SkipSymlink)
                     else case resolve_symlink_within_root (dv_fs env) root_canonical absolute of
                         Inr (resolved, resolved_meta) \<Rightarrow>
                           Inr (collected (classify_and_collect (dv_fs env) root root_canonical resolved
                             relative resolved_meta exclude include options []))
                       | Inl reason \<Rightarrow> Inr (Inl reason)
                   else if m_kind metadata \<noteq> RegularFile \<or> is_special_file (m_kind metadata) then
                     Inr (Inl (if m_kind metadata = RegularFile then SpecialFile else NotAFile))
                   else
                     Inr (collected (classify_and_collect (dv_fs env) root root_canonical absolute
                       relative metadata exclude include options [])))))"

subsection \<open>What is collected\<close>

text \<open>The conditions under which a file becomes a document, independently of the order in which the
  code checks them.\<close>

definition admitted ::
    "fs \<Rightarrow> root \<Rightarrow> path \<Rightarrow> glob_set \<Rightarrow> glob_set option \<Rightarrow> discovery_options \<Rightarrow> discovered_document \<Rightarrow> bool" where
  "admitted fs root root_path exclude include options d \<longleftrightarrow>
     dd_root_id d = rt_id root
     \<and> \<not> exclude (relative_to_match_str (dd_relative_path d))
     \<and> (include = None \<or> the include (relative_to_match_str (dd_relative_path d)))
     \<and> dd_size_bytes d \<le> do_max_file_size_bytes options
     \<and> classify_supported_file (dd_relative_path d) = Some (dd_file_type d)
     \<and> path_starts_with (dd_canonical_path d) root_path"

lemma classify_and_collect_None:
  "classify_and_collect fs root root_path absolute relative metadata exclude include options documents
     = (None, ds)
   \<longleftrightarrow> (\<exists>d t. ds = documents @ [d] \<and> admitted fs root root_path exclude include options d
        \<and> dd_relative_path d = relative \<and> dd_size_bytes d = m_len metadata
        \<and> fs_canonicalize fs absolute = Inr (dd_canonical_path d)
        \<and> m_modified metadata = Inr t \<and> try_from_system_time t = Inr (dd_modified_at d))"
    (is "?l \<longleftrightarrow> ?r")
proof
  assume ?l
  then show ?r
    by (auto simp: classify_and_collect_def admitted_def Let_def path_is_within_root_def
        split: if_splits option.splits sum.splits)
next
  assume ?r
  then obtain d t where d: "ds = documents @ [d]" "admitted fs root root_path exclude include options d"
    "dd_relative_path d = relative" "dd_size_bytes d = m_len metadata"
    "fs_canonicalize fs absolute = Inr (dd_canonical_path d)"
    "m_modified metadata = Inr t" "try_from_system_time t = Inr (dd_modified_at d)" by blast
  then show ?l
    by (cases d; cases "include")
      (auto simp: classify_and_collect_def admitted_def Let_def path_is_within_root_def)
qed

lemma classify_and_collect_Some:
  "classify_and_collect fs root root_path absolute relative metadata exclude include options documents
     = (Some s, ds) \<Longrightarrow> ds = documents \<and> sk_relative_path s = relative"
  by (auto simp: classify_and_collect_def Let_def skip_def
      split: if_splits option.splits sum.splits)

lemma classify_and_collect_append:
  "classify_and_collect fs root root_path absolute relative metadata exclude include options documents
     = (case classify_and_collect fs root root_path absolute relative metadata exclude include options []
        of (s, ds) \<Rightarrow> (s, documents @ ds))"
  by (auto simp: classify_and_collect_def Let_def split: option.splits sum.splits)

lemma classify_and_collect_cases:
  assumes "classify_and_collect fs root root_path absolute relative metadata exclude include options documents
     = (s, ds)"
  obtains (skip) r where "s = Some r" "ds = documents" "sk_relative_path r = relative"
  | (doc) d where "s = None" "ds = documents @ [d]" "dd_relative_path d = relative"
      "admitted fs root root_path exclude include options d"
proof (cases s)
  case None
  from classify_and_collect_None [THEN iffD1, OF assms [unfolded None]]
  obtain d where "ds = documents @ [d]" "dd_relative_path d = relative"
    "admitted fs root root_path exclude include options d" by blast
  with None show thesis by (rule doc)
next
  case (Some r)
  with assms skip show thesis by (auto dest: classify_and_collect_Some)
qed

text \<open>One entry either leaves the documents alone or adds a single admitted document.\<close>

definition entry_ok :: "discovery_options \<Rightarrow> path \<Rightarrow> bool" where
  "entry_ok options relative \<longleftrightarrow>
     \<not> (do_ignore_hidden options \<and> is_hidden_relative relative)
     \<and> (\<forall>c \<in> set (components relative). \<not> is_parent_or_root c)"

lemma handle_symlink_result:
  assumes "handle_symlink fs root root_path options exclude include p relative documents = (outcome, ds)"
  shows "(ds = documents \<and> outcome \<noteq> Inr None)
    \<or> (\<exists>absolute m s. classify_and_collect fs root root_path absolute relative m exclude include options
         documents = (s, ds) \<and> outcome = Inr s)"
  using assms by (auto simp: handle_symlink_def split: if_splits sum.splits prod.splits)

lemma process_entry_result:
  assumes "process_entry fs root root_path options exclude include (Inr e) documents = (outcome, ds)"
    and "components (en_path e) \<noteq> components root_path" "en_file_type e \<noteq> Some Directory"
    and "relative_within_root root_path (en_path e) = Inr relative"
    and "\<not> (do_ignore_hidden options \<and> is_hidden_relative relative)"
  shows "(ds = documents \<and> outcome \<noteq> Inr None)
    \<or> (\<exists>absolute m s. classify_and_collect fs root root_path absolute relative m exclude include options
         documents = (s, ds) \<and> outcome = Inr s)"
proof (cases "en_metadata e")
  case (Inl x)
  with assms show ?thesis by (auto simp: process_entry_def)
next
  case (Inr m)
  then show ?thesis
  proof (cases "m_kind m = Symlink")
    case True
    with assms Inr have
      "handle_symlink fs root root_path options exclude include (en_path e) relative documents = (outcome, ds)"
      by (simp add: process_entry_def del: de_Morgan_conj)
    then show ?thesis by (rule handle_symlink_result)
  next
    case False
    with assms Inr show ?thesis
      by (auto simp: process_entry_def simp del: de_Morgan_conj split: if_splits prod.splits)
  qed
qed

lemma process_entry_cases:
  assumes "process_entry fs root root_path options exclude include entry documents = (outcome, ds)"
  obtains (same) "ds = documents"
      "outcome = Inr None \<longrightarrow> (\<exists>e. entry = Inr e \<and>
         (components (en_path e) = components root_path \<or> en_file_type e = Some Directory))"
  | (new) d where "ds = documents @ [d]" "outcome = Inr None"
      "admitted fs root root_path exclude include options d" "entry_ok options (dd_relative_path d)"
      "\<exists>e. entry = Inr e \<and> components (en_path e) \<noteq> components root_path
         \<and> en_file_type e \<noteq> Some Directory
         \<and> path_strip_prefix (en_path e) root_path = Some (dd_relative_path d)"
proof (cases "\<exists>e relative. entry = Inr e \<and> components (en_path e) \<noteq> components root_path
    \<and> en_file_type e \<noteq> Some Directory \<and> relative_within_root root_path (en_path e) = Inr relative
    \<and> \<not> (do_ignore_hidden options \<and> is_hidden_relative relative)")
  case False
  with assms have "ds = documents \<and> (outcome = Inr None \<longrightarrow> (\<exists>e. entry = Inr e \<and>
         (components (en_path e) = components root_path \<or> en_file_type e = Some Directory)))"
    by (cases entry) (auto simp: process_entry_def Let_def simp del: de_Morgan_conj split: if_splits sum.splits)
  with same show thesis by blast
next
  case True
  then obtain e relative where e: "entry = Inr e" "components (en_path e) \<noteq> components root_path"
    "en_file_type e \<noteq> Some Directory" "relative_within_root root_path (en_path e) = Inr relative"
    "\<not> (do_ignore_hidden options \<and> is_hidden_relative relative)" by blast
  then have r: "path_strip_prefix (en_path e) root_path = Some relative" "entry_ok options relative"
    by (auto simp: relative_within_root_def entry_ok_def split: option.splits if_splits)
  from process_entry_result [OF assms [unfolded e(1)] e(2-5)] show thesis
  proof (elim disjE exE conjE)
    fix absolute m s
    assume o: "outcome = Inr s"
    assume "classify_and_collect fs root root_path absolute relative m exclude include options documents
             = (s, ds)"
    then show thesis
    proof (cases rule: classify_and_collect_cases)
      case skip
      show thesis by (rule same) (simp_all add: skip o)
    next
      case (doc d)
      show thesis by (rule new [of d]) (use doc e(1-3) r o in simp_all)
    qed
  qed (use same in blast)
qed

text \<open>The scan as a whole: every document is admitted and has a safe path, and every entry that is
  neither the root nor a directory is either a document or reported as skipped.\<close>

fun passed_over :: "path \<Rightarrow> ustring + dir_entry \<Rightarrow> bool" where
  "passed_over root_path (Inl e) \<longleftrightarrow> False"
| "passed_over root_path (Inr e) \<longleftrightarrow>
     components (en_path e) = components root_path \<or> en_file_type e = Some Directory"

lemma process_entries_documents:
  "process_entries fs root root_path options exclude include entries documents skipped = (ds, sk)
   \<Longrightarrow> \<exists>new. ds = documents @ new
        \<and> list_all (\<lambda>d. admitted fs root root_path exclude include options d
                      \<and> entry_ok options (dd_relative_path d)) new"
proof (induction entries arbitrary: documents skipped)
  case Nil
  then show ?case by simp
next
  case (Cons e es)
  obtain outcome ds1 where step:
    "process_entry fs root root_path options exclude include e documents = (outcome, ds1)"
    by fastforce
  with Cons.prems obtain sk1 where
    rest: "process_entries fs root root_path options exclude include es ds1 sk1 = (ds, sk)" by auto
  from Cons.IH [OF this] obtain new where new: "ds = ds1 @ new"
    "list_all (\<lambda>d. admitted fs root root_path exclude include options d
                 \<and> entry_ok options (dd_relative_path d)) new" by blast
  from step show ?case
    by (cases rule: process_entry_cases) (use new in auto)
qed

lemma process_entries_count:
  "process_entries fs root root_path options exclude include entries documents skipped = (ds, sk)
   \<Longrightarrow> length documents + length skipped + length (filter (\<lambda>e. \<not> passed_over root_path e) entries)
         \<le> length ds + length sk"
proof (induction entries arbitrary: documents skipped)
  case Nil
  then show ?case by simp
next
  case (Cons e es)
  obtain outcome ds1 where step:
    "process_entry fs root root_path options exclude include e documents = (outcome, ds1)"
    by fastforce
  let ?sk1 = "case outcome of Inr None \<Rightarrow> skipped | Inr (Some s) \<Rightarrow> skipped @ [s] | Inl s \<Rightarrow> skipped @ [s]"
  from Cons.prems step have
    "process_entries fs root root_path options exclude include es ds1 ?sk1 = (ds, sk)" by simp
  from Cons.IH [OF this] have IH: "length ds1 + length ?sk1 + length (filter (\<lambda>e. \<not> passed_over root_path e) es)
      \<le> length ds + length sk" .
  from step show ?case
  proof (cases rule: process_entry_cases)
    case same
    then show ?thesis using IH by (auto split: sum.splits option.splits)
  next
    case (new d)
    then show ?thesis using IH by auto
  qed
qed

interpretation documents: comparator
  "\<lambda>left right. path_cmp (dd_relative_path left) (dd_relative_path right)" UNIV
  unfolding path_cmp_def by (rule comparator_key)

lemma discover_root_Inr:
  assumes "discover_root env root options = Inr report" "rt_enabled root"
  obtains root_path exclude "include" documents where
    "canonicalize_root (dv_fs env) (rt_canonical_path root) = Inr root_path"
    "compile_patterns env (merged_excludes root options) = Inr exclude"
    "compile_optional_patterns env (rt_include_patterns root) = Inr include"
    "process_entries (dv_fs env) root root_path options exclude include
       (dv_walk env root_path options) [] [] = (documents, dr_skipped report)"
    "dr_documents report = sort_by (\<lambda>left right.
       path_cmp (dd_relative_path left) (dd_relative_path right)) documents"
proof -
  from assms obtain root_path exclude "include" where r:
    "canonicalize_root (dv_fs env) (rt_canonical_path root) = Inr root_path"
    "compile_patterns env (merged_excludes root options) = Inr exclude"
    "compile_optional_patterns env (rt_include_patterns root) = Inr include"
    by (auto simp: discover_root_def)
  obtain documents sk where "process_entries (dv_fs env) root root_path options exclude include
       (dv_walk env root_path options) [] [] = (documents, sk)" by fastforce
  with r assms show thesis by (intro that) (auto simp: discover_root_def)
qed

text \<open>
  C11. A scan of a root returns only admitted documents: they carry the root's identifier, canonicalise
  to a path inside the canonical root, match no exclude pattern and, where the root has include
  patterns, one of those, are within the size limit, have a supported file type, have no \<open>..\<close> or
  absolute part in the relative path, and have no hidden component when hidden files are ignored.
  The documents are sorted by relative path. A disabled root yields no document.
\<close>
theorem discover_root_admits:
  assumes "discover_root env root options = Inr report"
  shows "(\<not> rt_enabled root \<and> dr_documents report = [])
    \<or> (\<exists>root_path exclude include.
        canonicalize_root (dv_fs env) (rt_canonical_path root) = Inr root_path
        \<and> compile_patterns env (merged_excludes root options) = Inr exclude
        \<and> compile_optional_patterns env (rt_include_patterns root) = Inr include
        \<and> list_all (\<lambda>d. admitted (dv_fs env) root root_path exclude include options d
             \<and> entry_ok options (dd_relative_path d)) (dr_documents report)
        \<and> sorted_wrt (\<lambda>a b. path_cmp (dd_relative_path a) (dd_relative_path b) \<noteq> Greater)
             (dr_documents report))"
proof (cases "rt_enabled root")
  case False
  with assms show ?thesis by (auto simp: discover_root_def)
next
  case True
  with assms obtain root_path exclude "include" documents where r:
    "canonicalize_root (dv_fs env) (rt_canonical_path root) = Inr root_path"
    "compile_patterns env (merged_excludes root options) = Inr exclude"
    "compile_optional_patterns env (rt_include_patterns root) = Inr include"
    "process_entries (dv_fs env) root root_path options exclude include
       (dv_walk env root_path options) [] [] = (documents, dr_skipped report)"
    "dr_documents report = sort_by (\<lambda>left right.
       path_cmp (dd_relative_path left) (dd_relative_path right)) documents"
    by (rule discover_root_Inr)
  from process_entries_documents [OF r(4)] r(5)
  have "list_all (\<lambda>d. admitted (dv_fs env) root root_path exclude include options d
             \<and> entry_ok options (dd_relative_path d)) (dr_documents report)"
    by (auto simp: list_all_iff)
  moreover have "sorted_wrt (\<lambda>a b. path_cmp (dd_relative_path a) (dd_relative_path b) \<noteq> Greater)
      (dr_documents report)"
    unfolding r(5) by (rule documents.sorted_sort_by) simp
  ultimately show ?thesis using r(1-3) by blast
qed

text \<open>
  Nothing the walk returns is dropped silently: apart from the root itself and directories,
  every entry of the walk, errors included, ends as a document or in the list of skipped paths.
\<close>
theorem discover_root_accounts:
  assumes "discover_root env root options = Inr report" "rt_enabled root"
    and "canonicalize_root (dv_fs env) (rt_canonical_path root) = Inr root_path"
  shows "length (filter (\<lambda>e. \<not> passed_over root_path e) (dv_walk env root_path options))
    \<le> length (dr_documents report) + length (dr_skipped report)"
  using assms by (elim discover_root_Inr) (auto dest: process_entries_count)

subsection \<open>Single-path validation\<close>

lemma safe_components:
  assumes "is_safe_relative_path r"
  shows "\<not> is_absolute r" "CurDir \<notin> set (components r)" "components r \<noteq> []"
    "\<forall>c \<in> set (components r). \<not> is_parent_or_root c"
proof -
  show "\<not> is_absolute r" using assms by (simp add: is_safe_relative_path_def)
  show "CurDir \<notin> set (components r)" "\<forall>c \<in> set (components r). \<not> is_parent_or_root c"
    using assms by (auto simp: is_safe_relative_path_def is_normal_def is_parent_or_root_def split: component.splits)
  let ?pieces = "split_on (\<lambda>c. c = slash) r"
  have "hd ?pieces \<noteq> []"
    using assms by (cases r) (auto simp: is_safe_relative_path_def is_absolute_def split: list.splits)
  moreover have "hd ?pieces \<noteq> [46]"
    using assms by (auto simp: is_safe_relative_path_def components_def Let_def is_normal_def)
  moreover have "hd ?pieces \<in> set ?pieces" by (cases r) (auto split: list.splits)
  ultimately show "components r \<noteq> []" by (auto simp: components_def Let_def filter_empty_conv)
qed

lemma components_join_safe:
  "is_safe_relative_path r \<Longrightarrow> components (path_join base r) = components base @ components r"
  by (simp add: components_join safe_components)

lemma strip_prefix_join_safe:
  "is_safe_relative_path r \<Longrightarrow> path_strip_prefix (path_join base r) base
     = Some (path_of_components (components r))"
  by (simp add: path_strip_prefix_def path_starts_with_def components_join_safe)

text \<open>
  A relative path accepted by \<open>is_safe_relative_path\<close> stays below the root it is joined to: the
  joined path starts with the root's components and adds at least one, none of them \<open>..\<close>.
\<close>
theorem safe_relative_path_stays_below:
  assumes "is_safe_relative_path relative"
  shows "path_starts_with (path_join root relative) root
    \<and> components (path_join root relative) \<noteq> components root
    \<and> list_all is_normal (drop (length (components root)) (components (path_join root relative)))"
  using assms safe_components(3) [OF assms]
  by (simp add: components_join_safe path_starts_with_def list_all_iff)
    (simp add: is_safe_relative_path_def)

theorem safe_relative_path_stays_below_witness:
  "path_starts_with (path_join (lit ''/r'') (lit ''a/b.md'')) (lit ''/r'')
    \<and> components (path_join (lit ''/r'') (lit ''a/b.md'')) \<noteq> components (lit ''/r'')
    \<and> list_all is_normal (drop (length (components (lit ''/r'')))
        (components (path_join (lit ''/r'') (lit ''a/b.md''))))"
  by (rule safe_relative_path_stays_below)
    (simp add: is_safe_relative_path_def is_absolute_def components_def slash_def is_normal_def lit_def)

text \<open>The two ways to a document agree: what the single-path check accepts is what the scan collects
  from the entry at that path.\<close>

lemma collected_Inr:
  "collected (classify_and_collect fs root root_path absolute relative m exclude include options []) = Inr d
   \<longleftrightarrow> classify_and_collect fs root root_path absolute relative m exclude include options documents
        = (None, documents @ [d])"
  by (subst (2) classify_and_collect_append) (auto simp: collected_def dest: classify_and_collect_cases
      split: prod.splits option.splits elim!: classify_and_collect_cases)

definition entry_at :: "fs \<Rightarrow> path \<Rightarrow> dir_entry" where
  "entry_at fs p = \<lparr>en_path = p,
     en_file_type = (case fs_symlink_metadata fs p of Inl _ \<Rightarrow> None | Inr m \<Rightarrow> Some (m_kind m)),
     en_metadata = fs_symlink_metadata fs p\<rparr>"

definition pattern_ok :: "glob_set \<Rightarrow> glob_set option \<Rightarrow> path \<Rightarrow> bool" where
  "pattern_ok exclude include relative \<longleftrightarrow> \<not> exclude (relative_to_match_str relative)
     \<and> (include = None \<or> the include (relative_to_match_str relative))"

lemma classify_pattern_ok:
  "classify_and_collect fs root root_path absolute relative m exclude include options documents = (None, ds)
   \<Longrightarrow> pattern_ok exclude include relative"
  by (auto simp: classify_and_collect_None admitted_def pattern_ok_def)

text \<open>The part both share once the metadata is known.\<close>

definition collect_path ::
    "fs \<Rightarrow> root \<Rightarrow> path \<Rightarrow> path \<Rightarrow> path \<Rightarrow> glob_set \<Rightarrow> glob_set option \<Rightarrow> discovery_options \<Rightarrow> metadata
      \<Rightarrow> discovered_document option" where
  "collect_path fs root root_path absolute relative exclude include options m =
     (let get = (\<lambda>p m. case collected (classify_and_collect fs root root_path p relative m exclude
                    include options []) of Inr d \<Rightarrow> Some d | Inl _ \<Rightarrow> None)
      in if m_kind m = Symlink then
           if rt_follow_symlinks root then
             (case resolve_symlink_within_root fs root_path absolute of
                Inr (p, m') \<Rightarrow> get p m' | Inl _ \<Rightarrow> None)
           else None
         else if m_kind m = RegularFile then get absolute m else None)"

lemma collect_path_pattern_ok:
  "collect_path fs root root_path absolute relative exclude include options m = Some d
   \<Longrightarrow> pattern_ok exclude include relative"
  by (auto simp: collect_path_def Let_def collected_Inr [of _ _ _ _ _ _ _ _ _ _ "[]"]
      dest: classify_pattern_ok split: if_splits sum.splits prod.splits)

lemma outcome_collect:
  "(case classify_and_collect fs root root_path absolute relative m exclude include options documents of
      (s, ds) \<Rightarrow> (Inr s, ds)) = (Inr None, documents @ [d])
   \<longleftrightarrow> collected (classify_and_collect fs root root_path absolute relative m exclude include options [])
        = Inr d"
  by (subst collected_Inr [of _ _ _ _ _ _ _ _ _ _ documents]) (auto split: prod.splits)

lemma process_entry_collect:
  assumes "is_safe_relative_path relative" "path_of_components (components relative) = relative"
    and m: "fs_symlink_metadata fs (path_join root_path relative) = Inr m"
  shows "process_entry fs root root_path options exclude include
      (Inr (entry_at fs (path_join root_path relative))) documents = (Inr None, documents @ [d])
    \<longleftrightarrow> \<not> (do_ignore_hidden options \<and> is_hidden_relative relative)
      \<and> collect_path fs root root_path (path_join root_path relative) relative exclude include options m
          = Some d"
proof -
  let ?p = "path_join root_path relative"
  have c: "components ?p \<noteq> components root_path"
    using assms(1) safe_components(3) by (simp add: components_join_safe)
  have r: "relative_within_root root_path ?p = Inr relative"
    using assms safe_components(4) by (simp add: relative_within_root_def strip_prefix_join_safe)
  show ?thesis
    using c r m
    by (cases "m_kind m")
      (auto simp: process_entry_def entry_at_def Let_def handle_symlink_def collect_path_def outcome_collect
          is_special_file_def simp del: de_Morgan_conj split: if_splits sum.splits prod.splits)
qed

lemma validate_collect:
  assumes "is_safe_relative_path relative"
    and "compile_patterns env (merged_excludes root options) = Inr exclude"
    and "compile_optional_patterns env (rt_include_patterns root) = Inr include"
    and "\<not> (do_honor_gitignore options
             \<and> is_path_gitignored env root_path relative (path_join root_path relative))"
    and "fs_symlink_metadata (dv_fs env) (path_join root_path relative) = Inr m"
  shows "validate_relative_path env root root_path relative options = Inr (Inr d)
    \<longleftrightarrow> \<not> (do_ignore_hidden options \<and> is_hidden_relative relative)
      \<and> collect_path (dv_fs env) root root_path (path_join root_path relative) relative exclude include
          options m = Some d"
proof (cases "pattern_ok exclude include relative")
  case False
  then have "collect_path (dv_fs env) root root_path (path_join root_path relative) relative exclude include
          options m \<noteq> Some d" using collect_path_pattern_ok by blast
  moreover have "validate_relative_path env root root_path relative options \<noteq> Inr (Inr d)"
    using assms False by (auto simp: validate_relative_path_def pattern_ok_def Let_def
        simp del: de_Morgan_conj split: option.splits)
  ultimately show ?thesis by blast
next
  case True
  with assms show ?thesis
    by (cases "m_kind m")
      (auto simp: validate_relative_path_def pattern_ok_def Let_def collect_path_def is_special_file_def
        simp del: de_Morgan_conj split: option.splits sum.splits prod.splits)
qed


subsection \<open>A concrete root\<close>

text \<open>A root \<open>/r\<close> with one Markdown file and one hidden file, used to instantiate the theorems.\<close>

definition sample_metadata :: "path \<Rightarrow> ustring + metadata" where
  "sample_metadata p =
     (if p = lit ''/r'' then Inr \<lparr>m_kind = Directory, m_len = 0, m_modified = Inr 0\<rparr>
      else if p = lit ''/r/a.md'' \<or> p = lit ''/r/.b.md''
        then Inr \<lparr>m_kind = RegularFile, m_len = 5, m_modified = Inr 7000000\<rparr>
      else Inl (lit ''not found''))"

definition sample_fs :: fs where
  "sample_fs = \<lparr>fs_symlink_metadata = sample_metadata, fs_metadata = sample_metadata,
     fs_canonicalize = (\<lambda>p. map_err id (map_sum id (\<lambda>_. p) (sample_metadata p)))\<rparr>"

definition sample_root :: root where
  "sample_root = \<lparr>rt_id = 1, rt_canonical_path = lit ''/r'', rt_display_name = lit ''r'',
     rt_include_patterns = [], rt_exclude_patterns = [lit ''secret''], rt_sensitivity_tags = [],
     rt_follow_symlinks = False, rt_enabled = True, rt_created_at = 0, rt_updated_at = 0,
     rt_config_fingerprint = []\<rparr>"

definition sample_env :: "ustring discovery_env" where
  "sample_env = \<lparr>dv_fs = sample_fs, dv_glob_new = Inr, dv_glob_build = (\<lambda>gs. Inr (\<lambda>s. s \<in> set gs)),
     dv_walk = (\<lambda>p options. map (\<lambda>q. Inr (entry_at sample_fs (lit q))) [''/r'', ''/r/a.md'', ''/r/.b.md'']),
     dv_gitignore = (\<lambda>p files. None)\<rparr>"

definition sample_document :: discovered_document where
  "sample_document = \<lparr>dd_root_id = 1, dd_canonical_path = lit ''/r/a.md'', dd_relative_path = lit ''a.md'',
     dd_size_bytes = 5, dd_modified_at = 7, dd_file_type = Markdown\<rparr>"

lemmas sample_defs = sample_env_def sample_fs_def sample_metadata_def sample_root_def sample_document_def
  entry_at_def lit_def slash_def components_def is_absolute_def

lemmas discovery_defs = discover_root_def canonicalize_root_def fs_exists_def compile_patterns_def
  compile_optional_patterns_def merged_excludes_def default_discovery_options_def
  default_exclude_patterns_def DEFAULT_MAX_FILE_SIZE_BYTES_def
  process_entry_def relative_within_root_def path_strip_prefix_def path_starts_with_def
  is_parent_or_root_def is_hidden_relative_def is_special_file_def path_of_components_def
  classify_and_collect_def relative_to_match_str_def classify_supported_file_def extension_def
  file_name_def markdown_extensions_def to_ascii_lowercase_def try_from_system_time_def i64_max_def
  path_is_within_root_def skip_def path_join_def Let_def

lemma sample_scan:
  "discover_root sample_env sample_root default_discovery_options
     = Inr \<lparr>dr_documents = [sample_document], dr_skipped = [skip (lit ''.b.md'') Hidden]\<rparr>"
  by (simp add: discovery_defs sample_defs)

theorem discover_root_admits_witness:
  "\<exists>root_path exclude include.
        canonicalize_root sample_fs (lit ''/r'') = Inr root_path
        \<and> compile_patterns sample_env (merged_excludes sample_root default_discovery_options) = Inr exclude
        \<and> compile_optional_patterns sample_env [] = Inr include
        \<and> list_all (\<lambda>d. admitted sample_fs sample_root root_path exclude include default_discovery_options d
             \<and> entry_ok default_discovery_options (dd_relative_path d)) [sample_document]
        \<and> sorted_wrt (\<lambda>a b. path_cmp (dd_relative_path a) (dd_relative_path b) \<noteq> Greater)
             [sample_document]"
  using discover_root_admits [OF sample_scan] by (simp add: sample_env_def sample_root_def)

theorem discover_root_accounts_witness:
  "length (filter (\<lambda>e. \<not> passed_over (lit ''/r'') e)
     (dv_walk sample_env (lit ''/r'') default_discovery_options)) \<le> 2"
proof -
  have c: "canonicalize_root (dv_fs sample_env) (rt_canonical_path sample_root) = Inr (lit ''/r'')"
    by (simp add: canonicalize_root_def fs_exists_def sample_defs)
  have e: "rt_enabled sample_root" by (simp add: sample_root_def)
  show ?thesis
    using discover_root_accounts [OF sample_scan e c] by simp
qed


end
