(* ===== verification/Errors.thy ===== *)
theory Errors
  imports Domain
begin

text \<open>
  \<open>error.rs\<close> and the error type of \<open>storage.rs\<close>: the failures of each layer as values and the
  mapping of each to a process exit category. A database error is the constraint that failed, by the
  kind of constraint and the table, or any other engine failure by its message.
\<close>

datatype exit_code =
  ExitSuccess | ExitInvalidInput | ExitConfiguration | ExitFilesystem | ExitDatabase
| ExitPartialIndexing | ExitProtocol | ExitInternal

fun exit_code_code :: "exit_code \<Rightarrow> int" where
  "exit_code_code ExitSuccess = 0"
| "exit_code_code ExitInvalidInput = 2"
| "exit_code_code ExitConfiguration = 3"
| "exit_code_code ExitFilesystem = 4"
| "exit_code_code ExitDatabase = 5"
| "exit_code_code ExitPartialIndexing = 6"
| "exit_code_code ExitProtocol = 7"
| "exit_code_code ExitInternal = 70"

datatype sql_error =
  UniqueViolation ustring | ForeignKeyViolation ustring | CheckViolation ustring | EngineError ustring

datatype storage_error =
  FutureSchema int | FtsUnavailable | StorageIo path ustring | Database sql_error | Decode ustring

datatype config_error =
  PathsUnavailable | HomeUnavailable | ConfigMissing path | ConfigInvalid path ustring
| UnknownField ustring | DuplicateRootPath path | DuplicateRootName ustring | RootNotFound ustring
| NotDirectory path | MissingPath path | ConfigIo path ustring | BudgetPresetNotFound ustring

datatype read_error =
  ChangedDuringRead | ReadOversized nat | NotRegularFile path | ReadIo path ustring

datatype index_error =
  IndexConfig config_error | IndexStorage storage_error | IndexDomain domain_error
| IndexRead read_error | IndexDiscovery ustring ustring | NoRoots | IndexInternal ustring

datatype retrieval_error =
  RetrievalConfig config_error | RetrievalStorage storage_error | RetrievalDomain domain_error
| Evaluation ustring | SemanticError ustring ustring | RetrievalInternal ustring

fun config_error_exit_code :: "config_error \<Rightarrow> exit_code" where
  "config_error_exit_code (ConfigMissing _) = ExitConfiguration"
| "config_error_exit_code (ConfigInvalid _ _) = ExitConfiguration"
| "config_error_exit_code (UnknownField _) = ExitConfiguration"
| "config_error_exit_code (DuplicateRootPath _) = ExitConfiguration"
| "config_error_exit_code (DuplicateRootName _) = ExitConfiguration"
| "config_error_exit_code (RootNotFound _) = ExitConfiguration"
| "config_error_exit_code (NotDirectory _) = ExitConfiguration"
| "config_error_exit_code (MissingPath _) = ExitConfiguration"
| "config_error_exit_code (BudgetPresetNotFound _) = ExitConfiguration"
| "config_error_exit_code PathsUnavailable = ExitFilesystem"
| "config_error_exit_code HomeUnavailable = ExitFilesystem"
| "config_error_exit_code (ConfigIo _ _) = ExitFilesystem"

fun index_error_exit_code :: "index_error \<Rightarrow> exit_code" where
  "index_error_exit_code (IndexConfig _) = ExitConfiguration"
| "index_error_exit_code (IndexStorage _) = ExitDatabase"
| "index_error_exit_code (IndexDomain _) = ExitInvalidInput"
| "index_error_exit_code NoRoots = ExitInvalidInput"
| "index_error_exit_code (IndexRead _) = ExitFilesystem"
| "index_error_exit_code (IndexDiscovery _ _) = ExitFilesystem"
| "index_error_exit_code (IndexInternal _) = ExitInternal"

fun retrieval_error_exit_code :: "retrieval_error \<Rightarrow> exit_code" where
  "retrieval_error_exit_code (RetrievalConfig e) = config_error_exit_code e"
| "retrieval_error_exit_code (RetrievalStorage _) = ExitDatabase"
| "retrieval_error_exit_code (RetrievalDomain (DomainBudgetPresetNotFound _)) = ExitConfiguration"
| "retrieval_error_exit_code (RetrievalDomain _) = ExitInvalidInput"
| "retrieval_error_exit_code (Evaluation _) = ExitInvalidInput"
| "retrieval_error_exit_code (SemanticError _ _) = ExitProtocol"
| "retrieval_error_exit_code (RetrievalInternal _) = ExitInternal"

subsection \<open>Messages\<close>

text \<open>The \<open>Display\<close> texts derived by \<open>thiserror\<close>. The text of an engine error is the argument \<open>sql\<close>.\<close>

fun domain_error_display :: "domain_error \<Rightarrow> ustring" where
  "domain_error_display InvalidRetrievalLimit = lit ''retrieval limit must be greater than zero''"
| "domain_error_display InvalidTokenBudget = lit ''token budget must be greater than zero''"
| "domain_error_display InvalidTimestamp = lit ''timestamp is outside the representable Unix-millisecond range''"
| "domain_error_display InvalidIdentifier = lit ''invalid identifier''"
| "domain_error_display InvalidSensitivityScope = lit ''invalid sensitivity scope''"
| "domain_error_display InvalidFileType = lit ''invalid file type''"
| "domain_error_display InvalidSourceState = lit ''invalid source state''"
| "domain_error_display InvalidRevisionStatus = lit ''invalid revision status''"
| "domain_error_display InvalidSegmentType = lit ''invalid segment type''"
| "domain_error_display InvalidScanStatus = lit ''invalid scan status''"
| "domain_error_display InvalidDuration = lit ''invalid duration syntax''"
| "domain_error_display InvalidRetrievalMode = lit ''invalid retrieval mode''"
| "domain_error_display QueryEmpty = lit ''QUERY_EMPTY''"
| "domain_error_display (QueryInvalid m) = lit ''QUERY_INVALID: '' @ m"
| "domain_error_display (RetrievalModeUnavailable m) = lit ''RETRIEVAL_MODE_UNAVAILABLE: '' @ m"
| "domain_error_display (DomainBudgetPresetNotFound m) = lit ''BUDGET_PRESET_NOT_FOUND: '' @ m"

fun config_error_display :: "config_error \<Rightarrow> ustring" where
  "config_error_display PathsUnavailable = lit ''platform application directories are unavailable''"
| "config_error_display HomeUnavailable = lit ''home directory is unavailable for path expansion''"
| "config_error_display (ConfigMissing p) = lit ''configuration file not found: '' @ p"
| "config_error_display (ConfigInvalid p m) = lit ''invalid configuration at '' @ p @ lit '': '' @ m"
| "config_error_display (UnknownField m) = lit ''unknown configuration field: '' @ m"
| "config_error_display (DuplicateRootPath p) = lit ''duplicate root path: '' @ p"
| "config_error_display (DuplicateRootName n) = lit ''duplicate root name: '' @ n"
| "config_error_display (RootNotFound r) = lit ''root not found: '' @ r"
| "config_error_display (NotDirectory p) = lit ''path is not a directory: '' @ p"
| "config_error_display (MissingPath p) = lit ''path does not exist: '' @ p"
| "config_error_display (ConfigIo p m) = lit ''I/O error for '' @ p @ lit '': '' @ m"
| "config_error_display (BudgetPresetNotFound n) = lit ''BUDGET_PRESET_NOT_FOUND: '' @ n"

fun storage_error_display :: "(sql_error \<Rightarrow> ustring) \<Rightarrow> storage_error \<Rightarrow> ustring" where
  "storage_error_display sql (FutureSchema v) = lit ''database schema version ''
     @ (if v < 0 then [45] else []) @ show_nat (nat \<bar>v\<bar>) @ lit '' is newer than this executable supports''"
| "storage_error_display sql FtsUnavailable = lit ''FTS5 is unavailable or failed to initialize''"
| "storage_error_display sql (StorageIo p m) = lit ''database I/O error for '' @ p @ lit '': '' @ m"
| "storage_error_display sql (Database e) = lit ''database error: '' @ sql e"
| "storage_error_display sql (Decode m) = lit ''domain decode error: '' @ m"

fun retrieval_error_display :: "(sql_error \<Rightarrow> ustring) \<Rightarrow> retrieval_error \<Rightarrow> ustring" where
  "retrieval_error_display sql (RetrievalConfig e) = config_error_display e"
| "retrieval_error_display sql (RetrievalStorage e) = storage_error_display sql e"
| "retrieval_error_display sql (RetrievalDomain e) = domain_error_display e"
| "retrieval_error_display sql (Evaluation m) = lit ''evaluation bundle error: '' @ m"
| "retrieval_error_display sql (SemanticError code m) = code @ lit '': '' @ m"
| "retrieval_error_display sql (RetrievalInternal m) = lit ''internal retrieval error: '' @ m"

lemma exit_code_code_inj: "exit_code_code a = exit_code_code b \<longleftrightarrow> a = b"
  by (cases a; cases b) simp_all

lemma error_exit_codes_nonzero:
  "exit_code_code (config_error_exit_code c) \<noteq> 0" "exit_code_code (index_error_exit_code i) \<noteq> 0"
  "exit_code_code (retrieval_error_exit_code r) \<noteq> 0"
proof -
  show c: "exit_code_code (config_error_exit_code c) \<noteq> 0" for c by (cases c) simp_all
  show "exit_code_code (index_error_exit_code i) \<noteq> 0" by (cases i) simp_all
  show "exit_code_code (retrieval_error_exit_code r) \<noteq> 0"
    by (cases r rule: retrieval_error_exit_code.cases) (simp_all add: c)
qed

end
