(* ===== verification/Sources.thy ===== *)
theory Sources
  imports Paths Errors Parsing
begin

text \<open>
  \<open>io.rs\<close> and \<open>freshness.rs\<close>: reading a source file under a metadata stability check, and judging
  from metadata alone whether an indexed file is still current. The file system may change while a
  file is read, so \<open>read_stable_file\<close> takes the file system seen before the read, the bytes the read
  finds, and the file system seen after it.
\<close>

record stable_file_bytes =
  sb_bytes :: bytes
  sb_size_bytes :: nat
  sb_modified_at :: timestamp

record meta_snapshot =
  ms_size_bytes :: nat
  ms_modified_at :: timestamp

definition metadata_snapshot :: "fs \<Rightarrow> path \<Rightarrow> read_error + meta_snapshot" where
  "metadata_snapshot fs path =
     try_bind (map_err (ReadIo path) (fs_metadata fs path)) (\<lambda>metadata.
       if m_kind metadata \<noteq> RegularFile then Inl (NotRegularFile path)
       else try_bind (map_err (ReadIo path) (m_modified metadata)) (\<lambda>modified.
         try_bind (map_err (\<lambda>_. ReadIo path
             (lit ''timestamp is outside the representable Unix-millisecond range''))
             (try_from_system_time modified)) (\<lambda>modified_at.
           Inr \<lparr>ms_size_bytes = m_len metadata, ms_modified_at = modified_at\<rparr>)))"

definition read_stable_file ::
    "fs \<Rightarrow> (path \<Rightarrow> ustring + bytes) \<Rightarrow> fs \<Rightarrow> path \<Rightarrow> nat \<Rightarrow> read_error + stable_file_bytes" where
  "read_stable_file fs_before contents fs_after path max_size_bytes =
     try_bind (metadata_snapshot fs_before path) (\<lambda>before.
       if ms_size_bytes before > max_size_bytes then Inl (ReadOversized (ms_size_bytes before))
       else try_bind (map_err (ReadIo path) (contents path)) (\<lambda>data.
         let bytes = take (min (max_size_bytes + 1) u64_max) data;
             read_len = length bytes
         in if read_len > max_size_bytes then Inl (ReadOversized read_len)
            else try_bind (metadata_snapshot fs_after path) (\<lambda>after.
              if ms_size_bytes after \<noteq> ms_size_bytes before
                 \<or> ms_modified_at after \<noteq> ms_modified_at before
                 \<or> read_len \<noteq> ms_size_bytes before
              then Inl ChangedDuringRead
              else Inr \<lparr>sb_bytes = bytes, sb_size_bytes = ms_size_bytes before,
                        sb_modified_at = ms_modified_at before\<rparr>)))"

definition inspect_freshness ::
    "fs \<Rightarrow> path \<Rightarrow> path \<Rightarrow> timestamp option \<Rightarrow> freshness_status" where
  "inspect_freshness fs root_canonical relative_path indexed_modified_at =
     (if \<exists>c \<in> set (components relative_path). is_parent_or_root c then Unknown
      else let candidate = path_join root_canonical relative_path
      in case fs_symlink_metadata fs candidate of
           Inl _ \<Rightarrow> Unknown
         | Inr metadata \<Rightarrow>
             if (if m_kind metadata = Symlink
                 then (case fs_canonicalize fs candidate of
                         Inl _ \<Rightarrow> True
                       | Inr resolved \<Rightarrow> \<not> path_starts_with resolved root_canonical)
                 else \<not> path_starts_with candidate root_canonical)
             then Unknown
             else case m_modified metadata of
                 Inl _ \<Rightarrow> Unknown
               | Inr modified \<Rightarrow>
                   (case try_from_system_time modified of
                      Inl _ \<Rightarrow> Unknown
                    | Inr fs_stamp \<Rightarrow>
                        (case indexed_modified_at of
                           None \<Rightarrow> Unknown
                         | Some indexed \<Rightarrow>
                             if fs_stamp > i64_sat_add indexed 1000 then PendingReindex
                             else Current)))"

lemma metadata_snapshot_Inr:
  "metadata_snapshot fs p = Inr s \<longleftrightarrow>
     (\<exists>m t. fs_metadata fs p = Inr m \<and> m_kind m = RegularFile \<and> m_modified m = Inr t
       \<and> try_from_system_time t = Inr (ms_modified_at s) \<and> ms_size_bytes s = m_len m)"
  by (cases s) (auto simp: metadata_snapshot_def split: if_splits)

lemma read_stable_file_Inr:
  assumes "read_stable_file fs0 contents fs1 p n = Inr r"
  obtains before "after" data where "metadata_snapshot fs0 p = Inr before" "metadata_snapshot fs1 p = Inr after"
    "contents p = Inr data" "sb_bytes r = take (min (n + 1) u64_max) data"
    "length (sb_bytes r) = sb_size_bytes r" "sb_size_bytes r \<le> n"
    "ms_size_bytes before = sb_size_bytes r" "ms_size_bytes after = sb_size_bytes r"
    "ms_modified_at before = sb_modified_at r" "ms_modified_at after = sb_modified_at r"
  using assms by (auto simp: read_stable_file_def Let_def split: if_splits)

text \<open>
  A stable read is complete and consistent: what \<open>read_stable_file\<close> returns is the whole
  content of the file (below the 64-bit limit), of at most the permitted size, and the size and
  modification time it reports are those of a regular file both before and after the read.
\<close>
theorem read_stable_file_consistent:
  assumes "read_stable_file fs_before contents fs_after p n = Inr r" "n < u64_max"
  shows "contents p = Inr (sb_bytes r) \<and> length (sb_bytes r) = sb_size_bytes r \<and> sb_size_bytes r \<le> n
    \<and> metadata_snapshot fs_before p = metadata_snapshot fs_after p
    \<and> metadata_snapshot fs_after p
        = Inr \<lparr>ms_size_bytes = sb_size_bytes r, ms_modified_at = sb_modified_at r\<rparr>"
  using assms(1)
proof (rule read_stable_file_Inr)
  fix before "after" data
  assume r: "metadata_snapshot fs_before p = Inr before" "metadata_snapshot fs_after p = Inr after"
    "contents p = Inr data" "sb_bytes r = take (min (n + 1) u64_max) data"
    "length (sb_bytes r) = sb_size_bytes r" "sb_size_bytes r \<le> n"
    "ms_size_bytes before = sb_size_bytes r" "ms_size_bytes after = sb_size_bytes r"
    "ms_modified_at before = sb_modified_at r" "ms_modified_at after = sb_modified_at r"
  from assms(2) have "min (n + 1) u64_max = n + 1" by simp
  with r(4) have "sb_bytes r = take (n + 1) data" by simp
  moreover from this r(5,6) have "length data \<le> n" by (auto simp: min_def split: if_splits)
  ultimately have "sb_bytes r = data" by simp
  with r show ?thesis by (cases before; cases "after") simp
qed

definition note_fs :: fs where
  "note_fs = \<lparr>fs_symlink_metadata = (\<lambda>p. Inr \<lparr>m_kind = RegularFile, m_len = 2, m_modified = Inr 5000000\<rparr>),
     fs_metadata = (\<lambda>p. Inr \<lparr>m_kind = RegularFile, m_len = 2, m_modified = Inr 5000000\<rparr>),
     fs_canonicalize = Inr\<rparr>"

theorem read_stable_file_consistent_witness:
  "\<exists>r. read_stable_file note_fs (\<lambda>p. Inr [104, 105]) note_fs (lit ''/r/a'') 10 = Inr r
     \<and> sb_bytes r = [104, 105] \<and> sb_size_bytes r \<le> 10"
proof -
  let ?r = "\<lparr>sb_bytes = [104, 105], sb_size_bytes = 2, sb_modified_at = 5\<rparr>"
  have *: "read_stable_file note_fs (\<lambda>p. Inr [104, 105]) note_fs (lit ''/r/a'') 10 = Inr ?r"
    by (simp add: read_stable_file_def metadata_snapshot_def note_fs_def try_from_system_time_def rust_int
        Let_def)
  show ?thesis
    using read_stable_file_consistent [OF *] * by (auto simp: u64_max_def)
qed

text \<open>
  Freshness is judged only for paths under the root, and only by modification time: the verdict
  is \<open>PendingReindex\<close> exactly when the path has no \<open>..\<close> or absolute part, the entry (or, for a link,
  its resolved target) lies in the root, and its time is more than one second newer than the indexed
  one; a file whose time went backwards, or whose content changed within the second, counts as current.
\<close>
theorem inspect_freshness_pending:
  "inspect_freshness fs root relative indexed = PendingReindex \<longleftrightarrow>
     (\<exists>m t stamp old. list_all (\<lambda>c. \<not> is_parent_or_root c) (components relative)
       \<and> fs_symlink_metadata fs (path_join root relative) = Inr m
       \<and> m_modified m = Inr t \<and> try_from_system_time t = Inr stamp \<and> indexed = Some old
       \<and> i64_sat_add old 1000 < stamp
       \<and> (if m_kind m = Symlink
          then \<exists>target. fs_canonicalize fs (path_join root relative) = Inr target
                 \<and> path_starts_with target root
          else path_starts_with (path_join root relative) root))"
  by (auto simp: inspect_freshness_def Let_def list_all_iff split: sum.splits option.splits)

end
