(* ===== verification/Git.thy ===== *)
theory Git
  imports Sources
begin

text \<open>
  \<open>git.rs\<close>: the change list behind incremental indexing. The \<open>git\<close> executable is a parameter
  (\<open>git_run\<close>: working directory and arguments to an outcome); what is modelled is everything the
  source does with its output: splitting and decoding the NUL-separated records, mapping repository
  paths into the root, and sorting and deduplicating the changes.
\<close>

datatype git_change_kind = Added | Modified | GitDeleted

record git_path_change =
  gc_relative_path :: path
  gc_kind :: git_change_kind

record git_root_context =
  gx_git_dir :: path
  gx_work_tree :: path
  gx_root_prefix :: path
  gx_head :: ustring
  gx_repo_fingerprint :: ustring

record git_output =
  go_success :: bool
  go_stdout :: bytes
  go_stderr :: ustring \<comment> \<open>as lossy text\<close>

type_synonym git_run = "path \<Rightarrow> ustring list \<Rightarrow> ustring + git_output"

text \<open>\<open>hash.rs\<close>: the BLAKE3 digest as hexadecimal text is a parameter.\<close>

definition blake3_hex :: "(bytes \<Rightarrow> ustring) \<Rightarrow> bytes \<Rightarrow> content_hash" where
  "blake3_hex blake3 bytes = lit ''blake3:'' @ blake3 bytes"

definition run_git :: "git_run \<Rightarrow> path \<Rightarrow> ustring list \<Rightarrow> ustring option" where
  "run_git git cwd args =
     (case git cwd args of
        Inl _ \<Rightarrow> None
      | Inr output \<Rightarrow> if \<not> go_success output then None else from_utf8 (go_stdout output))"

definition run_git_bytes :: "git_run \<Rightarrow> path \<Rightarrow> ustring list \<Rightarrow> index_error + bytes" where
  "run_git_bytes git cwd args =
     (case git cwd args of
        Inl error \<Rightarrow> Inl (IndexInternal (lit ''failed to invoke git: '' @ error))
      | Inr output \<Rightarrow>
          if \<not> go_success output then Inl (IndexInternal (lit ''git failed: '' @ go_stderr output))
          else Inr (go_stdout output))"

definition revision_exists :: "git_run \<Rightarrow> path \<Rightarrow> ustring \<Rightarrow> bool" where
  "revision_exists git cwd revn \<longleftrightarrow>
     run_git git cwd [lit ''rev-parse'', lit ''--verify'', revn @ lit ''^{commit}''] \<noteq> None"

text \<open>\<open>output.lines().next()?.trim()\<close>\<close>

definition first_line :: "ustring \<Rightarrow> ustring option" where
  "first_line s = (case str_lines s of [] \<Rightarrow> None | l # _ \<Rightarrow> Some (trim l))"

definition detect_git_root ::
    "git_run \<Rightarrow> fs \<Rightarrow> (bytes \<Rightarrow> ustring) \<Rightarrow> path \<Rightarrow> git_root_context option" where
  "detect_git_root git fs blake3 root_path =
     Option.bind (Option.bind (run_git git root_path [lit ''rev-parse'', lit ''--show-toplevel''])
       first_line) (\<lambda>work_tree.
     Option.bind (Option.bind (run_git git root_path [lit ''rev-parse'', lit ''--git-dir''])
       first_line) (\<lambda>git_dir.
     let git_dir = (if is_absolute git_dir then git_dir else path_join root_path git_dir) in
     Option.bind (Option.bind (run_git git root_path [lit ''rev-parse'', lit ''HEAD''])
       first_line) (\<lambda>head.
     if head = [] then None
     else case fs_canonicalize fs root_path of
         Inl _ \<Rightarrow> None
       | Inr root_canon \<Rightarrow>
           (case fs_canonicalize fs work_tree of
              Inl _ \<Rightarrow> None
            | Inr work_canon \<Rightarrow>
                Some \<lparr>gx_git_dir = git_dir, gx_work_tree = work_canon,
                  gx_root_prefix = (case path_strip_prefix root_canon work_canon of
                                      None \<Rightarrow> [] | Some p \<Rightarrow> p),
                  gx_head = head,
                  gx_repo_fingerprint = blake3_hex blake3 (as_bytes work_canon)\<rparr>))))"

subsection \<open>Records and paths\<close>

fun decode_chunks :: "bytes list \<Rightarrow> index_error + ustring list" where
  "decode_chunks [] = Inr []"
| "decode_chunks (chunk # chunks) =
     (case from_utf8 chunk of
        None \<Rightarrow> Inl (IndexInternal
          (lit ''git path is not valid UTF-8; abandoning incomplete incremental result''))
      | Some t \<Rightarrow> try_bind (decode_chunks chunks) (\<lambda>ts. Inr (t # ts)))"

definition split_z :: "bytes \<Rightarrow> index_error + ustring list" where
  "split_z bs = decode_chunks (filter (\<lambda>chunk. chunk \<noteq> []) (split_on (\<lambda>b. b = 0) bs))"

definition map_repo_path_to_root :: "git_root_context \<Rightarrow> ustring \<Rightarrow> path option" where
  "map_repo_path_to_root ctx repo_relative =
     (if repo_relative = [] \<or> prefix [slash] repo_relative then None
      else if \<exists>c \<in> set (components repo_relative). is_parent_or_root c then None
      else if gx_root_prefix ctx = [] then Some repo_relative
      else path_strip_prefix repo_relative (gx_root_prefix ctx))"

definition push_change ::
    "git_root_context \<Rightarrow> git_change_kind \<Rightarrow> ustring \<Rightarrow> git_path_change list" where
  "push_change ctx kind path =
     (case map_repo_path_to_root ctx path of
        None \<Rightarrow> []
      | Some rel \<Rightarrow> [\<lparr>gc_relative_path = rel, gc_kind = kind\<rparr>])"

text \<open>The record loop, on the records from \<open>index\<close> on; an incomplete last record ends it.\<close>

fun parse_parts :: "git_root_context \<Rightarrow> ustring list \<Rightarrow> git_path_change list" where
  "parse_parts ctx [] = []"
| "parse_parts ctx (status # rest) =
     (if status = [] then parse_parts ctx rest
      else if hd status = 82 \<or> hd status = 67 then \<comment> \<open>R or C\<close>
        (case rest of
           old # new # rest' \<Rightarrow>
             push_change ctx GitDeleted old @ push_change ctx Added new @ parse_parts ctx rest'
         | _ \<Rightarrow> [])
      else
        (case rest of
           path # rest' \<Rightarrow>
             push_change ctx (if hd status = 68 then GitDeleted
                              else if hd status = 65 then Added else Modified) path
               @ parse_parts ctx rest'
         | [] \<Rightarrow> []))"

definition parse_name_status_z ::
    "bytes \<Rightarrow> git_root_context \<Rightarrow> git_path_change list \<Rightarrow> index_error + git_path_change list" where
  "parse_name_status_z bs ctx out =
     try_bind (split_z bs) (\<lambda>parts. Inr (out @ parse_parts ctx parts))"

subsection \<open>Sorting and deduplication\<close>

fun kind_debug :: "git_change_kind \<Rightarrow> ustring" where
  "kind_debug Added = lit ''Added''"
| "kind_debug Modified = lit ''Modified''"
| "kind_debug GitDeleted = lit ''Deleted''"

definition change_cmp :: "git_path_change \<Rightarrow> git_path_change \<Rightarrow> ordering" where
  "change_cmp left right =
     then_with (path_cmp (gc_relative_path left) (gc_relative_path right))
       (cmp (kind_debug (gc_kind left)) (kind_debug (gc_kind right)))"

definition same_change :: "git_path_change \<Rightarrow> git_path_change \<Rightarrow> bool" where
  "same_change left right \<longleftrightarrow>
     components (gc_relative_path left) = components (gc_relative_path right)
     \<and> gc_kind left = gc_kind right"

text \<open>\<open>Vec::dedup_by\<close>: drop an element that is the same as the last one kept.\<close>

fun dedup_by :: "('a \<Rightarrow> 'a \<Rightarrow> bool) \<Rightarrow> 'a list \<Rightarrow> 'a list" where
  "dedup_by same [] = []"
| "dedup_by same [x] = [x]"
| "dedup_by same (x # y # xs) =
     (if same y x then dedup_by same (x # xs) else x # dedup_by same (y # xs))"

definition dedupe_changes :: "git_path_change list \<Rightarrow> git_path_change list" where
  "dedupe_changes changes = dedup_by same_change (sort_by change_cmp changes)"

definition diff_args :: "ustring \<Rightarrow> ustring list" where
  "diff_args base =
     map lit [''-c'', ''core.quotepath=false'', ''diff'', ''--name-status'', ''--find-renames'',
       ''--no-ext-diff'', ''--no-textconv'', ''-z''] @ [base]"

definition untracked_args :: "ustring list" where
  "untracked_args = map lit [''-c'', ''core.quotepath=false'', ''ls-files'', ''--others'',
     ''--exclude-standard'', ''-z'']"

definition collect_changes ::
    "git_run \<Rightarrow> path \<Rightarrow> git_root_context \<Rightarrow> ustring \<Rightarrow> index_error + git_path_change list" where
  "collect_changes git root_path ctx base =
     try_bind (run_git_bytes git root_path (diff_args base)) (\<lambda>diff.
     try_bind (parse_name_status_z diff ctx []) (\<lambda>changes.
     try_bind (if base \<noteq> gx_head ctx
               then try_bind (run_git_bytes git root_path (diff_args (lit ''HEAD''))) (\<lambda>dirty.
                      parse_name_status_z dirty ctx changes)
               else Inr changes) (\<lambda>changes.
     try_bind (run_git_bytes git root_path untracked_args) (\<lambda>untracked.
     try_bind (split_z untracked) (\<lambda>paths.
       Inr (dedupe_changes (changes @ concat (map (push_change ctx Added) paths))))))))"

subsection \<open>The records git writes\<close>

datatype name_status =
  Plain uchar ustring | Moved uchar ustring ustring ustring

fun status_fields :: "name_status \<Rightarrow> ustring list" where
  "status_fields (Plain code path) = [[code], path]"
| "status_fields (Moved code score old new) = [code # score, old, new]"

fun status_changes :: "git_root_context \<Rightarrow> name_status \<Rightarrow> git_path_change list" where
  "status_changes ctx (Plain code path) =
     push_change ctx (if code = 68 then GitDeleted else if code = 65 then Added else Modified) path"
| "status_changes ctx (Moved code score old new) =
     push_change ctx GitDeleted old @ push_change ctx Added new"

definition z_encode :: "ustring list \<Rightarrow> bytes" where
  "z_encode fds = concat (map (\<lambda>f. as_bytes f @ [0]) fds)"

definition field_ok :: "ustring \<Rightarrow> bool" where
  "field_ok f \<longleftrightarrow> f \<noteq> [] \<and> list_all is_scalar f \<and> 0 \<notin> set f"

fun status_ok :: "name_status \<Rightarrow> bool" where
  "status_ok (Plain code path) \<longleftrightarrow> code \<noteq> 82 \<and> code \<noteq> 67 \<and> field_ok [code] \<and> field_ok path"
| "status_ok (Moved code score old new) \<longleftrightarrow>
     (code = 82 \<or> code = 67) \<and> field_ok (code # score) \<and> field_ok old \<and> field_ok new"

lemma as_bytes_no_nul: "0 \<notin> set f \<Longrightarrow> 0 \<notin> set (as_bytes f)"
  by (auto simp: as_bytes_def utf8_encode_char_def split: if_splits)

lemma as_bytes_not_nil: "f \<noteq> [] \<Longrightarrow> as_bytes f \<noteq> []"
  by (cases f) (simp_all add: as_bytes_def)

lemma split_on_z_encode:
  "list_all field_ok fds
   \<Longrightarrow> split_on (\<lambda>b. b = 0) (z_encode fds) = map as_bytes fds @ [[]]"
proof (induction fds)
  case Nil
  then show ?case by (simp add: z_encode_def)
next
  case (Cons f fs)
  have "z_encode (f # fs) = as_bytes f @ 0 # z_encode fs" by (simp add: z_encode_def)
  moreover have "\<forall>c \<in> set (as_bytes f). \<not> c = 0"
  proof -
    have "0 \<notin> set f" using Cons.prems by (simp add: field_ok_def)
    then show ?thesis using as_bytes_no_nul [of f] by metis
  qed
  ultimately show ?case using Cons by (simp add: split_on_append_sep)
qed

lemma decode_chunks_as_bytes:
  "list_all field_ok fds \<Longrightarrow> decode_chunks (map as_bytes fds) = Inr fds"
  by (induction fds) (auto simp: field_ok_def from_utf8_as_bytes)

lemma split_z_encode: "list_all field_ok fds \<Longrightarrow> split_z (z_encode fds) = Inr fds"
proof -
  assume ok: "list_all field_ok fds"
  then have "filter (\<lambda>chunk. chunk \<noteq> []) (map as_bytes fds) = map as_bytes fds"
    by (auto simp: filter_id_conv list_all_iff field_ok_def dest: as_bytes_not_nil)
  with ok show ?thesis by (simp add: split_z_def split_on_z_encode decode_chunks_as_bytes)
qed

lemma status_fields_ok: "status_ok s \<Longrightarrow> list_all field_ok (status_fields s)"
  by (cases s) (auto simp: field_ok_def)

lemma parse_parts_fields:
  "list_all status_ok ss
   \<Longrightarrow> parse_parts ctx (concat (map status_fields ss)) = concat (map (status_changes ctx) ss)"
proof (induction ss)
  case (Cons s ss)
  then show ?case by (cases s) auto
qed simp

text \<open>
  C14. Reading back what git prints: for any sequence of well-formed \<open>--name-status -z\<close> records, in
  any order, the parser yields one change per record in the same order (a rename or copy gives the
  deletion of the old path and the addition of the new one), each mapped into the root, and nothing
  else; no path is ever split or misread, whatever characters it has.
\<close>
theorem parse_name_status_z_roundtrip:
  assumes "list_all status_ok records"
  shows "parse_name_status_z (z_encode (concat (map status_fields records))) ctx out
    = Inr (out @ concat (map (status_changes ctx) records))"
proof -
  have "list_all field_ok (concat (map status_fields records))"
    using assms by (induction records) (auto simp: status_fields_ok)
  then show ?thesis
    using assms by (simp add: parse_name_status_z_def split_z_encode parse_parts_fields)
qed

definition sample_ctx :: git_root_context where
  "sample_ctx = \<lparr>gx_git_dir = lit ''/w/.git'', gx_work_tree = lit ''/w'', gx_root_prefix = [],
     gx_head = lit ''abc'', gx_repo_fingerprint = []\<rparr>"

theorem parse_name_status_z_roundtrip_witness:
  "parse_name_status_z (as_bytes (lit ''D'') @ [0] @ as_bytes [97, 10, 98] @ [0]) sample_ctx []
     = Inr [\<lparr>gc_relative_path = [97, 10, 98], gc_kind = GitDeleted\<rparr>]"
  using parse_name_status_z_roundtrip [of "[Plain 68 [97, 10, 98]]" sample_ctx "[]"]
  by (simp add: field_ok_def is_scalar_def z_encode_def lit_def push_change_def sample_ctx_def
      map_repo_path_to_root_def slash_def components_def is_absolute_def is_parent_or_root_def)

subsection \<open>Mapping and deduplication\<close>

lemma no_parent_path_of_components:
  assumes "\<forall>c \<in> set cs. c = CurDir \<or> (\<exists>s. c = Normal s \<and> s \<noteq> [] \<and> s \<noteq> [46, 46] \<and> slash \<notin> set s)"
  shows "\<forall>c \<in> set (components (path_of_components cs)). \<not> is_parent_or_root c"
proof (cases "cs = []")
  case True
  then show ?thesis by (simp add: path_of_components_def)
next
  case False
  let ?r = "path_of_components cs"
  have ns: "slash \<notin> set (as_os_str c)" if "c \<in> set cs" for c
    using assms [rule_format, OF that] by (auto simp: slash_def)
  have pieces: "split_on (\<lambda>c. c = slash) ?r = map as_os_str cs"
    unfolding path_of_components_def
  proof (rule split_on_join)
    show "\<forall>w \<in> set (map as_os_str cs). \<forall>c \<in> set w. \<not> c = slash"
    proof (intro ballI notI)
      fix w c assume "w \<in> set (map as_os_str cs)" "c \<in> set w" "c = slash"
      with ns show False by (metis imageE set_map)
    qed
  qed (use False in simp_all)
  then have "hd (split_on (\<lambda>c. c = slash) ?r) = as_os_str (hd cs)"
    using False by (simp add: hd_map)
  moreover have "as_os_str (hd cs) \<noteq> []"
    using assms [rule_format, OF hd_in_set [OF False]] by (elim disjE exE conjE) simp_all
  ultimately have "\<not> is_absolute ?r"
    by (cases ?r) (auto simp: is_absolute_def)
  then have "set (components ?r) \<subseteq> {CurDir} \<union> piece_component ` as_os_str ` set cs"
    by (auto simp: components_def Let_def pieces simp del: piece_component.simps)
  moreover have "\<not> is_parent_or_root (piece_component (as_os_str c))" if "c \<in> set cs" for c
    using assms [rule_format, OF that] by (elim disjE exE conjE) (simp_all add: is_parent_or_root_def)
  moreover have "\<not> is_parent_or_root CurDir" by (simp add: is_parent_or_root_def)
  ultimately show ?thesis by blast
qed

lemma map_repo_path_safe:
  assumes "map_repo_path_to_root ctx p = Some r"
  shows "\<forall>c \<in> set (components r). \<not> is_parent_or_root c"
proof (cases "gx_root_prefix ctx = []")
  case True
  with assms show ?thesis by (auto simp: map_repo_path_to_root_def split: if_splits)
next
  case False
  let ?n = "length (components (gx_root_prefix ctx))"
  from assms False have m: "r = path_of_components (drop ?n (components p))"
    and safe: "\<forall>c \<in> set (components p). \<not> is_parent_or_root c"
    by (auto simp: map_repo_path_to_root_def path_strip_prefix_def split: if_splits)
  show ?thesis
    unfolding m
  proof (intro no_parent_path_of_components ballI)
    fix c assume "c \<in> set (drop ?n (components p))"
    then have c: "c \<in> set (components p)" by (rule in_set_dropD)
    with safe show "c = CurDir \<or> (\<exists>s. c = Normal s \<and> s \<noteq> [] \<and> s \<noteq> [46, 46] \<and> slash \<notin> set s)"
      using components_Normal [of _ p] by (cases c) (auto simp: is_parent_or_root_def)
  qed
qed

lemma set_dedup_by:
  "x \<in> set xs \<Longrightarrow> (\<And>a. same a a) \<Longrightarrow> (\<And>a b d. same a b \<Longrightarrow> same b d \<Longrightarrow> same a d)
    \<Longrightarrow> \<exists>y \<in> set (dedup_by same xs). same x y"
proof (induction same xs arbitrary: x rule: dedup_by.induct)
  case (3 same x' y' xs)
  show ?case
  proof (cases "same y' x'")
    case True
    from 3 True consider "x = y'" | "x \<in> set (x' # xs)" by auto
    then show ?thesis
    proof cases
      case 1
      have "\<exists>y \<in> set (dedup_by same (x' # xs)). same x' y"
        using 3(1) [OF True, of x'] 3(4,5) by simp
      with 1 True 3(5) show ?thesis by (metis dedup_by.simps(3))
    qed (use 3 True in auto)
  qed (use 3 in auto)
qed auto

lemma dedup_by_subset: "set (dedup_by same xs) \<subseteq> set xs"
  by (induction same xs rule: dedup_by.induct) auto

interpretation changes: comparator change_cmp UNIV
proof -
  have eq: "change_cmp = (\<lambda>a b. then_with
      (cmp (components (gc_relative_path a)) (components (gc_relative_path b)))
      (cmp (kind_debug (gc_kind a)) (kind_debug (gc_kind b))))"
    by (intro ext) (simp add: change_cmp_def path_cmp_def)
  show "comparator change_cmp UNIV"
    unfolding eq by (intro comparator_then comparator_key)
qed

lemma kind_debug_inj [simp]: "kind_debug a = kind_debug b \<longleftrightarrow> a = b"
  by (cases a; cases b) (simp_all add: lit_def)

lemma change_cmp_Equal: "change_cmp a b = Equal \<longleftrightarrow> same_change a b"
  by (simp add: change_cmp_def same_change_def path_cmp_def)

lemma sorted_dedup_strict:
  "sorted_wrt (\<lambda>a b. change_cmp a b \<noteq> Greater) xs
    \<Longrightarrow> sorted_wrt (\<lambda>a b. change_cmp a b = Less) (dedup_by same_change xs)"
proof (induction same_change xs rule: dedup_by.induct)
  case (3 x y xs)
  show ?case
  proof (cases "same_change y x")
    case True
    with 3 show ?thesis by auto
  next
    case False
    have "change_cmp x z = Less" if z: "z \<in> set (y # xs)" for z
    proof -
      have xz: "change_cmp x z \<noteq> Greater" using 3(3) z by auto
      have "change_cmp x z \<noteq> Equal"
      proof
        assume e: "change_cmp x z = Equal"
        have "change_cmp x y \<noteq> Greater" "change_cmp y z \<noteq> Greater \<or> z = y" using 3(3) z by auto
        then have "change_cmp x y = Equal"
          using comparator_trans_strict [OF changes.comparator_axioms, of x y z] e by auto
        with False show False by (auto simp: change_cmp_Equal same_change_def)
      qed
      with xz show ?thesis by (cases "change_cmp x z") auto
    qed
    with 3 False dedup_by_subset [of same_change "y # xs"] show ?thesis by auto
  qed
qed auto

text \<open>
  The change list has no duplicates and is complete: whatever the git commands printed, the
  collected changes are strictly increasing by path and then by kind name, so no path has the same
  kind twice and, where a path is listed as added and as deleted, the addition comes first; every
  change read from the commands is in the list, and nothing else.
\<close>
theorem dedupe_changes_spec:
  "sorted_wrt (\<lambda>a b. change_cmp a b = Less) (dedupe_changes changes)
   \<and> (\<forall>x. (\<exists>y \<in> set (dedupe_changes changes). same_change x y)
        \<longleftrightarrow> (\<exists>y \<in> set changes. same_change x y))"
proof
  show "sorted_wrt (\<lambda>a b. change_cmp a b = Less) (dedupe_changes changes)"
    unfolding dedupe_changes_def by (intro sorted_dedup_strict changes.sorted_sort_by) simp
  have "\<exists>z \<in> set (dedupe_changes changes). same_change y z" if "y \<in> set changes" for y
    unfolding dedupe_changes_def
    by (rule set_dedup_by) (use that in \<open>auto simp: same_change_def\<close>)
  moreover have "set (dedupe_changes changes) \<subseteq> set changes"
    using dedup_by_subset [of same_change "sort_by change_cmp changes"] by (simp add: dedupe_changes_def)
  ultimately show "\<forall>x. (\<exists>y \<in> set (dedupe_changes changes). same_change x y)
      \<longleftrightarrow> (\<exists>y \<in> set changes. same_change x y)"
    unfolding same_change_def by (metis subsetD)
qed

lemma added_before_deleted:
  "change_cmp \<lparr>gc_relative_path = p, gc_kind = Added\<rparr> \<lparr>gc_relative_path = p, gc_kind = GitDeleted\<rparr> = Less"
  by (simp add: change_cmp_def path_cmp_def lit_def)

end
