(* ===== verification/Storage.thy ===== *)
theory Storage
  imports Sources Git
begin

text \<open>
  \<open>storage.rs\<close> over the schema of the four migrations. SQLite itself is not modelled as a language:
  each statement of the source is the table operation it denotes, with the PRIMARY KEY, UNIQUE and
  REFERENCES constraints of the schema checked where the engine checks them (foreign keys are on).
  A table is the list of its rows in insertion order, a row the domain value it encodes (columns hold
  the storage tokens of \<open>Domain\<close>, whose round trip is proved there). A transaction that fails
  returns its error and leaves the database it started from.
\<close>

subsection \<open>Tables\<close>

record fts_row =
  fr_text :: ustring
  fr_segment_id :: uuid
  fr_revision_id :: uuid
  fr_source_file_id :: uuid
  fr_root_id :: uuid
  fr_relative_path :: path
  fr_anchor :: ustring

record root_git_state =
  gs_root_id :: uuid
  gs_repo_fingerprint :: "ustring option"
  gs_last_indexed_commit :: "ustring option"
  gs_observed_head :: "ustring option"
  gs_last_incremental_base :: "ustring option"
  gs_last_incremental_at_ms :: "int option"

record query_activity =
  qa_id :: nat
  qa_observed_at_ms :: int
  qa_mode :: ustring
  qa_result_count :: int
  qa_elapsed_ms :: int

record embedding_space_row =
  es_id :: ustring
  es_provider :: ustring
  es_canonical_model :: ustring
  es_model_digest :: ustring
  es_dimensions :: nat
  es_normalization :: ustring
  es_input_contract_version :: ustring
  es_created_at_ms :: int
  es_config_fingerprint :: ustring

record embedding_vector_row =
  ev_space_id :: ustring
  ev_text_hash :: content_hash
  ev_vector_bytes :: bytes
  ev_dimensions :: nat
  ev_created_at_ms :: int

record embedding_link =
  el_segment_id :: uuid
  el_revision_id :: uuid
  el_space_id :: ustring
  el_text_hash :: content_hash
  el_linked_at_ms :: int

record embedding_failure_row =
  ef_segment_id :: uuid
  ef_space_id :: ustring
  ef_attempted_at_ms :: int
  ef_error_code :: ustring
  ef_safe_message :: ustring
  ef_retry_count :: nat

record sync_run_row =
  sy_id :: nat
  sy_space_id :: "ustring option"
  sy_started_at_ms :: int
  sy_completed_at_ms :: "int option"
  sy_attempted_segments :: nat
  sy_cache_hits :: nat
  sy_provider_inputs :: nat
  sy_linked_segments :: nat
  sy_failures :: nat
  sy_status :: ustring
  sy_failure_category :: "ustring option"

record snapshot_row =
  sr_id :: ustring
  sr_logical_name :: ustring
  sr_format_version :: int
  sr_imported_at_ms :: int
  sr_payload_path :: path
  sr_manifest_json :: ustring
  sr_checksum :: ustring

record snapshot_root_map =
  sm_snapshot_id :: ustring
  sm_snapshot_root_id :: ustring
  sm_local_root_id :: uuid

record db =
  db_schema_version :: "int option"
  db_roots :: "root list"
  db_source_files :: "source_file list"
  db_revisions :: "revision list"
  db_segments :: "segment list"
  db_segments_fts :: "fts_row list"
  db_scan_runs :: "scan_run list"
  db_root_git_state :: "root_git_state list"
  db_query_activity :: "query_activity list"
  db_embedding_spaces :: "embedding_space_row list"
  db_active_space :: "ustring option"
  db_segment_embeddings :: "embedding_link list"
  db_embedding_failures :: "embedding_failure_row list"
  db_sync_runs :: "sync_run_row list"
  db_embedding_vectors :: "embedding_vector_row list"
  db_snapshots :: "snapshot_row list"
  db_snapshot_root_maps :: "snapshot_root_map list"

definition empty_db :: db where
  "empty_db = \<lparr>db_schema_version = Some 4, db_roots = [], db_source_files = [], db_revisions = [],
     db_segments = [], db_segments_fts = [], db_scan_runs = [], db_root_git_state = [],
     db_query_activity = [], db_embedding_spaces = [], db_active_space = None,
     db_segment_embeddings = [], db_embedding_failures = [], db_sync_runs = [],
     db_embedding_vectors = [], db_snapshots = [], db_snapshot_root_maps = []\<rparr>"

definition CURRENT_SCHEMA_VERSION :: int where "CURRENT_SCHEMA_VERSION = 4"

text \<open>The update of the rows a WHERE clause selects.\<close>

definition update_where :: "('a \<Rightarrow> bool) \<Rightarrow> ('a \<Rightarrow> 'a) \<Rightarrow> 'a list \<Rightarrow> 'a list" where
  "update_where P f rows = map (\<lambda>r. if P r then f r else r) rows"

definition delete_where :: "('a \<Rightarrow> bool) \<Rightarrow> 'a list \<Rightarrow> 'a list" where
  "delete_where P rows = filter (\<lambda>r. \<not> P r) rows"

definition unique_violation :: "string \<Rightarrow> storage_error" where
  "unique_violation name = Database (UniqueViolation (lit name))"

definition foreign_key_violation :: "string \<Rightarrow> storage_error" where
  "foreign_key_violation name = Database (ForeignKeyViolation (lit name))"

subsection \<open>Git state and query activity\<close>

definition load_root_git_state :: "db \<Rightarrow> uuid \<Rightarrow> root_git_state option" where
  "load_root_git_state db root_id = find (\<lambda>g. gs_root_id g = root_id) (db_root_git_state db)"

definition upsert_root_git_state :: "db \<Rightarrow> root_git_state \<Rightarrow> storage_error + db" where
  "upsert_root_git_state db state =
     (if \<exists>g \<in> set (db_root_git_state db). gs_root_id g = gs_root_id state
      then Inr (db\<lparr>db_root_git_state :=
        update_where (\<lambda>g. gs_root_id g = gs_root_id state) (\<lambda>_. state) (db_root_git_state db)\<rparr>)
      else if \<forall>r \<in> set (db_roots db). rt_id r \<noteq> gs_root_id state
        then Inl (foreign_key_violation ''root_git_state.root_id'')
      else Inr (db\<lparr>db_root_git_state := db_root_git_state db @ [state]\<rparr>))"

definition QUERY_ACTIVITY_WINDOW :: nat where "QUERY_ACTIVITY_WINDOW = 100"

text \<open>\<open>ORDER BY observed_at_ms DESC\<close>: the engine's choice among equal times is not specified; here
  later rows come later.\<close>

definition recent_activity :: "nat \<Rightarrow> query_activity list \<Rightarrow> query_activity list" where
  "recent_activity n rows =
     take n (sort_by (\<lambda>a b. cmp (qa_observed_at_ms b) (qa_observed_at_ms a)) rows)"

text \<open>\<open>AUTOINCREMENT\<close> never reuses an identifier: the sequence is the \<open>next_id\<close> argument.\<close>

definition record_query_activity ::
    "db \<Rightarrow> nat \<Rightarrow> int \<Rightarrow> ustring \<Rightarrow> int \<Rightarrow> int \<Rightarrow> db" where
  "record_query_activity db next_id observed_at_ms mode result_count elapsed_ms =
     (let rows = db_query_activity db @ [\<lparr>qa_id = next_id, qa_observed_at_ms = observed_at_ms,
            qa_mode = mode, qa_result_count = result_count, qa_elapsed_ms = elapsed_ms\<rparr>];
          keep = map qa_id (recent_activity QUERY_ACTIVITY_WINDOW rows)
      in db\<lparr>db_query_activity := delete_where (\<lambda>r. qa_id r \<notin> set keep) rows\<rparr>)"

definition list_query_activity :: "db \<Rightarrow> nat \<Rightarrow> query_activity list" where
  "list_query_activity db limit = recent_activity limit (db_query_activity db)"

subsection \<open>Migrations\<close>

text \<open>The connection as far as \<open>migrate\<close> sees it: the recorded schema version (\<open>None\<close> when the
  metadata table does not exist or is empty) and the scripts that were committed. What running a
  script gives, and whether FTS5 works, are parameters.\<close>

record connection =
  cn_version :: "int option"
  cn_applied :: "int list"

definition apply_migration ::
    "(int \<Rightarrow> sql_error option) \<Rightarrow> connection \<Rightarrow> int \<Rightarrow> storage_error option \<times> connection" where
  "apply_migration run c version =
     (case run version of
        Some e \<Rightarrow> (Some (Database e), c)
      | None \<Rightarrow> (None, c\<lparr>cn_version := Some version, cn_applied := cn_applied c @ [version]\<rparr>))"

definition current_version :: "connection \<Rightarrow> int" where
  "current_version c = (case cn_version c of None \<Rightarrow> 0 | Some v \<Rightarrow> v)"

text \<open>One migration if it is pending; \<open>after\<close> is what follows it.\<close>

definition pending ::
    "(int \<Rightarrow> sql_error option) \<Rightarrow> int \<Rightarrow> connection \<Rightarrow> (connection \<Rightarrow> storage_error option \<times> connection)
      \<Rightarrow> (connection \<Rightarrow> storage_error option \<times> connection) \<Rightarrow> storage_error option \<times> connection" where
  "pending run version c checked k =
     (if current_version c < version
      then case apply_migration run c version of
          (Some e, c) \<Rightarrow> (Some e, c)
        | (None, c) \<Rightarrow> (case checked c of (Some e, c) \<Rightarrow> (Some e, c) | (None, c) \<Rightarrow> k c)
      else k c)"

definition migrate ::
    "(int \<Rightarrow> sql_error option) \<Rightarrow> bool \<Rightarrow> connection \<Rightarrow> storage_error option \<times> connection" where
  "migrate run fts5_works c =
     (if current_version c > CURRENT_SCHEMA_VERSION then (Some (FutureSchema (current_version c)), c)
      else pending run 1 c (Pair None) (\<lambda>c.
           pending run 2 c (\<lambda>c. (if fts5_works then None else Some FtsUnavailable, c)) (\<lambda>c.
           pending run 3 c (Pair None) (\<lambda>c.
           pending run 4 c (Pair None) (Pair None)))))"

subsection \<open>Roots\<close>

definition upsert_root :: "db \<Rightarrow> root \<Rightarrow> storage_error + db" where
  "upsert_root db root =
     (if \<exists>r \<in> set (db_roots db). rt_canonical_path r = rt_canonical_path root \<and> rt_id r \<noteq> rt_id root
      then Inl (unique_violation ''roots.canonical_path'')
      else if \<exists>r \<in> set (db_roots db). rt_id r = rt_id root
      then Inr (db\<lparr>db_roots := update_where (\<lambda>r. rt_id r = rt_id root)
             (\<lambda>r. root\<lparr>rt_created_at := rt_created_at r\<rparr>) (db_roots db)\<rparr>)
      else Inr (db\<lparr>db_roots := db_roots db @ [root]\<rparr>))"

record root_removal_counts =
  rc_source_files :: nat
  rc_revisions :: nat
  rc_segments :: nat

text \<open>The sub-selects of the removal.\<close>

definition sources_of_root :: "db \<Rightarrow> uuid \<Rightarrow> uuid list" where
  "sources_of_root db root_id = map sf_id (filter (\<lambda>s. sf_root_id s = root_id) (db_source_files db))"

definition revisions_of_root :: "db \<Rightarrow> uuid \<Rightarrow> uuid list" where
  "revisions_of_root db root_id =
     map rv_id (filter (\<lambda>r. rv_source_file_id r \<in> set (sources_of_root db root_id)) (db_revisions db))"

definition segments_of_root :: "db \<Rightarrow> uuid \<Rightarrow> uuid list" where
  "segments_of_root db root_id =
     map sg_id (filter (\<lambda>g. sg_revision_id g \<in> set (revisions_of_root db root_id)) (db_segments db))"

text \<open>Deleting a segment or a revision cascades to its embedding links and failures, deleting a root
  to its Git state and its snapshot mappings; any other reference left to a deleted row fails the statement.\<close>

definition delete_segments :: "uuid set \<Rightarrow> db \<Rightarrow> db" where
  "delete_segments ids db = db\<lparr>
     db_segments := delete_where (\<lambda>g. sg_id g \<in> ids) (db_segments db),
     db_segment_embeddings := delete_where (\<lambda>e. el_segment_id e \<in> ids) (db_segment_embeddings db),
     db_embedding_failures := delete_where (\<lambda>e. ef_segment_id e \<in> ids) (db_embedding_failures db)\<rparr>"

definition delete_revisions :: "uuid set \<Rightarrow> db \<Rightarrow> storage_error + db" where
  "delete_revisions ids db =
     (if \<exists>g \<in> set (db_segments db). sg_revision_id g \<in> ids
      then Inl (foreign_key_violation ''segments.revision_id'')
      else Inr (db\<lparr>
        db_revisions := delete_where (\<lambda>r. rv_id r \<in> ids) (db_revisions db),
        db_segment_embeddings := delete_where (\<lambda>e. el_revision_id e \<in> ids) (db_segment_embeddings db)\<rparr>))"

definition delete_source_files :: "uuid set \<Rightarrow> db \<Rightarrow> storage_error + db" where
  "delete_source_files ids db =
     (if \<exists>r \<in> set (db_revisions db). rv_source_file_id r \<in> ids
      then Inl (foreign_key_violation ''revisions.source_file_id'')
      else Inr (db\<lparr>db_source_files := delete_where (\<lambda>s. sf_id s \<in> ids) (db_source_files db)\<rparr>))"

definition delete_root :: "uuid \<Rightarrow> db \<Rightarrow> storage_error + db" where
  "delete_root root_id db =
     (if \<exists>s \<in> set (db_source_files db). sf_root_id s = root_id
      then Inl (foreign_key_violation ''source_files.root_id'')
      else Inr (db\<lparr>
        db_roots := delete_where (\<lambda>r. rt_id r = root_id) (db_roots db),
        db_scan_runs := delete_where (\<lambda>r. sc_root_id r = root_id) (db_scan_runs db),
        db_root_git_state := delete_where (\<lambda>g. gs_root_id g = root_id) (db_root_git_state db),
        db_snapshot_root_maps := delete_where (\<lambda>m. sm_local_root_id m = root_id)
          (db_snapshot_root_maps db)\<rparr>))"

definition delete_root_derived :: "db \<Rightarrow> uuid \<Rightarrow> storage_error + root_removal_counts \<times> db" where
  "delete_root_derived db root_id =
     (let sources = sources_of_root db root_id;
          revisions = revisions_of_root db root_id;
          segments = segments_of_root db root_id;
          counts = \<lparr>rc_source_files = length sources, rc_revisions = length revisions,
                    rc_segments = length segments\<rparr>;
          db = db\<lparr>db_segments_fts := delete_where (\<lambda>f. fr_root_id f = root_id) (db_segments_fts db)\<rparr>;
          db = delete_segments (set segments) db
      in try_bind (delete_revisions (set revisions) db) (\<lambda>db.
         let db = db\<lparr>db_scan_runs := delete_where (\<lambda>r. sc_root_id r = root_id) (db_scan_runs db)\<rparr> in
         try_bind (delete_source_files (set sources) db) (\<lambda>db.
         try_bind (delete_root root_id db) (\<lambda>db. Inr (counts, db)))))"

subsection \<open>Source files and revisions\<close>

definition find_source_file :: "db \<Rightarrow> uuid \<Rightarrow> path \<Rightarrow> source_file option" where
  "find_source_file db root_id relative_path =
     find (\<lambda>s. sf_root_id s = root_id \<and> sf_relative_path s = relative_path) (db_source_files db)"

definition list_active_source_files :: "db \<Rightarrow> uuid \<Rightarrow> source_file list" where
  "list_active_source_files db root_id =
     sort_by (\<lambda>a b. cmp (sf_relative_path a) (sf_relative_path b))
       (filter (\<lambda>s. sf_root_id s = root_id \<and> sf_state s = Active) (db_source_files db))"

definition get_revision :: "db \<Rightarrow> uuid \<Rightarrow> revision option" where
  "get_revision db revision_id = find (\<lambda>r. rv_id r = revision_id) (db_revisions db)"

definition count_active_sources :: "db \<Rightarrow> uuid \<Rightarrow> nat" where
  "count_active_sources db root_id =
     length (filter (\<lambda>s. sf_root_id s = root_id \<and> sf_state s = Active) (db_source_files db))"

definition revision_key :: "revision \<Rightarrow> uuid \<times> content_hash \<times> ustring \<times> ustring" where
  "revision_key r = (rv_source_file_id r, rv_content_hash r, rv_parser_id r, rv_parser_version r)"

definition insert_revision :: "db \<Rightarrow> revision \<Rightarrow> storage_error + db" where
  "insert_revision db revision =
     (if rv_id revision \<in> set (map rv_id (db_revisions db))
      then Inl (unique_violation ''revisions.id'')
      else if revision_key revision \<in> set (map revision_key (db_revisions db))
      then Inl (unique_violation ''revisions.source_file_id'')
      else if rv_source_file_id revision \<notin> set (map sf_id (db_source_files db))
      then Inl (foreign_key_violation ''revisions.source_file_id'')
      else Inr (db\<lparr>db_revisions := db_revisions db @ [revision]\<rparr>))"

definition fts_row_of :: "source_file \<Rightarrow> segment \<Rightarrow> fts_row" where
  "fts_row_of source segment =
     \<lparr>fr_text = sg_text segment, fr_segment_id = sg_id segment, fr_revision_id = sg_revision_id segment,
      fr_source_file_id = sf_id source, fr_root_id = sf_root_id source,
      fr_relative_path = sf_relative_path source, fr_anchor = sg_anchor segment\<rparr>"

definition insert_segment :: "db \<Rightarrow> segment \<Rightarrow> storage_error + db" where
  "insert_segment db segment =
     (if sg_id segment \<in> set (map sg_id (db_segments db))
      then Inl (unique_violation ''segments.id'')
      else if (sg_revision_id segment, sg_ordinal segment)
              \<in> set (map (\<lambda>g. (sg_revision_id g, sg_ordinal g)) (db_segments db))
      then Inl (unique_violation ''segments.ordinal'')
      else if (sg_revision_id segment, sg_anchor segment)
              \<in> set (map (\<lambda>g. (sg_revision_id g, sg_anchor g)) (db_segments db))
      then Inl (unique_violation ''segments.anchor'')
      else if sg_revision_id segment \<notin> set (map rv_id (db_revisions db))
      then Inl (foreign_key_violation ''segments.revision_id'')
      else Inr (db\<lparr>db_segments := db_segments db @ [segment]\<rparr>))"

fun insert_segments :: "source_file \<Rightarrow> revision \<Rightarrow> segment list \<Rightarrow> db \<Rightarrow> storage_error + db" where
  "insert_segments source revision [] db = Inr db"
| "insert_segments source revision (segment # segments) db =
     try_bind (insert_segment db segment) (\<lambda>db.
       insert_segments source revision segments
         (db\<lparr>db_segments_fts := db_segments_fts db
            @ [(fts_row_of source segment)\<lparr>fr_revision_id := rv_id revision\<rparr>]\<rparr>))"

definition delete_fts_revision :: "uuid option \<Rightarrow> db \<Rightarrow> db" where
  "delete_fts_revision previous db =
     (case previous of
        None \<Rightarrow> db
      | Some r \<Rightarrow> db\<lparr>db_segments_fts := delete_where (\<lambda>f. fr_revision_id f = r) (db_segments_fts db)\<rparr>)"

definition stored_size :: "nat \<Rightarrow> nat" where
  "stored_size n = nat (i64_sat n)"

definition promoted :: "source_file \<Rightarrow> revision \<Rightarrow> source_file \<Rightarrow> source_file" where
  "promoted source revision row = row\<lparr>
     sf_canonical_path_hash := sf_canonical_path_hash source,
     sf_file_type := sf_file_type source,
     sf_size_bytes := stored_size (sf_size_bytes source),
     sf_modified_at := sf_modified_at source,
     sf_current_revision_id := Some (rv_id revision),
     sf_state := Active,
     sf_last_seen_at := sf_last_seen_at source\<rparr>"

definition promote_revision ::
    "db \<Rightarrow> source_file \<Rightarrow> revision \<Rightarrow> segment list \<Rightarrow> storage_error + db" where
  "promote_revision db source revision segments =
     try_bind (insert_revision (delete_fts_revision (sf_current_revision_id source) db) revision) (\<lambda>db.
     try_bind (insert_segments source revision segments db) (\<lambda>db.
       Inr (db\<lparr>db_source_files := update_where (\<lambda>s. sf_id s = sf_id source) (promoted source revision)
              (db_source_files db)\<rparr>)))"

definition upserted :: "source_file \<Rightarrow> source_file \<Rightarrow> source_file" where
  "upserted source row = row\<lparr>
     sf_canonical_path_hash := sf_canonical_path_hash source,
     sf_file_type := sf_file_type source,
     sf_size_bytes := stored_size (sf_size_bytes source),
     sf_modified_at := sf_modified_at source,
     sf_current_revision_id := sf_current_revision_id source,
     sf_state := sf_state source,
     sf_last_seen_at := sf_last_seen_at source\<rparr>"

definition same_path :: "source_file \<Rightarrow> source_file \<Rightarrow> bool" where
  "same_path a b \<longleftrightarrow> sf_root_id a = sf_root_id b \<and> sf_relative_path a = sf_relative_path b"

definition upsert_source_file :: "db \<Rightarrow> source_file \<Rightarrow> storage_error + db" where
  "upsert_source_file db source =
     (if \<exists>s \<in> set (db_source_files db). same_path s source
      then Inr (db\<lparr>db_source_files := update_where (\<lambda>s. same_path s source) (upserted source)
              (db_source_files db)\<rparr>)
      else if sf_id source \<in> set (map sf_id (db_source_files db))
      then Inl (unique_violation ''source_files.id'')
      else if sf_root_id source \<notin> set (map rt_id (db_roots db))
      then Inl (foreign_key_violation ''source_files.root_id'')
      else Inr (db\<lparr>db_source_files := db_source_files db
              @ [source\<lparr>sf_size_bytes := stored_size (sf_size_bytes source)\<rparr>]\<rparr>))"

definition mark_source_deleted :: "db \<Rightarrow> source_file \<Rightarrow> timestamp \<Rightarrow> db" where
  "mark_source_deleted db source deleted_at =
     (let db = delete_fts_revision (sf_current_revision_id source) db
      in db\<lparr>db_source_files := update_where (\<lambda>s. sf_id s = sf_id source)
              (\<lambda>s. s\<lparr>sf_state := Deleted, sf_current_revision_id := None, sf_last_seen_at := deleted_at\<rparr>)
              (db_source_files db)\<rparr>)"

definition insert_scan_run :: "db \<Rightarrow> scan_run \<Rightarrow> storage_error + db" where
  "insert_scan_run db run =
     (if sc_id run \<in> set (map sc_id (db_scan_runs db)) then Inl (unique_violation ''scan_runs.id'')
      else if sc_root_id run \<notin> set (map rt_id (db_roots db))
      then Inl (foreign_key_violation ''scan_runs.root_id'')
      else Inr (db\<lparr>db_scan_runs := db_scan_runs db @ [run]\<rparr>))"

definition path_hash :: "(bytes \<Rightarrow> ustring) \<Rightarrow> path \<Rightarrow> content_hash" where
  "path_hash blake3 p = blake3_hex blake3 (as_bytes p)"

subsection \<open>Status and changes\<close>

record embedding_status =
  et_space_exists :: bool
  et_active_space_id :: "ustring option"
  et_provider :: "ustring option"
  et_canonical_model :: "ustring option"
  et_model_digest :: "ustring option"
  et_dimensions :: "nat option"
  et_normalization :: "ustring option"
  et_active_segments :: nat
  et_linked_active_segments :: nat
  et_missing_active_segments :: int
  et_current_failure_count :: nat
  et_latest_sync_status :: "ustring option"
  et_latest_sync_completed_at_ms :: "int option"

record status_snapshot =
  ss_schema_version :: int
  ss_root_count :: nat
  ss_enabled_root_count :: nat
  ss_active_source_files :: nat
  ss_active_revisions :: nat
  ss_active_segments :: nat
  ss_fts_rows :: nat
  ss_failed_sources :: nat
  ss_sensitivity_tag_count :: nat
  ss_last_successful_scan_ms :: "int option"
  ss_last_failed_scan_ms :: "int option"
  ss_database_size_bytes :: nat
  ss_embedding :: embedding_status

definition active_current_ids :: "db \<Rightarrow> uuid list" where
  "active_current_ids db = concat (map (\<lambda>s. case sf_current_revision_id s of None \<Rightarrow> [] | Some r \<Rightarrow> [r])
     (filter (\<lambda>s. sf_state s = Active) (db_source_files db)))"

text \<open>\<open>COUNT(*)\<close> of a join with the active sources on their current revision.\<close>

definition count_joined :: "db \<Rightarrow> ('a \<Rightarrow> uuid) \<Rightarrow> 'a list \<Rightarrow> nat" where
  "count_joined db revision_of rows =
     length (concat (map (\<lambda>f. filter (\<lambda>x. sf_current_revision_id f = Some (revision_of x)) rows)
       (filter (\<lambda>s. sf_state s = Active) (db_source_files db))))"

definition last_scan_ms :: "db \<Rightarrow> scan_status \<Rightarrow> int option" where
  "last_scan_ms db status =
     (let times = concat (map (\<lambda>r. case sc_completed_at r of None \<Rightarrow> [] | Some t \<Rightarrow> [t])
            (filter (\<lambda>r. sc_status r = status) (db_scan_runs db)))
      in if times = [] then None else Some (Max (set times)))"

definition latest_sync :: "db \<Rightarrow> sync_run_row option" where
  "latest_sync db = (case sort_by (\<lambda>a b. cmp (sy_id b) (sy_id a)) (db_sync_runs db) of
     [] \<Rightarrow> None | r # _ \<Rightarrow> Some r)"

definition embedding_status_of :: "db \<Rightarrow> nat \<Rightarrow> embedding_status" where
  "embedding_status_of db active_segments =
     (let active_space_id = db_active_space db;
          space = Option.bind active_space_id
            (\<lambda>i. find (\<lambda>r. es_id r = i) (db_embedding_spaces db));
          linked = (case active_space_id of None \<Rightarrow> 0
            | Some i \<Rightarrow> count_joined db el_revision_id
                (filter (\<lambda>e. el_space_id e = i) (db_segment_embeddings db)));
          failures = (case active_space_id of None \<Rightarrow> 0
            | Some i \<Rightarrow> count_joined db sg_revision_id
                (concat (map (\<lambda>ef. filter (\<lambda>g. sg_id g = ef_segment_id ef) (db_segments db))
                  (filter (\<lambda>ef. ef_space_id ef = i) (db_embedding_failures db)))))
      in \<lparr>et_space_exists = (active_space_id \<noteq> None), et_active_space_id = active_space_id,
          et_provider = map_option es_provider space,
          et_canonical_model = map_option es_canonical_model space,
          et_model_digest = map_option es_model_digest space,
          et_dimensions = map_option es_dimensions space,
          et_normalization = map_option es_normalization space,
          et_active_segments = active_segments, et_linked_active_segments = linked,
          et_missing_active_segments = int active_segments - int linked,
          et_current_failure_count = failures,
          et_latest_sync_status = map_option sy_status (latest_sync db),
          et_latest_sync_completed_at_ms = Option.bind (latest_sync db) sy_completed_at_ms\<rparr>)"

definition status_snapshot_of :: "db \<Rightarrow> nat \<Rightarrow> status_snapshot" where
  "status_snapshot_of db database_size_bytes =
     (let active_segments = length (filter (\<lambda>g. sg_revision_id g \<in> set (active_current_ids db))
            (db_segments db))
      in \<lparr>ss_schema_version = (case db_schema_version db of None \<Rightarrow> 0 | Some v \<Rightarrow> v),
          ss_root_count = length (db_roots db),
          ss_enabled_root_count = length (filter rt_enabled (db_roots db)),
          ss_active_source_files = length (filter (\<lambda>s. sf_state s = Active) (db_source_files db)),
          ss_active_revisions = length (filter (\<lambda>s. sf_state s = Active
             \<and> sf_current_revision_id s \<noteq> None) (db_source_files db)),
          ss_active_segments = active_segments,
          ss_fts_rows = length (db_segments_fts db),
          ss_failed_sources = length (filter (\<lambda>s. sf_state s = SourceError) (db_source_files db)),
          ss_sensitivity_tag_count = sum_list (map (\<lambda>r. length (rt_sensitivity_tags r)) (db_roots db)),
          ss_last_successful_scan_ms = last_scan_ms db ScanCompleted,
          ss_last_failed_scan_ms = last_scan_ms db ScanFailed,
          ss_database_size_bytes = database_size_bytes,
          ss_embedding = embedding_status_of db active_segments\<rparr>)"

record change_event =
  ce_kind :: ustring
  ce_root_id :: uuid
  ce_relative_path :: path
  ce_previous_content_hash :: "content_hash option"
  ce_current_content_hash :: "content_hash option"
  ce_observed_at_ms :: "int option"
  ce_indexed_at_ms :: "int option"

text \<open>The two left joins: one row per other indexed revision of the file, one row with NULL when there
  is none.\<close>

definition previous_hashes :: "db \<Rightarrow> source_file \<Rightarrow> content_hash option list" where
  "previous_hashes db s =
     (case filter (\<lambda>r. rv_source_file_id r = sf_id s \<and> sf_current_revision_id s \<noteq> Some (rv_id r)
                    \<and> rv_status r = Indexed) (db_revisions db) of
        [] \<Rightarrow> [None] | rs \<Rightarrow> map (\<lambda>r. Some (rv_content_hash r)) rs)"

definition change_kind ::
    "source_file \<Rightarrow> int option \<Rightarrow> content_hash option \<Rightarrow> content_hash option \<Rightarrow> ustring option" where
  "change_kind s since_ms previous_hash current_hash =
     (let old = (case since_ms of None \<Rightarrow> False | Some since \<Rightarrow> sf_last_seen_at s < since)
      in if old \<and> sf_state s \<noteq> Deleted then None
         else if sf_state s = Deleted then (if old then None else Some (lit ''deletion''))
         else if sf_state s = Active \<and> previous_hash = None then Some (lit ''addition'')
         else if sf_state s = Active \<and> previous_hash \<noteq> current_hash then Some (lit ''modification'')
         else None)"

definition source_events :: "db \<Rightarrow> int option \<Rightarrow> source_file \<Rightarrow> change_event list" where
  "source_events db since_ms s =
     (let cur = Option.bind (sf_current_revision_id s) (get_revision db);
          current_hash = map_option rv_content_hash cur
      in concat (map (\<lambda>previous_hash.
           case change_kind s since_ms previous_hash current_hash of
             None \<Rightarrow> []
           | Some kind \<Rightarrow> [\<lparr>ce_kind = kind, ce_root_id = sf_root_id s,
               ce_relative_path = sf_relative_path s, ce_previous_content_hash = previous_hash,
               ce_current_content_hash = current_hash,
               ce_observed_at_ms = map_option rv_observed_at cur,
               ce_indexed_at_ms = Option.bind cur rv_indexed_at\<rparr>]) (previous_hashes db s)))"

definition event_cmp :: "change_event \<Rightarrow> change_event \<Rightarrow> ordering" where
  "event_cmp left right =
     then_with (cmp (ce_relative_path left) (ce_relative_path right))
       (then_with (cmp (ce_root_id left) (ce_root_id right)) (cmp (ce_kind left) (ce_kind right)))"

definition list_changes :: "db \<Rightarrow> uuid option \<Rightarrow> int option \<Rightarrow> change_event list" where
  "list_changes db root_id since_ms =
     (let rows = filter (\<lambda>s. case root_id of None \<Rightarrow> True | Some i \<Rightarrow> sf_root_id s = i) (db_source_files db);
          rows = sort_by (\<lambda>a b. then_with (cmp (sf_relative_path a) (sf_relative_path b))
                   (cmp (sf_root_id a) (sf_root_id b))) rows
      in sort_by event_cmp (concat (map (source_events db since_ms) rows)))"

end
