(* ===== verification/Storage_Invariants.thy ===== *)
theory Storage_Invariants
  imports Storage
begin

text \<open>
  What the storage operations keep. \<open>db_ok\<close> collects the schema's keys and references, the
  discipline of the current-revision pointer, and the agreement of the full-text rows with the
  segments of current revisions. \<open>index_view\<close> is the abstract index: which revision, with which
  segments, is current at a root and path. The operations are shown to keep the one and to
  update the other at a single point.
\<close>

definition keys_ok :: "db \<Rightarrow> bool" where
  "keys_ok db \<longleftrightarrow>
     distinct (map rt_id (db_roots db)) \<and> distinct (map rt_canonical_path (db_roots db))
     \<and> distinct (map sf_id (db_source_files db))
     \<and> distinct (map (\<lambda>s. (sf_root_id s, sf_relative_path s)) (db_source_files db))
     \<and> distinct (map rv_id (db_revisions db)) \<and> distinct (map revision_key (db_revisions db))
     \<and> distinct (map sg_id (db_segments db))
     \<and> distinct (map (\<lambda>g. (sg_revision_id g, sg_ordinal g)) (db_segments db))
     \<and> distinct (map (\<lambda>g. (sg_revision_id g, sg_anchor g)) (db_segments db))
     \<and> distinct (map sc_id (db_scan_runs db)) \<and> distinct (map gs_root_id (db_root_git_state db))"

definition refs_ok :: "db \<Rightarrow> bool" where
  "refs_ok db \<longleftrightarrow>
     sf_root_id ` set (db_source_files db) \<subseteq> rt_id ` set (db_roots db)
     \<and> rv_source_file_id ` set (db_revisions db) \<subseteq> sf_id ` set (db_source_files db)
     \<and> sg_revision_id ` set (db_segments db) \<subseteq> rv_id ` set (db_revisions db)
     \<and> sc_root_id ` set (db_scan_runs db) \<subseteq> rt_id ` set (db_roots db)
     \<and> gs_root_id ` set (db_root_git_state db) \<subseteq> rt_id ` set (db_roots db)"

text \<open>Only an active source has a current revision, and that revision is an indexed one of its own.\<close>

definition current_ok :: "db \<Rightarrow> bool" where
  "current_ok db \<longleftrightarrow> (\<forall>s \<in> set (db_source_files db). \<forall>r. sf_current_revision_id s = Some r \<longrightarrow>
     sf_state s = Active
     \<and> (\<exists>v \<in> set (db_revisions db). rv_id v = r \<and> rv_source_file_id v = sf_id s \<and> rv_status v = Indexed))"

definition current_rows :: "db \<Rightarrow> fts_row list" where
  "current_rows db = concat (map (\<lambda>s. map (fts_row_of s)
     (filter (\<lambda>g. sf_current_revision_id s = Some (sg_revision_id g)) (db_segments db))) (db_source_files db))"

definition fts_ok :: "db \<Rightarrow> bool" where
  "fts_ok db \<longleftrightarrow> set (db_segments_fts db) = set (current_rows db)
     \<and> distinct (map fr_segment_id (db_segments_fts db))"

definition db_ok :: "db \<Rightarrow> bool" where
  "db_ok db \<longleftrightarrow> keys_ok db \<and> refs_ok db \<and> current_ok db \<and> fts_ok db"

lemmas db_ok_defs = db_ok_def keys_ok_def refs_ok_def current_ok_def fts_ok_def

lemma in_current_rows:
  "f \<in> set (current_rows db) \<longleftrightarrow> (\<exists>s \<in> set (db_source_files db). \<exists>g \<in> set (db_segments db).
     sf_current_revision_id s = Some (sg_revision_id g) \<and> f = fts_row_of s g)"
  by (auto simp: current_rows_def)

lemma fts_row_of_simps [simp]:
  "fr_text (fts_row_of s g) = sg_text g" "fr_segment_id (fts_row_of s g) = sg_id g"
  "fr_revision_id (fts_row_of s g) = sg_revision_id g" "fr_source_file_id (fts_row_of s g) = sf_id s"
  "fr_root_id (fts_row_of s g) = sf_root_id s" "fr_relative_path (fts_row_of s g) = sf_relative_path s"
  "fr_anchor (fts_row_of s g) = sg_anchor g"
  by (simp_all add: fts_row_of_def)

lemma empty_db_ok: "db_ok empty_db"
  by (simp add: db_ok_defs empty_db_def current_rows_def)

subsection \<open>Rows selected by key\<close>

lemma set_delete_where [simp]: "set (delete_where P xs) = {x \<in> set xs. \<not> P x}"
  by (auto simp: delete_where_def)

lemma set_update_where: "set (update_where P f xs) = (\<lambda>x. if P x then f x else x) ` set xs"
  by (simp add: update_where_def)

lemma map_update_where:
  "(\<And>x. x \<in> set xs \<Longrightarrow> P x \<Longrightarrow> g (f x) = g x) \<Longrightarrow> map g (update_where P f xs) = map g xs"
  by (auto simp: update_where_def)

lemma image_update_where:
  "(\<And>x. x \<in> set xs \<Longrightarrow> P x \<Longrightarrow> g (f x) = g x) \<Longrightarrow> g ` set (update_where P f xs) = g ` set xs"
  by (metis map_update_where image_set)

lemma distinct_map_delete_where: "distinct (map g xs) \<Longrightarrow> distinct (map g (delete_where P xs))"
  by (simp add: delete_where_def distinct_map_filter)

lemma distinct_key:
  "distinct (map k xs) \<Longrightarrow> x \<in> set xs \<Longrightarrow> y \<in> set xs \<Longrightarrow> k x = k y \<Longrightarrow> x = y"
  by (metis distinct_map inj_onD)

lemma find_key:
  "distinct (map k xs) \<Longrightarrow> find (\<lambda>x. k x = v) xs = Some x \<longleftrightarrow> x \<in> set xs \<and> k x = v"
proof (induction xs)
  case (Cons y ys)
  then show ?case by (cases "k y = v") (auto intro: rev_image_eqI)
qed simp

lemma find_Some_in: "find P xs = Some x \<Longrightarrow> x \<in> set xs \<and> P x"
  by (induction xs) (auto split: if_splits)

lemma keys_okD:
  assumes "keys_ok db"
  shows "distinct (map rt_id (db_roots db))" "distinct (map rt_canonical_path (db_roots db))"
    "distinct (map sf_id (db_source_files db))"
    "distinct (map (\<lambda>s. (sf_root_id s, sf_relative_path s)) (db_source_files db))"
    "distinct (map rv_id (db_revisions db))" "distinct (map revision_key (db_revisions db))"
    "distinct (map sg_id (db_segments db))"
  using assms by (auto simp: keys_ok_def)

lemma source_eqI:
  "keys_ok db \<Longrightarrow> s \<in> set (db_source_files db) \<Longrightarrow> s' \<in> set (db_source_files db)
    \<Longrightarrow> sf_id s = sf_id s' \<Longrightarrow> s = s'"
  using distinct_key [OF keys_okD(3)] by blast

lemma source_path_eqI:
  assumes "keys_ok db" "s \<in> set (db_source_files db)" "s' \<in> set (db_source_files db)"
    and "sf_root_id s = sf_root_id s'" "sf_relative_path s = sf_relative_path s'"
  shows "s = s'"
  using distinct_key [OF keys_okD(4) [OF assms(1)] assms(2,3)] assms(4,5) by simp

lemma revision_eqI:
  "keys_ok db \<Longrightarrow> v \<in> set (db_revisions db) \<Longrightarrow> v' \<in> set (db_revisions db)
    \<Longrightarrow> rv_id v = rv_id v' \<Longrightarrow> v = v'"
  using distinct_key [OF keys_okD(5)] by blast

lemma segment_eqI:
  "keys_ok db \<Longrightarrow> g \<in> set (db_segments db) \<Longrightarrow> g' \<in> set (db_segments db)
    \<Longrightarrow> sg_id g = sg_id g' \<Longrightarrow> g = g'"
  using distinct_key [OF keys_okD(7)] by blast

lemma get_revision_Some:
  "keys_ok db \<Longrightarrow> get_revision db i = Some v \<longleftrightarrow> v \<in> set (db_revisions db) \<and> rv_id v = i"
  unfolding get_revision_def by (rule find_key) (rule keys_okD)

lemma find_source_file_Some:
  assumes "keys_ok db"
  shows "find_source_file db root p = Some s
    \<longleftrightarrow> s \<in> set (db_source_files db) \<and> sf_root_id s = root \<and> sf_relative_path s = p"
  using find_key [OF keys_okD(4) [OF assms], of "(root, p)" s]
  by (simp add: find_source_file_def)

lemma find_source_file_None:
  "find_source_file db root p = None
    \<longleftrightarrow> (\<forall>s \<in> set (db_source_files db). \<not> (sf_root_id s = root \<and> sf_relative_path s = p))"
  by (auto simp: find_source_file_def find_None_iff)

subsection \<open>The full-text rows\<close>

text \<open>The invariant makes the number of full-text rows the number of active segments, as the status
  report shows them.\<close>

lemma current_source_unique:
  assumes "keys_ok db" "current_ok db" "s \<in> set (db_source_files db)" "s' \<in> set (db_source_files db)"
    and "sf_current_revision_id s = Some r" "sf_current_revision_id s' = Some r"
  shows "s = s'"
proof -
  from assms(2-6) obtain v v' where "v \<in> set (db_revisions db)" "rv_id v = r" "rv_source_file_id v = sf_id s"
    "v' \<in> set (db_revisions db)" "rv_id v' = r" "rv_source_file_id v' = sf_id s'"
    unfolding current_ok_def by metis
  then have "sf_id s = sf_id s'" using revision_eqI [OF assms(1)] by metis
  with assms show ?thesis using source_eqI by metis
qed

lemma distinct_current_rows:
  assumes "keys_ok db" "refs_ok db" "current_ok db"
  shows "distinct (map fr_segment_id (current_rows db))"
proof -
  note one = current_source_unique [OF assms(1,3)]
  have "distinct (map fr_segment_id (concat (map (\<lambda>s. map (fts_row_of s)
      (filter (\<lambda>g. sf_current_revision_id s = Some (sg_revision_id g)) (db_segments db))) ss)))"
    if "set ss \<subseteq> set (db_source_files db)" "distinct ss" for ss
    using that
  proof (induction ss)
    case (Cons s ss)
    let ?row = "\<lambda>s. map (fts_row_of s)
      (filter (\<lambda>g. sf_current_revision_id s = Some (sg_revision_id g)) (db_segments db))"
    have "distinct (map fr_segment_id (?row s))"
      using assms(1) by (simp add: keys_ok_def comp_def distinct_map_filter)
    moreover have "fr_segment_id f \<noteq> fr_segment_id f'"
      if "f \<in> set (?row s)" "s' \<in> set ss" "f' \<in> set (?row s')" for f s' f'
    proof
      assume e: "fr_segment_id f = fr_segment_id f'"
      from that obtain g g' where g: "g \<in> set (db_segments db)" "f = fts_row_of s g"
        "sf_current_revision_id s = Some (sg_revision_id g)"
        "g' \<in> set (db_segments db)" "f' = fts_row_of s' g'"
        "sf_current_revision_id s' = Some (sg_revision_id g')" by auto
      with e have "g = g'" using segment_eqI [OF assms(1)] by simp
      with g one that Cons.prems have "s = s'" by auto
      with that Cons.prems show False by auto
    qed
    ultimately show ?case using Cons by fastforce
  qed simp
  moreover have "distinct (db_source_files db)"
    using assms(1) by (auto simp: keys_ok_def distinct_map)
  ultimately show ?thesis unfolding current_rows_def by blast
qed

lemma length_fts_current_rows:
  assumes "db_ok db"
  shows "length (db_segments_fts db) = length (current_rows db)"
proof -
  have "distinct (db_segments_fts db)" "distinct (current_rows db)"
    using assms distinct_current_rows by (auto simp: db_ok_def fts_ok_def distinct_map)
  then show ?thesis using assms by (metis db_ok_def fts_ok_def distinct_card)
qed

subsection \<open>Source rows\<close>

text \<open>What an update of source rows must respect to keep the invariant: the identity columns.\<close>

definition same_identity :: "source_file \<Rightarrow> source_file \<Rightarrow> bool" where
  "same_identity a b \<longleftrightarrow> sf_id a = sf_id b \<and> sf_root_id a = sf_root_id b
     \<and> sf_relative_path a = sf_relative_path b"

lemma keys_ok_update_sources:
  assumes "keys_ok db" "\<And>s. s \<in> set (db_source_files db) \<Longrightarrow> P s \<Longrightarrow> same_identity (f s) s"
  shows "keys_ok (db\<lparr>db_source_files := update_where P f (db_source_files db)\<rparr>)"
proof -
  have "map sf_id (update_where P f (db_source_files db)) = map sf_id (db_source_files db)"
    "map (\<lambda>s. (sf_root_id s, sf_relative_path s)) (update_where P f (db_source_files db))
      = map (\<lambda>s. (sf_root_id s, sf_relative_path s)) (db_source_files db)"
    by (rule map_update_where; use assms(2) in \<open>simp add: same_identity_def\<close>)+
  with assms(1) show ?thesis by (simp add: keys_ok_def)
qed

lemma refs_ok_update_sources:
  assumes "refs_ok db" "\<And>s. s \<in> set (db_source_files db) \<Longrightarrow> P s \<Longrightarrow> same_identity (f s) s"
  shows "refs_ok (db\<lparr>db_source_files := update_where P f (db_source_files db)\<rparr>)"
proof -
  have "sf_id ` set (update_where P f (db_source_files db)) = sf_id ` set (db_source_files db)"
    "sf_root_id ` set (update_where P f (db_source_files db)) = sf_root_id ` set (db_source_files db)"
    by (rule image_update_where; use assms(2) in \<open>simp add: same_identity_def\<close>)+
  with assms(1) show ?thesis by (simp add: refs_ok_def)
qed

lemma current_rows_update_sources:
  assumes "\<And>s. s \<in> set (db_source_files db) \<Longrightarrow> P s \<Longrightarrow>
    fts_row_of (f s) = fts_row_of s \<and> sf_current_revision_id (f s) = sf_current_revision_id s"
  shows "set (current_rows (db\<lparr>db_source_files := update_where P f (db_source_files db)\<rparr>))
    = set (current_rows db)"
proof -
  let ?h = "\<lambda>s. if P s then f s else s"
  have "fts_row_of (?h s) = fts_row_of s" "sf_current_revision_id (?h s) = sf_current_revision_id s"
    if "s \<in> set (db_source_files db)" for s
    using assms that by auto
  then have "map (\<lambda>s. map (fts_row_of s) (filter (\<lambda>g. sf_current_revision_id s = Some (sg_revision_id g))
        (db_segments db))) (map ?h (db_source_files db))
    = map (\<lambda>s. map (fts_row_of s) (filter (\<lambda>g. sf_current_revision_id s = Some (sg_revision_id g))
        (db_segments db))) (db_source_files db)"
    by simp
  then show ?thesis by (simp only: current_rows_def update_where_def db.simps) simp
qed

text \<open>An update that leaves the pointer and the state alone changes nothing that is searched.\<close>

lemma db_ok_update_sources:
  assumes "db_ok db" "\<And>s. s \<in> set (db_source_files db) \<Longrightarrow> P s \<Longrightarrow> same_identity (f s) s"
    and "\<And>s. s \<in> set (db_source_files db) \<Longrightarrow> P s \<Longrightarrow>
      sf_current_revision_id (f s) = sf_current_revision_id s
      \<and> (sf_current_revision_id s \<noteq> None \<longrightarrow> sf_state (f s) = Active)"
  shows "db_ok (db\<lparr>db_source_files := update_where P f (db_source_files db)\<rparr>)"
proof -
  let ?db = "db\<lparr>db_source_files := update_where P f (db_source_files db)\<rparr>"
  have "current_ok ?db"
    using assms unfolding db_ok_def current_ok_def set_update_where same_identity_def
    by (auto simp: set_update_where)
  moreover have "set (current_rows ?db) = set (current_rows db)"
    by (rule current_rows_update_sources)
      (use assms(2,3) in \<open>auto simp: same_identity_def fts_row_of_def\<close>)
  ultimately show ?thesis
    using assms keys_ok_update_sources refs_ok_update_sources
    by (simp add: db_ok_def fts_ok_def)
qed

subsection \<open>Promotion\<close>

definition with_segments :: "db \<Rightarrow> source_file \<Rightarrow> segment list \<Rightarrow> db" where
  "with_segments db source segments = db\<lparr>db_segments := db_segments db @ segments,
     db_segments_fts := db_segments_fts db @ map (fts_row_of source) segments\<rparr>"

definition segment_keys_ok :: "segment list \<Rightarrow> bool" where
  "segment_keys_ok segs \<longleftrightarrow> distinct (map sg_id segs)
     \<and> distinct (map (\<lambda>g. (sg_revision_id g, sg_ordinal g)) segs)
     \<and> distinct (map (\<lambda>g. (sg_revision_id g, sg_anchor g)) segs)"

lemma insert_segments_Inr:
  assumes "insert_segments source revision segments db = Inr db'" "segment_keys_ok (db_segments db)"
    and "\<forall>g \<in> set segments. sg_revision_id g = rv_id revision"
  shows "db' = with_segments db source segments \<and> segment_keys_ok (db_segments db @ segments)
    \<and> sg_revision_id ` set segments \<subseteq> rv_id ` set (db_revisions db)"
  using assms
proof (induction segments arbitrary: db)
  case Nil
  then show ?case by (simp add: with_segments_def)
next
  case (Cons g segments)
  have row: "(fts_row_of source g)\<lparr>fr_revision_id := rv_id revision\<rparr> = fts_row_of source g"
    using Cons.prems(3) by (simp add: fts_row_of_def)
  let ?db = "db\<lparr>db_segments := db_segments db @ [g],
      db_segments_fts := db_segments_fts db @ [fts_row_of source g]\<rparr>"
  from Cons.prems(1) row have ins: "insert_segment db g = Inr (db\<lparr>db_segments := db_segments db @ [g]\<rparr>)"
    and rest: "insert_segments source revision segments ?db = Inr db'"
    by (auto simp: insert_segment_def split: if_splits)
  from ins have "segment_keys_ok (db_segments db @ [g])" "sg_revision_id g \<in> rv_id ` set (db_revisions db)"
    using Cons.prems(2) by (auto simp: insert_segment_def segment_keys_ok_def split: if_splits)
  with Cons.IH [OF rest] Cons.prems(3) show ?case by (simp add: with_segments_def)
qed

text \<open>The converse: fresh identifiers and well-numbered segments are always accepted.\<close>

lemma insert_segments_total:
  assumes "segment_keys_ok (db_segments db @ segments)"
    and "\<forall>g \<in> set segments. sg_revision_id g = rv_id revision"
    and "rv_id revision \<in> rv_id ` set (db_revisions db)"
  shows "insert_segments source revision segments db = Inr (with_segments db source segments)"
  using assms
proof (induction segments arbitrary: db)
  case Nil
  then show ?case by (simp add: with_segments_def)
next
  case (Cons g segments)
  have row: "(fts_row_of source g)\<lparr>fr_revision_id := rv_id revision\<rparr> = fts_row_of source g"
    using Cons.prems(2) by (simp add: fts_row_of_def)
  let ?db = "db\<lparr>db_segments := db_segments db @ [g],
      db_segments_fts := db_segments_fts db @ [fts_row_of source g]\<rparr>"
  have "insert_segment db g = Inr (db\<lparr>db_segments := db_segments db @ [g]\<rparr>)"
    using Cons.prems by (auto simp: insert_segment_def segment_keys_ok_def)
  moreover have "insert_segments source revision segments ?db = Inr (with_segments ?db source segments)"
    by (rule Cons.IH) (use Cons.prems in simp_all)
  ultimately show ?case by (simp add: row with_segments_def)
qed

lemma delete_fts_revision_simps [simp]:
  "db_roots (delete_fts_revision r db) = db_roots db"
  "db_source_files (delete_fts_revision r db) = db_source_files db"
  "db_revisions (delete_fts_revision r db) = db_revisions db"
  "db_segments (delete_fts_revision r db) = db_segments db"
  "db_scan_runs (delete_fts_revision r db) = db_scan_runs db"
  "db_root_git_state (delete_fts_revision r db) = db_root_git_state db"
  "db_segments_fts (delete_fts_revision r db) = delete_where (\<lambda>f. Some (fr_revision_id f) = r) (db_segments_fts db)"
  by (auto simp: delete_fts_revision_def delete_where_def split: option.splits)

lemma delete_fts_revision_keys [simp]: "keys_ok (delete_fts_revision r db) = keys_ok db"
  by (simp add: keys_ok_def)

definition promoted_db :: "db \<Rightarrow> source_file \<Rightarrow> revision \<Rightarrow> segment list \<Rightarrow> db" where
  "promoted_db db source revision segments =
     (let base = delete_fts_revision (sf_current_revision_id source) db
      in base\<lparr>db_revisions := db_revisions db @ [revision],
              db_segments := db_segments db @ segments,
              db_segments_fts := db_segments_fts base @ map (fts_row_of source) segments,
              db_source_files := update_where (\<lambda>s. sf_id s = sf_id source) (promoted source revision)
                (db_source_files db)\<rparr>)"

definition promotable :: "db \<Rightarrow> revision \<Rightarrow> segment list \<Rightarrow> bool" where
  "promotable db revision segments \<longleftrightarrow>
     rv_id revision \<notin> rv_id ` set (db_revisions db)
     \<and> revision_key revision \<notin> revision_key ` set (db_revisions db)
     \<and> rv_source_file_id revision \<in> sf_id ` set (db_source_files db)
     \<and> segment_keys_ok (db_segments db @ segments)"

lemma keys_segment_keys: "keys_ok db \<Longrightarrow> segment_keys_ok (db_segments db)"
  by (simp add: keys_ok_def segment_keys_ok_def)

lemma promote_revision_Inr:
  assumes "keys_ok db" "\<forall>g \<in> set segments. sg_revision_id g = rv_id revision"
  shows "promote_revision db source revision segments = Inr db'
    \<longleftrightarrow> promotable db revision segments \<and> db' = promoted_db db source revision segments" (is "?l \<longleftrightarrow> ?r")
proof
  let ?base = "delete_fts_revision (sf_current_revision_id source) db"
  let ?db1 = "?base\<lparr>db_revisions := db_revisions db @ [revision]\<rparr>"
  assume ?l
  then obtain db2 where ins: "insert_revision ?base revision = Inr ?db1"
    and segs: "insert_segments source revision segments ?db1 = Inr db2"
    and db': "db' = db2\<lparr>db_source_files := update_where (\<lambda>s. sf_id s = sf_id source)
      (promoted source revision) (db_source_files db2)\<rparr>"
    by (auto simp: promote_revision_def insert_revision_def split: if_splits)
  from insert_segments_Inr [OF segs] assms keys_segment_keys
  have "db2 = with_segments ?db1 source segments" "segment_keys_ok (db_segments db @ segments)" by simp_all
  with ins db' show ?r
    by (simp add: promotable_def promoted_db_def with_segments_def insert_revision_def split: if_splits)
next
  assume r: ?r
  let ?base = "delete_fts_revision (sf_current_revision_id source) db"
  let ?db1 = "?base\<lparr>db_revisions := db_revisions db @ [revision]\<rparr>"
  have "insert_revision ?base revision = Inr ?db1"
    using r by (simp add: insert_revision_def promotable_def)
  moreover have "insert_segments source revision segments ?db1 = Inr (with_segments ?db1 source segments)"
    by (rule insert_segments_total) (use r assms in \<open>simp_all add: promotable_def\<close>)
  ultimately show ?l
    using r by (simp add: promote_revision_def promoted_db_def with_segments_def Let_def)
qed

lemma same_identity_promoted [simp]: "same_identity (promoted source revision s) s"
  by (simp add: same_identity_def promoted_def)

lemma same_identity_upserted [simp]: "same_identity (upserted source s) s"
  by (simp add: same_identity_def upserted_def)

lemma promoted_simps [simp]:
  "sf_id (promoted source revision s) = sf_id s" "sf_root_id (promoted source revision s) = sf_root_id s"
  "sf_relative_path (promoted source revision s) = sf_relative_path s"
  "sf_current_revision_id (promoted source revision s) = Some (rv_id revision)"
  "sf_state (promoted source revision s) = Active"
  by (simp_all add: promoted_def)

text \<open>The stored row a promotion is about: same identity and same pointer.\<close>

definition stored_as :: "db \<Rightarrow> source_file \<Rightarrow> source_file \<Rightarrow> bool" where
  "stored_as db s0 source \<longleftrightarrow> s0 \<in> set (db_source_files db) \<and> same_identity s0 source
     \<and> sf_current_revision_id s0 = sf_current_revision_id source"

lemma promoted_rows:
  assumes ok: "db_ok db" and s0: "stored_as db s0 source"
    and rev: "rv_source_file_id revision = sf_id source"
    and segs: "\<forall>g \<in> set segments. sg_revision_id g = rv_id revision"
    and p: "promotable db revision segments"
  shows "set (db_segments_fts (promoted_db db source revision segments))
    = set (current_rows (promoted_db db source revision segments))"
proof -
  have keys: "keys_ok db" and refs: "refs_ok db" and cur: "current_ok db" and fts: "fts_ok db"
    using ok by (simp_all add: db_ok_def)
  have fresh: "sg_revision_id g \<noteq> rv_id revision" if "g \<in> set (db_segments db)" for g
  proof -
    have "sg_revision_id g \<in> rv_id ` set (db_revisions db)"
      using that refs by (auto simp: refs_ok_def)
    with p show ?thesis by (auto simp: promotable_def)
  qed
  have other: "sf_current_revision_id s \<noteq> sf_current_revision_id source"
    if "s \<in> set (db_source_files db)" "sf_id s \<noteq> sf_id source" "sf_current_revision_id s = Some r" for s r
  proof
    assume "sf_current_revision_id s = sf_current_revision_id source"
    with that s0 have "s = s0"
      using current_source_unique [OF keys cur, of s s0 r] by (simp add: stored_as_def)
    with that s0 show False by (simp add: stored_as_def same_identity_def)
  qed
  have src: "fts_row_of (promoted source revision s) = fts_row_of source"
    if "s \<in> set (db_source_files db)" "sf_id s = sf_id source" for s
  proof -
    have "s = s0" using source_eqI [OF keys] that s0 by (simp add: stored_as_def same_identity_def)
    with s0 show ?thesis by (auto simp: stored_as_def same_identity_def fts_row_of_def)
  qed
  have ex: "\<exists>s \<in> set (db_source_files db). sf_id s = sf_id source"
    using s0 by (auto simp: stored_as_def same_identity_def)
  let ?db = "promoted_db db source revision segments"
  have mem: "f \<in> set (current_rows ?db) \<longleftrightarrow>
      (\<exists>s \<in> set (db_source_files db). \<exists>g \<in> set (db_segments db) \<union> set segments.
         if sf_id s = sf_id source then sg_revision_id g = rv_id revision \<and> f = fts_row_of source g
         else sf_current_revision_id s = Some (sg_revision_id g) \<and> f = fts_row_of s g)" for f
  proof -
    let ?h = "\<lambda>s. if sf_id s = sf_id source then promoted source revision s else s"
    have srcs: "set (db_source_files ?db) = ?h ` set (db_source_files db)"
      and segs': "set (db_segments ?db) = set (db_segments db) \<union> set segments"
      by (simp_all add: promoted_db_def Let_def set_update_where del: if_image_distrib)
    show ?thesis
      unfolding in_current_rows srcs segs' bex_simps(7)
      by (intro bex_cong refl) (auto simp: src)
  qed
  have new: "r \<noteq> rv_id revision" if "s \<in> set (db_source_files db)" "sf_current_revision_id s = Some r" for s r
  proof -
    have "r \<in> rv_id ` set (db_revisions db)" using that cur by (force simp: current_ok_def)
    moreover have "rv_id revision \<notin> rv_id ` set (db_revisions db)" using p by (simp add: promotable_def)
    ultimately show ?thesis by metis
  qed
  have fts': "f \<in> set (db_segments_fts ?db) \<longleftrightarrow>
      Some (fr_revision_id f) \<noteq> sf_current_revision_id source
        \<and> (\<exists>s \<in> set (db_source_files db). \<exists>g \<in> set (db_segments db).
             sf_current_revision_id s = Some (sg_revision_id g) \<and> f = fts_row_of s g)
      \<or> (\<exists>g \<in> set segments. f = fts_row_of source g)" for f
    using fts by (auto simp: promoted_db_def Let_def fts_ok_def in_current_rows)
  have same: "sf_current_revision_id s = sf_current_revision_id source"
    if "s \<in> set (db_source_files db)" "sf_id s = sf_id source" for s
  proof -
    have "s = s0" using source_eqI [OF keys] that s0 by (simp add: stored_as_def same_identity_def)
    with s0 show ?thesis by (simp add: stored_as_def)
  qed
  have "f \<in> set (db_segments_fts ?db) \<longleftrightarrow> f \<in> set (current_rows ?db)" for f
  proof
    assume "f \<in> set (db_segments_fts ?db)"
    then show "f \<in> set (current_rows ?db)"
      unfolding fts' mem using ex segs same
      by (metis (no_types, lifting) UnCI fts_row_of_simps(3))
  next
    assume "f \<in> set (current_rows ?db)"
    then obtain s g where s: "s \<in> set (db_source_files db)" "g \<in> set (db_segments db) \<union> set segments"
      and c: "if sf_id s = sf_id source then sg_revision_id g = rv_id revision \<and> f = fts_row_of source g
         else sf_current_revision_id s = Some (sg_revision_id g) \<and> f = fts_row_of s g"
      unfolding mem by blast
    show "f \<in> set (db_segments_fts ?db)"
    proof (cases "sf_id s = sf_id source")
      case True
      with c s fresh show ?thesis unfolding fts' by auto
    next
      case False
      with c have c: "sf_current_revision_id s = Some (sg_revision_id g)" "f = fts_row_of s g" by auto
      with new [OF s(1)] segs s(2) have g: "g \<in> set (db_segments db)" by auto
      with c other [OF s(1) False c(1)] s(1) show ?thesis unfolding fts' by force
    qed
  qed
  then show ?thesis by blast
qed

lemma promote_revision_ok:
  assumes ok: "db_ok db" and s0: "stored_as db s0 source"
    and rev: "rv_source_file_id revision = sf_id source" "rv_status revision = Indexed"
    and segs: "\<forall>g \<in> set segments. sg_revision_id g = rv_id revision"
    and "promote_revision db source revision segments = Inr db'"
  shows "db_ok db'"
proof -
  have keys: "keys_ok db" and refs: "refs_ok db" and cur: "current_ok db" and fts: "fts_ok db"
    using ok by (simp_all add: db_ok_def)
  from assms(6) have p: "promotable db revision segments"
    and db': "db' = promoted_db db source revision segments"
    using promote_revision_Inr [OF keys segs] by blast+
  let ?upd = "update_where (\<lambda>s. sf_id s = sf_id source) (promoted source revision) (db_source_files db)"
  let ?db = "db\<lparr>db_source_files := ?upd\<rparr>"
  have k: "keys_ok ?db" "refs_ok ?db"
    using keys refs by (auto intro!: keys_ok_update_sources refs_ok_update_sources)
  have keys': "keys_ok db'"
    using k(1) p unfolding db' promoted_db_def
    by (simp add: keys_ok_def promotable_def segment_keys_ok_def Let_def)
  have ids: "sf_id ` set ?upd = sf_id ` set (db_source_files db)"
    by (rule image_update_where) simp
  have refs': "refs_ok db'"
    using k(2) p segs unfolding db' promoted_db_def
    by (auto simp: refs_ok_def promotable_def Let_def ids)
  have cur': "current_ok db'"
    using cur rev unfolding db' promoted_db_def current_ok_def
    by (fastforce simp: Let_def set_update_where)
  have "set (map fr_segment_id (db_segments_fts db)) \<subseteq> sg_id ` set (db_segments db)"
    using fts by (auto simp: fts_ok_def in_current_rows)
  moreover have "sg_id ` set (db_segments db) \<inter> sg_id ` set segments = {}"
    using p by (simp add: promotable_def segment_keys_ok_def)
  ultimately have disj: "fr_segment_id ` set (db_segments_fts db) \<inter> sg_id ` set segments = {}"
    by auto
  have "distinct (map fr_segment_id (db_segments_fts db))" "distinct (map sg_id segments)"
    using fts p by (simp_all add: fts_ok_def promotable_def segment_keys_ok_def)
  with disj have "distinct (map fr_segment_id (db_segments_fts db'))"
    unfolding db' promoted_db_def by (auto simp: Let_def comp_def distinct_map_delete_where)
  then have "fts_ok db'"
    using promoted_rows [OF ok s0 rev(1) segs p] by (simp add: fts_ok_def db')
  with keys' refs' cur' show ?thesis by (simp add: db_ok_def)
qed

subsection \<open>The other operations\<close>

lemma mark_source_deleted_ok:
  assumes ok: "db_ok db" and s0: "stored_as db s0 source"
  shows "db_ok (mark_source_deleted db source t)"
proof -
  have keys: "keys_ok db" and refs: "refs_ok db" and cur: "current_ok db" and fts: "fts_ok db"
    using ok by (simp_all add: db_ok_def)
  let ?f = "\<lambda>s. s\<lparr>sf_state := Deleted, sf_current_revision_id := None, sf_last_seen_at := t\<rparr>"
  let ?P = "\<lambda>s. sf_id s = sf_id source"
  let ?upd = "db\<lparr>db_source_files := update_where ?P ?f (db_source_files db)\<rparr>"
  let ?db = "mark_source_deleted db source t"
  have "keys_ok ?upd" "refs_ok ?upd"
    using keys refs by (auto intro!: keys_ok_update_sources refs_ok_update_sources simp: same_identity_def)
  then have "keys_ok ?db" "refs_ok ?db"
    by (simp_all add: mark_source_deleted_def Let_def keys_ok_def refs_ok_def)
  moreover have "current_ok ?db"
    using cur by (auto simp: mark_source_deleted_def Let_def current_ok_def set_update_where)
  moreover have "f \<in> set (db_segments_fts ?db) \<longleftrightarrow> f \<in> set (current_rows ?db)" for f
  proof -
    have at: "?P s \<longleftrightarrow> Some r = sf_current_revision_id source"
      if "s \<in> set (db_source_files db)" "sf_current_revision_id s = Some r" for s r
    proof
      assume "?P s"
      then have "s = s0" using source_eqI [OF keys] that s0 by (simp add: stored_as_def same_identity_def)
      with that s0 show "Some r = sf_current_revision_id source" by (simp add: stored_as_def)
    next
      assume "Some r = sf_current_revision_id source"
      with that s0 have "s = s0"
        using current_source_unique [OF keys cur, of s s0 r] by (simp add: stored_as_def)
      with s0 show "?P s" by (simp add: stored_as_def same_identity_def)
    qed
    have srcs: "set (db_source_files ?db) = (\<lambda>s. if ?P s then ?f s else s) ` set (db_source_files db)"
      and segs: "set (db_segments ?db) = set (db_segments db)"
      by (simp_all add: mark_source_deleted_def Let_def set_update_where del: if_image_distrib)
    have "f \<in> set (current_rows ?db) \<longleftrightarrow> (\<exists>s \<in> set (db_source_files db). \<exists>g \<in> set (db_segments db).
        \<not> ?P s \<and> sf_current_revision_id s = Some (sg_revision_id g) \<and> f = fts_row_of s g)"
      unfolding in_current_rows srcs segs bex_simps(7)
      by (intro bex_cong refl) (simp split: if_split)
    also have "\<dots> \<longleftrightarrow> (\<exists>s \<in> set (db_source_files db). \<exists>g \<in> set (db_segments db).
        Some (sg_revision_id g) \<noteq> sf_current_revision_id source
        \<and> sf_current_revision_id s = Some (sg_revision_id g) \<and> f = fts_row_of s g)"
      using at by (intro bex_cong refl) metis
    also have "\<dots> \<longleftrightarrow> Some (fr_revision_id f) \<noteq> sf_current_revision_id source \<and> f \<in> set (current_rows db)"
      unfolding in_current_rows by (metis fts_row_of_simps(3))
    also have "\<dots> \<longleftrightarrow> f \<in> set (db_segments_fts ?db)"
      using fts by (auto simp: mark_source_deleted_def Let_def fts_ok_def)
    finally show ?thesis by blast
  qed
  then have "fts_ok ?db"
    using fts by (auto simp: fts_ok_def mark_source_deleted_def Let_def distinct_map_delete_where)
  ultimately show ?thesis by (simp add: db_ok_def)
qed

text \<open>The upsert keeps the invariant when it is given the stored pointer and an active state for it.\<close>

definition upsert_ok :: "db \<Rightarrow> source_file \<Rightarrow> bool" where
  "upsert_ok db source \<longleftrightarrow>
     (\<forall>s \<in> set (db_source_files db). same_path s source \<longrightarrow>
        sf_current_revision_id s = sf_current_revision_id source
        \<and> (sf_current_revision_id s \<noteq> None \<longrightarrow> sf_state source = Active))
     \<and> ((\<forall>s \<in> set (db_source_files db). \<not> same_path s source) \<longrightarrow> sf_current_revision_id source = None)"

lemma upsert_source_file_ok:
  assumes ok: "db_ok db" and up: "upsert_ok db source"
    and res: "upsert_source_file db source = Inr db'"
  shows "db_ok db'"
proof (cases "\<exists>s \<in> set (db_source_files db). same_path s source")
  case True
  then have "db' = db\<lparr>db_source_files := update_where (\<lambda>s. same_path s source) (upserted source)
      (db_source_files db)\<rparr>"
    using res by (simp add: upsert_source_file_def)
  moreover have "db_ok (db\<lparr>db_source_files := update_where (\<lambda>s. same_path s source) (upserted source)
      (db_source_files db)\<rparr>)"
    by (rule db_ok_update_sources [OF ok])
      (use up in \<open>auto simp: upsert_ok_def upserted_def same_identity_def\<close>)
  ultimately show ?thesis by simp
next
  case False
  let ?new = "source\<lparr>sf_size_bytes := stored_size (sf_size_bytes source)\<rparr>"
  from False res have id: "sf_id source \<notin> sf_id ` set (db_source_files db)"
    and root: "sf_root_id source \<in> rt_id ` set (db_roots db)"
    and db': "db' = db\<lparr>db_source_files := db_source_files db @ [?new]\<rparr>"
    unfolding upsert_source_file_def by (auto split: if_splits)
  have none: "sf_current_revision_id source = None" using up False by (simp add: upsert_ok_def)
  have "keys_ok db'"
    using ok id False unfolding db' by (auto simp: db_ok_def keys_ok_def same_path_def)
  moreover have "refs_ok db'"
    using ok root unfolding db' by (auto simp: db_ok_def refs_ok_def)
  moreover have "current_ok db'"
    using ok none unfolding db' by (simp add: db_ok_def current_ok_def)
  moreover have "current_rows db' = current_rows db"
    using none by (simp add: db' current_rows_def)
  ultimately show ?thesis using ok by (simp add: db_ok_def fts_ok_def) (simp add: db')
qed

lemma insert_revision_ok:
  assumes ok: "db_ok db" and res: "insert_revision db revision = Inr db'"
  shows "db_ok db'"
proof -
  from res have new: "rv_id revision \<notin> rv_id ` set (db_revisions db)"
      "revision_key revision \<notin> revision_key ` set (db_revisions db)"
      "rv_source_file_id revision \<in> sf_id ` set (db_source_files db)"
    and db': "db' = db\<lparr>db_revisions := db_revisions db @ [revision]\<rparr>"
    unfolding insert_revision_def by (auto split: if_splits)
  have "keys_ok db'" using ok new unfolding db' by (simp add: db_ok_def keys_ok_def)
  moreover have "refs_ok db'" using ok new unfolding db' by (auto simp: db_ok_def refs_ok_def)
  moreover have "current_ok db'" using ok unfolding db' by (fastforce simp: db_ok_def current_ok_def)
  moreover have "current_rows db' = current_rows db" by (simp add: db' current_rows_def)
  ultimately show ?thesis using ok by (simp add: db_ok_def fts_ok_def) (simp add: db')
qed

lemma db_ok_roots_update:
  assumes "db_ok db" "distinct (map rt_id roots)" "distinct (map rt_canonical_path roots)"
    and "rt_id ` set (db_roots db) \<subseteq> rt_id ` set roots"
  shows "db_ok (db\<lparr>db_roots := roots\<rparr>)"
proof -
  let ?db = "db\<lparr>db_roots := roots\<rparr>"
  have "current_rows ?db = current_rows db" by (simp add: current_rows_def)
  moreover have "refs_ok ?db"
  proof -
    have mono: "A \<subseteq> rt_id ` set (db_roots db) \<Longrightarrow> A \<subseteq> rt_id ` set roots" for A
      using assms(4) by (rule order_trans [rotated])
    from assms(1) show ?thesis by (simp add: db_ok_def refs_ok_def mono)
  qed
  ultimately show ?thesis using assms(1-3) by (simp add: db_ok_def keys_ok_def current_ok_def fts_ok_def)
qed

text \<open>Rewriting the one row with key \<open>v\<close> keeps another key distinct when no other row has the new value.\<close>

lemma distinct_update_where:
  assumes "distinct (map i rows)" "distinct (map k rows)" "\<And>r. k (f r) = c"
    and "\<forall>r \<in> set rows. k r = c \<longrightarrow> i r = v"
  shows "distinct (map k (update_where (\<lambda>r. i r = v) f rows))"
  using assms(1,2,4)
proof (induction rows)
  case Nil
  then show ?case by (simp add: update_where_def)
next
  case (Cons r rs)
  then have IH: "distinct (map k (update_where (\<lambda>r. i r = v) f rs))" by simp
  show ?case
  proof (cases "i r = v")
    case True
    have "i r \<notin> i ` set rs" using Cons.prems(1) by simp
    with True have ne: "i x \<noteq> v" if "x \<in> set rs" for x using that by (metis imageI)
    then have "update_where (\<lambda>r. i r = v) f rs = rs" by (simp add: update_where_def map_idI)
    moreover have "c \<notin> k ` set rs"
      using Cons.prems(3) ne by auto
    ultimately show ?thesis using True IH assms(3) by (simp add: update_where_def)
  next
    case False
    then have "k r \<noteq> c" using Cons.prems(3) by auto
    moreover have "k r \<notin> k ` set rs" using Cons.prems(2) by simp
    ultimately have "k r \<notin> k ` set (update_where (\<lambda>r. i r = v) f rs)"
      using assms(3) unfolding set_update_where by auto
    moreover have "update_where (\<lambda>r. i r = v) f (r # rs) = r # update_where (\<lambda>r. i r = v) f rs"
      using False by (simp add: update_where_def)
    ultimately show ?thesis using IH by simp
  qed
qed

lemma upsert_root_ok:
  assumes ok: "db_ok db" and res: "upsert_root db root = Inr db'"
  shows "db_ok db'"
proof (cases "\<exists>r \<in> set (db_roots db). rt_id r = rt_id root")
  case False
  with res have "db' = db\<lparr>db_roots := db_roots db @ [root]\<rparr>"
    "rt_canonical_path root \<notin> rt_canonical_path ` set (db_roots db)"
    by (auto simp: upsert_root_def split: if_splits)
  moreover have "db_ok (db\<lparr>db_roots := db_roots db @ [root]\<rparr>)"
    if "rt_canonical_path root \<notin> rt_canonical_path ` set (db_roots db)"
    by (rule db_ok_roots_update) (use ok False that in \<open>auto simp: db_ok_def keys_ok_def\<close>)
  ultimately show ?thesis by simp
next
  case True
  let ?f = "\<lambda>r. root\<lparr>rt_created_at := rt_created_at r\<rparr>"
  let ?upd = "update_where (\<lambda>r. rt_id r = rt_id root) ?f (db_roots db)"
  from True res have db': "db' = db\<lparr>db_roots := ?upd\<rparr>"
    and other: "\<forall>r \<in> set (db_roots db). rt_canonical_path r = rt_canonical_path root \<longrightarrow> rt_id r = rt_id root"
    by (auto simp: upsert_root_def split: if_splits)
  have ids: "map rt_id ?upd = map rt_id (db_roots db)" by (rule map_update_where) simp
  have "distinct (map rt_id (db_roots db))" "distinct (map rt_canonical_path (db_roots db))"
    using ok by (simp_all add: db_ok_def keys_ok_def)
  then have "distinct (map rt_canonical_path ?upd)"
    using other by (intro distinct_update_where [where c = "rt_canonical_path root"]) simp_all
  moreover have "distinct (map rt_id ?upd)" "rt_id ` set ?upd = rt_id ` set (db_roots db)"
    using ok ids by (simp add: db_ok_def keys_ok_def) (metis ids image_set)
  ultimately show ?thesis
    unfolding db' by (intro db_ok_roots_update [OF ok]) simp_all
qed

lemma insert_scan_run_ok:
  assumes "db_ok db" "insert_scan_run db run = Inr db'"
  shows "db_ok db'"
proof -
  from assms(2) have "db' = db\<lparr>db_scan_runs := db_scan_runs db @ [run]\<rparr>"
    "sc_id run \<notin> sc_id ` set (db_scan_runs db)" "sc_root_id run \<in> rt_id ` set (db_roots db)"
    by (auto simp: insert_scan_run_def split: if_splits)
  moreover have "current_rows (db\<lparr>db_scan_runs := r\<rparr>) = current_rows db" for r by (simp add: current_rows_def)
  ultimately show ?thesis using assms(1) by (auto simp: db_ok_defs)
qed

lemma upsert_root_git_state_ok:
  assumes ok: "db_ok db" and res: "upsert_root_git_state db state = Inr db'"
  shows "db_ok db'"
proof -
  have rows: "current_rows (db\<lparr>db_root_git_state := r\<rparr>) = current_rows db" for r by (simp add: current_rows_def)
  show ?thesis
  proof (cases "\<exists>g \<in> set (db_root_git_state db). gs_root_id g = gs_root_id state")
    case True
    let ?upd = "update_where (\<lambda>g. gs_root_id g = gs_root_id state) (\<lambda>_. state) (db_root_git_state db)"
    have "map gs_root_id ?upd = map gs_root_id (db_root_git_state db)" by (rule map_update_where) simp
    moreover from this have "gs_root_id ` set ?upd = gs_root_id ` set (db_root_git_state db)"
      by (metis image_set)
    moreover from True res have "db' = db\<lparr>db_root_git_state := ?upd\<rparr>"
      by (simp add: upsert_root_git_state_def)
    ultimately show ?thesis using ok rows by (auto simp: db_ok_defs)
  next
    case False
    with res have "db' = db\<lparr>db_root_git_state := db_root_git_state db @ [state]\<rparr>"
      "gs_root_id state \<in> rt_id ` set (db_roots db)"
      by (auto simp: upsert_root_git_state_def split: if_splits) (metis imageI)
    with False ok rows show ?thesis
      by (auto simp: db_ok_def keys_ok_def refs_ok_def current_ok_def fts_ok_def)
  qed
qed

subsection \<open>Removing a root\<close>

lemma in_sources_of_root:
  "keys_ok db \<Longrightarrow> s \<in> set (db_source_files db) \<Longrightarrow>
    sf_id s \<in> set (sources_of_root db i) \<longleftrightarrow> sf_root_id s = i"
  by (auto simp: sources_of_root_def dest: source_eqI)

lemma in_revisions_of_root:
  "keys_ok db \<Longrightarrow> v \<in> set (db_revisions db) \<Longrightarrow>
    rv_id v \<in> set (revisions_of_root db i) \<longleftrightarrow> rv_source_file_id v \<in> set (sources_of_root db i)"
  by (auto simp: revisions_of_root_def dest: revision_eqI)

lemma in_segments_of_root:
  "keys_ok db \<Longrightarrow> g \<in> set (db_segments db) \<Longrightarrow>
    sg_id g \<in> set (segments_of_root db i) \<longleftrightarrow> sg_revision_id g \<in> set (revisions_of_root db i)"
  by (auto simp: segments_of_root_def dest: segment_eqI)

definition without_root :: "db \<Rightarrow> uuid \<Rightarrow> db" where
  "without_root db i = db\<lparr>
     db_roots := filter (\<lambda>r. rt_id r \<noteq> i) (db_roots db),
     db_source_files := filter (\<lambda>s. sf_root_id s \<noteq> i) (db_source_files db),
     db_revisions := filter (\<lambda>v. rv_source_file_id v \<notin> set (sources_of_root db i)) (db_revisions db),
     db_segments := filter (\<lambda>g. sg_revision_id g \<notin> set (revisions_of_root db i)) (db_segments db),
     db_segments_fts := filter (\<lambda>f. fr_root_id f \<noteq> i) (db_segments_fts db),
     db_scan_runs := filter (\<lambda>r. sc_root_id r \<noteq> i) (db_scan_runs db),
     db_root_git_state := filter (\<lambda>g. gs_root_id g \<noteq> i) (db_root_git_state db),
     db_segment_embeddings := filter (\<lambda>e. el_segment_id e \<notin> set (segments_of_root db i)
       \<and> el_revision_id e \<notin> set (revisions_of_root db i)) (db_segment_embeddings db),
     db_embedding_failures := filter (\<lambda>e. ef_segment_id e \<notin> set (segments_of_root db i))
       (db_embedding_failures db),
     db_snapshot_root_maps := filter (\<lambda>m. sm_local_root_id m \<noteq> i) (db_snapshot_root_maps db)\<rparr>"

lemma delete_root_derived_eq:
  assumes "keys_ok db" "refs_ok db"
  shows "delete_root_derived db i = Inr (\<lparr>rc_source_files = length (sources_of_root db i),
      rc_revisions = length (revisions_of_root db i), rc_segments = length (segments_of_root db i)\<rparr>,
      without_root db i)"
proof -
  note k = in_sources_of_root [OF assms(1)] in_revisions_of_root [OF assms(1)] in_segments_of_root [OF assms(1)]
  have segs: "delete_where (\<lambda>g. sg_id g \<in> set (segments_of_root db i)) (db_segments db)
      = filter (\<lambda>g. sg_revision_id g \<notin> set (revisions_of_root db i)) (db_segments db)"
    and revs: "delete_where (\<lambda>r. rv_id r \<in> set (revisions_of_root db i)) (db_revisions db)
      = filter (\<lambda>v. rv_source_file_id v \<notin> set (sources_of_root db i)) (db_revisions db)"
    and srcs: "delete_where (\<lambda>s. sf_id s \<in> set (sources_of_root db i)) (db_source_files db)
      = filter (\<lambda>s. sf_root_id s \<noteq> i) (db_source_files db)"
    unfolding delete_where_def by (intro filter_cong; simp add: k)+
  show ?thesis
    by (simp add: delete_root_derived_def Let_def delete_segments_def delete_revisions_def
        delete_source_files_def delete_root_def segs revs srcs)
      (use k in \<open>simp add: without_root_def delete_where_def\<close>)
qed

lemma without_root_ok:
  assumes ok: "db_ok db" shows "db_ok (without_root db i)"
proof -
  have keys: "keys_ok db" and refs: "refs_ok db" and cur: "current_ok db" and fts: "fts_ok db"
    using ok by (simp_all add: db_ok_def)
  note k = in_sources_of_root [OF keys] in_revisions_of_root [OF keys] in_segments_of_root [OF keys]
  let ?db = "without_root db i"
  have "keys_ok ?db"
    using keys by (simp add: keys_ok_def without_root_def distinct_map_filter)
  moreover have "refs_ok ?db"
    unfolding refs_ok_def
  proof (intro conjI subsetI)
    fix x assume "x \<in> sf_root_id ` set (db_source_files ?db)"
    then have "x \<noteq> i" "x \<in> rt_id ` set (db_roots db)" using refs by (auto simp: refs_ok_def without_root_def)
    then show "x \<in> rt_id ` set (db_roots ?db)" by (auto simp: without_root_def)
  next
    fix x assume "x \<in> rv_source_file_id ` set (db_revisions ?db)"
    then have "x \<notin> set (sources_of_root db i)" "x \<in> sf_id ` set (db_source_files db)"
      using refs by (auto simp: refs_ok_def without_root_def)
    then show "x \<in> sf_id ` set (db_source_files ?db)" by (auto simp: without_root_def sources_of_root_def)
  next
    fix x assume "x \<in> sg_revision_id ` set (db_segments ?db)"
    then have "x \<notin> set (revisions_of_root db i)" "x \<in> rv_id ` set (db_revisions db)"
      using refs by (auto simp: refs_ok_def without_root_def)
    then show "x \<in> rv_id ` set (db_revisions ?db)" by (auto simp: without_root_def revisions_of_root_def)
  next
    fix x assume "x \<in> sc_root_id ` set (db_scan_runs ?db)"
    then have "x \<noteq> i" "x \<in> rt_id ` set (db_roots db)" using refs by (auto simp: refs_ok_def without_root_def)
    then show "x \<in> rt_id ` set (db_roots ?db)" by (auto simp: without_root_def)
  next
    fix x assume "x \<in> gs_root_id ` set (db_root_git_state ?db)"
    then have "x \<noteq> i" "x \<in> rt_id ` set (db_roots db)" using refs by (auto simp: refs_ok_def without_root_def)
    then show "x \<in> rt_id ` set (db_roots ?db)" by (auto simp: without_root_def)
  qed
  moreover have cur': "v \<in> set (db_revisions ?db)"
    if "s \<in> set (db_source_files db)" "sf_root_id s \<noteq> i" "v \<in> set (db_revisions db)"
      "rv_source_file_id v = sf_id s" for s v
    using that k by (simp add: without_root_def)
  have "current_ok ?db"
    unfolding current_ok_def
  proof (intro ballI allI impI)
    fix s r assume "s \<in> set (db_source_files ?db)" and c: "sf_current_revision_id s = Some r"
    then have s: "s \<in> set (db_source_files db)" "sf_root_id s \<noteq> i" by (simp_all add: without_root_def)
    with c cur obtain v where "sf_state s = Active" "v \<in> set (db_revisions db)" "rv_id v = r"
      "rv_source_file_id v = sf_id s" "rv_status v = Indexed" unfolding current_ok_def by blast
    with cur' [OF s] show "sf_state s = Active \<and> (\<exists>v \<in> set (db_revisions ?db). rv_id v = r
        \<and> rv_source_file_id v = sf_id s \<and> rv_status v = Indexed)" by blast
  qed
  moreover have seg: "g \<in> set (db_segments ?db) \<longleftrightarrow> g \<in> set (db_segments db)"
    if s: "s \<in> set (db_source_files db)" "sf_root_id s \<noteq> i" and g: "sf_current_revision_id s = Some (sg_revision_id g)"
    for s g
  proof -
    from s g cur obtain v where "v \<in> set (db_revisions db)" "rv_id v = sg_revision_id g"
      "rv_source_file_id v = sf_id s" unfolding current_ok_def by blast
    with k s have "sg_revision_id g \<notin> set (revisions_of_root db i)" by metis
    then show ?thesis by (simp add: without_root_def)
  qed
  have "f \<in> set (current_rows ?db) \<longleftrightarrow> fr_root_id f \<noteq> i \<and> f \<in> set (current_rows db)" for f
  proof -
    have "f \<in> set (current_rows ?db) \<longleftrightarrow> (\<exists>s \<in> set (db_source_files db). \<exists>g. sf_root_id s \<noteq> i
        \<and> g \<in> set (db_segments ?db) \<and> sf_current_revision_id s = Some (sg_revision_id g) \<and> f = fts_row_of s g)"
      unfolding in_current_rows by (auto simp: without_root_def)
    also have "\<dots> \<longleftrightarrow> (\<exists>s \<in> set (db_source_files db). \<exists>g. sf_root_id s \<noteq> i
        \<and> g \<in> set (db_segments db) \<and> sf_current_revision_id s = Some (sg_revision_id g) \<and> f = fts_row_of s g)"
      using seg by metis
    also have "\<dots> \<longleftrightarrow> fr_root_id f \<noteq> i \<and> f \<in> set (current_rows db)"
      unfolding in_current_rows by auto
    finally show ?thesis .
  qed
  then have "set (db_segments_fts ?db) = set (current_rows ?db)"
    using fts by (auto simp: fts_ok_def without_root_def)
  moreover have "distinct (map fr_segment_id (db_segments_fts ?db))"
    using fts by (simp add: fts_ok_def without_root_def distinct_map_filter)
  ultimately show ?thesis by (simp add: db_ok_def fts_ok_def)
qed

subsection \<open>The abstract index\<close>

definition segments_of :: "db \<Rightarrow> uuid \<Rightarrow> segment list" where
  "segments_of db r = filter (\<lambda>g. sg_revision_id g = r) (db_segments db)"

definition index_view :: "db \<Rightarrow> uuid \<times> path \<Rightarrow> (revision \<times> segment list) option" where
  "index_view db key =
     Option.bind (find_source_file db (fst key) (snd key)) (\<lambda>s.
     Option.bind (sf_current_revision_id s) (\<lambda>r.
     map_option (\<lambda>v. (v, segments_of db r)) (get_revision db r)))"

lemma index_view_Some:
  assumes "keys_ok db"
  shows "index_view db (root, p) = Some (v, gs) \<longleftrightarrow>
    (\<exists>s \<in> set (db_source_files db). sf_root_id s = root \<and> sf_relative_path s = p
      \<and> sf_current_revision_id s = Some (rv_id v) \<and> v \<in> set (db_revisions db) \<and> gs = segments_of db (rv_id v))"
  by (auto simp: index_view_def bind_eq_Some_conv find_source_file_Some [OF assms] get_revision_Some [OF assms])

lemma index_view_eqI:
  assumes "\<And>v gs. index_view db key = Some (v, gs) \<longleftrightarrow> index_view db' key' = Some (v, gs)"
  shows "index_view db key = index_view db' key'"
proof -
  have "index_view db key = Some x \<longleftrightarrow> index_view db' key' = Some x" for x
    using assms by (cases x) simp
  then show ?thesis by (metis not_None_eq)
qed

lemma promoted_view:
  assumes ok: "db_ok db" and ok': "db_ok (promoted_db db source revision segments)"
    and s0: "stored_as db s0 source" and p: "promotable db revision segments"
    and segs: "\<forall>g \<in> set segments. sg_revision_id g = rv_id revision"
  shows "index_view (promoted_db db source revision segments)
    = (index_view db)((sf_root_id source, sf_relative_path source) \<mapsto> (revision, segments))"
proof
  fix key :: "uuid \<times> path"
  obtain root path where key: "key = (root, path)" by fastforce
  let ?db = "promoted_db db source revision segments"
  have keys: "keys_ok db" "keys_ok ?db" and refs: "refs_ok db" and cur: "current_ok db"
    using ok ok' by (simp_all add: db_ok_def)
  let ?h = "\<lambda>s. if sf_id s = sf_id source then promoted source revision s else s"
  have srcs: "set (db_source_files ?db) = ?h ` set (db_source_files db)"
    and revs: "set (db_revisions ?db) = insert revision (set (db_revisions db))"
    and sg: "db_segments ?db = db_segments db @ segments"
    by (simp_all add: promoted_db_def Let_def set_update_where del: if_image_distrib)
  have fresh: "rv_id revision \<notin> rv_id ` set (db_revisions db)" using p by (simp add: promotable_def)
  have old: "segments_of db (rv_id revision) = []"
  proof -
    have "sg_revision_id g \<noteq> rv_id revision" if "g \<in> set (db_segments db)" for g
      using that refs fresh unfolding refs_ok_def by (metis image_eqI subsetD)
    then show ?thesis by (simp add: segments_of_def filter_empty_conv)
  qed
  have new: "segments_of ?db (rv_id revision) = segments"
    using old segs by (auto simp: segments_of_def sg intro: filter_True)
  have other: "segments_of ?db r = segments_of db r" if "r \<noteq> rv_id revision" for r
    using segs that by (auto simp: segments_of_def sg filter_empty_conv)
  have id: "sf_id s = sf_id source \<longleftrightarrow> sf_root_id s = sf_root_id source \<and> sf_relative_path s = sf_relative_path source"
    if "s \<in> set (db_source_files db)" for s
    using that s0 source_eqI [OF keys(1)] source_path_eqI [OF keys(1)]
    unfolding stored_as_def same_identity_def by metis
  show "index_view ?db key
      = ((index_view db)((sf_root_id source, sf_relative_path source) \<mapsto> (revision, segments))) key"
  proof (cases "key = (sf_root_id source, sf_relative_path source)")
    case True
    have "promoted source revision s0 \<in> set (db_source_files ?db)"
      unfolding srcs using s0 by (force simp: stored_as_def same_identity_def)
    then have "index_view ?db (sf_root_id source, sf_relative_path source) = Some (revision, segments)"
      unfolding index_view_Some [OF keys(2)]
      using s0 by (intro bexI [of _ "promoted source revision s0"])
        (auto simp: stored_as_def same_identity_def revs new)
    with True show ?thesis by simp
  next
    case False
    have "index_view ?db (root, path) = index_view db (root, path)"
    proof (rule index_view_eqI)
      fix v gs
      have "(\<exists>s \<in> set (db_source_files ?db). sf_root_id s = root \<and> sf_relative_path s = path
            \<and> sf_current_revision_id s = Some (rv_id v) \<and> v \<in> set (db_revisions ?db) \<and> gs = segments_of ?db (rv_id v))
        \<longleftrightarrow> (\<exists>s \<in> set (db_source_files db). sf_root_id s = root \<and> sf_relative_path s = path
            \<and> sf_current_revision_id s = Some (rv_id v) \<and> v \<in> set (db_revisions db) \<and> gs = segments_of db (rv_id v))"
        unfolding srcs bex_simps(7)
      proof (intro bex_cong refl)
        fix s assume s: "s \<in> set (db_source_files db)"
        show "(sf_root_id (?h s) = root \<and> sf_relative_path (?h s) = path
            \<and> sf_current_revision_id (?h s) = Some (rv_id v) \<and> v \<in> set (db_revisions ?db) \<and> gs = segments_of ?db (rv_id v))
          \<longleftrightarrow> (sf_root_id s = root \<and> sf_relative_path s = path
            \<and> sf_current_revision_id s = Some (rv_id v) \<and> v \<in> set (db_revisions db) \<and> gs = segments_of db (rv_id v))"
        proof (cases "sf_id s = sf_id source")
          case True
          with id [OF s] False key show ?thesis by auto
        next
          case no: False
          have "rv_id v \<noteq> rv_id revision" if "sf_current_revision_id s = Some (rv_id v)"
            using that s cur fresh unfolding current_ok_def by (metis imageI)
          then show ?thesis using no other by (auto simp: revs)
        qed
      qed
      then show "index_view ?db (root, path) = Some (v, gs) \<longleftrightarrow> index_view db (root, path) = Some (v, gs)"
        unfolding index_view_Some [OF keys(1)] index_view_Some [OF keys(2)] .
    qed
    with False key show ?thesis by (simp only: fun_upd_apply if_False)
  qed
qed

lemma deleted_view:
  assumes ok: "db_ok db" and s0: "stored_as db s0 source"
  shows "index_view (mark_source_deleted db source t)
    = (index_view db)((sf_root_id source, sf_relative_path source) := None)"
proof
  fix key :: "uuid \<times> path"
  obtain root path where key: "key = (root, path)" by fastforce
  let ?db = "mark_source_deleted db source t"
  have keys: "keys_ok db" "keys_ok ?db"
    using ok mark_source_deleted_ok [OF ok s0] by (simp_all add: db_ok_def)
  let ?f = "\<lambda>s. s\<lparr>sf_state := Deleted, sf_current_revision_id := None, sf_last_seen_at := t\<rparr>"
  let ?h = "\<lambda>s. if sf_id s = sf_id source then ?f s else s"
  have srcs: "set (db_source_files ?db) = ?h ` set (db_source_files db)"
    and revs: "db_revisions ?db = db_revisions db" and sg: "segments_of ?db = segments_of db"
    by (simp_all add: mark_source_deleted_def Let_def set_update_where segments_of_def fun_eq_iff
        del: if_image_distrib)
  have id: "sf_id s = sf_id source \<longleftrightarrow> sf_root_id s = sf_root_id source \<and> sf_relative_path s = sf_relative_path source"
    if "s \<in> set (db_source_files db)" for s
    using that s0 source_eqI [OF keys(1)] source_path_eqI [OF keys(1)]
    unfolding stored_as_def same_identity_def by metis
  have step: "(\<exists>s \<in> set (db_source_files ?db). sf_root_id s = root \<and> sf_relative_path s = path
        \<and> sf_current_revision_id s = Some (rv_id v) \<and> Q)
    \<longleftrightarrow> (\<exists>s \<in> set (db_source_files db). sf_root_id s = root \<and> sf_relative_path s = path
        \<and> sf_current_revision_id s = Some (rv_id v) \<and> Q
        \<and> key \<noteq> (sf_root_id source, sf_relative_path source))" for v Q
    unfolding srcs bex_simps(7) key by (intro bex_cong refl) (auto simp: id)
  show "index_view ?db key = ((index_view db)((sf_root_id source, sf_relative_path source) := None)) key"
  proof (cases "key = (sf_root_id source, sf_relative_path source)")
    case True
    then have "index_view ?db (root, path) \<noteq> Some (v, gs)" for v gs
      unfolding index_view_Some [OF keys(2)] step by simp
    then have "index_view ?db (root, path) = None" by (metis not_None_eq surj_pair)
    with True key show ?thesis by simp
  next
    case False
    have "index_view ?db (root, path) = index_view db (root, path)"
      by (rule index_view_eqI)
        (unfold index_view_Some [OF keys(1)] index_view_Some [OF keys(2)] step revs sg, use False in simp)
    with False key show ?thesis by (simp only: fun_upd_apply if_False)
  qed
qed

lemma upsert_view:
  assumes ok: "db_ok db" and up: "upsert_ok db source"
    and res: "upsert_source_file db source = Inr db'"
  shows "index_view db' = index_view db"
proof
  fix key :: "uuid \<times> path"
  obtain root path where key: "key = (root, path)" by fastforce
  have keys: "keys_ok db" "keys_ok db'"
    using ok upsert_source_file_ok [OF ok up res] by (simp_all add: db_ok_def)
  have same: "db_revisions db' = db_revisions db" "segments_of db' = segments_of db"
    using res by (auto simp: upsert_source_file_def segments_of_def fun_eq_iff split: if_splits)
  have step: "(\<exists>s \<in> set (db_source_files db'). sf_root_id s = root \<and> sf_relative_path s = path
        \<and> sf_current_revision_id s = Some (rv_id v) \<and> Q)
    \<longleftrightarrow> (\<exists>s \<in> set (db_source_files db). sf_root_id s = root \<and> sf_relative_path s = path
        \<and> sf_current_revision_id s = Some (rv_id v) \<and> Q)" for v Q
  proof (cases "\<exists>s \<in> set (db_source_files db). same_path s source")
    case True
    with res have "set (db_source_files db') = (\<lambda>s. if same_path s source then upserted source s else s)
        ` set (db_source_files db)"
      by (auto simp: upsert_source_file_def set_update_where simp del: if_image_distrib)
    then show ?thesis
      unfolding bex_simps(7) using up
      by (simp only: bex_simps(7)) (intro bex_cong refl, auto simp: upsert_ok_def upserted_def)
  next
    case False
    with res up show ?thesis
      by (auto simp: upsert_source_file_def upsert_ok_def split: if_splits)
  qed
  show "index_view db' key = index_view db key"
    unfolding key by (rule index_view_eqI) (unfold index_view_Some [OF keys(1)] index_view_Some [OF keys(2)] step same, simp)
qed

lemma without_root_view:
  assumes ok: "db_ok db"
  shows "index_view (without_root db i) (root, path) = (if root = i then None else index_view db (root, path))"
proof -
  have keys: "keys_ok db" "keys_ok (without_root db i)" and cur: "current_ok db"
    using ok without_root_ok [OF ok] by (simp_all add: db_ok_def)
  note k = in_sources_of_root [OF keys(1)] in_revisions_of_root [OF keys(1)]
  let ?db = "without_root db i"
  have iff: "index_view ?db (root, path) = Some (v, gs) \<longleftrightarrow> root \<noteq> i \<and> index_view db (root, path) = Some (v, gs)" for v gs
  proof -
    have own: "rv_source_file_id v \<notin> set (sources_of_root db i)
        \<and> segments_of ?db (rv_id v) = segments_of db (rv_id v)"
      if s: "s \<in> set (db_source_files db)" "sf_root_id s \<noteq> i" "sf_current_revision_id s = Some (rv_id v)"
        and v: "v \<in> set (db_revisions db)" for s
    proof -
      from s cur obtain w where "w \<in> set (db_revisions db)" "rv_id w = rv_id v" "rv_source_file_id w = sf_id s"
        unfolding current_ok_def by blast
      with revision_eqI [OF keys(1)] v have "rv_source_file_id v = sf_id s" by metis
      with k(1) [OF s(1)] s(2) have n: "rv_source_file_id v \<notin> set (sources_of_root db i)" by simp
      with k(2) [OF v] have "rv_id v \<notin> set (revisions_of_root db i)" by simp
      then have "segments_of ?db (rv_id v) = segments_of db (rv_id v)"
        unfolding segments_of_def without_root_def by (auto simp: intro: filter_cong)
      with n show ?thesis by blast
    qed
    have "index_view ?db (root, path) = Some (v, gs) \<longleftrightarrow>
        (\<exists>s \<in> set (db_source_files db). sf_root_id s \<noteq> i \<and> sf_root_id s = root \<and> sf_relative_path s = path
          \<and> sf_current_revision_id s = Some (rv_id v) \<and> v \<in> set (db_revisions db)
          \<and> rv_source_file_id v \<notin> set (sources_of_root db i) \<and> gs = segments_of ?db (rv_id v))"
      unfolding index_view_Some [OF keys(2)] by (auto simp: without_root_def)
    also have "\<dots> \<longleftrightarrow> (\<exists>s \<in> set (db_source_files db). sf_root_id s \<noteq> i \<and> sf_root_id s = root \<and> sf_relative_path s = path
          \<and> sf_current_revision_id s = Some (rv_id v) \<and> v \<in> set (db_revisions db) \<and> gs = segments_of db (rv_id v))"
      using own by (intro bex_cong refl) metis
    also have "\<dots> \<longleftrightarrow> root \<noteq> i \<and> index_view db (root, path) = Some (v, gs)"
      unfolding index_view_Some [OF keys(1)] by blast
    finally show ?thesis .
  qed
  show ?thesis
  proof (cases "root = i")
    case True
    with iff have "index_view ?db (root, path) \<noteq> Some x" for x by (cases x) simp
    then have "index_view ?db (root, path) = None" by (metis option.exhaust)
    with True show ?thesis by simp
  next
    case False
    have "index_view ?db (root, path) = index_view db (root, path)"
      by (rule index_view_eqI) (use iff False in blast)
    with False show ?thesis by simp
  qed
qed

end
