(* ===== verification/Storage_Properties.thy ===== *)
theory Storage_Properties
  imports Storage_Invariants
begin

text \<open>
  The contract of the storage layer, as properties over the invariant and the abstract index of
  \<open>Storage_Invariants\<close>, with a small database on which each is instantiated.
\<close>

subsection \<open>A small database\<close>

definition note_root :: root where
  "note_root = \<lparr>rt_id = 1, rt_canonical_path = lit ''/r'', rt_display_name = lit ''r'',
     rt_include_patterns = [], rt_exclude_patterns = [], rt_sensitivity_tags = [],
     rt_follow_symlinks = False, rt_enabled = True, rt_created_at = 0, rt_updated_at = 0,
     rt_config_fingerprint = []\<rparr>"

definition note_source :: source_file where
  "note_source = \<lparr>sf_id = 2, sf_root_id = 1, sf_relative_path = lit ''a'', sf_canonical_path_hash = [],
     sf_file_type = PlainText, sf_size_bytes = 3, sf_modified_at = Some 1,
     sf_current_revision_id = Some 3, sf_state = Active, sf_first_seen_at = 1, sf_last_seen_at = 1\<rparr>"

definition note_revision :: "uuid \<Rightarrow> content_hash \<Rightarrow> revision" where
  "note_revision i h = \<lparr>rv_id = i, rv_source_file_id = 2, rv_content_hash = h, rv_parser_id = lit ''p'',
     rv_parser_version = lit ''1'', rv_extracted_text_hash = None, rv_observed_at = 1,
     rv_indexed_at = Some 1, rv_status = Indexed, rv_error_code = None, rv_error_message = None\<rparr>"

definition note_segment :: "uuid \<Rightarrow> uuid \<Rightarrow> segment" where
  "note_segment i r = \<lparr>sg_id = i, sg_revision_id = r, sg_segment_type = Paragraph, sg_anchor = lit ''0'',
     sg_ordinal = 0, sg_text = lit ''one'', sg_text_hash = [], sg_token_count = None, sg_metadata = [],
     sg_sensitivity_scope = None\<rparr>"

definition note_db :: db where
  "note_db = empty_db\<lparr>db_roots := [note_root], db_source_files := [note_source],
     db_revisions := [note_revision 3 (lit ''h1'')], db_segments := [note_segment 4 3],
     db_segments_fts := [fts_row_of note_source (note_segment 4 3)]\<rparr>"

lemmas note_defs = note_db_def note_root_def note_source_def note_revision_def note_segment_def empty_db_def

lemma note_db_ok: "db_ok note_db"
  by (simp add: db_ok_defs note_defs current_rows_def lit_def)

lemma note_source_stored: "stored_as note_db note_source note_source"
  by (simp add: stored_as_def same_identity_def note_db_def)

subsection \<open>Promotion\<close>

text \<open>
  C9. Promotion implements the abstract update: when \<open>promote_revision\<close> succeeds on a well-formed
  database, the index shows the new revision with exactly its segments at the file's path and is
  unchanged everywhere else, and keys, references, the current-revision discipline and the agreement of
  full-text rows with current segments are kept (so no row of the superseded revision can be found).
\<close>
theorem promote_revision_refines:
  assumes "db_ok db" "stored_as db row source"
    and "rv_source_file_id revision = sf_id source" "rv_status revision = Indexed"
    and "\<forall>g \<in> set segments. sg_revision_id g = rv_id revision"
    and "promote_revision db source revision segments = Inr db'"
  shows "db_ok db' \<and> index_view db'
    = (index_view db)((sf_root_id source, sf_relative_path source) \<mapsto> (revision, segments))"
proof -
  have keys: "keys_ok db" using assms(1) by (simp add: db_ok_def)
  from assms(6) promote_revision_Inr [OF keys assms(5)] have
    p: "promotable db revision segments" "db' = promoted_db db source revision segments" by blast+
  have "db_ok db'" by (rule promote_revision_ok [OF assms])
  with promoted_view [OF assms(1) _ assms(2) p(1) assms(5)] p(2) show ?thesis by simp
qed

theorem promote_revision_refines_witness:
  "\<exists>db'. promote_revision note_db note_source (note_revision 5 (lit ''h2'')) [note_segment 6 5] = Inr db'
     \<and> db_ok db' \<and> index_view db' (1, lit ''a'')
         = Some (note_revision 5 (lit ''h2''), [note_segment 6 5])"
proof -
  let ?db' = "promoted_db note_db note_source (note_revision 5 (lit ''h2'')) [note_segment 6 5]"
  have r: "rv_source_file_id (note_revision 5 (lit ''h2'')) = sf_id note_source"
    "rv_status (note_revision 5 (lit ''h2'')) = Indexed"
    "\<forall>g \<in> set [note_segment 6 5]. sg_revision_id g = rv_id (note_revision 5 (lit ''h2''))"
    by (simp_all add: note_defs)
  have "promotable note_db (note_revision 5 (lit ''h2'')) [note_segment 6 5]"
    by (simp add: promotable_def segment_keys_ok_def revision_key_def note_defs lit_def)
  moreover have "keys_ok note_db" using note_db_ok by (simp add: db_ok_def)
  ultimately have p: "promote_revision note_db note_source (note_revision 5 (lit ''h2'')) [note_segment 6 5]
      = Inr ?db'" using promote_revision_Inr r(3) by blast
  show ?thesis
    using promote_revision_refines [OF note_db_ok note_source_stored r p] p
    by (auto simp: note_source_def)
qed

text \<open>
  Exactly when a promotion is refused: the revision identifier is taken, the file already has a
  revision of the same content, parser and parser version (current or not, failed or not), the file does
  not exist, or two segments share an identifier, an ordinal or an anchor. In particular content a file
  had once before can never be promoted again.
\<close>
theorem promote_revision_refused:
  assumes "keys_ok db" "\<forall>g \<in> set segments. sg_revision_id g = rv_id revision"
  shows "(\<exists>e. promote_revision db source revision segments = Inl e) \<longleftrightarrow>
     rv_id revision \<in> rv_id ` set (db_revisions db)
     \<or> revision_key revision \<in> revision_key ` set (db_revisions db)
     \<or> rv_source_file_id revision \<notin> sf_id ` set (db_source_files db)
     \<or> \<not> segment_keys_ok (db_segments db @ segments)"
proof -
  have "(\<exists>e. promote_revision db source revision segments = Inl e)
      \<longleftrightarrow> \<not> promotable db revision segments"
    using promote_revision_Inr [OF assms, of source]
    by (cases "promote_revision db source revision segments") auto
  then show ?thesis by (auto simp: promotable_def)
qed

theorem promote_revision_refused_witness:
  "\<exists>e. promote_revision note_db note_source (note_revision 5 (lit ''h1'')) [] = Inl e"
proof -
  have "keys_ok note_db" using note_db_ok by (simp add: db_ok_def)
  then show ?thesis
    using promote_revision_refused [of note_db "[]" "note_revision 5 (lit ''h1'')" note_source]
    by (simp add: revision_key_def note_defs)
qed

subsection \<open>Deletion\<close>

text \<open>
  Marking a stored file deleted removes it, and only it, from the index, and keeps the database
  well-formed, so none of its text can be found afterwards.
\<close>
theorem mark_source_deleted_refines:
  assumes "db_ok db" "stored_as db row source"
  shows "db_ok (mark_source_deleted db source t)
    \<and> index_view (mark_source_deleted db source t)
        = (index_view db)((sf_root_id source, sf_relative_path source) := None)
    \<and> list_all (\<lambda>f. fr_source_file_id f \<noteq> sf_id source) (db_segments_fts (mark_source_deleted db source t))"
proof -
  let ?db = "mark_source_deleted db source t"
  have ok: "db_ok ?db" by (rule mark_source_deleted_ok [OF assms])
  moreover have "fr_source_file_id f \<noteq> sf_id source" if "f \<in> set (db_segments_fts ?db)" for f
  proof -
    from that ok obtain s g where s: "s \<in> set (db_source_files ?db)"
      "sf_current_revision_id s = Some (sg_revision_id g)" "f = fts_row_of s g"
      by (auto simp: db_ok_def fts_ok_def in_current_rows)
    then have "sf_id s \<noteq> sf_id source"
      by (auto simp: mark_source_deleted_def Let_def set_update_where)
    with s(3) show ?thesis by simp
  qed
  ultimately show ?thesis using deleted_view [OF assms] by (simp add: list_all_iff)
qed

theorem mark_source_deleted_refines_witness:
  "db_ok (mark_source_deleted note_db note_source 9)
   \<and> index_view (mark_source_deleted note_db note_source 9) (1, lit ''a'') = None"
  using mark_source_deleted_refines [OF note_db_ok note_source_stored, of 9]
  by (simp add: note_source_def)



subsection \<open>Status\<close>

lemma active_current_iff:
  assumes "current_ok db"
  shows "r \<in> set (active_current_ids db)
    \<longleftrightarrow> (\<exists>s \<in> set (db_source_files db). sf_current_revision_id s = Some r)"
proof
  assume "r \<in> set (active_current_ids db)"
  then show "\<exists>s \<in> set (db_source_files db). sf_current_revision_id s = Some r"
    by (auto simp: active_current_ids_def split: option.splits)
next
  assume "\<exists>s \<in> set (db_source_files db). sf_current_revision_id s = Some r"
  then obtain s where s: "s \<in> set (db_source_files db)" "sf_current_revision_id s = Some r" by blast
  with assms have "sf_state s = Active" by (auto simp: current_ok_def)
  with s show "r \<in> set (active_current_ids db)"
    by (force simp: active_current_ids_def)
qed

text \<open>
  The status report is consistent: on a well-formed database the number of full-text rows it shows
  is the number of segments of active files, so a difference between the two always means a broken
  index.
\<close>
theorem status_fts_rows_agree:
  assumes "db_ok db"
  shows "ss_fts_rows (status_snapshot_of db bytes) = ss_active_segments (status_snapshot_of db bytes)"
proof -
  have keys: "keys_ok db" and cur: "current_ok db" and fts: "fts_ok db"
    using assms by (simp_all add: db_ok_def)
  let ?active = "filter (\<lambda>g. sg_revision_id g \<in> set (active_current_ids db)) (db_segments db)"
  have "set (map fr_segment_id (db_segments_fts db)) = set (map sg_id ?active)"
  proof -
    have "set (map fr_segment_id (db_segments_fts db)) = fr_segment_id ` set (current_rows db)"
      using fts by (simp add: fts_ok_def)
    also have "\<dots> = sg_id ` {g \<in> set (db_segments db). \<exists>s \<in> set (db_source_files db).
        sf_current_revision_id s = Some (sg_revision_id g)}"
      by (auto simp: current_rows_def image_UN image_image)
    also have "\<dots> = set (map sg_id ?active)"
      by (simp add: active_current_iff [OF cur])
    finally show ?thesis .
  qed
  moreover have "distinct (map fr_segment_id (db_segments_fts db))" "distinct (map sg_id ?active)"
    using fts keys by (simp_all add: fts_ok_def keys_ok_def distinct_map_filter)
  ultimately have "length (map fr_segment_id (db_segments_fts db)) = length (map sg_id ?active)"
    by (metis distinct_card)
  then show ?thesis by (simp add: status_snapshot_of_def Let_def)
qed

theorem status_fts_rows_agree_witness:
  "ss_fts_rows (status_snapshot_of note_db 0) = ss_active_segments (status_snapshot_of note_db 0)
   \<and> ss_fts_rows (status_snapshot_of note_db 0) = 1"
  using status_fts_rows_agree [OF note_db_ok, of 0]
  by (simp add: status_snapshot_of_def Let_def note_db_def)

subsection \<open>Query activity\<close>

interpretation newest_first: comparator "\<lambda>a b. cmp (qa_observed_at_ms b) (qa_observed_at_ms a)" UNIV
  by (rule comparator_rev) (rule comparator_key)

lemma recent_activity_newest:
  assumes "x \<in> set (recent_activity n rows)" "y \<in> set rows" "y \<notin> set (recent_activity n rows)"
  shows "qa_observed_at_ms y \<le> qa_observed_at_ms x"
proof -
  let ?s = "sort_by (\<lambda>a b. cmp (qa_observed_at_ms b) (qa_observed_at_ms a)) rows"
  have "sorted_wrt (\<lambda>a b. cmp (qa_observed_at_ms b) (qa_observed_at_ms a) \<noteq> Greater) (take n ?s @ drop n ?s)"
    unfolding append_take_drop_id by (rule newest_first.sorted_sort_by) simp
  then have sep: "\<forall>a \<in> set (take n ?s). \<forall>b \<in> set (drop n ?s). \<not> qa_observed_at_ms a < qa_observed_at_ms b"
    unfolding sorted_wrt_append by simp
  have "y \<in> set (take n ?s @ drop n ?s)" unfolding append_take_drop_id using assms(2) by simp
  with assms(3) have "y \<in> set (drop n ?s)" unfolding recent_activity_def set_append by blast
  with sep assms(1) show ?thesis by (auto simp: recent_activity_def not_less)
qed

text \<open>
  The activity table is a bounded window on the newest queries: after recording a query it has at
  most 100 rows, all from before or the new one, and no row that was dropped is newer than one kept.
\<close>
theorem record_query_activity_window:
  assumes "distinct (map qa_id (db_query_activity db))" "next_id \<notin> qa_id ` set (db_query_activity db)"
    and "db' = record_query_activity db next_id t mode n ms"
    and "rows = db_query_activity db @ [\<lparr>qa_id = next_id, qa_observed_at_ms = t, qa_mode = mode,
           qa_result_count = n, qa_elapsed_ms = ms\<rparr>]"
  shows "length (db_query_activity db') = min 100 (length rows)
    \<and> set (db_query_activity db') \<subseteq> set rows
    \<and> (\<forall>x \<in> set (db_query_activity db'). \<forall>y \<in> set rows - set (db_query_activity db').
         qa_observed_at_ms y \<le> qa_observed_at_ms x)"
proof -
  let ?top = "recent_activity QUERY_ACTIVITY_WINDOW rows"
  have ids: "distinct (map qa_id rows)" using assms(1,2,4) by auto
  have sub: "set ?top \<subseteq> set rows"
    unfolding recent_activity_def using set_take_subset by fastforce
  have kept: "db_query_activity db' = filter (\<lambda>r. qa_id r \<in> qa_id ` set ?top) rows"
    unfolding assms(3,4) record_query_activity_def Let_def by (simp add: delete_where_def)
  have eq: "set (db_query_activity db') = set ?top"
    unfolding kept using sub distinct_key [OF ids] by auto
  have "distinct (sort_by (\<lambda>a b. cmp (qa_observed_at_ms b) (qa_observed_at_ms a)) rows)"
    using ids by (metis distinct_map mset_sort_by mset_eq_imp_distinct_iff)
  then have "distinct ?top" by (simp add: recent_activity_def)
  moreover have "distinct (db_query_activity db')"
    unfolding kept using ids by (simp add: distinct_map)
  ultimately have "length (db_query_activity db') = length ?top"
    using eq by (metis distinct_card)
  then show ?thesis
    using eq sub recent_activity_newest by (auto simp: recent_activity_def QUERY_ACTIVITY_WINDOW_def)
qed

theorem record_query_activity_window_witness:
  "length (db_query_activity (record_query_activity empty_db 1 5 [] 0 0)) = 1"
  using record_query_activity_window [of empty_db 1 _ 5 "[]" 0 0, OF _ _ refl refl]
  by (simp add: empty_db_def)

subsection \<open>Migrations\<close>

lemma pending_cases:
  "pending run v c checked k =
     (if v \<le> current_version c then k c
      else case run v of Some e \<Rightarrow> (Some (Database e), c)
         | None \<Rightarrow> (case checked (c\<lparr>cn_version := Some v, cn_applied := cn_applied c @ [v]\<rparr>) of
             (Some e, c) \<Rightarrow> (Some e, c) | (None, c) \<Rightarrow> k c))"
  by (auto simp: pending_def apply_migration_def split: option.splits)

text \<open>
  Migration reaches exactly the current schema or stops where it failed: it succeeds when the
  recorded version is not newer than 4, every pending script runs and FTS5 works if the second script
  is pending; then the version is 4 and precisely the pending scripts were committed, in order. On
  failure the version recorded is that of the last committed script, never beyond it; a newer schema is
  left untouched.
\<close>
theorem migrate_outcome:
  "(fst (migrate run fts5 c) = None \<longleftrightarrow>
      current_version c \<le> 4 \<and> list_all (\<lambda>v. v \<le> current_version c \<or> run v = None) [1, 2, 3, 4]
      \<and> (fts5 \<or> 2 \<le> current_version c))
   \<and> (fst (migrate run fts5 c) = None \<longrightarrow>
        current_version (snd (migrate run fts5 c)) = 4
        \<and> cn_applied (snd (migrate run fts5 c))
            = cn_applied c @ filter (\<lambda>v. current_version c < v) [1, 2, 3, 4])
   \<and> (snd (migrate run fts5 c) = c
      \<or> current_version (snd (migrate run fts5 c)) = last (cn_applied (snd (migrate run fts5 c))))
   \<and> (4 < current_version c \<longrightarrow> migrate run fts5 c = (Some (FutureSchema (current_version c)), c))"
proof -
  consider "current_version c < 1" | "current_version c = 1" | "current_version c = 2"
    | "current_version c = 3" | "current_version c = 4" | "4 < current_version c" by linarith
  then show ?thesis
    by cases (simp_all add: migrate_def pending_cases CURRENT_SCHEMA_VERSION_def current_version_def
        split: option.split)
qed

theorem migrate_outcome_witness:
  "current_version (snd (migrate (\<lambda>_. None) True \<lparr>cn_version = Some 2, cn_applied = [1, 2]\<rparr>)) = 4
   \<and> cn_applied (snd (migrate (\<lambda>_. None) True \<lparr>cn_version = Some 2, cn_applied = [1, 2]\<rparr>)) = [1, 2, 3, 4]"
  using migrate_outcome [of "\<lambda>_. None" True "\<lparr>cn_version = Some 2, cn_applied = [1, 2]\<rparr>"]
  by (simp add: current_version_def)

subsection \<open>Changes\<close>

definition other_revisions :: "db \<Rightarrow> source_file \<Rightarrow> revision list" where
  "other_revisions db s = filter (\<lambda>r. rv_source_file_id r = sf_id s \<and> sf_current_revision_id s \<noteq> Some (rv_id r)
     \<and> rv_status r = Indexed) (db_revisions db)"

definition current_hash :: "db \<Rightarrow> source_file \<Rightarrow> content_hash option" where
  "current_hash db s = map_option rv_content_hash (Option.bind (sf_current_revision_id s) (get_revision db))"

lemma length_concat_single:
  "length (concat (map (\<lambda>x. case f x of None \<Rightarrow> [] | Some k \<Rightarrow> [g x k]) xs)) = length (filter (\<lambda>x. f x \<noteq> None) xs)"
  by (induction xs) (auto split: option.splits)

lemma source_events_count:
  "length (source_events db None s) =
     (if sf_state s = Deleted then max 1 (length (other_revisions db s))
      else if sf_state s \<noteq> Active then 0
      else if other_revisions db s = [] then 1
      else length (filter (\<lambda>r. Some (rv_content_hash r) \<noteq> current_hash db s) (other_revisions db s)))"
proof -
  have len: "length (source_events db None s)
      = length (filter (\<lambda>p. change_kind s None p (current_hash db s) \<noteq> None) (previous_hashes db s))"
    unfolding source_events_def Let_def current_hash_def by (rule length_concat_single)
  have prev: "previous_hashes db s = (if other_revisions db s = [] then [None]
      else map (\<lambda>r. Some (rv_content_hash r)) (other_revisions db s))"
    by (auto simp: previous_hashes_def other_revisions_def split: list.splits)
  show ?thesis
    unfolding len prev
    by (auto simp: change_kind_def filter_map comp_def Suc_le_eq max_def)
qed

lemma sum_list_sort_by: "sum_list (map (f :: 'a \<Rightarrow> nat) (sort_by c xs)) = sum_list (map f xs)"
  by (metis mset_sort_by mset_map sum_mset_sum_list)

text \<open>
  The change list is per revision, not per file: a file that was modified is listed once for every
  earlier indexed revision whose content differs from the current one, and a deleted file once for
  every indexed revision it ever had (at least once), so a file edited \<open>n\<close> times shows up \<open>n\<close> times.
\<close>
theorem list_changes_count:
  "length (list_changes db None None) = (\<Sum>s\<leftarrow>db_source_files db.
     if sf_state s = Deleted then max 1 (length (other_revisions db s))
     else if sf_state s \<noteq> Active then 0
     else if other_revisions db s = [] then 1
     else length (filter (\<lambda>r. Some (rv_content_hash r) \<noteq> current_hash db s) (other_revisions db s)))"
  unfolding source_events_count [symmetric]
  by (simp add: list_changes_def Let_def length_concat comp_def sum_list_sort_by)

end
