(* ===== verification/Effects.thy ===== *)
theory Effects
  imports Storage_Invariants
begin

text \<open>
  The effects of indexing. An operation is a function on the world (the database and a tick that
  counts clock readings, drawn identifiers and file reads) that returns a result and the world left
  behind, whether it succeeds or not: a failure does not undo what was written before it. \<open>triple\<close> is
  the Hoare triple over the database that the proofs about these operations are built from.
\<close>

record world =
  wd_db :: db
  wd_tick :: nat

type_synonym 'a ix = "world \<Rightarrow> (index_error + 'a) \<times> world"

definition ret :: "'a \<Rightarrow> 'a ix" where "ret a w = (Inr a, w)"
definition fail :: "index_error \<Rightarrow> 'a ix" where "fail e w = (Inl e, w)"

definition andthen :: "'a ix \<Rightarrow> ('a \<Rightarrow> 'b ix) \<Rightarrow> 'b ix" where
  "andthen m f w = (case m w of (Inl e, w') \<Rightarrow> (Inl e, w') | (Inr a, w') \<Rightarrow> f a w')"

text \<open>The outcome as a value, as \<open>match process_document(..)\<close> takes it.\<close>

definition attempt :: "'a ix \<Rightarrow> (index_error + 'a) ix" where
  "attempt m w = (case m w of (r, w') \<Rightarrow> (Inr r, w'))"

definition reading :: "(db \<Rightarrow> 'a) \<Rightarrow> 'a ix" where
  "reading f w = (Inr (f (wd_db w)), w)"

definition store :: "(db \<Rightarrow> storage_error + db) \<Rightarrow> unit ix" where
  "store f w = (case f (wd_db w) of
     Inl e \<Rightarrow> (Inl (IndexStorage e), w) | Inr db \<Rightarrow> (Inr (), w\<lparr>wd_db := db\<rparr>))"

subsection \<open>Triples\<close>

definition triple :: "(db \<Rightarrow> bool) \<Rightarrow> 'a ix \<Rightarrow> (index_error + 'a \<Rightarrow> db \<Rightarrow> bool) \<Rightarrow> bool" where
  "triple P m Q \<longleftrightarrow> (\<forall>w r w'. P (wd_db w) \<longrightarrow> m w = (r, w') \<longrightarrow> Q r (wd_db w'))"

text \<open>Operations that never touch the database.\<close>

definition quiet :: "'a ix \<Rightarrow> bool" where
  "quiet m \<longleftrightarrow> (\<forall>w r w'. m w = (r, w') \<longrightarrow> wd_db w' = wd_db w)"

lemma triple_use: "triple P m Q \<Longrightarrow> P (wd_db w) \<Longrightarrow> m w = (r, w') \<Longrightarrow> Q r (wd_db w')"
  by (auto simp: triple_def)

lemma triple_weaken:
  "triple P m Q \<Longrightarrow> (\<And>db. P' db \<Longrightarrow> P db) \<Longrightarrow> (\<And>r db. Q r db \<Longrightarrow> Q' r db) \<Longrightarrow> triple P' m Q'"
  unfolding triple_def by metis

lemma triple_each:
  "(\<And>db0. P db0 \<Longrightarrow> triple (\<lambda>db. db = db0) m Q) \<Longrightarrow> triple P m Q"
  by (auto simp: triple_def)

lemma triple_ret: "(\<And>db. P db \<Longrightarrow> Q (Inr a) db) \<Longrightarrow> triple P (ret a) Q"
  by (auto simp: triple_def ret_def)

lemma triple_fail: "(\<And>db. P db \<Longrightarrow> Q (Inl e) db) \<Longrightarrow> triple P (fail e) Q"
  by (auto simp: triple_def fail_def)

lemma triple_andthen:
  assumes "triple P m R" "\<And>a. triple (R (Inr a)) (f a) Q" "\<And>e db. R (Inl e) db \<Longrightarrow> Q (Inl e) db"
  shows "triple P (andthen m f) Q"
  unfolding triple_def
proof (intro allI impI)
  fix w r w' assume P: "P (wd_db w)" and run: "andthen m f w = (r, w')"
  obtain a w1 where m: "m w = (a, w1)" by fastforce
  have R: "R a (wd_db w1)" by (rule triple_use [OF assms(1) P m])
  show "Q r (wd_db w')"
  proof (cases a)
    case (Inl e)
    with run m R assms(3) show ?thesis by (auto simp: andthen_def)
  next
    case (Inr x)
    with run m R triple_use [OF assms(2)] show ?thesis by (simp add: andthen_def)
  qed
qed

lemma triple_attempt: "triple P m (\<lambda>r. Q (Inr r)) \<Longrightarrow> triple P (attempt m) Q"
  by (auto simp: triple_def attempt_def split: prod.splits)

lemma triple_reading: "(\<And>db. P db \<Longrightarrow> Q (Inr (f db)) db) \<Longrightarrow> triple P (reading f) Q"
  by (auto simp: triple_def reading_def)

lemma triple_store:
  assumes "\<And>db e. P db \<Longrightarrow> f db = Inl e \<Longrightarrow> Q (Inl (IndexStorage e)) db"
    and "\<And>db db'. P db \<Longrightarrow> f db = Inr db' \<Longrightarrow> Q (Inr ()) db'"
  shows "triple P (store f) Q"
  using assms by (auto simp: triple_def store_def split: sum.splits)

lemma triple_quiet: "quiet m \<Longrightarrow> triple P m (\<lambda>r. P)"
  by (auto simp: triple_def quiet_def)

lemma quiet_andthen: "quiet m \<Longrightarrow> (\<And>a. quiet (f a)) \<Longrightarrow> quiet (andthen m f)"
  by (auto simp: quiet_def andthen_def split: prod.splits sum.splits)

lemma quiet_basic [intro, simp]:
  "quiet (ret a)" "quiet (fail e)" "quiet (reading f)" "quiet (\<lambda>w. (g w, w))"
  by (auto simp: quiet_def ret_def fail_def reading_def)

text \<open>The rules for the first operation of a sequence, from a known database.\<close>

lemma triple_quiet_then:
  "quiet m \<Longrightarrow> (\<And>a. triple P (f a) Q) \<Longrightarrow> (\<And>e db. P db \<Longrightarrow> Q (Inl e) db) \<Longrightarrow> triple P (andthen m f) Q"
  by (rule triple_andthen [OF triple_quiet])

text \<open>Reading the outside world at the current tick.\<close>

lemma triple_observe_then:
  assumes "\<And>n. triple P (f (g n)) Q"
  shows "triple P (andthen (\<lambda>w. (Inr (g (wd_tick w)), w)) f) Q"
  using assms by (simp add: triple_def andthen_def)

lemma triple_reading_then:
  "triple (\<lambda>db. db = db0) (g (f db0)) Q \<Longrightarrow> triple (\<lambda>db. db = db0) (andthen (reading f) g) Q"
  by (auto simp: triple_def andthen_def reading_def)

lemma triple_store_then:
  assumes "\<And>e. f db0 = Inl e \<Longrightarrow> Q (Inl (IndexStorage e)) db0"
    and "\<And>db1. f db0 = Inr db1 \<Longrightarrow> triple (\<lambda>db. db = db1) (g ()) Q"
  shows "triple (\<lambda>db. db = db0) (andthen (store f) g) Q"
  unfolding triple_def
proof (intro allI impI)
  fix w r w' assume w: "wd_db w = db0" and run: "andthen (store f) g w = (r, w')"
  show "Q r (wd_db w')"
  proof (cases "f db0")
    case (Inl e)
    with w run assms(1) show ?thesis by (auto simp: andthen_def store_def)
  next
    case (Inr db1)
    with w run have "g () (w\<lparr>wd_db := db1\<rparr>) = (r, w')" by (simp add: andthen_def store_def)
    from triple_use [OF assms(2) [OF Inr] _ this] show ?thesis by simp
  qed
qed

end
