(* ===== verification/Index.thy ===== *)
theory Index
  imports Effects Discovery Markdown
begin

text \<open>
  \<open>index.rs\<close>: indexing one document, one root in full, and one root from a Git change list, as
  operations of the effect type of \<open>Effects\<close>. The clock, the identifiers, the
  file system at each tick, the digest and the \<open>git\<close> executable are the parameters of \<open>index_env\<close>.
  Counters are unbounded here; in the code they are \<open>u32\<close> and count files and segments of one run.
\<close>

record 'g index_env =
  ie_discovery :: "nat \<Rightarrow> 'g discovery_env"
  ie_clock :: "nat \<Rightarrow> int" \<comment> \<open>\<open>SystemTime::now()\<close>\<close>
  ie_uuid :: "nat \<Rightarrow> uuid"
  ie_contents :: "nat \<Rightarrow> path \<Rightarrow> ustring + bytes"
  ie_blake3 :: "bytes \<Rightarrow> ustring"
  ie_git :: git_run
  ie_events :: "ustring \<Rightarrow> md_event list" \<comment> \<open>\<open>pulldown_cmark\<close>\<close>

definition now :: "'g index_env \<Rightarrow> timestamp ix" where
  "now env w = (map_err IndexDomain (try_from_system_time (ie_clock env (wd_tick w))),
     w\<lparr>wd_tick := wd_tick w + 1\<rparr>)"

definition new_uuid :: "'g index_env \<Rightarrow> uuid ix" where
  "new_uuid env w = (Inr (ie_uuid env (wd_tick w)), w\<lparr>wd_tick := wd_tick w + 1\<rparr>)"

definition read_stable :: "'g index_env \<Rightarrow> path \<Rightarrow> stable_file_bytes ix" where
  "read_stable env path w =
     (map_err IndexRead (read_stable_file (dv_fs (ie_discovery env (wd_tick w)))
        (ie_contents env (wd_tick w)) (dv_fs (ie_discovery env (wd_tick w + 1))) path
        DEFAULT_MAX_FILE_SIZE_BYTES),
      w\<lparr>wd_tick := wd_tick w + 1\<rparr>)"

datatype document_outcome = Addition nat | Modification nat | Unchanged

subsection \<open>One document\<close>

fun parse_error_code :: "parse_error \<Rightarrow> ustring" where
  "parse_error_code InvalidUtf8 = lit ''INVALID_UTF8''"
| "parse_error_code (DuplicateParser _) = lit ''DUPLICATE_PARSER''"
| "parse_error_code (ParseFailed _) = lit ''PARSE_FAILED''"

fun parse_error_display :: "parse_error \<Rightarrow> ustring" where
  "parse_error_display InvalidUtf8 = lit ''source is not valid UTF-8''"
| "parse_error_display (DuplicateParser i) = lit ''duplicate parser id: '' @ i"
| "parse_error_display (ParseFailed m) = lit ''parser failed: '' @ m"

definition record_parse_failure ::
    "'g index_env \<Rightarrow> source_file option \<Rightarrow> root \<Rightarrow> discovered_document \<Rightarrow> uuid \<Rightarrow> timestamp \<Rightarrow> timestamp
      \<Rightarrow> content_hash \<Rightarrow> document_parser \<Rightarrow> parse_error \<Rightarrow> unit ix" where
  "record_parse_failure env existing root document source_id first_seen_at t content_hash parser error =
     (let current = Option.bind existing sf_current_revision_id;
          source = \<lparr>sf_id = source_id, sf_root_id = rt_id root,
            sf_relative_path = dd_relative_path document,
            sf_canonical_path_hash = path_hash (ie_blake3 env) (dd_canonical_path document),
            sf_file_type = dd_file_type document, sf_size_bytes = dd_size_bytes document,
            sf_modified_at = Some (dd_modified_at document), sf_current_revision_id = current,
            sf_state = (if current \<noteq> None then Active else SourceError),
            sf_first_seen_at = first_seen_at, sf_last_seen_at = t\<rparr>
      in andthen (store (\<lambda>db. upsert_source_file db source)) (\<lambda>_.
         andthen (new_uuid env) (\<lambda>revision_id.
           store (\<lambda>db. insert_revision db
             \<lparr>rv_id = revision_id, rv_source_file_id = source_id, rv_content_hash = content_hash,
              rv_parser_id = dp_parser_id parser, rv_parser_version = dp_parser_version parser,
              rv_extracted_text_hash = None, rv_observed_at = t, rv_indexed_at = None,
              rv_status = RevisionFailed, rv_error_code = Some (parse_error_code error),
              rv_error_message = Some (lit ''parser failed without promoting revision'')\<rparr>))))"

fun build_segments ::
    "'g index_env \<Rightarrow> uuid \<Rightarrow> parsed_segment list \<Rightarrow> segment list ix" where
  "build_segments env revision_id [] = ret []"
| "build_segments env revision_id (item # items) =
     andthen (new_uuid env) (\<lambda>i.
     andthen (build_segments env revision_id items) (\<lambda>segments.
       ret (\<lparr>sg_id = i, sg_revision_id = revision_id, sg_segment_type = ps_segment_type item,
             sg_anchor = ps_anchor item, sg_ordinal = ps_ordinal item, sg_text = ps_text item,
             sg_text_hash = blake3_hex (ie_blake3 env) (as_bytes (ps_text item)),
             sg_token_count = None, sg_metadata = lit ''{}'', sg_sensitivity_scope = None\<rparr> # segments)))"

definition extracted_text :: "parsed_segment list \<Rightarrow> ustring" where
  "extracted_text items = concat (map (\<lambda>item. ps_text item @ [10]) items)"

definition same_as_previous :: "revision option \<Rightarrow> content_hash \<Rightarrow> document_parser \<Rightarrow> bool" where
  "same_as_previous previous content_hash parser =
     (case previous of
        None \<Rightarrow> False
      | Some v \<Rightarrow> rv_content_hash v = content_hash \<and> rv_parser_id v = dp_parser_id parser
          \<and> rv_parser_version v = dp_parser_version parser \<and> rv_status v = Indexed)"

text \<open>The rows written for a document that was parsed.\<close>

definition indexed_revision ::
    "'g index_env \<Rightarrow> uuid \<Rightarrow> uuid \<Rightarrow> timestamp \<Rightarrow> stable_file_bytes \<Rightarrow> document_parser \<Rightarrow> parsed_document
      \<Rightarrow> revision" where
  "indexed_revision env source_id revision_id t sb parser parsed =
     \<lparr>rv_id = revision_id, rv_source_file_id = source_id,
      rv_content_hash = blake3_hex (ie_blake3 env) (sb_bytes sb),
      rv_parser_id = dp_parser_id parser, rv_parser_version = dp_parser_version parser,
      rv_extracted_text_hash = Some (blake3_hex (ie_blake3 env)
        (as_bytes (extracted_text (pd_segments parsed)))),
      rv_observed_at = t, rv_indexed_at = Some t, rv_status = Indexed,
      rv_error_code = None, rv_error_message = None\<rparr>"

definition indexed_source ::
    "'g index_env \<Rightarrow> root \<Rightarrow> discovered_document \<Rightarrow> source_file option \<Rightarrow> uuid \<Rightarrow> timestamp
      \<Rightarrow> stable_file_bytes \<Rightarrow> source_file" where
  "indexed_source env root document existing source_id t sb =
     \<lparr>sf_id = source_id, sf_root_id = rt_id root,
      sf_relative_path = dd_relative_path document,
      sf_canonical_path_hash = path_hash (ie_blake3 env) (dd_canonical_path document),
      sf_file_type = dd_file_type document, sf_size_bytes = sb_size_bytes sb,
      sf_modified_at = Some (sb_modified_at sb),
      sf_current_revision_id = Option.bind existing sf_current_revision_id,
      sf_state = Active,
      sf_first_seen_at = (case existing of None \<Rightarrow> t | Some s \<Rightarrow> sf_first_seen_at s),
      sf_last_seen_at = t\<rparr>"

text \<open>What \<open>process_document\<close> does once the source is read and is not the current revision's: parse,
  then record the failure or promote the new revision.\<close>

definition promote_document ::
    "'g index_env \<Rightarrow> root \<Rightarrow> discovered_document \<Rightarrow> source_file option \<Rightarrow> uuid \<Rightarrow> revision option
      \<Rightarrow> timestamp \<Rightarrow> stable_file_bytes \<Rightarrow> document_parser \<Rightarrow> parsed_document \<Rightarrow> document_outcome ix" where
  "promote_document env root document existing source_id previous_revision t sb parser parsed =
     andthen (new_uuid env) (\<lambda>revision_id.
     andthen (build_segments env revision_id (pd_segments parsed)) (\<lambda>segments.
     let revision = indexed_revision env source_id revision_id t sb parser parsed;
         source = indexed_source env root document existing source_id t sb in
     andthen (store (\<lambda>db. upsert_source_file db source)) (\<lambda>_.
     andthen (store (\<lambda>db. promote_revision db source revision segments)) (\<lambda>_.
       ret (if previous_revision = None then Addition (u32_sat (length segments))
            else Modification (u32_sat (length segments)))))))"

definition process_document ::
    "'g index_env \<Rightarrow> root \<Rightarrow> discovered_document \<Rightarrow> parser_registry \<Rightarrow> document_outcome ix" where
  "process_document env root document registry =
     andthen (now env) (\<lambda>t.
     andthen (reading (\<lambda>db. find_source_file db (rt_id root) (dd_relative_path document))) (\<lambda>existing.
     andthen (case existing of None \<Rightarrow> new_uuid env | Some s \<Rightarrow> ret (sf_id s)) (\<lambda>source_id.
     andthen (reading (\<lambda>db. Option.bind (Option.bind existing sf_current_revision_id) (get_revision db)))
       (\<lambda>previous_revision.
     andthen (read_stable env (dd_canonical_path document)) (\<lambda>sb.
     let content_hash = blake3_hex (ie_blake3 env) (sb_bytes sb) in
     case registry_select registry document of
       None \<Rightarrow> fail (IndexInternal (lit ''no parser selected for discovered document''))
     | Some parser \<Rightarrow>
     if same_as_previous previous_revision content_hash parser
     then andthen (store (\<lambda>db. upsert_source_file db ((the existing)\<lparr>
              sf_size_bytes := sb_size_bytes sb, sf_modified_at := Some (sb_modified_at sb),
              sf_last_seen_at := t, sf_state := Active,
              sf_canonical_path_hash := path_hash (ie_blake3 env) (dd_canonical_path document)\<rparr>)))
            (\<lambda>_. ret Unchanged)
     else case dp_parse parser (sb_bytes sb) of
       Inl error \<Rightarrow>
         andthen (record_parse_failure env existing root document source_id
                    (case existing of None \<Rightarrow> t | Some s \<Rightarrow> sf_first_seen_at s) t content_hash
                    parser error)
           (\<lambda>_. fail (IndexInternal (parse_error_display error)))
     | Inr parsed \<Rightarrow>
         promote_document env root document existing source_id previous_revision t sb parser parsed)))))"

subsection \<open>One root\<close>

datatype index_mode = Full | Incremental

record root_index_report =
  ir_root_id :: uuid
  ir_root_name :: ustring
  ir_mode :: index_mode
  ir_requested_base :: "ustring option"
  ir_resolved_base :: "ustring option"
  ir_current_head :: "ustring option"
  ir_changed_paths :: nat
  ir_explicit_deletions :: nat
  ir_fallback_reason :: "ustring option"
  ir_files_discovered :: nat
  ir_additions :: nat
  ir_modifications :: nat
  ir_unchanged :: nat
  ir_deletions :: nat
  ir_skipped :: nat
  ir_failures :: nat
  ir_segments_indexed :: nat
  ir_failed :: bool
  ir_error_code :: "ustring option"

text \<open>The running totals of the loops.\<close>

record counters =
  ct_additions :: nat
  ct_modifications :: nat
  ct_unchanged :: nat
  ct_failures :: nat
  ct_segments :: nat
  ct_deletions :: nat
  ct_discovered :: nat

definition no_counts :: counters where
  "no_counts = \<lparr>ct_additions = 0, ct_modifications = 0, ct_unchanged = 0, ct_failures = 0,
     ct_segments = 0, ct_deletions = 0, ct_discovered = 0\<rparr>"

fun count_outcome :: "index_error + document_outcome \<Rightarrow> counters \<Rightarrow> counters" where
  "count_outcome (Inr (Addition n)) c =
     c\<lparr>ct_additions := ct_additions c + 1, ct_segments := ct_segments c + n\<rparr>"
| "count_outcome (Inr (Modification n)) c =
     c\<lparr>ct_modifications := ct_modifications c + 1, ct_segments := ct_segments c + n\<rparr>"
| "count_outcome (Inr Unchanged) c = c\<lparr>ct_unchanged := ct_unchanged c + 1\<rparr>"
| "count_outcome (Inl _) c = c\<lparr>ct_failures := ct_failures c + 1\<rparr>"

fun index_documents ::
    "'g index_env \<Rightarrow> root \<Rightarrow> parser_registry \<Rightarrow> discovered_document list \<Rightarrow> counters \<Rightarrow> counters ix" where
  "index_documents env root registry [] c = ret c"
| "index_documents env root registry (document # documents) c =
     andthen (attempt (process_document env root document registry)) (\<lambda>outcome.
       index_documents env root registry documents (count_outcome outcome c))"

definition was_seen :: "discovered_document list \<Rightarrow> path \<Rightarrow> bool" where
  "was_seen documents p \<longleftrightarrow> components p \<in> set (map (\<lambda>d. components (dd_relative_path d)) documents)"

definition delete_unseen ::
    "discovered_document list \<Rightarrow> timestamp \<Rightarrow> source_file list \<Rightarrow> db \<Rightarrow> db" where
  "delete_unseen documents t sources db =
     fold (\<lambda>source db. if was_seen documents (sf_relative_path source) then db
                       else mark_source_deleted db source t) sources db"

fun discovery_error_display :: "discovery_error \<Rightarrow> ustring" where
  "discovery_error_display (RootMissing p) = lit ''approved root does not exist: '' @ p"
| "discovery_error_display (RootNotDirectory p) = lit ''approved root is not a directory: '' @ p"
| "discovery_error_display (RootCanonicalize p m) =
     lit ''failed to canonicalize approved root '' @ p @ lit '': '' @ m"
| "discovery_error_display (InvalidPattern p m) =
     lit ''invalid discovery pattern '' @ [39] @ p @ [39] @ lit '': '' @ m"
| "discovery_error_display (DiscoveryIo p m) = lit ''discovery I/O failed for '' @ p @ lit '': '' @ m"

definition scan_run_of ::
    "uuid \<Rightarrow> root \<Rightarrow> timestamp \<Rightarrow> timestamp \<Rightarrow> scan_status \<Rightarrow> counters \<Rightarrow> nat \<Rightarrow> ustring option \<Rightarrow> scan_run" where
  "scan_run_of i root started_at completed_at status c skipped error_code =
     \<lparr>sc_id = i, sc_root_id = rt_id root, sc_started_at = started_at,
      sc_completed_at = Some completed_at, sc_status = status, sc_additions = ct_additions c,
      sc_modifications = ct_modifications c, sc_unchanged = ct_unchanged c,
      sc_deletions = ct_deletions c, sc_skipped = skipped, sc_failures = ct_failures c,
      sc_segments_indexed = ct_segments c, sc_error_code = error_code\<rparr>"

definition full_report ::
    "root \<Rightarrow> ustring option \<Rightarrow> ustring option \<Rightarrow> ustring option \<Rightarrow> ustring option
      \<Rightarrow> nat \<Rightarrow> nat \<Rightarrow> counters \<Rightarrow> bool \<Rightarrow> ustring option \<Rightarrow> root_index_report" where
  "full_report root requested_base resolved_base current_head fallback_reason discovered skipped c failed
     error_code =
     \<lparr>ir_root_id = rt_id root, ir_root_name = rt_display_name root, ir_mode = Full,
      ir_requested_base = requested_base, ir_resolved_base = resolved_base,
      ir_current_head = current_head, ir_changed_paths = 0, ir_explicit_deletions = 0,
      ir_fallback_reason = fallback_reason, ir_files_discovered = discovered,
      ir_additions = ct_additions c, ir_modifications = ct_modifications c,
      ir_unchanged = ct_unchanged c, ir_deletions = ct_deletions c, ir_skipped = skipped,
      ir_failures = ct_failures c, ir_segments_indexed = ct_segments c, ir_failed = failed,
      ir_error_code = error_code\<rparr>"

definition index_one_root_full ::
    "'g index_env \<Rightarrow> root \<Rightarrow> parser_registry \<Rightarrow> ustring option \<Rightarrow> ustring option \<Rightarrow> ustring option
      \<Rightarrow> ustring option \<Rightarrow> root_index_report ix" where
  "index_one_root_full env root registry requested_base resolved_base current_head fallback_reason =
     (let report = full_report root requested_base resolved_base current_head fallback_reason
      in
      andthen (now env) (\<lambda>started_at.
      andthen (store (\<lambda>db. upsert_root db root)) (\<lambda>_.
      andthen (\<lambda>w. (Inr (discover_root (ie_discovery env (wd_tick w)) root default_discovery_options), w))
        (\<lambda>discovery.
      case discovery of
        Inl error \<Rightarrow>
          andthen (now env) (\<lambda>completed_at.
          andthen (new_uuid env) (\<lambda>i.
          andthen (store (\<lambda>db. insert_scan_run db (scan_run_of i root started_at completed_at ScanFailed
                     no_counts 0 (Some (lit ''DISCOVERY_FAILED''))))) (\<lambda>_.
            ret (report 0 0 no_counts True
                   (Some (lit ''discovery failed: '' @ discovery_error_display error))))))
      | Inr discovery \<Rightarrow>
          let documents = dr_documents discovery; skipped = u32_sat (length (dr_skipped discovery)) in
          andthen (index_documents env root registry documents no_counts) (\<lambda>c.
          andthen (reading (\<lambda>db. list_active_source_files db (rt_id root))) (\<lambda>active.
          andthen (now env) (\<lambda>deleted_at.
          andthen (store (\<lambda>db. Inr (delete_unseen documents deleted_at active db))) (\<lambda>_.
          let c = c\<lparr>ct_deletions := length (filter (\<lambda>s. \<not> was_seen documents (sf_relative_path s)) active)\<rparr> in
          andthen (now env) (\<lambda>completed_at.
          andthen (new_uuid env) (\<lambda>i.
          andthen (store (\<lambda>db. insert_scan_run db (scan_run_of i root started_at completed_at
                     ScanCompleted c skipped None))) (\<lambda>_.
            ret (report (u32_sat (length documents)) skipped c False None))))))))))))"

subsection \<open>From a change list\<close>

definition git_state_of ::
    "root \<Rightarrow> git_root_context \<Rightarrow> ustring option \<Rightarrow> int option \<Rightarrow> root_git_state" where
  "git_state_of root ctx base at =
     \<lparr>gs_root_id = rt_id root, gs_repo_fingerprint = Some (gx_repo_fingerprint ctx),
      gs_last_indexed_commit = Some (gx_head ctx), gs_observed_head = Some (gx_head ctx),
      gs_last_incremental_base = base, gs_last_incremental_at_ms = at\<rparr>"

text \<open>One change. A path that is not safe, or that is not admitted, is passed over.\<close>

definition apply_change ::
    "'g index_env \<Rightarrow> root \<Rightarrow> parser_registry \<Rightarrow> path \<Rightarrow> git_path_change \<Rightarrow> counters \<Rightarrow> counters ix" where
  "apply_change env root registry root_canonical change c =
     (if \<not> is_safe_relative_path (gc_relative_path change) then ret c
      else if gc_kind change = GitDeleted then
        andthen (reading (\<lambda>db. find_source_file db (rt_id root) (gc_relative_path change))) (\<lambda>source.
        case source of
          None \<Rightarrow> ret c
        | Some source \<Rightarrow>
            andthen (now env) (\<lambda>t.
            andthen (store (\<lambda>db. Inr (mark_source_deleted db source t))) (\<lambda>_.
              ret (c\<lparr>ct_deletions := ct_deletions c + 1\<rparr>))))
      else
        andthen (\<lambda>w. (Inr (validate_relative_path (ie_discovery env (wd_tick w)) root root_canonical
                         (gc_relative_path change) default_discovery_options), w)) (\<lambda>validated.
        case validated of
          Inl error \<Rightarrow> fail (IndexInternal (discovery_error_display error))
        | Inr (Inl _) \<Rightarrow> ret c
        | Inr (Inr document) \<Rightarrow>
            andthen (attempt (process_document env root document registry)) (\<lambda>outcome.
              ret (count_outcome outcome (c\<lparr>ct_discovered := ct_discovered c + 1\<rparr>)))))"

fun apply_changes ::
    "'g index_env \<Rightarrow> root \<Rightarrow> parser_registry \<Rightarrow> path \<Rightarrow> git_path_change list \<Rightarrow> counters \<Rightarrow> counters ix" where
  "apply_changes env root registry root_canonical [] c = ret c"
| "apply_changes env root registry root_canonical (change # changes) c =
     andthen (apply_change env root registry root_canonical change c) (\<lambda>c.
       apply_changes env root registry root_canonical changes c)"

definition index_changes ::
    "'g index_env \<Rightarrow> root \<Rightarrow> parser_registry \<Rightarrow> git_root_context \<Rightarrow> ustring option \<Rightarrow> ustring
      \<Rightarrow> git_path_change list \<Rightarrow> root_index_report ix" where
  "index_changes env root registry ctx requested base changes =
     andthen (now env) (\<lambda>started_at.
     andthen (store (\<lambda>db. upsert_root db root)) (\<lambda>_.
     andthen (\<lambda>w. (Inr (case fs_canonicalize (dv_fs (ie_discovery env (wd_tick w))) (rt_canonical_path root) of
                          Inr p \<Rightarrow> p | Inl _ \<Rightarrow> rt_canonical_path root), w)) (\<lambda>root_canonical.
     andthen (apply_changes env root registry root_canonical changes no_counts) (\<lambda>c.
     andthen (if ct_failures c = 0
              then andthen (now env) (\<lambda>t.
                     store (\<lambda>db. upsert_root_git_state db (git_state_of root ctx (Some base) (Some t))))
              else ret ()) (\<lambda>_.
     andthen (now env) (\<lambda>completed_at.
     andthen (new_uuid env) (\<lambda>i.
     andthen (store (\<lambda>db. insert_scan_run db (scan_run_of i root started_at completed_at ScanCompleted
                c 0 None))) (\<lambda>_.
       ret \<lparr>ir_root_id = rt_id root, ir_root_name = rt_display_name root, ir_mode = Incremental,
         ir_requested_base = requested, ir_resolved_base = Some base,
         ir_current_head = Some (gx_head ctx), ir_changed_paths = u32_sat (length changes),
         ir_explicit_deletions = ct_deletions c, ir_fallback_reason = None,
         ir_files_discovered = ct_discovered c, ir_additions = ct_additions c,
         ir_modifications = ct_modifications c, ir_unchanged = ct_unchanged c,
         ir_deletions = ct_deletions c, ir_skipped = 0, ir_failures = ct_failures c,
         ir_segments_indexed = ct_segments c, ir_failed = False, ir_error_code = None\<rparr>))))))))"

text \<open>A full scan standing in for an incremental one; when nothing failed it records the new base, and
  only a failing clock, not a failing store, stops it there.\<close>

definition full_and_record ::
    "'g index_env \<Rightarrow> root \<Rightarrow> parser_registry \<Rightarrow> git_root_context \<Rightarrow> ustring option \<Rightarrow> ustring
      \<Rightarrow> root_index_report ix" where
  "full_and_record env root registry ctx requested_base reason =
     andthen (index_one_root_full env root registry requested_base None (Some (gx_head ctx)) (Some reason))
       (\<lambda>report.
     if ir_failures report = 0 \<and> \<not> ir_failed report
     then andthen (now env) (\<lambda>t.
          andthen (attempt (store (\<lambda>db. upsert_root_git_state db (git_state_of root ctx None (Some t)))))
            (\<lambda>_. ret report))
     else ret report)"

text \<open>\<open>collect_changes\<close> fails only with internal errors.\<close>

definition collect_error_display :: "index_error \<Rightarrow> ustring" where
  "collect_error_display e = (case e of IndexInternal m \<Rightarrow> lit ''internal indexing error: '' @ m | _ \<Rightarrow> [])"

definition index_one_root_maybe_incremental ::
    "'g index_env \<Rightarrow> root \<Rightarrow> parser_registry \<Rightarrow> ustring option \<Rightarrow> root_index_report ix" where
  "index_one_root_maybe_incremental env root registry requested =
     andthen (\<lambda>w. (Inr (detect_git_root (ie_git env) (dv_fs (ie_discovery env (wd_tick w)))
                       (ie_blake3 env) (rt_canonical_path root)), w)) (\<lambda>detected.
     case detected of
       None \<Rightarrow> index_one_root_full env root registry requested None None
                 (Some (lit ''not a git repository''))
     | Some ctx \<Rightarrow>
     andthen (reading (\<lambda>db. load_root_git_state db (rt_id root))) (\<lambda>prior.
     if (case requested of None \<Rightarrow> False
         | Some r \<Rightarrow> \<not> revision_exists (ie_git env) (rt_canonical_path root) r)
     then full_and_record env root registry ctx requested
            (lit ''git revision unavailable: '' @ the requested)
     else
     case (case requested of Some r \<Rightarrow> Some r | None \<Rightarrow> Option.bind prior gs_last_indexed_commit) of
       None \<Rightarrow> full_and_record env root registry ctx None
                 (lit ''no prior git base; performing full scan'')
     | Some base \<Rightarrow>
         (case collect_changes (ie_git env) (rt_canonical_path root) ctx base of
            Inl error \<Rightarrow> full_and_record env root registry ctx (Some base)
                           (lit ''git change collection failed: '' @ collect_error_display error)
          | Inr changes \<Rightarrow> index_changes env root registry ctx requested base changes)))"

subsection \<open>Several roots\<close>

record 'e index_report =
  ip_roots_scanned :: nat
  ip_files_discovered :: nat
  ip_additions :: nat
  ip_modifications :: nat
  ip_unchanged :: nat
  ip_deletions :: nat
  ip_skipped :: nat
  ip_failures :: nat
  ip_segments_indexed :: nat
  ip_duration_ms :: nat
  ip_embedding :: "'e option"
  ip_root_reports :: "root_index_report list"

definition empty_report :: "'e index_report" where
  "empty_report = \<lparr>ip_roots_scanned = 0, ip_files_discovered = 0, ip_additions = 0,
     ip_modifications = 0, ip_unchanged = 0, ip_deletions = 0, ip_skipped = 0, ip_failures = 0,
     ip_segments_indexed = 0, ip_duration_ms = 0, ip_embedding = None, ip_root_reports = []\<rparr>"

definition add_root_report :: "root_index_report \<Rightarrow> 'e index_report \<Rightarrow> 'e index_report" where
  "add_root_report r p = p\<lparr>
     ip_roots_scanned := ip_roots_scanned p + 1,
     ip_files_discovered := ip_files_discovered p + ir_files_discovered r,
     ip_additions := ip_additions p + ir_additions r,
     ip_modifications := ip_modifications p + ir_modifications r,
     ip_unchanged := ip_unchanged p + ir_unchanged r,
     ip_deletions := ip_deletions p + ir_deletions r,
     ip_skipped := ip_skipped p + ir_skipped r,
     ip_failures := ip_failures p + ir_failures r,
     ip_segments_indexed := ip_segments_indexed p + ir_segments_indexed r,
     ip_root_reports := ip_root_reports p @ [r]\<rparr>"

text \<open>\<open>since\<close> is \<open>None\<close> for a full scan; a full scan that had no failure records the Git head it saw,
  and a failure to record it is ignored.\<close>

definition index_one_root ::
    "'g index_env \<Rightarrow> root \<Rightarrow> parser_registry \<Rightarrow> ustring option option \<Rightarrow> root_index_report ix" where
  "index_one_root env root registry since =
     (case since of
        None \<Rightarrow>
          andthen (index_one_root_full env root registry None None None None) (\<lambda>report.
          if ir_failures report = 0 \<and> \<not> ir_failed report
          then andthen (\<lambda>w. (Inr (detect_git_root (ie_git env) (dv_fs (ie_discovery env (wd_tick w)))
                               (ie_blake3 env) (rt_canonical_path root)), w)) (\<lambda>detected.
               case detected of
                 None \<Rightarrow> ret report
               | Some ctx \<Rightarrow>
                   andthen (attempt (store (\<lambda>db. upsert_root_git_state db (git_state_of root ctx None None))))
                     (\<lambda>_. ret report))
          else ret report)
      | Some requested \<Rightarrow> index_one_root_maybe_incremental env root registry requested)"

fun index_each ::
    "'g index_env \<Rightarrow> parser_registry \<Rightarrow> ustring option option \<Rightarrow> root list \<Rightarrow> 'e index_report
      \<Rightarrow> 'e index_report ix" where
  "index_each env registry since [] report = ret report"
| "index_each env registry since (root # roots) report =
     andthen (index_one_root env root registry since) (\<lambda>r.
       index_each env registry since roots (add_root_report r report))"

text \<open>The configured roots arrive converted (\<open>AppConfig::domain_roots\<close>), and the embedding
  synchronisation that ends a run is an argument.\<close>

definition select_roots :: "root list \<Rightarrow> uuid option \<Rightarrow> index_error + root list" where
  "select_roots roots only_root =
     (case only_root of
        Some i \<Rightarrow> (let roots = filter (\<lambda>r. rt_id r = i) roots
                   in if roots = [] then Inl (IndexConfig (RootNotFound (show_nat i))) else Inr roots)
      | None \<Rightarrow> (let roots = filter rt_enabled roots
                 in if roots = [] then Inl NoRoots else Inr roots))"

definition index_roots_with_options ::
    "'g index_env \<Rightarrow> config_error + root list \<Rightarrow> uuid option \<Rightarrow> ustring option option \<Rightarrow> 'e ix \<Rightarrow> nat
      \<Rightarrow> 'e index_report ix" where
  "index_roots_with_options env configured only_root since synchronize elapsed_ms =
     (case registry_with_defaults (ie_events env) of
        Inl error \<Rightarrow> fail (IndexInternal
          (lit ''parser registry initialization failed: '' @ parse_error_display error))
      | Inr registry \<Rightarrow>
          (case try_bind (map_err IndexConfig configured) (\<lambda>roots. select_roots roots only_root) of
             Inl error \<Rightarrow> fail error
           | Inr roots \<Rightarrow>
               andthen (index_each env registry since roots empty_report) (\<lambda>report.
               andthen synchronize (\<lambda>embedding.
                 ret (report\<lparr>ip_embedding := Some embedding,
                             ip_duration_ms := u64_sat elapsed_ms\<rparr>)))))"

definition index_roots ::
    "'g index_env \<Rightarrow> config_error + root list \<Rightarrow> uuid option \<Rightarrow> 'e ix \<Rightarrow> nat \<Rightarrow> 'e index_report ix" where
  "index_roots env configured only_root synchronize elapsed_ms =
     index_roots_with_options env configured only_root None synchronize elapsed_ms"

end
