(* ===== verification/Index_Documents.thy ===== *)
theory Index_Documents
  imports Index
begin

text \<open>
  What indexing one document does: the lemmas about \<open>process_document\<close>, first that it keeps the
  database well-formed, then what it does to the abstract index.
\<close>

lemma quiet_now [simp, intro]: "quiet (now env)"
  by (auto simp: quiet_def now_def)

lemma quiet_new_uuid [simp, intro]: "quiet (new_uuid env)"
  by (auto simp: quiet_def new_uuid_def)

lemma quiet_read_stable [simp, intro]: "quiet (read_stable env p)"
  by (auto simp: quiet_def read_stable_def)

lemma quiet_build_segments: "quiet (build_segments env i items)"
  by (induction items) (auto intro!: quiet_andthen)

text \<open>What the segments built from parsed ones are.\<close>

definition segments_from :: "'g index_env \<Rightarrow> uuid \<Rightarrow> parsed_segment list \<Rightarrow> segment list \<Rightarrow> bool" where
  "segments_from env i items segments \<longleftrightarrow>
     map sg_text segments = map ps_text items \<and> map sg_anchor segments = map ps_anchor items
     \<and> map sg_ordinal segments = map ps_ordinal items
     \<and> map sg_segment_type segments = map ps_segment_type items
     \<and> (\<forall>g \<in> set segments. sg_revision_id g = i
          \<and> sg_text_hash g = blake3_hex (ie_blake3 env) (as_bytes (sg_text g)))"

lemma build_segments_result:
  "build_segments env i items w = (Inr segments, w') \<Longrightarrow> segments_from env i items segments"
proof (induction items arbitrary: w w' segments)
  case Nil
  then show ?case by (simp add: ret_def segments_from_def)
next
  case (Cons item items)
  then show ?case
    by (fastforce simp: andthen_def ret_def segments_from_def split: prod.splits sum.splits)
qed

lemma triple_build_segments:
  "triple P (build_segments env i items)
     (\<lambda>r db. P db \<and> (\<forall>segments. r = Inr segments \<longrightarrow> segments_from env i items segments))"
  using quiet_build_segments [of env i items] build_segments_result [of env i items]
  by (auto simp: triple_def quiet_def)

definition stable_at :: "'g index_env \<Rightarrow> path \<Rightarrow> stable_file_bytes \<Rightarrow> bool" where
  "stable_at env p sb \<longleftrightarrow> (\<exists>n. read_stable_file (dv_fs (ie_discovery env n)) (ie_contents env n)
     (dv_fs (ie_discovery env (n + 1))) p DEFAULT_MAX_FILE_SIZE_BYTES = Inr sb)"

lemma triple_read_stable:
  "triple P (read_stable env p) (\<lambda>r db. P db \<and> (\<forall>sb. r = Inr sb \<longrightarrow> stable_at env p sb))"
  by (auto simp: triple_def read_stable_def stable_at_def)

subsection \<open>The stored row\<close>

lemma find_upsert_ok:
  assumes ok: "db_ok db" and f: "find_source_file db root p = existing"
    and s: "sf_root_id source = root" "sf_relative_path source = p"
      "sf_current_revision_id source = Option.bind existing sf_current_revision_id"
      "sf_current_revision_id source \<noteq> None \<longrightarrow> sf_state source = Active"
  shows "upsert_ok db source"
proof -
  have keys: "keys_ok db" using ok by (simp add: db_ok_def)
  have "existing = Some row"
    if "row \<in> set (db_source_files db)" "same_path row source" for row
    using that s f find_source_file_Some [OF keys] by (auto simp: same_path_def)
  moreover have "existing = None" if "\<forall>row \<in> set (db_source_files db). \<not> same_path row source"
    using that s(1,2) f find_source_file_None [of db root p] by (auto simp: same_path_def)
  ultimately show ?thesis using s by (auto simp: upsert_ok_def)
qed

text \<open>After the upsert there is a row the promotion can be about.\<close>

lemma upsert_stored:
  assumes ok: "db_ok db" and f: "find_source_file db root p = existing"
    and s: "sf_root_id source = root" "sf_relative_path source = p"
      "case existing of None \<Rightarrow> True | Some row \<Rightarrow> sf_id source = sf_id row"
    and up: "upsert_source_file db source = Inr db'"
  shows "\<exists>row. stored_as db' row source"
proof (cases existing)
  case None
  with f s have "\<forall>row \<in> set (db_source_files db). \<not> same_path row source"
    by (auto simp: same_path_def find_source_file_None)
  with up have "source\<lparr>sf_size_bytes := stored_size (sf_size_bytes source)\<rparr> \<in> set (db_source_files db')"
    by (auto simp: upsert_source_file_def split: if_splits)
  then show ?thesis by (intro exI) (auto simp: stored_as_def same_identity_def)
next
  case (Some row)
  have keys: "keys_ok db" using ok by (simp add: db_ok_def)
  with f Some have row: "row \<in> set (db_source_files db)" "sf_root_id row = root" "sf_relative_path row = p"
    by (auto simp: find_source_file_Some)
  then have "same_path row source" using s by (simp add: same_path_def)
  moreover from this row up have "db' = db\<lparr>db_source_files := update_where (\<lambda>s. same_path s source)
      (upserted source) (db_source_files db)\<rparr>"
    by (auto simp: upsert_source_file_def split: if_splits)
  ultimately have "upserted source row \<in> set (db_source_files db')"
    using row(1) by (simp add: set_update_where del: if_image_distrib) (metis (mono_tags, lifting) image_eqI)
  then show ?thesis
    using row s Some by (intro exI [of _ "upserted source row"])
      (auto simp: stored_as_def same_identity_def upserted_def)
qed

lemma triple_read_stable_then:
  assumes "\<And>sb. stable_at env p sb \<Longrightarrow> triple P (f sb) Q" "\<And>e db. P db \<Longrightarrow> Q (Inl e) db"
  shows "triple P (andthen (read_stable env p) f) Q"
proof (rule triple_andthen [OF triple_read_stable])
  fix sb
  show "triple (\<lambda>db. P db \<and> (\<forall>sb'. Inr sb = Inr sb' \<longrightarrow> stable_at env p sb')) (f sb) Q"
    using assms(1) [of sb] by (auto simp: triple_def)
qed (use assms(2) in auto)

lemma triple_build_segments_then:
  assumes "\<And>gs. segments_from env i items gs \<Longrightarrow> triple P (f gs) Q" "\<And>e db. P db \<Longrightarrow> Q (Inl e) db"
  shows "triple P (andthen (build_segments env i items) f) Q"
proof (rule triple_andthen [OF triple_build_segments])
  fix gs
  show "triple (\<lambda>db. P db \<and> (\<forall>gs'. Inr gs = Inr gs' \<longrightarrow> segments_from env i items gs')) (f gs) Q"
    using assms(1) [of gs] by (auto simp: triple_def)
qed (use assms(2) in auto)

subsection \<open>The contract of \<open>process_document\<close>\<close>

definition doc_key :: "root \<Rightarrow> discovered_document \<Rightarrow> uuid \<times> path" where
  "doc_key root document = (rt_id root, dd_relative_path document)"

definition installed ::
    "'g index_env \<Rightarrow> root \<Rightarrow> discovered_document \<Rightarrow> parser_registry \<Rightarrow> db \<Rightarrow> db \<Rightarrow> nat \<Rightarrow> bool" where
  "installed env root document registry db0 db n \<longleftrightarrow>
     (\<exists>sb parser parsed v gs. stable_at env (dd_canonical_path document) sb
        \<and> registry_select registry document = Some parser \<and> dp_parse parser (sb_bytes sb) = Inr parsed
        \<and> index_view db = (index_view db0)(doc_key root document \<mapsto> (v, gs))
        \<and> rv_content_hash v = blake3_hex (ie_blake3 env) (sb_bytes sb)
        \<and> rv_parser_id v = dp_parser_id parser \<and> rv_parser_version v = dp_parser_version parser
        \<and> segments_from env (rv_id v) (pd_segments parsed) gs \<and> n = u32_sat (length gs)
        \<and> revision_key v \<notin> revision_key ` set (db_revisions db0)
        \<and> (\<forall>s. find_source_file db0 (rt_id root) (dd_relative_path document) = Some s
              \<longrightarrow> rv_source_file_id v = sf_id s))"

definition up_to_date :: "'g index_env \<Rightarrow> root \<Rightarrow> discovered_document \<Rightarrow> parser_registry \<Rightarrow> db \<Rightarrow> bool" where
  "up_to_date env root document registry db \<longleftrightarrow>
     (\<exists>sb parser v gs. stable_at env (dd_canonical_path document) sb
        \<and> registry_select registry document = Some parser
        \<and> index_view db (doc_key root document) = Some (v, gs)
        \<and> same_as_previous (Some v) (blake3_hex (ie_blake3 env) (sb_bytes sb)) parser)"

definition doc_post ::
    "'g index_env \<Rightarrow> root \<Rightarrow> discovered_document \<Rightarrow> parser_registry \<Rightarrow> db
      \<Rightarrow> index_error + document_outcome \<Rightarrow> db \<Rightarrow> bool" where
  "doc_post env root document registry db0 r db \<longleftrightarrow> db_ok db \<and>
     (case r of
        Inl _ \<Rightarrow> index_view db = index_view db0
      | Inr Unchanged \<Rightarrow> index_view db = index_view db0 \<and> up_to_date env root document registry db0
      | Inr (Addition n) \<Rightarrow> index_view db0 (doc_key root document) = None
          \<and> installed env root document registry db0 db n
      | Inr (Modification n) \<Rightarrow> index_view db0 (doc_key root document) \<noteq> None
          \<and> installed env root document registry db0 db n)"

lemma doc_post_fail: "db_ok db0 \<Longrightarrow> doc_post env root document registry db0 (Inl e) db0"
  by (simp add: doc_post_def)

lemma insert_revision_view:
  assumes ok: "db_ok db" and res: "insert_revision db v = Inr db'"
  shows "index_view db' = index_view db"
proof
  fix key :: "uuid \<times> path"
  obtain root path where key: "key = (root, path)" by fastforce
  have keys: "keys_ok db" "keys_ok db'" and cur: "current_ok db"
    using ok insert_revision_ok [OF ok res] by (simp_all add: db_ok_def)
  from res have db': "db' = db\<lparr>db_revisions := db_revisions db @ [v]\<rparr>"
    and new: "rv_id v \<notin> rv_id ` set (db_revisions db)"
    unfolding insert_revision_def by (auto split: if_splits)
  have "u \<noteq> v" if "s \<in> set (db_source_files db)" "sf_current_revision_id s = Some (rv_id u)" for s u
    using that cur new unfolding current_ok_def by (metis imageI)
  then show "index_view db' key = index_view db key"
    unfolding key
    by (intro index_view_eqI, unfold index_view_Some [OF keys(1)] index_view_Some [OF keys(2)])
      (auto simp: db' segments_of_def)
qed

text \<open>A recorded parse failure leaves the index as it was.\<close>

lemma triple_record_parse_failure:
  assumes ok: "db_ok db0" and f: "find_source_file db0 (rt_id root) (dd_relative_path document) = existing"
  shows "triple (\<lambda>db. db = db0)
    (record_parse_failure env existing root document source_id first t hash parser error)
    (\<lambda>r db. db_ok db \<and> index_view db = index_view db0)"
  unfolding record_parse_failure_def Let_def
proof (rule triple_store_then)
  let ?source = "\<lparr>sf_id = source_id, sf_root_id = rt_id root,
            sf_relative_path = dd_relative_path document,
            sf_canonical_path_hash = path_hash (ie_blake3 env) (dd_canonical_path document),
            sf_file_type = dd_file_type document, sf_size_bytes = dd_size_bytes document,
            sf_modified_at = Some (dd_modified_at document),
            sf_current_revision_id = Option.bind existing sf_current_revision_id,
            sf_state = (if Option.bind existing sf_current_revision_id \<noteq> None then Active else SourceError),
            sf_first_seen_at = first, sf_last_seen_at = t\<rparr>"
  fix db1 assume up: "upsert_source_file db0 ?source = Inr db1"
  have "upsert_ok db0 ?source" by (rule find_upsert_ok [OF ok f]) simp_all
  with ok up have db1: "db_ok db1" "index_view db1 = index_view db0"
    using upsert_source_file_ok upsert_view by blast+
  show "triple (\<lambda>db. db = db1) (andthen (new_uuid env) (\<lambda>revision_id.
           store (\<lambda>db. insert_revision db
             \<lparr>rv_id = revision_id, rv_source_file_id = source_id, rv_content_hash = hash,
              rv_parser_id = dp_parser_id parser, rv_parser_version = dp_parser_version parser,
              rv_extracted_text_hash = None, rv_observed_at = t, rv_indexed_at = None,
              rv_status = RevisionFailed, rv_error_code = Some (parse_error_code error),
              rv_error_message = Some (lit ''parser failed without promoting revision'')\<rparr>)))
      (\<lambda>r db. db_ok db \<and> index_view db = index_view db0)"
    by (intro triple_quiet_then quiet_new_uuid triple_store)
      (use db1 insert_revision_ok insert_revision_view in \<open>auto simp del: not_None_eq\<close>)
qed (use ok in simp)

text \<open>The promotion of a freshly parsed document.\<close>

lemma triple_promote:
  assumes ok: "db_ok db0" and f: "find_source_file db0 (rt_id root) (dd_relative_path document) = existing"
    and sid: "case existing of None \<Rightarrow> True | Some row \<Rightarrow> source_id = sf_id row"
    and prev: "previous = Option.bind (Option.bind existing sf_current_revision_id) (get_revision db0)"
    and sb: "stable_at env (dd_canonical_path document) sb"
    and sel: "registry_select registry document = Some parser" "dp_parse parser (sb_bytes sb) = Inr parsed"
  shows "triple (\<lambda>db. db = db0)
    (promote_document env root document existing source_id previous t sb parser parsed)
    (doc_post env root document registry db0)"
  unfolding promote_document_def Let_def
proof (intro triple_quiet_then [OF quiet_new_uuid] triple_build_segments_then, goal_cases)
  case (1 i gs)
  let ?v = "indexed_revision env source_id i t sb parser parsed"
  let ?source = "indexed_source env root document existing source_id t sb"
  note rows = indexed_revision_def indexed_source_def
  show ?case
  proof (rule triple_store_then, goal_cases)
    case up: (2 db1)
    have uok: "upsert_ok db0 ?source" by (rule find_upsert_ok [OF ok f]) (simp_all add: rows)
    have db1: "db_ok db1" "index_view db1 = index_view db0"
      using upsert_source_file_ok [OF ok uok up] upsert_view [OF ok uok up] by simp_all
    obtain row where row: "stored_as db1 row ?source"
      using upsert_stored [OF ok f _ _ _ up] sid by (auto simp: rows split: option.splits)
    have gi: "\<forall>g \<in> set gs. sg_revision_id g = rv_id ?v" using 1 by (simp add: segments_from_def rows)
    show ?case
    proof (rule triple_store_then, goal_cases)
      case pr: (2 db2)
      have keys1: "keys_ok db1" using db1(1) by (simp add: db_ok_def)
      from pr promote_revision_Inr [OF keys1 gi]
      have p: "promotable db1 ?v gs" "db2 = promoted_db db1 ?source ?v gs" by blast+
      have ok2: "db_ok db2" by (rule promote_revision_ok [OF db1(1) row _ _ gi pr]) (simp_all add: rows)
      then have view: "index_view db2 = (index_view db0)(doc_key root document \<mapsto> (?v, gs))"
        using promoted_view [OF db1(1) _ row p(1) gi] p(2) db1(2) by (simp add: doc_key_def rows)
      have "db_revisions db1 = db_revisions db0"
        using up by (auto simp: upsert_source_file_def split: if_splits)
      then have "revision_key ?v \<notin> revision_key ` set (db_revisions db0)"
        using p(1) by (simp add: promotable_def)
      moreover have "\<forall>s. existing = Some s \<longrightarrow> source_id = sf_id s"
        using sid by (auto split: option.splits)
      ultimately have "installed env root document registry db0 db2 (u32_sat (length gs))"
        unfolding installed_def using sb sel 1 view f
        by (intro exI [of _ sb] exI [of _ parser] exI [of _ parsed] exI [of _ ?v] exI [of _ gs]) (simp add: rows)
      moreover have "index_view db0 (doc_key root document) = None \<longleftrightarrow> previous = None"
        by (auto simp: index_view_def doc_key_def f prev bind_eq_None_conv)
      ultimately show ?case
        using ok2 by (intro triple_ret) (simp add: doc_post_def)
    qed (use db1 in \<open>simp add: doc_post_def\<close>)
  qed (simp add: ok doc_post_fail)
qed (simp_all add: ok doc_post_fail)

lemma triple_parsed:
  assumes ok: "db_ok db0" and f: "find_source_file db0 (rt_id root) (dd_relative_path document) = existing"
    and err: "Q = doc_post env root document registry db0"
  shows "triple (\<lambda>db. db = db0)
    (andthen (record_parse_failure env existing root document source_id first t hash parser error)
           (\<lambda>_. fail e)) Q"
  unfolding err
  by (rule triple_andthen [OF triple_record_parse_failure [OF ok f]])
    (auto simp: doc_post_def intro!: triple_fail)

lemma triple_unchanged:
  assumes ok: "db_ok db0" and f: "find_source_file db0 (rt_id root) (dd_relative_path document) = existing"
    and prev: "previous = Option.bind (Option.bind existing sf_current_revision_id) (get_revision db0)"
    and sb: "stable_at env (dd_canonical_path document) sb"
    and sel: "registry_select registry document = Some parser"
    and same: "same_as_previous previous (blake3_hex (ie_blake3 env) (sb_bytes sb)) parser"
    and row: "row = (the existing)\<lparr>sf_size_bytes := n, sf_modified_at := m, sf_last_seen_at := t,
      sf_state := Active, sf_canonical_path_hash := h\<rparr>"
  shows "triple (\<lambda>db. db = db0)
    (andthen (store (\<lambda>db. upsert_source_file db row)) (\<lambda>_. ret Unchanged))
    (doc_post env root document registry db0)"
proof (rule triple_store_then)
  fix db1 assume up: "upsert_source_file db0 row = Inr db1"
  have keys: "keys_ok db0" using ok by (simp add: db_ok_def)
  from same prev obtain s r v where s: "existing = Some s" "sf_current_revision_id s = Some r"
    "get_revision db0 r = Some v" "previous = Some v"
    by (auto simp: same_as_previous_def bind_eq_Some_conv split: option.splits)
  from f s(1) keys have sp: "sf_root_id s = rt_id root" "sf_relative_path s = dd_relative_path document"
    by (auto simp: find_source_file_Some)
  have uok: "upsert_ok db0 row"
    by (rule find_upsert_ok [OF ok f]) (use s sp in \<open>simp_all add: row\<close>)
  have "index_view db0 (doc_key root document) = Some (v, segments_of db0 r)"
    using s f by (simp add: index_view_def doc_key_def)
  then have "up_to_date env root document registry db0"
    unfolding up_to_date_def using sb sel same s(4) by (intro exI conjI) simp_all
  then show "triple (\<lambda>db. db = db1) (ret Unchanged) (doc_post env root document registry db0)"
    using upsert_source_file_ok [OF ok uok up] upsert_view [OF ok uok up]
    by (intro triple_ret) (simp add: doc_post_def)
qed (use ok in \<open>simp add: doc_post_def\<close>)

lemma triple_source_id_then:
  assumes "\<And>i. (case existing of None \<Rightarrow> True | Some row \<Rightarrow> i = sf_id row) \<Longrightarrow> triple P (f i) Q"
    and "\<And>e db. P db \<Longrightarrow> Q (Inl e) db"
  shows "triple P (andthen (case existing of None \<Rightarrow> new_uuid env | Some s \<Rightarrow> ret (sf_id s)) f) Q"
proof (cases existing)
  case None
  with assms show ?thesis by (auto intro!: triple_quiet_then [OF quiet_new_uuid])
next
  case (Some row)
  have "andthen (ret (sf_id row)) f = f (sf_id row)" by (simp add: andthen_def ret_def fun_eq_iff)
  with Some assms show ?thesis by simp
qed

lemma triple_process_document:
  assumes ok: "db_ok db0"
  shows "triple (\<lambda>db. db = db0) (process_document env root document registry)
    (doc_post env root document registry db0)"
  unfolding process_document_def Let_def
proof (intro triple_quiet_then [OF quiet_now] triple_reading_then triple_source_id_then
    triple_read_stable_then, goal_cases)
  case (1 t i sb)
  let ?previous = "Option.bind (Option.bind (find_source_file db0 (rt_id root) (dd_relative_path document))
      sf_current_revision_id) (get_revision db0)"
  show ?case
  proof (cases "registry_select registry document")
    case None
    with ok show ?thesis by (auto intro!: triple_fail simp: doc_post_fail)
  next
    case sel: (Some parser)
    show ?thesis
    proof (cases "same_as_previous ?previous (blake3_hex (ie_blake3 env) (sb_bytes sb)) parser")
      case True
      with sel triple_unchanged [OF ok refl refl 1(2) sel True refl] show ?thesis by simp
    next
      case new: False
      show ?thesis
      proof (cases "dp_parse parser (sb_bytes sb)")
        case (Inl error)
        with sel new show ?thesis by (simp add: triple_parsed [OF ok refl refl])
      next
        case (Inr parsed)
        with sel new triple_promote [OF ok refl 1(1) refl 1(2) sel Inr] show ?thesis by simp
      qed
    qed
  qed
qed (simp_all add: doc_post_fail ok)

end
