(* ===== verification/Index_Roots.thy ===== *)
theory Index_Roots
  imports Index_Documents
begin

text \<open>
  What indexing a root does, in full or from a change list: the database stays well-formed, other
  roots are not touched, a finished scan leaves exactly the files it saw, and the counters account
  for every document.
\<close>

subsection \<open>Operations that leave the abstract index alone\<close>

lemma index_view_cong:
  "db_source_files db' = db_source_files db \<Longrightarrow> db_revisions db' = db_revisions db
    \<Longrightarrow> db_segments db' = db_segments db \<Longrightarrow> index_view db' = index_view db"
  by (simp add: index_view_def find_source_file_def get_revision_def segments_of_def fun_eq_iff)

lemma upsert_root_view: "upsert_root db root = Inr db' \<Longrightarrow> index_view db' = index_view db"
  by (rule index_view_cong) (auto simp: upsert_root_def split: if_splits)

lemma insert_scan_run_view: "insert_scan_run db run = Inr db' \<Longrightarrow> index_view db' = index_view db"
  by (rule index_view_cong) (auto simp: insert_scan_run_def split: if_splits)

lemma upsert_root_git_state_view:
  "upsert_root_git_state db s = Inr db' \<Longrightarrow> index_view db' = index_view db"
  by (rule index_view_cong) (auto simp: upsert_root_git_state_def split: if_splits)

text \<open>The invariant of a run: well-formed, and unchanged outside the keys \<open>K\<close>.\<close>

definition run_inv :: "(uuid \<times> path) set \<Rightarrow> db \<Rightarrow> db \<Rightarrow> bool" where
  "run_inv K db0 db \<longleftrightarrow> db_ok db \<and> (\<forall>key. key \<notin> K \<longrightarrow> index_view db key = index_view db0 key)"

lemma run_inv_refl: "db_ok db \<Longrightarrow> run_inv K db db"
  by (simp add: run_inv_def)

lemma run_inv_view: "run_inv K db0 db \<Longrightarrow> db_ok db' \<Longrightarrow> index_view db' = index_view db \<Longrightarrow> run_inv K db0 db'"
  by (simp add: run_inv_def)

lemma run_inv_mono: "run_inv K db0 db \<Longrightarrow> K \<subseteq> L \<Longrightarrow> run_inv L db0 db"
  by (auto simp: run_inv_def)

lemma doc_post_run_inv:
  "run_inv K db0 db \<Longrightarrow> doc_post env root document registry db r db'
    \<Longrightarrow> run_inv (insert (doc_key root document) K) db0 db'"
  by (auto simp: run_inv_def doc_post_def installed_def split: sum.splits document_outcome.splits)

subsection \<open>The documents of a scan\<close>

definition total :: "counters \<Rightarrow> nat" where
  "total c = ct_additions c + ct_modifications c + ct_unchanged c + ct_failures c"

lemma total_count_outcome [simp]: "total (count_outcome r c) = Suc (total c)"
  by (cases "(r, c)" rule: count_outcome.cases) (simp_all add: total_def)

lemma count_outcome_deletions [simp]: "ct_deletions (count_outcome r c) = ct_deletions c"
  by (cases "(r, c)" rule: count_outcome.cases) simp_all

text \<open>The index entry of a document is one made from a stable read of it by the parser selected for it.\<close>

definition indexed_from ::
    "'g index_env \<Rightarrow> parser_registry \<Rightarrow> discovered_document \<Rightarrow> revision \<Rightarrow> bool" where
  "indexed_from env registry d v \<longleftrightarrow> (\<exists>sb parser. stable_at env (dd_canonical_path d) sb
     \<and> registry_select registry d = Some parser
     \<and> rv_content_hash v = blake3_hex (ie_blake3 env) (sb_bytes sb)
     \<and> rv_parser_id v = dp_parser_id parser \<and> rv_parser_version v = dp_parser_version parser)"

definition covered ::
    "'g index_env \<Rightarrow> root \<Rightarrow> parser_registry \<Rightarrow> discovered_document list \<Rightarrow> db \<Rightarrow> uuid \<times> path \<Rightarrow> bool" where
  "covered env root registry documents db key \<longleftrightarrow>
     (\<exists>d \<in> set documents. doc_key root d = key
        \<and> (\<exists>v gs. index_view db key = Some (v, gs) \<and> indexed_from env registry d v))"

lemma doc_post_covered:
  assumes post: "doc_post env root document registry db0 r db" and d: "document \<in> set documents"
  shows "r = Inr x \<Longrightarrow> covered env root registry documents db (doc_key root document)"
    and "covered env root registry documents db0 key \<Longrightarrow> covered env root registry documents db key"
proof -
  show now: "covered env root registry documents db (doc_key root document)" if "r = Inr x" for x
    using post that d unfolding covered_def
    by (cases x) (auto simp: doc_post_def installed_def up_to_date_def indexed_from_def
        same_as_previous_def intro!: bexI [of _ document])
  show "covered env root registry documents db key" if c: "covered env root registry documents db0 key"
  proof (cases "\<exists>x. r = Inr x \<and> key = doc_key root document")
    case True
    then show ?thesis using now by blast
  next
    case False
    with post have "index_view db key = index_view db0 key"
      by (auto simp: doc_post_def installed_def split: sum.splits document_outcome.splits)
    with c show ?thesis by (simp add: covered_def)
  qed
qed

text \<open>The state of the loop over the documents: \<open>todo\<close> are still to come.\<close>

definition scan_inv ::
    "'g index_env \<Rightarrow> root \<Rightarrow> parser_registry \<Rightarrow> discovered_document list \<Rightarrow> db
      \<Rightarrow> discovered_document list \<Rightarrow> counters \<Rightarrow> db \<Rightarrow> bool" where
  "scan_inv env root registry documents db0 todo c db \<longleftrightarrow>
     run_inv {key. fst key = rt_id root} db0 db \<and> set todo \<subseteq> set documents
     \<and> total c + length todo = length documents
     \<and> (ct_failures c = 0 \<longrightarrow>
          (\<forall>d \<in> set documents. d \<in> set todo \<or> covered env root registry documents db (doc_key root d)))"

lemma count_outcome_failures:
  "ct_failures (count_outcome r c) = (case r of Inl _ \<Rightarrow> Suc (ct_failures c) | Inr _ \<Rightarrow> ct_failures c)"
  by (cases "(r, c)" rule: count_outcome.cases) simp_all

lemma scan_inv_step:
  assumes inv: "scan_inv env root registry documents db0 (d # ds) c db1"
    and post: "doc_post env root d registry db1 r db"
  shows "scan_inv env root registry documents db0 ds (count_outcome r c) db"
proof -
  have d: "d \<in> set documents" using inv by (simp add: scan_inv_def)
  from inv have "run_inv {key. fst key = rt_id root} db0 db1" by (simp add: scan_inv_def)
  from doc_post_run_inv [OF this post] have "run_inv {key. fst key = rt_id root} db0 db"
    by (rule run_inv_mono) (simp add: doc_key_def)
  moreover have "\<forall>e. covered env root registry documents db1 (doc_key root e)
      \<longrightarrow> covered env root registry documents db (doc_key root e)"
    using doc_post_covered(2) [OF post d] by blast
  moreover have "covered env root registry documents db (doc_key root d)" if "r = Inr x" for x
    by (rule doc_post_covered(1) [OF post d that])
  ultimately show ?thesis
    using inv by (cases r) (auto simp: scan_inv_def count_outcome_failures simp del: count_outcome.simps)
qed

lemma triple_index_documents:
  "triple (scan_inv env root registry documents db0 todo c)
     (index_documents env root registry todo c)
     (\<lambda>r db. \<exists>c'. r = Inr c' \<and> scan_inv env root registry documents db0 [] c' db)"
proof (induction todo arbitrary: c)
  case Nil
  then show ?case by (auto intro!: triple_ret)
next
  case (Cons d ds)
  have one: "triple (scan_inv env root registry documents db0 (d # ds) c)
    (attempt (process_document env root d registry))
    (\<lambda>r db. \<exists>x. r = Inr x \<and> scan_inv env root registry documents db0 ds (count_outcome x c) db)"
  proof (rule triple_each, rule triple_attempt)
    fix db1 assume inv: "scan_inv env root registry documents db0 (d # ds) c db1"
    then have "db_ok db1" by (simp add: scan_inv_def run_inv_def)
    from triple_process_document [OF this]
    show "triple (\<lambda>db. db = db1) (process_document env root d registry)
      (\<lambda>r db. \<exists>x. Inr r = Inr x \<and> scan_inv env root registry documents db0 ds (count_outcome x c) db)"
      by (rule triple_weaken) (use scan_inv_step [OF inv] in blast)+
  qed
  show ?case
    unfolding index_documents.simps
    by (rule triple_andthen [OF one]) (auto intro: triple_weaken [OF Cons.IH])
qed

subsection \<open>Deleting what was not seen\<close>

lemma stored_self: "s \<in> set (db_source_files db) \<Longrightarrow> stored_as db s s"
  by (simp add: stored_as_def same_identity_def)

lemma mark_source_deleted_others:
  "s' \<in> set (db_source_files db) \<Longrightarrow> sf_id s' \<noteq> sf_id s
    \<Longrightarrow> s' \<in> set (db_source_files (mark_source_deleted db s t))"
  by (force simp: mark_source_deleted_def Let_def set_update_where)

lemma delete_unseen_spec:
  assumes "db_ok db" "set sources \<subseteq> set (db_source_files db)" "distinct (map sf_id sources)"
  shows "db_ok (delete_unseen documents t sources db) \<and>
    (\<forall>key. index_view (delete_unseen documents t sources db) key =
      (if \<exists>s \<in> set sources. \<not> was_seen documents (sf_relative_path s)
            \<and> key = (sf_root_id s, sf_relative_path s) then None else index_view db key))"
  using assms
proof (induction sources arbitrary: db)
  case Nil
  then show ?case by (simp add: delete_unseen_def)
next
  case (Cons s ss)
  show ?case
  proof (cases "was_seen documents (sf_relative_path s)")
    case True
    with Cons show ?thesis by (simp add: delete_unseen_def)
  next
    case False
    let ?db = "mark_source_deleted db s t"
    have st: "stored_as db s s" using Cons.prems(2) by (simp add: stored_self)
    have "db_ok ?db" by (rule mark_source_deleted_ok [OF Cons.prems(1) st])
    moreover have "set ss \<subseteq> set (db_source_files ?db)"
      using Cons.prems(2,3) mark_source_deleted_others [of _ db s t]
      by (simp add: subset_iff) (metis imageI)
    ultimately have IH: "db_ok (delete_unseen documents t ss ?db) \<and>
      (\<forall>key. index_view (delete_unseen documents t ss ?db) key =
        (if \<exists>s \<in> set ss. \<not> was_seen documents (sf_relative_path s)
            \<and> key = (sf_root_id s, sf_relative_path s) then None else index_view ?db key))"
      using Cons.IH Cons.prems(3) by simp
    have "delete_unseen documents t (s # ss) db = delete_unseen documents t ss ?db"
      using False by (simp add: delete_unseen_def)
    with IH show ?thesis
      using False by (simp add: deleted_view [OF Cons.prems(1) st]) fastforce
  qed
qed

subsection \<open>A full scan of a root\<close>

abbreviation root_keys :: "root \<Rightarrow> (uuid \<times> path) set" where
  "root_keys root \<equiv> {key. fst key = rt_id root}"

text \<open>What a completed scan leaves: only files it saw, all of them if nothing failed.\<close>

definition scanned ::
    "'g index_env \<Rightarrow> root \<Rightarrow> parser_registry \<Rightarrow> discovered_document list \<Rightarrow> root_index_report \<Rightarrow> db \<Rightarrow> bool" where
  "scanned env root registry documents report db \<longleftrightarrow>
     (\<forall>p. index_view db (rt_id root, p) \<noteq> None \<longrightarrow> was_seen documents p)
     \<and> (ir_failures report = 0 \<longrightarrow>
          (\<forall>d \<in> set documents. covered env root registry documents db (doc_key root d)))
     \<and> ir_files_discovered report = u32_sat (length documents)
     \<and> ir_additions report + ir_modifications report + ir_unchanged report + ir_failures report
         = length documents"

lemma covered_cong:
  "index_view db key = index_view db' key
    \<Longrightarrow> covered env root registry documents db key = covered env root registry documents db' key"
  by (simp add: covered_def)

lemma active_of_view:
  assumes "db_ok db" "index_view db (root, p) \<noteq> None"
  shows "\<exists>s \<in> set (list_active_source_files db root). sf_root_id s = root \<and> sf_relative_path s = p"
proof -
  have keys: "keys_ok db" using assms(1) by (simp add: db_ok_def)
  from assms(2) obtain v gs where "index_view db (root, p) = Some (v, gs)" by auto
  then obtain s where s: "s \<in> set (db_source_files db)" "sf_root_id s = root" "sf_relative_path s = p"
      "sf_current_revision_id s = Some (rv_id v)"
    unfolding index_view_Some [OF keys] by blast
  then have "sf_state s = Active" using assms(1) by (auto simp: db_ok_def current_ok_def)
  with s show ?thesis by (auto simp: list_active_source_files_def)
qed

lemma list_active_source_files_facts:
  assumes "db_ok db"
  shows "set (list_active_source_files db root) \<subseteq> set (db_source_files db)"
    and "distinct (map sf_id (list_active_source_files db root))"
    and "s \<in> set (list_active_source_files db root) \<Longrightarrow> sf_root_id s = root"
proof -
  have "distinct (map sf_id (db_source_files db))" using assms by (simp add: db_ok_def keys_ok_def)
  then show "distinct (map sf_id (list_active_source_files db root))"
    by (simp add: list_active_source_files_def distinct_map inj_on_def)
qed (auto simp: list_active_source_files_def)

lemma delete_unseen_scanned:
  assumes ok: "db_ok db"
    and res: "db' = delete_unseen documents t (list_active_source_files db (rt_id root)) db"
  shows "db_ok db'"
    and "key \<notin> root_keys root \<Longrightarrow> index_view db' key = index_view db key"
    and "index_view db' (rt_id root, p) =
      (if was_seen documents p then index_view db (rt_id root, p) else None)"
proof -
  let ?active = "list_active_source_files db (rt_id root)"
  note facts = list_active_source_files_facts [OF ok, where root = "rt_id root"]
  note spec = delete_unseen_spec [OF ok facts(1,2), of documents t, folded res]
  show "db_ok db'" using spec by blast
  show "index_view db' key = index_view db key" if "key \<notin> root_keys root"
  proof -
    have "\<not> (\<exists>s \<in> set ?active. \<not> was_seen documents (sf_relative_path s)
        \<and> key = (sf_root_id s, sf_relative_path s))"
      using that facts(3) by fastforce
    then show ?thesis by (rule trans [OF conjunct2 [OF spec, rule_format] if_not_P])
  qed
  show "index_view db' (rt_id root, p) =
      (if was_seen documents p then index_view db (rt_id root, p) else None)"
  proof (cases "was_seen documents p")
    case True
    with spec show ?thesis by auto
  next
    case False
    show ?thesis
    proof (cases "index_view db (rt_id root, p) = None")
      case True
      with spec show ?thesis by auto
    next
      case view: False
      from active_of_view [OF ok view] False
      have "\<exists>s \<in> set ?active. \<not> was_seen documents (sf_relative_path s)
        \<and> (rt_id root, p) = (sf_root_id s, sf_relative_path s)" by auto
      then have "index_view db' (rt_id root, p) = None"
        by (rule trans [OF conjunct2 [OF spec, rule_format] if_P])
      with False show ?thesis by simp
    qed
  qed
qed

lemma triple_full_body:
  assumes ok: "db_ok db0"
    and report: "report = full_report root requested_base resolved_base current_head fallback_reason"
  shows "triple (\<lambda>db. run_inv (root_keys root) db0 db)
     (andthen (index_documents env root registry documents no_counts) (\<lambda>c.
          andthen (reading (\<lambda>db. list_active_source_files db (rt_id root))) (\<lambda>active.
          andthen (now env) (\<lambda>deleted_at.
          andthen (store (\<lambda>db. Inr (delete_unseen documents deleted_at active db))) (\<lambda>_.
          let c = c\<lparr>ct_deletions := length (filter (\<lambda>s. \<not> was_seen documents (sf_relative_path s)) active)\<rparr> in
          andthen (now env) (\<lambda>completed_at.
          andthen (new_uuid env) (\<lambda>i.
          andthen (store (\<lambda>db. insert_scan_run db (scan_run_of i root started_at completed_at
                     ScanCompleted c skipped None))) (\<lambda>_.
            ret (report (u32_sat (length documents)) skipped c False None)))))))))
     (\<lambda>r db. run_inv (root_keys root) db0 db
        \<and> (\<forall>rep. r = Inr rep \<longrightarrow> \<not> ir_failed rep \<and> scanned env root registry documents rep db))"
    (is "triple _ _ ?Q")
proof (rule triple_andthen)
  show "triple (\<lambda>db. run_inv (root_keys root) db0 db) (index_documents env root registry documents no_counts)
      (\<lambda>r db. \<exists>c'. r = Inr c' \<and> scan_inv env root registry documents db0 [] c' db)"
    by (rule triple_weaken [OF triple_index_documents])
      (auto simp: scan_inv_def total_def no_counts_def)
next
  fix c :: counters
  let ?c = "\<lambda>active. c\<lparr>ct_deletions :=
    length (filter (\<lambda>s. \<not> was_seen documents (sf_relative_path s)) active)\<rparr>"
  show "triple (\<lambda>db. \<exists>c'. Inr c = Inr c' \<and> scan_inv env root registry documents db0 [] c' db)
     (andthen (reading (\<lambda>db. list_active_source_files db (rt_id root))) (\<lambda>active.
          andthen (now env) (\<lambda>deleted_at.
          andthen (store (\<lambda>db. Inr (delete_unseen documents deleted_at active db))) (\<lambda>_.
          let c = ?c active in
          andthen (now env) (\<lambda>completed_at.
          andthen (new_uuid env) (\<lambda>i.
          andthen (store (\<lambda>db. insert_scan_run db (scan_run_of i root started_at completed_at
                     ScanCompleted c skipped None))) (\<lambda>_.
            ret (report (u32_sat (length documents)) skipped c False None)))))))) ?Q"
    unfolding Let_def
  proof (rule triple_each, rule triple_reading_then, rule triple_quiet_then [OF quiet_now],
      rule triple_store_then, goal_cases)
    case (1 db1 t e)
    then show ?case by simp
  next
    case (2 db1 t db2)
    then have inv: "scan_inv env root registry documents db0 [] c db1"
      and res: "db2 = delete_unseen documents t (list_active_source_files db1 (rt_id root)) db1" by auto
    then have run: "run_inv (root_keys root) db0 db1" and ok1: "db_ok db1"
      by (simp_all add: scan_inv_def run_inv_def)
    note del = delete_unseen_scanned [OF ok1 res]
    let ?rep = "report (u32_sat (length documents)) skipped
      (?c (list_active_source_files db1 (rt_id root))) False None"
    have inv2: "run_inv (root_keys root) db0 db2" using run del(1,2) by (simp add: run_inv_def)
    have "covered env root registry documents db2 (doc_key root d)
        = covered env root registry documents db1 (doc_key root d)" if "d \<in> set documents" for d
      using that by (intro covered_cong) (auto simp: del(3) doc_key_def was_seen_def)
    then have "scanned env root registry documents ?rep db2"
      using inv del(3) by (auto simp: scanned_def scan_inv_def report full_report_def total_def)
    moreover have "scanned env root registry documents ?rep db3" "run_inv (root_keys root) db0 db3"
      if "insert_scan_run db2 run = Inr db3" for run db3
      using calculation insert_scan_run_view [OF that] insert_scan_run_ok [OF del(1) that] inv2
      by (simp_all add: scanned_def covered_def run_inv_def)
    ultimately show ?case
      using inv2
      by (intro triple_quiet_then [OF quiet_now] triple_quiet_then [OF quiet_new_uuid] triple_store_then
          triple_ret) (auto simp: report full_report_def)
  next
    case (3 db1 e db)
    then show ?case by (simp add: scan_inv_def)
  qed
qed simp

definition full_post ::
    "'g index_env \<Rightarrow> root \<Rightarrow> parser_registry \<Rightarrow> db \<Rightarrow> index_error + root_index_report \<Rightarrow> db \<Rightarrow> bool" where
  "full_post env root registry db0 r db \<longleftrightarrow> run_inv (root_keys root) db0 db
     \<and> (\<forall>report. r = Inr report \<longrightarrow>
          (if ir_failed report then index_view db = index_view db0
           else \<exists>n discovery. discover_root (ie_discovery env n) root default_discovery_options = Inr discovery
             \<and> scanned env root registry (dr_documents discovery) report db))"

lemma triple_index_one_root_full:
  assumes ok: "db_ok db0"
  shows "triple (\<lambda>db. db = db0)
    (index_one_root_full env root registry requested_base resolved_base current_head fallback_reason)
    (full_post env root registry db0)"
  unfolding index_one_root_full_def Let_def
proof (rule triple_quiet_then [OF quiet_now], rule triple_store_then, goal_cases)
  case (2 t db1)
  then have db1: "db_ok db1" "index_view db1 = index_view db0"
    using upsert_root_ok [OF ok] upsert_root_view by blast+
  show ?case
  proof (rule triple_observe_then, goal_cases)
    case (1 n)
    show ?case
    proof (cases "discover_root (ie_discovery env n) root default_discovery_options")
      case (Inl error)
      have "full_post env root registry db0 (Inl e) db1" for e
        using db1 by (simp add: full_post_def run_inv_def)
      moreover have "full_post env root registry db0 r db2"
        if "insert_scan_run db1 run = Inr db2" "\<forall>report. r = Inr report \<longrightarrow> ir_failed report" for r db2 run
        using insert_scan_run_view [OF that(1)] insert_scan_run_ok [OF db1(1) that(1)] db1 that(2)
        by (simp add: full_post_def run_inv_def)
      ultimately show ?thesis
        unfolding Inl sum.case
        by (intro triple_quiet_then [OF quiet_now] triple_quiet_then [OF quiet_new_uuid] triple_store_then
            triple_ret) (auto simp: full_report_def)
    next
      case (Inr discovery)
      show ?thesis
        unfolding Inr sum.case
        by (rule triple_weaken [OF triple_full_body [OF ok refl, unfolded Let_def]])
          (use Inr db1 in \<open>auto simp: full_post_def run_inv_def intro!: exI [of _ n]\<close>)
    qed
  qed
qed (simp_all add: full_post_def run_inv_refl ok)

subsection \<open>A run from a change list, and a run over several roots\<close>

text \<open>\<open>m\<close> keeps the database well-formed and changes the abstract index at most at the keys \<open>K\<close>.\<close>

definition keeps :: "(uuid \<times> path) set \<Rightarrow> 'a ix \<Rightarrow> bool" where
  "keeps K m \<longleftrightarrow> (\<forall>db0. triple (run_inv K db0) m (\<lambda>_. run_inv K db0))"

lemma keeps_use:
  "keeps K m \<Longrightarrow> db_ok (wd_db w) \<Longrightarrow> m w = (r, w')
    \<Longrightarrow> db_ok (wd_db w') \<and> (\<forall>key. key \<notin> K \<longrightarrow> index_view (wd_db w') key = index_view (wd_db w) key)"
  using triple_use [of "run_inv K (wd_db w)" m "\<lambda>_. run_inv K (wd_db w)" w r w'] run_inv_refl [of "wd_db w" K]
  unfolding keeps_def run_inv_def by blast

lemma keeps_andthen: "keeps K m \<Longrightarrow> (\<And>a. keeps K (f a)) \<Longrightarrow> keeps K (andthen m f)"
  unfolding keeps_def by (blast intro: triple_andthen)

lemma keeps_attempt: "keeps K m \<Longrightarrow> keeps K (attempt m)"
  by (auto simp: keeps_def intro: triple_attempt)

lemma keeps_quiet: "quiet m \<Longrightarrow> keeps K m"
  by (auto simp: keeps_def intro: triple_quiet)

lemma keeps_store:
  assumes "\<And>db db'. db_ok db \<Longrightarrow> f db = Inr db' \<Longrightarrow> db_ok db' \<and> index_view db' = index_view db"
  shows "keeps K (store f)"
  unfolding keeps_def
  by (intro allI triple_store) (use assms in \<open>auto simp: run_inv_def\<close>)

lemma keeps_each:
  assumes "\<And>db0. db_ok db0 \<Longrightarrow>
    triple (\<lambda>db. db = db0) m (\<lambda>r db. db_ok db \<and> (\<forall>key. key \<notin> K \<longrightarrow> index_view db key = index_view db0 key))"
  shows "keeps K m"
  unfolding keeps_def
proof (rule allI, rule triple_each)
  fix db0 db1 assume inv: "run_inv K db0 db1"
  then have "db_ok db1" by (simp add: run_inv_def)
  from assms [OF this] show "triple (\<lambda>db. db = db1) m (\<lambda>_. run_inv K db0)"
    by (rule triple_weaken) (use inv in \<open>auto simp: run_inv_def\<close>)
qed

lemma keeps_observe:
  "(\<And>n. keeps K (f (g n))) \<Longrightarrow> keeps K (andthen (\<lambda>w. (Inr (g (wd_tick w)), w)) f)"
  unfolding keeps_def by (blast intro: triple_observe_then)

lemma keeps_upsert_root: "keeps K (store (\<lambda>db. upsert_root db root))"
  by (rule keeps_store) (simp add: upsert_root_ok upsert_root_view)

lemma keeps_insert_scan_run: "keeps K (store (\<lambda>db. insert_scan_run db run))"
  by (rule keeps_store) (simp add: insert_scan_run_ok insert_scan_run_view)

lemma keeps_upsert_root_git_state: "keeps K (store (\<lambda>db. upsert_root_git_state db s))"
  by (rule keeps_store) (simp add: upsert_root_git_state_ok upsert_root_git_state_view)

lemmas keeps_intros = keeps_andthen keeps_attempt keeps_upsert_root keeps_insert_scan_run
  keeps_upsert_root_git_state keeps_quiet [OF quiet_now] keeps_quiet [OF quiet_new_uuid]
  keeps_quiet [OF quiet_basic(1)] keeps_quiet [OF quiet_basic(2)] keeps_quiet [OF quiet_basic(3)]
  keeps_quiet [OF quiet_basic(4)]

lemma keeps_process_document:
  assumes "doc_key root d \<in> K"
  shows "keeps K (process_document env root d registry)"
proof (rule keeps_each)
  fix db0 assume ok: "db_ok db0"
  from triple_process_document [OF ok]
  show "triple (\<lambda>db. db = db0) (process_document env root d registry)
    (\<lambda>r db. db_ok db \<and> (\<forall>key. key \<notin> K \<longrightarrow> index_view db key = index_view db0 key))"
    by (rule triple_weaken)
      (use assms in \<open>auto simp: doc_post_def installed_def split: sum.splits document_outcome.splits\<close>)
qed

lemma keeps_index_one_root_full:
  assumes "root_keys root \<subseteq> K"
  shows "keeps K (index_one_root_full env root registry a b c d)"
proof (rule keeps_each)
  fix db0 assume ok: "db_ok db0"
  from triple_index_one_root_full [OF ok]
  show "triple (\<lambda>db. db = db0) (index_one_root_full env root registry a b c d)
    (\<lambda>r db. db_ok db \<and> (\<forall>key. key \<notin> K \<longrightarrow> index_view db key = index_view db0 key))"
    by (rule triple_weaken) (use assms in \<open>auto simp: full_post_def run_inv_def\<close>)
qed

text \<open>Deleting the file at a path, when there is one.\<close>

lemma triple_delete_change:
  assumes ok: "db_ok db0"
  shows "triple (\<lambda>db. db = db0)
    (andthen (reading (\<lambda>db. find_source_file db (rt_id root) p)) (\<lambda>source.
        case source of
          None \<Rightarrow> ret c
        | Some source \<Rightarrow>
            andthen (now env) (\<lambda>t.
            andthen (store (\<lambda>db. Inr (mark_source_deleted db source t))) (\<lambda>_. ret c'))))
    (\<lambda>r db. db_ok db \<and> (\<forall>key. key \<noteq> (rt_id root, p) \<longrightarrow> index_view db key = index_view db0 key)
      \<and> (\<forall>c. r = Inr c \<longrightarrow> index_view db (rt_id root, p) = None))"
    (is "triple _ _ ?Q")
proof (rule triple_reading_then, cases "find_source_file db0 (rt_id root) p")
  case None
  then have "index_view db0 (rt_id root, p) = None" by (simp add: index_view_def)
  with ok show "triple (\<lambda>db. db = db0) (case find_source_file db0 (rt_id root) p of
      None \<Rightarrow> ret c | Some source \<Rightarrow> andthen (now env) (\<lambda>t.
          andthen (store (\<lambda>db. Inr (mark_source_deleted db source t))) (\<lambda>_. ret c'))) ?Q"
    using None by (auto intro!: triple_ret)
next
  case (Some s)
  then have s: "s \<in> set (db_source_files db0)" "sf_root_id s = rt_id root" "sf_relative_path s = p"
    using find_source_file_Some [of db0] ok by (auto simp: db_ok_def)
  have "?Q r (mark_source_deleted db0 s t)" for r t
    using mark_source_deleted_ok [OF ok stored_self [OF s(1)], of t]
      deleted_view [OF ok stored_self [OF s(1)], of t] s(2,3) by auto
  with Some ok show "triple (\<lambda>db. db = db0) (case find_source_file db0 (rt_id root) p of
      None \<Rightarrow> ret c | Some source \<Rightarrow> andthen (now env) (\<lambda>t.
          andthen (store (\<lambda>db. Inr (mark_source_deleted db source t))) (\<lambda>_. ret c'))) ?Q"
    by (auto intro!: triple_quiet_then [OF quiet_now] triple_store_then triple_ret)
qed

lemma keeps_delete_change:
  assumes "(rt_id root, p) \<in> K"
  shows "keeps K (andthen (reading (\<lambda>db. find_source_file db (rt_id root) p)) (\<lambda>source.
        case source of
          None \<Rightarrow> ret c
        | Some source \<Rightarrow>
            andthen (now env) (\<lambda>t.
            andthen (store (\<lambda>db. Inr (mark_source_deleted db source t))) (\<lambda>_. ret c'))))"
proof -
  have other: "key \<noteq> (rt_id root, p)" if "key \<notin> K" for key using that assms by blast
  show ?thesis
    by (rule keeps_each, rule triple_weaken [OF triple_delete_change], assumption, assumption)
      (use other in blast)
qed

lemma validate_relative_path_document:
  "validate_relative_path env root root_canonical relative options = Inr (Inr d)
    \<Longrightarrow> dd_relative_path d = relative"
  by (auto simp: validate_relative_path_def classify_and_collect_def collected_def Let_def
      split: if_splits sum.splits option.splits)

lemma keeps_apply_change:
  assumes "(rt_id root, gc_relative_path change) \<in> K"
  shows "keeps K (apply_change env root registry p change c)"
  unfolding apply_change_def
  by (auto intro!: keeps_delete_change keeps_observe keeps_andthen keeps_attempt keeps_process_document
      keeps_quiet [OF quiet_basic(1)] keeps_quiet [OF quiet_basic(2)]
      simp: doc_key_def assms validate_relative_path_document split: sum.splits)

lemma keeps_apply_changes:
  "(\<And>change. change \<in> set changes \<Longrightarrow> (rt_id root, gc_relative_path change) \<in> K)
    \<Longrightarrow> keeps K (apply_changes env root registry p changes c)"
  by (induction changes arbitrary: c) (auto intro!: keeps_intros keeps_apply_change)

lemma keeps_index_changes:
  "root_keys root \<subseteq> K \<Longrightarrow> keeps K (index_changes env root registry ctx req base changes)"
  unfolding index_changes_def by (auto intro!: keeps_intros keeps_apply_changes)

lemma keeps_full_and_record:
  "root_keys root \<subseteq> K \<Longrightarrow> keeps K (full_and_record env root registry ctx req reason)"
  unfolding full_and_record_def by (auto intro!: keeps_intros keeps_index_one_root_full)

lemma keeps_index_one_root:
  "root_keys root \<subseteq> K \<Longrightarrow> keeps K (index_one_root env root registry since)"
  unfolding index_one_root_def index_one_root_maybe_incremental_def
  by (auto intro!: keeps_intros keeps_index_one_root_full keeps_full_and_record keeps_index_changes
      split: option.splits sum.splits)

lemma keeps_index_each:
  "\<Union> (root_keys ` set roots) \<subseteq> K \<Longrightarrow> keeps K (index_each env registry since roots report)"
  by (induction roots arbitrary: report) (auto intro!: keeps_intros keeps_index_one_root)

end
