(* ===== verification/Index_Properties.thy ===== *)
theory Index_Properties
  imports Index_Roots Storage_Properties
begin

text \<open>
  The properties of indexing: what one document, one scan and one run do to the abstract index, when
  a document is certain to be indexed, and two situations in which existing content is left out of it.
\<close>

subsection \<open>When a document is indexed\<close>

lemma registry_defaults_select:
  "registry_with_defaults events_of = Inr registry \<Longrightarrow> registry_select registry d = Some parser
    \<longleftrightarrow> parser = (case dd_file_type d of Markdown \<Rightarrow> markdown_parser events_of | PlainText \<Rightarrow> plain_text_parser)"
  by (cases "dd_file_type d")
    (auto simp: registry_with_defaults registry_select_defaults markdown_parser_def plain_text_parser_def
      registry_select_def)

lemma registry_select_well_numbered:
  assumes "registry_with_defaults events_of = Inr registry" "registry_select registry d = Some parser"
    "dp_parse parser bs = Inr parsed"
  shows "well_numbered (pd_segments parsed)"
  using assms(2,3) markdown.well_numbered [of events_of bs parsed] plain_text.well_numbered [of bs parsed]
  unfolding registry_defaults_select [OF assms(1)]
  by (cases "dd_file_type d") (simp_all add: markdown_parser_def plain_text_parser_def)

lemma registry_defaults_parse:
  assumes "registry_with_defaults events_of = Inr registry" "from_utf8 bs = Some t"
  shows "\<exists>parser parsed. registry_select registry d = Some parser \<and> dp_parse parser bs = Inr parsed"
  unfolding registry_defaults_select [OF assms(1)]
  by (cases "dd_file_type d")
    (simp_all add: assms(2) markdown_parser_def plain_text_parser_def markdown_parse_def plain_text_parse_def)

lemma build_segments_run:
  "\<exists>gs. build_segments env i items w = (Inr gs, w\<lparr>wd_tick := wd_tick w + length items\<rparr>)
     \<and> map sg_id gs = map (ie_uuid env) [wd_tick w ..< wd_tick w + length items]"
proof (induction items arbitrary: w)
  case Nil
  then show ?case by (simp add: ret_def)
next
  case (Cons item items)
  from Cons.IH [of "w\<lparr>wd_tick := wd_tick w + 1\<rparr>"]
  show ?case by (auto simp: andthen_def new_uuid_def ret_def upt_conv_Cons simp del: upt.simps)
qed

lemma fresh_segment_keys:
  assumes "segment_keys_ok (db_segments db)" "segments_from env i items gs" "well_numbered items"
    and "distinct (map sg_id gs)" "sg_id ` set gs \<inter> sg_id ` set (db_segments db) = {}"
    and "i \<notin> sg_revision_id ` set (db_segments db)"
  shows "segment_keys_ok (db_segments db @ gs)"
proof -
  have rev: "map (\<lambda>g. (sg_revision_id g, f g)) gs = map (Pair i) (map f gs)" for f :: "segment \<Rightarrow> 'b"
    using assms(2) by (auto simp: segments_from_def)
  have "distinct (map sg_ordinal gs)" "distinct (map sg_anchor gs)"
    using assms(2,3) by (simp_all add: segments_from_def well_numbered_def)
  then have "distinct (map (\<lambda>g. (sg_revision_id g, sg_ordinal g)) gs)"
    "distinct (map (\<lambda>g. (sg_revision_id g, sg_anchor g)) gs)"
    unfolding rev by (simp_all add: distinct_map inj_on_def)
  moreover have "sg_revision_id g \<noteq> sg_revision_id h" if "g \<in> set gs" "h \<in> set (db_segments db)" for g h
    using that assms(2,6) by (auto simp: segments_from_def)
  ultimately show ?thesis
    using assms(1,4,5) by (fastforce simp: segment_keys_ok_def)
qed

text \<open>Identifiers drawn from tick \<open>n\<close> on are new and differ from each other, as random UUIDs do.\<close>

definition used_ids :: "db \<Rightarrow> uuid set" where
  "used_ids db = sf_id ` set (db_source_files db) \<union> rv_id ` set (db_revisions db)
     \<union> sg_id ` set (db_segments db)"

definition fresh_from :: "'g index_env \<Rightarrow> db \<Rightarrow> nat \<Rightarrow> bool" where
  "fresh_from env db n \<longleftrightarrow> inj (ie_uuid env) \<and> (\<forall>k \<ge> n. ie_uuid env k \<notin> used_ids db)"

lemma upsert_source_file_succeeds:
  assumes "db_ok db" "find_source_file db (sf_root_id source) (sf_relative_path source) = existing"
    and "existing = None \<Longrightarrow> sf_id source \<notin> sf_id ` set (db_source_files db)
      \<and> sf_root_id source \<in> rt_id ` set (db_roots db)"
    and "\<forall>s. existing = Some s \<longrightarrow> sf_id source = sf_id s"
  shows "\<exists>db'. upsert_source_file db source = Inr db' \<and> sf_id source \<in> sf_id ` set (db_source_files db')
    \<and> db_revisions db' = db_revisions db \<and> db_segments db' = db_segments db"
proof (cases existing)
  case None
  with assms have "\<not> (\<exists>s \<in> set (db_source_files db). same_path s source)"
    by (auto simp: find_source_file_None same_path_def)
  with None assms(3) show ?thesis by (auto simp: upsert_source_file_def)
next
  case (Some s)
  then have s: "s \<in> set (db_source_files db)" "same_path s source"
    using assms(1,2) find_source_file_Some [of db] by (auto simp: same_path_def db_ok_def)
  then have "s \<in> set (db_source_files db) \<and> (\<exists>s \<in> set (db_source_files db). same_path s source)" by blast
  moreover have "sf_id ` set (update_where (\<lambda>s. same_path s source) (upserted source) (db_source_files db))
      = sf_id ` set (db_source_files db)"
    by (rule image_update_where) (simp add: upserted_def)
  ultimately show ?thesis
    using Some assms(4) by (simp add: upsert_source_file_def)
qed

lemma promote_document_succeeds:
  assumes ok: "db_ok (wd_db w)" and f: "find_source_file (wd_db w) (rt_id root) (dd_relative_path d) = existing"
    and fresh: "fresh_from env (wd_db w) (wd_tick w)"
    and absent: "existing = None \<Longrightarrow> source_id \<notin> sf_id ` set (db_source_files (wd_db w))
      \<and> rt_id root \<in> rt_id ` set (db_roots (wd_db w))"
    and sid: "\<forall>s. existing = Some s \<longrightarrow> source_id = sf_id s"
    and numbered: "well_numbered (pd_segments parsed)"
    and key: "(source_id, blake3_hex (ie_blake3 env) (sb_bytes sb), dp_parser_id parser, dp_parser_version parser)
      \<notin> revision_key ` set (db_revisions (wd_db w))"
  shows "\<exists>x w'. promote_document env root d existing source_id previous t sb parser parsed w = (Inr x, w')
    \<and> x \<noteq> Unchanged"
proof -
  let ?db = "wd_db w" and ?i = "ie_uuid env (wd_tick w)"
  obtain gs where gs: "build_segments env ?i (pd_segments parsed) (w\<lparr>wd_tick := Suc (wd_tick w)\<rparr>)
      = (Inr gs, w\<lparr>wd_tick := Suc (wd_tick w + length (pd_segments parsed))\<rparr>)"
    "map sg_id gs = map (ie_uuid env) [Suc (wd_tick w) ..< Suc (wd_tick w + length (pd_segments parsed))]"
    using build_segments_run [of env ?i "pd_segments parsed" "w\<lparr>wd_tick := Suc (wd_tick w)\<rparr>"]
    by (auto simp del: upt.simps)
  let ?source = "indexed_source env root d existing source_id t sb"
  let ?v = "indexed_revision env source_id ?i t sb parser parsed"
  have run: "promote_document env root d existing source_id previous t sb parser parsed w =
      andthen (store (\<lambda>db. upsert_source_file db ?source)) (\<lambda>_.
      andthen (store (\<lambda>db. promote_revision db ?source ?v gs)) (\<lambda>_.
       ret (if previous = None then Addition (u32_sat (length gs)) else Modification (u32_sat (length gs)))))
       (w\<lparr>wd_tick := Suc (wd_tick w + length (pd_segments parsed))\<rparr>)"
    by (simp add: promote_document_def andthen_def new_uuid_def Let_def gs(1))
  note rows = indexed_source_def indexed_revision_def
  have "\<exists>db'. upsert_source_file ?db ?source = Inr db' \<and> sf_id ?source \<in> sf_id ` set (db_source_files db')
    \<and> db_revisions db' = db_revisions ?db \<and> db_segments db' = db_segments ?db"
    by (rule upsert_source_file_succeeds [OF ok]) (use f absent sid in \<open>simp_all add: rows\<close>)
  then obtain db' where db': "upsert_source_file ?db ?source = Inr db'"
    "sf_id ?source \<in> sf_id ` set (db_source_files db')" "db_revisions db' = db_revisions ?db"
    "db_segments db' = db_segments ?db" by blast
  have segs: "segments_from env ?i (pd_segments parsed) gs" by (rule build_segments_result [OF gs(1)])
  have i: "?i \<notin> used_ids ?db" using fresh by (simp add: fresh_from_def)
  have uok: "upsert_ok ?db ?source" by (rule find_upsert_ok [OF ok f]) (simp_all add: rows)
  have ok': "db_ok db'" by (rule upsert_source_file_ok [OF ok uok db'(1)])
  then have keys': "keys_ok db'" and refs': "refs_ok db'" by (simp_all add: db_ok_def)
  have "segment_keys_ok (db_segments db' @ gs)"
  proof (rule fresh_segment_keys [OF keys_segment_keys [OF keys'] segs numbered])
    show "distinct (map sg_id gs)"
      unfolding gs(2) distinct_map using fresh
      by (auto simp: fresh_from_def simp del: upt.simps intro: inj_on_subset)
    have "sg_id ` set gs = ie_uuid env ` {Suc (wd_tick w) ..< Suc (wd_tick w + length (pd_segments parsed))}"
      using gs(2) by (metis image_set set_upt)
    then have "sg_id ` set gs \<inter> used_ids ?db = {}"
      using fresh by (auto simp: fresh_from_def)
    then show "sg_id ` set gs \<inter> sg_id ` set (db_segments db') = {}"
      by (auto simp: used_ids_def db'(4))
    show "?i \<notin> sg_revision_id ` set (db_segments db')"
      using refs' i by (auto simp: refs_ok_def used_ids_def db'(3))
  qed
  then have "promotable db' ?v gs"
    using db'(2,3) i key by (simp add: promotable_def rows revision_key_def used_ids_def)
  moreover have "\<forall>g \<in> set gs. sg_revision_id g = rv_id ?v" using segs by (simp add: segments_from_def rows)
  ultimately have "promote_revision db' ?source ?v gs = Inr (promoted_db db' ?source ?v gs)"
    using promote_revision_Inr [OF keys'] by blast
  with db'(1) show ?thesis
    unfolding run by (simp add: andthen_def store_def ret_def)
qed

definition readable ::
    "'g index_env \<Rightarrow> path \<Rightarrow> stable_file_bytes \<Rightarrow> bool" where
  "readable env p sb \<longleftrightarrow> (\<forall>n. read_stable_file (dv_fs (ie_discovery env n)) (ie_contents env n)
     (dv_fs (ie_discovery env (n + 1))) p DEFAULT_MAX_FILE_SIZE_BYTES = Inr sb)"

lemma process_document_promotes:
  assumes "try_from_system_time (ie_clock env (wd_tick w)) = Inr t" "readable env (dd_canonical_path d) sb"
    and "registry_select registry d = Some parser" "dp_parse parser (sb_bytes sb) = Inr parsed"
    and "find_source_file (wd_db w) (rt_id root) (dd_relative_path d) = existing"
    and "previous = Option.bind (Option.bind existing sf_current_revision_id) (get_revision (wd_db w))"
    and "\<not> same_as_previous previous (blake3_hex (ie_blake3 env) (sb_bytes sb)) parser"
  shows "\<exists>k. wd_tick w < k \<and> process_document env root d registry w =
    promote_document env root d existing
      (case existing of None \<Rightarrow> ie_uuid env (Suc (wd_tick w)) | Some s \<Rightarrow> sf_id s) previous t sb parser parsed
      (w\<lparr>wd_tick := k\<rparr>)"
proof (cases existing)
  case None
  with assms show ?thesis
    by (intro exI [of _ "wd_tick w + 3"])
      (simp add: process_document_def andthen_def now_def reading_def new_uuid_def read_stable_def
        readable_def numeral_3_eq_3)
next
  case (Some s)
  with assms show ?thesis
    by (intro exI [of _ "wd_tick w + 2"])
      (simp add: process_document_def andthen_def now_def reading_def ret_def read_stable_def
        readable_def numeral_2_eq_2)
qed

lemma process_new_content:
  assumes ok: "db_ok (wd_db w)" and root: "rt_id root \<in> rt_id ` set (db_roots (wd_db w))"
    and clock: "try_from_system_time (ie_clock env (wd_tick w)) = Inr t"
    and fresh: "fresh_from env (wd_db w) (wd_tick w)"
    and sb: "readable env (dd_canonical_path d) sb" and utf8: "from_utf8 (sb_bytes sb) = Some txt"
    and reg: "registry_with_defaults (ie_events env) = Inr registry"
    and new: "\<forall>s v. find_source_file (wd_db w) (rt_id root) (dd_relative_path d) = Some s
      \<longrightarrow> v \<in> set (db_revisions (wd_db w)) \<longrightarrow> rv_source_file_id v = sf_id s
      \<longrightarrow> rv_content_hash v \<noteq> blake3_hex (ie_blake3 env) (sb_bytes sb)"
  shows "\<exists>x w' v gs. process_document env root d registry w = (Inr x, w') \<and> x \<noteq> Unchanged
    \<and> index_view (wd_db w') (rt_id root, dd_relative_path d) = Some (v, gs)
    \<and> rv_content_hash v = blake3_hex (ie_blake3 env) (sb_bytes sb)"
proof -
  let ?db = "wd_db w"
  obtain existing where f: "find_source_file ?db (rt_id root) (dd_relative_path d) = existing" by simp
  obtain previous where prev:
    "previous = Option.bind (Option.bind existing sf_current_revision_id) (get_revision ?db)" by simp
  obtain parser parsed where sel: "registry_select registry d = Some parser"
    "dp_parse parser (sb_bytes sb) = Inr parsed"
    using registry_defaults_parse [OF reg utf8] by blast
  let ?hash = "blake3_hex (ie_blake3 env) (sb_bytes sb)"
  let ?sid = "case existing of None \<Rightarrow> ie_uuid env (Suc (wd_tick w)) | Some s \<Rightarrow> sf_id s"
  have keys: "keys_ok ?db" and refs: "refs_ok ?db" and cur: "current_ok ?db"
    using ok by (simp_all add: db_ok_def)
  have changed: "\<not> same_as_previous previous ?hash parser"
  proof
    assume same: "same_as_previous previous ?hash parser"
    with prev obtain s r v where s: "existing = Some s" "sf_current_revision_id s = Some r"
      "get_revision ?db r = Some v" "rv_content_hash v = ?hash"
      by (auto simp: same_as_previous_def bind_eq_Some_conv split: option.splits)
    then have v: "v \<in> set (db_revisions ?db)" "rv_id v = r"
      using get_revision_Some [OF keys] by auto
    have "s \<in> set (db_source_files ?db)" using f s(1) find_source_file_Some [OF keys] by simp
    then have "rv_source_file_id v = sf_id s"
      using cur s(2) v revision_eqI [OF keys] unfolding current_ok_def by metis
    with new f s v show False by blast
  qed
  from process_document_promotes [OF clock sb sel f prev changed] obtain k where
    k: "wd_tick w < k" and run: "process_document env root d registry w =
      promote_document env root d existing ?sid previous t sb parser parsed (w\<lparr>wd_tick := k\<rparr>)" by blast
  have fresh': "fresh_from env ?db k" using fresh k by (simp add: fresh_from_def)
  have unused: "ie_uuid env (Suc (wd_tick w)) \<notin> used_ids ?db" using fresh by (simp add: fresh_from_def)
  have key: "(?sid, ?hash, dp_parser_id parser, dp_parser_version parser)
      \<notin> revision_key ` set (db_revisions ?db)"
  proof (cases existing)
    case None
    with refs unused show ?thesis by (auto simp: revision_key_def refs_ok_def used_ids_def)
  next
    case (Some s)
    with new f show ?thesis by (auto simp: revision_key_def)
  qed
  have "\<exists>x w'. promote_document env root d existing ?sid previous t sb parser parsed (w\<lparr>wd_tick := k\<rparr>) = (Inr x, w')
    \<and> x \<noteq> Unchanged"
    by (rule promote_document_succeeds)
      (use ok f fresh' unused root registry_select_well_numbered [OF reg sel] key in
        \<open>auto simp: used_ids_def split: option.splits\<close>)
  then obtain x w' where x: "process_document env root d registry w = (Inr x, w')" "x \<noteq> Unchanged"
    using run by auto
  have "doc_post env root d registry ?db (Inr x) (wd_db w')"
    by (rule triple_use [OF triple_process_document [OF ok] refl x(1)])
  with x(2) obtain n where "installed env root d registry ?db (wd_db w') n"
    by (cases x) (auto simp: doc_post_def)
  then obtain sb' v gs where "stable_at env (dd_canonical_path d) sb'"
    "index_view (wd_db w') = (index_view ?db)(doc_key root d \<mapsto> (v, gs))"
    "rv_content_hash v = blake3_hex (ie_blake3 env) (sb_bytes sb')"
    unfolding installed_def by blast
  with sb x show ?thesis by (auto simp: stable_at_def readable_def doc_key_def)
qed

text \<open>
  C5. New content is always indexed: a document that reads stably, is valid UTF-8 and has no earlier
  revision of its file with the same content becomes the current revision of its path, whatever the
  default parsers make of it; \<open>process_document\<close> cannot fail on it.
\<close>
theorem new_content_is_indexed:
  assumes ok: "db_ok (wd_db w)" and root: "rt_id root \<in> rt_id ` set (db_roots (wd_db w))"
    and clock: "try_from_system_time (ie_clock env (wd_tick w)) = Inr t"
    and fresh: "fresh_from env (wd_db w) (wd_tick w)"
    and sb: "readable env (dd_canonical_path d) sb" and utf8: "from_utf8 (sb_bytes sb) = Some txt"
    and reg: "registry_with_defaults (ie_events env) = Inr registry"
    and new: "\<forall>s v. find_source_file (wd_db w) (rt_id root) (dd_relative_path d) = Some s
      \<longrightarrow> v \<in> set (db_revisions (wd_db w)) \<longrightarrow> rv_source_file_id v = sf_id s
      \<longrightarrow> rv_content_hash v \<noteq> blake3_hex (ie_blake3 env) (sb_bytes sb)"
  shows "\<exists>x w' v gs. process_document env root d registry w = (Inr x, w') \<and> x \<noteq> Unchanged
    \<and> index_view (wd_db w') (rt_id root, dd_relative_path d) = Some (v, gs)
    \<and> rv_content_hash v = blake3_hex (ie_blake3 env) (sb_bytes sb)"
  by (rule process_new_content [OF assms])

subsection \<open>A concrete run\<close>

text \<open>The root of \<open>sample_env\<close> with one Markdown file, indexed into a database that knows the root.\<close>

definition hello :: bytes where "hello = [104, 101, 108, 108, 111]"

definition hello_env :: "ustring index_env" where
  "hello_env = \<lparr>ie_discovery = (\<lambda>n. sample_env), ie_clock = (\<lambda>n. 9000000), ie_uuid = (\<lambda>n. n + 100),
     ie_contents = (\<lambda>n p. Inr hello), ie_blake3 = (\<lambda>bs. bs), ie_git = (\<lambda>p args. Inl []),
     ie_events = (\<lambda>text. [])\<rparr>"

definition hello_stable :: stable_file_bytes where
  "hello_stable = \<lparr>sb_bytes = hello, sb_size_bytes = 5, sb_modified_at = 7\<rparr>"

definition hello_db :: db where "hello_db = empty_db\<lparr>db_roots := [sample_root]\<rparr>"

abbreviation hello_registry :: parser_registry where
  "hello_registry \<equiv> [markdown_parser (\<lambda>text. []), plain_text_parser]"

lemma hello_db_ok: "db_ok hello_db"
  by (simp add: db_ok_defs hello_db_def empty_db_def current_rows_def)

lemma hello_readable: "readable hello_env (dd_canonical_path sample_document) hello_stable"
  by (simp add: readable_def hello_env_def read_stable_file_def metadata_snapshot_def hello_stable_def
      hello_def sample_document_def sample_env_def sample_fs_def sample_metadata_def lit_def
      try_from_system_time_def rust_int i64_max_def u64_max_def DEFAULT_MAX_FILE_SIZE_BYTES_def Let_def)

lemma hello_utf8: "from_utf8 hello = Some hello"
  by (simp add: hello_def from_utf8.simps)

lemma hello_clock: "try_from_system_time (ie_clock hello_env n) = Inr 9"
  by (simp add: hello_env_def try_from_system_time_def rust_int i64_max_def)

lemma hello_registry: "registry_with_defaults (ie_events hello_env) = Inr hello_registry"
  by (simp add: registry_with_defaults hello_env_def)

lemma hello_fresh: "fresh_from hello_env hello_db n"
  by (auto simp: fresh_from_def hello_env_def inj_def used_ids_def hello_db_def empty_db_def)

lemma hello_find: "find_source_file hello_db i p = None"
  by (simp add: hello_db_def empty_db_def find_source_file_def)

theorem new_content_is_indexed_witness:
  "\<exists>x w' v gs. process_document hello_env sample_root sample_document hello_registry
        \<lparr>wd_db = hello_db, wd_tick = 0\<rparr> = (Inr x, w') \<and> x \<noteq> Unchanged
    \<and> index_view (wd_db w') (1, lit ''a.md'') = Some (v, gs)
    \<and> rv_content_hash v = lit ''blake3:'' @ hello"
proof -
  let ?w = "\<lparr>wd_db = hello_db, wd_tick = 0\<rparr>"
  have "rt_id sample_root = 1" "dd_relative_path sample_document = lit ''a.md''"
    "blake3_hex (ie_blake3 hello_env) (sb_bytes hello_stable) = lit ''blake3:'' @ hello"
    by (simp_all add: sample_root_def sample_document_def hello_stable_def blake3_hex_def hello_env_def)
  then show ?thesis
    using new_content_is_indexed [of ?w sample_root hello_env 9 sample_document hello_stable hello hello_registry]
      hello_db_ok hello_clock hello_fresh hello_readable hello_utf8 hello_registry hello_find
    by (simp add: hello_stable_def hello_db_def)
qed

subsection \<open>One document against the abstract index\<close>

text \<open>
  C1. Indexing one document implements the abstract step \<open>doc_post\<close>: from a well-formed database it
  leaves a well-formed database; a failure leaves the abstract index as it was; \<open>Unchanged\<close> is
  reported only when the current revision is of the content read; an addition or modification
  installs, at that path alone, a revision and the segments of what the selected parser made of a
  stable read of the file, and the two are told apart by whether the path was in the index.
\<close>
theorem process_document_refines:
  assumes "db_ok (wd_db w)" "process_document env root d registry w = (r, w')"
  shows "doc_post env root d registry (wd_db w) r (wd_db w')"
  by (rule triple_use [OF triple_process_document [OF assms(1)] refl assms(2)])

theorem process_document_refines_witness:
  "db_ok (wd_db (snd (process_document hello_env sample_root sample_document hello_registry
      \<lparr>wd_db = hello_db, wd_tick = 0\<rparr>)))"
proof -
  let ?w = "\<lparr>wd_db = hello_db, wd_tick = 0\<rparr>"
  obtain r w' where run: "process_document hello_env sample_root sample_document hello_registry ?w = (r, w')"
    by fastforce
  have "db_ok (wd_db ?w)" by (simp add: hello_db_ok)
  from process_document_refines [OF this run] show ?thesis by (simp add: run doc_post_def)
qed

text \<open>
  C6. Content a file had before is never indexed again: when the file holds the content of an earlier
  revision of it, made by the parser that would be used now, and that revision is not the current one,
  \<open>process_document\<close> fails, on every attempt, and the abstract index stays as it was. This is what
  happens when a file is changed and changed back, or deleted and restored.
\<close>
theorem earlier_content_never_indexed:
  assumes ok: "db_ok (wd_db w)"
    and s: "find_source_file (wd_db w) (rt_id root) (dd_relative_path d) = Some s"
    and v: "v \<in> set (db_revisions (wd_db w))" "rv_source_file_id v = sf_id s"
      "sf_current_revision_id s \<noteq> Some (rv_id v)"
    and sb: "readable env (dd_canonical_path d) sb"
      "rv_content_hash v = blake3_hex (ie_blake3 env) (sb_bytes sb)"
    and parser: "registry_select registry d = Some parser" "rv_parser_id v = dp_parser_id parser"
      "rv_parser_version v = dp_parser_version parser"
    and run: "process_document env root d registry w = (r, w')"
  shows "\<exists>e. r = Inl e \<and> index_view (wd_db w') = index_view (wd_db w)"
proof (cases r)
  case (Inl e)
  have "doc_post env root d registry (wd_db w) r (wd_db w')"
    by (rule triple_use [OF triple_process_document [OF ok] refl run])
  with Inl show ?thesis by (simp add: doc_post_def)
next
  case (Inr x)
  let ?db = "wd_db w"
  have keys: "keys_ok ?db" and cur: "current_ok ?db" using ok by (simp_all add: db_ok_def)
  have post: "doc_post env root d registry ?db (Inr x) (wd_db w')"
    using triple_use [OF triple_process_document [OF ok] refl run] Inr by simp
  have "\<not> installed env root d registry ?db (wd_db w') n" for n
  proof
    assume "installed env root d registry ?db (wd_db w') n"
    then obtain u sb' where u: "revision_key u \<notin> revision_key ` set (db_revisions ?db)"
      "stable_at env (dd_canonical_path d) sb'" "rv_source_file_id u = sf_id s"
      "rv_content_hash u = blake3_hex (ie_blake3 env) (sb_bytes sb')"
      "rv_parser_id u = dp_parser_id parser" "rv_parser_version u = dp_parser_version parser"
      using s parser(1) unfolding installed_def by auto
    then have "sb' = sb" using sb(1) by (auto simp: stable_at_def readable_def)
    with u v sb parser have "revision_key u = revision_key v" by (simp add: revision_key_def)
    with u(1) v(1) show False by auto
  qed
  moreover have "\<not> up_to_date env root d registry ?db"
  proof
    assume "up_to_date env root d registry ?db"
    then obtain u gs sb' where u: "stable_at env (dd_canonical_path d) sb'"
      "index_view ?db (rt_id root, dd_relative_path d) = Some (u, gs)"
      "same_as_previous (Some u) (blake3_hex (ie_blake3 env) (sb_bytes sb')) parser"
      using parser(1) unfolding up_to_date_def doc_key_def by auto
    then have "sb' = sb" using sb(1) by (auto simp: stable_at_def readable_def)
    with u(3) sb(2) parser have same: "rv_content_hash u = rv_content_hash v"
      "rv_parser_id u = rv_parser_id v" "rv_parser_version u = rv_parser_version v"
      by (simp_all add: same_as_previous_def)
    obtain s' where s': "s' \<in> set (db_source_files ?db)" "sf_root_id s' = rt_id root"
      "sf_relative_path s' = dd_relative_path d" "sf_current_revision_id s' = Some (rv_id u)"
      "u \<in> set (db_revisions ?db)"
      using u(2) unfolding index_view_Some [OF keys] by blast
    then have "s' = s" using s find_source_file_Some [OF keys] by (metis option.inject)
    with s' cur have "rv_source_file_id u = sf_id s"
      unfolding current_ok_def using revision_eqI [OF keys] by metis
    with same v(1,2) s'(5) have "u = v"
      using distinct_key [of revision_key "db_revisions ?db"] keys
      by (auto simp: keys_ok_def revision_key_def)
    with s' \<open>s' = s\<close> v(3) show False by simp
  qed
  ultimately show ?thesis using post by (cases x) (auto simp: doc_post_def)
qed

text \<open>The file was indexed once, then deleted, and is now back.\<close>

definition again_db :: db where
  "again_db = empty_db\<lparr>db_roots := [sample_root],
     db_source_files := [\<lparr>sf_id = 2, sf_root_id = 1, sf_relative_path = lit ''a.md'',
       sf_canonical_path_hash = [], sf_file_type = Markdown, sf_size_bytes = 5, sf_modified_at = Some 7,
       sf_current_revision_id = None, sf_state = Deleted, sf_first_seen_at = 1, sf_last_seen_at = 2\<rparr>],
     db_revisions := [\<lparr>rv_id = 3, rv_source_file_id = 2, rv_content_hash = lit ''blake3:'' @ hello,
       rv_parser_id = lit ''markdown-v1'', rv_parser_version = lit ''1'', rv_extracted_text_hash = None,
       rv_observed_at = 1, rv_indexed_at = Some 1, rv_status = Indexed, rv_error_code = None,
       rv_error_message = None\<rparr>]\<rparr>"

lemma again_db_ok: "db_ok again_db"
  by (simp add: db_ok_defs again_db_def empty_db_def sample_root_def current_rows_def)

theorem earlier_content_never_indexed_witness:
  "\<exists>e w'. process_document hello_env sample_root sample_document hello_registry
      \<lparr>wd_db = again_db, wd_tick = 0\<rparr> = (Inl e, w') \<and> index_view (wd_db w') (1, lit ''a.md'') = None"
proof -
  let ?w = "\<lparr>wd_db = again_db, wd_tick = 0\<rparr>"
  obtain r w' where run: "process_document hello_env sample_root sample_document hello_registry ?w = (r, w')"
    by fastforce
  have "\<exists>e. r = Inl e \<and> index_view (wd_db w') = index_view (wd_db ?w)"
  proof (rule earlier_content_never_indexed)
    show "db_ok (wd_db ?w)" by (simp add: again_db_ok)
    show "find_source_file (wd_db ?w) (rt_id sample_root) (dd_relative_path sample_document)
        = Some (hd (db_source_files again_db))"
      by (simp add: again_db_def sample_root_def sample_document_def find_source_file_def)
    show "hd (db_revisions again_db) \<in> set (db_revisions (wd_db ?w))" by (simp add: again_db_def)
    show "readable hello_env (dd_canonical_path sample_document) hello_stable" by (rule hello_readable)
    show "registry_select hello_registry sample_document = Some (markdown_parser (\<lambda>text. []))"
      by (simp add: registry_select_defaults) (simp add: sample_document_def)
  qed (simp_all add: run, simp_all add: again_db_def hello_stable_def hello_env_def blake3_hex_def
      markdown_parser_def)
  moreover have "index_view again_db (1, lit ''a.md'') = None"
    by (simp add: index_view_def find_source_file_def again_db_def)
  ultimately show ?thesis using run by auto
qed

subsection \<open>A full scan, and a run\<close>

text \<open>What an operation does not touch.\<close>

definition preserves :: "(db \<Rightarrow> 'b) \<Rightarrow> 'a ix \<Rightarrow> bool" where
  "preserves f m \<longleftrightarrow> (\<forall>w r w'. m w = (r, w') \<longrightarrow> f (wd_db w') = f (wd_db w))"

lemma preserves_andthen: "preserves f m \<Longrightarrow> (\<And>a. preserves f (g a)) \<Longrightarrow> preserves f (andthen m g)"
  by (fastforce simp: preserves_def andthen_def split: prod.splits sum.splits)

lemma preserves_attempt: "preserves f m \<Longrightarrow> preserves f (attempt m)"
  by (auto simp: preserves_def attempt_def split: prod.splits)

lemma preserves_quiet: "quiet m \<Longrightarrow> preserves f m"
  by (auto simp: preserves_def quiet_def)

lemma preserves_store: "(\<And>db db'. g db = Inr db' \<Longrightarrow> f db' = f db) \<Longrightarrow> preserves f (store g)"
  by (auto simp: preserves_def store_def split: sum.splits)

lemmas preserves_intros = preserves_andthen preserves_attempt
  preserves_quiet [OF quiet_now] preserves_quiet [OF quiet_new_uuid] preserves_quiet [OF quiet_read_stable]
  preserves_quiet [OF quiet_build_segments]
  preserves_quiet [OF quiet_basic(1)] preserves_quiet [OF quiet_basic(2)] preserves_quiet [OF quiet_basic(3)]

abbreviation roots_and_runs :: "db \<Rightarrow> root list \<times> scan_run list" where
  "roots_and_runs db \<equiv> (db_roots db, db_scan_runs db)"

lemma insert_segments_roots_and_runs:
  "insert_segments source revision gs db = Inr db' \<Longrightarrow> roots_and_runs db' = roots_and_runs db"
proof (induction gs arbitrary: db)
  case (Cons g gs)
  then show ?case by (fastforce simp: insert_segment_def split: if_splits)
qed simp

lemma roots_and_runs_stores:
  "upsert_source_file db source = Inr db' \<Longrightarrow> roots_and_runs db' = roots_and_runs db"
  "insert_revision db revision = Inr db' \<Longrightarrow> roots_and_runs db' = roots_and_runs db"
  "promote_revision db source revision gs = Inr db' \<Longrightarrow> roots_and_runs db' = roots_and_runs db"
proof -
  show "roots_and_runs db' = roots_and_runs db" if "promote_revision db source revision gs = Inr db'"
    using that insert_segments_roots_and_runs [of source revision gs]
    by (fastforce simp: promote_revision_def insert_revision_def split: if_splits)
qed (auto simp: upsert_source_file_def insert_revision_def split: if_splits)

lemma preserves_stores:
  "preserves roots_and_runs (store (\<lambda>db. upsert_source_file db source))"
  "preserves roots_and_runs (store (\<lambda>db. insert_revision db revision))"
  "preserves roots_and_runs (store (\<lambda>db. promote_revision db source revision gs))"
  by (rule preserves_store, erule roots_and_runs_stores)+

lemma preserves_process_document:
  "preserves roots_and_runs (process_document env root d registry)"
  unfolding process_document_def promote_document_def record_parse_failure_def Let_def
  by (auto intro!: preserves_intros preserves_stores split: option.splits sum.splits)

lemma delete_unseen_roots_and_runs:
  "roots_and_runs (delete_unseen documents t sources db) = roots_and_runs db"
proof -
  have "roots_and_runs (mark_source_deleted db s t) = roots_and_runs db" for s db
    by (simp add: mark_source_deleted_def Let_def)
  then show ?thesis
    unfolding delete_unseen_def by (induction sources arbitrary: db) auto
qed

lemma index_documents_completes:
  "\<exists>c' w'. index_documents env root registry documents c w = (Inr c', w')
     \<and> roots_and_runs (wd_db w') = roots_and_runs (wd_db w)"
proof (induction documents arbitrary: c w)
  case Nil
  then show ?case by (simp add: ret_def)
next
  case (Cons d ds)
  obtain r w1 where run: "process_document env root d registry w = (r, w1)" by fastforce
  then have "roots_and_runs (wd_db w1) = roots_and_runs (wd_db w)"
    using preserves_process_document unfolding preserves_def by blast
  with Cons.IH [of "count_outcome r c" w1] run show ?case by (auto simp: andthen_def attempt_def)
qed

lemma index_one_root_full_completes:
  assumes root: "upsert_root (wd_db w) root = Inr db1"
    and clock: "\<forall>n. \<exists>t. try_from_system_time (ie_clock env n) = Inr t"
    and fresh: "\<forall>n. ie_uuid env n \<notin> sc_id ` set (db_scan_runs (wd_db w))"
  shows "\<exists>report w'. index_one_root_full env root registry requested resolved head reason w = (Inr report, w')
    \<and> (ir_failed report \<longleftrightarrow> (\<exists>e. discover_root (ie_discovery env (wd_tick w + 1)) root default_discovery_options = Inl e))"
proof -
  have now: "\<exists>t. now env w = (Inr t, w\<lparr>wd_tick := wd_tick w + 1\<rparr>)" for w :: world
    using clock [rule_format, of "wd_tick w"] by (auto simp: now_def)
  have ids: "rt_id ` set (update_where (\<lambda>r. rt_id r = rt_id root) (\<lambda>r. root\<lparr>rt_created_at := rt_created_at r\<rparr>)
      (db_roots (wd_db w))) = rt_id ` set (db_roots (wd_db w))"
    by (rule image_update_where) simp
  have rr: "rt_id root \<in> rt_id ` set (db_roots db1)" "db_scan_runs db1 = db_scan_runs (wd_db w)"
    using root by (auto simp: upsert_root_def ids split: if_splits) (metis imageI)
  have insert: "\<exists>db'. insert_scan_run db (scan_run_of (ie_uuid env n) root t t' st c k e) = Inr db'"
    if "roots_and_runs db = roots_and_runs db1" for db n t t' st c k e
    using that rr fresh by (auto simp: insert_scan_run_def scan_run_of_def)
  obtain t where t: "now env w = (Inr t, w\<lparr>wd_tick := wd_tick w + 1\<rparr>)" using now by blast
  let ?w1 = "w\<lparr>wd_tick := wd_tick w + 1, wd_db := db1\<rparr>"
  show ?thesis
  proof (cases "discover_root (ie_discovery env (wd_tick w + 1)) root default_discovery_options")
    case (Inl error)
    obtain t' where t': "now env ?w1 = (Inr t', ?w1\<lparr>wd_tick := wd_tick w + 2\<rparr>)" using now [of ?w1] by auto
    obtain db' where "insert_scan_run db1 (scan_run_of (ie_uuid env (wd_tick w + 2)) root t t' ScanFailed no_counts 0
        (Some (lit ''DISCOVERY_FAILED''))) = Inr db'" using insert by blast
    with Inl t t' root show ?thesis
      by (simp add: index_one_root_full_def Let_def andthen_def store_def new_uuid_def ret_def full_report_def)
  next
    case (Inr discovery)
    let ?ds = "dr_documents discovery"
    obtain c w2 where c: "index_documents env root registry ?ds no_counts ?w1 = (Inr c, w2)"
      "roots_and_runs (wd_db w2) = roots_and_runs db1"
      using index_documents_completes [of env root registry ?ds no_counts ?w1] by auto
    obtain t2 where t2: "now env w2 = (Inr t2, w2\<lparr>wd_tick := wd_tick w2 + 1\<rparr>)" using now by blast
    let ?db2 = "delete_unseen ?ds t2 (list_active_source_files (wd_db w2) (rt_id root)) (wd_db w2)"
    let ?w3 = "w2\<lparr>wd_tick := wd_tick w2 + 1, wd_db := ?db2\<rparr>"
    obtain t3 where t3: "now env ?w3 = (Inr t3, ?w3\<lparr>wd_tick := wd_tick w2 + 2\<rparr>)" using now [of ?w3] by auto
    have "roots_and_runs ?db2 = roots_and_runs db1" by (simp add: delete_unseen_roots_and_runs [simplified] c(2) [simplified])
    from insert [OF this] obtain db3 where "insert_scan_run ?db2 (scan_run_of (ie_uuid env (wd_tick w2 + 2))
        root t t3 ScanCompleted (c\<lparr>ct_deletions := length (filter (\<lambda>s. \<not> was_seen ?ds (sf_relative_path s))
          (list_active_source_files (wd_db w2) (rt_id root)))\<rparr>) (u32_sat (length (dr_skipped discovery))) None)
        = Inr db3" by blast
    with Inr t t2 t3 root c(1) show ?thesis
      by (simp add: index_one_root_full_def Let_def andthen_def store_def new_uuid_def ret_def reading_def full_report_def)
  qed
qed


lemma hello_upsert: "upsert_root hello_db sample_root = Inr hello_db"
  by (simp add: upsert_root_def hello_db_def empty_db_def update_where_def sample_root_def)

lemma hello_runs: "\<forall>n. ie_uuid hello_env n \<notin> sc_id ` set (db_scan_runs hello_db)"
  by (simp add: hello_db_def empty_db_def)

lemma hello_discovery:
  "discover_root (ie_discovery hello_env n) sample_root default_discovery_options
     = Inr \<lparr>dr_documents = [sample_document], dr_skipped = [skip (lit ''.b.md'') Hidden]\<rparr>"
  by (simp add: hello_env_def sample_scan)




text \<open>
  No run can damage the index: whatever fails on the way (clock, reads, parsers, constraints, Git),
  indexing a list of roots, in full or from change lists, leaves a well-formed database in which
  nothing of any other root has changed.
\<close>
theorem index_each_keeps:
  assumes "db_ok (wd_db w)" "index_each env registry since roots report w = (r, w')"
  shows "db_ok (wd_db w') \<and> (\<forall>i p. i \<notin> rt_id ` set roots
    \<longrightarrow> index_view (wd_db w') (i, p) = index_view (wd_db w) (i, p))"
  using keeps_use [OF keeps_index_each [OF order_refl] assms] by auto

theorem index_each_keeps_witness:
  "db_ok (wd_db (snd (index_each hello_env hello_registry None [sample_root] (empty_report :: unit index_report)
      \<lparr>wd_db = hello_db, wd_tick = 0\<rparr>)))"
proof -
  let ?w = "\<lparr>wd_db = hello_db, wd_tick = 0\<rparr>" and ?p = "empty_report :: unit index_report"
  obtain r w' where run: "index_each hello_env hello_registry None [sample_root] ?p ?w = (r, w')" by fastforce
  have "db_ok (wd_db ?w)" by (simp add: hello_db_ok)
  from index_each_keeps [OF this run] show ?thesis by (simp only: run snd_conv)
qed

subsection \<open>Change lists\<close>

lemma apply_changes_append:
  "apply_changes env root registry p (xs @ ys) c w =
    andthen (apply_changes env root registry p xs c) (\<lambda>c. apply_changes env root registry p ys c) w"
  by (induction xs arbitrary: c w) (simp_all add: andthen_def ret_def split: prod.splits sum.splits)

lemma deleted_is_last:
  assumes "x \<in> set (dedupe_changes raw)" "gc_kind x = GitDeleted"
    and "\<forall>y \<in> set raw. gc_relative_path y = gc_relative_path x \<longrightarrow> gc_kind y \<noteq> Modified"
  obtains xs ys where "dedupe_changes raw = xs @ x # ys"
    "\<forall>y \<in> set ys. gc_relative_path y \<noteq> gc_relative_path x"
proof -
  from assms(1) obtain xs ys where eq: "dedupe_changes raw = xs @ x # ys" by (auto simp: in_set_conv_decomp)
  have "sorted_wrt (\<lambda>a b. change_cmp a b = Less) (dedupe_changes raw)"
    unfolding dedupe_changes_def by (intro sorted_dedup_strict changes.sorted_sort_by) simp
  then have "\<forall>y \<in> set ys. change_cmp x y = Less" unfolding eq by (simp add: sorted_wrt_append)
  moreover have "set ys \<subseteq> set raw"
    using dedup_by_subset [of same_change "sort_by change_cmp raw"] eq by (auto simp: dedupe_changes_def)
  moreover have "change_cmp x y \<noteq> Less"
    if "gc_relative_path y = gc_relative_path x" "gc_kind y \<noteq> Modified" for y
    using assms(2) that by (cases "gc_kind y") (auto simp: change_cmp_def path_cmp_def lit_def)
  ultimately have "\<forall>y \<in> set ys. gc_relative_path y \<noteq> gc_relative_path x"
    using assms(3) by blast
  with eq show thesis by (rule that)
qed

lemma triple_apply_deleted:
  assumes "db_ok db0" "is_safe_relative_path (gc_relative_path x)" "gc_kind x = GitDeleted"
  shows "triple (\<lambda>db. db = db0) (apply_change env root registry p x c)
    (\<lambda>r db. db_ok db \<and> (\<forall>c. r = Inr c \<longrightarrow> index_view db (rt_id root, gc_relative_path x) = None))"
  by (rule triple_weaken, unfold apply_change_def, simp only: assms(2,3) simp_thms if_True if_False)
    (rule triple_delete_change [OF assms(1)], auto)

text \<open>
  A path that a change list deletes is out of the index after the run, even if the same list also
  adds it: for one path the code applies additions before deletions. (A list says \<open>Added\<close> and \<open>Deleted\<close>
  of one path when a tracked file was removed from the Git index but still exists untracked.)
\<close>
theorem deleted_path_leaves_index:
  assumes ok: "db_ok (wd_db w)"
    and x: "x \<in> set (dedupe_changes raw)" "gc_kind x = GitDeleted" "is_safe_relative_path (gc_relative_path x)"
    and modified: "\<forall>y \<in> set raw. gc_relative_path y = gc_relative_path x \<longrightarrow> gc_kind y \<noteq> Modified"
    and run: "apply_changes env root registry p (dedupe_changes raw) c w = (Inr c', w')"
  shows "index_view (wd_db w') (rt_id root, gc_relative_path x) = None"
proof -
  let ?key = "(rt_id root, gc_relative_path x)"
  obtain xs ys where eq: "dedupe_changes raw = xs @ x # ys"
    and ys: "\<forall>y \<in> set ys. gc_relative_path y \<noteq> gc_relative_path x"
    by (rule deleted_is_last [OF x(1,2) modified])
  from run obtain c1 w1 c2 w2 where
    1: "apply_changes env root registry p xs c w = (Inr c1, w1)" and
    2: "apply_change env root registry p x c1 w1 = (Inr c2, w2)" and
    3: "apply_changes env root registry p ys c2 w2 = (Inr c', w')"
    unfolding eq apply_changes_append
    by (auto simp: andthen_def split: prod.splits sum.splits)
  have "keeps UNIV (apply_changes env root registry p xs c)" by (rule keeps_apply_changes) simp
  from keeps_use [OF this ok 1] have ok1: "db_ok (wd_db w1)" by blast
  from triple_use [OF triple_apply_deleted [OF ok1 x(3,2)] refl 2]
  have ok2: "db_ok (wd_db w2)" and gone: "index_view (wd_db w2) ?key = None" by simp_all
  have "keeps (UNIV - {?key}) (apply_changes env root registry p ys c2)"
    by (rule keeps_apply_changes) (use ys in simp)
  from keeps_use [OF this ok2 3] gone show ?thesis by simp
qed

theorem deleted_path_leaves_index_witness:
  "\<exists>c' w'. apply_changes hello_env sample_root hello_registry (lit ''/r'')
      (dedupe_changes [\<lparr>gc_relative_path = lit ''a.md'', gc_kind = GitDeleted\<rparr>,
        \<lparr>gc_relative_path = lit ''a.md'', gc_kind = Added\<rparr>]) no_counts \<lparr>wd_db = hello_db, wd_tick = 0\<rparr>
      = (Inr c', w') \<and> index_view (wd_db w') (1, lit ''a.md'') = None"
proof -
  let ?added = "\<lparr>gc_relative_path = lit ''a.md'', gc_kind = Added\<rparr>"
  let ?deleted = "\<lparr>gc_relative_path = lit ''a.md'', gc_kind = GitDeleted\<rparr>"
  let ?raw = "[?deleted, ?added]" and ?w = "\<lparr>wd_db = hello_db, wd_tick = 0\<rparr>"
  have dd: "dedupe_changes ?raw = [?added, ?deleted]"
    by (simp add: dedupe_changes_def change_cmp_def path_cmp_def same_change_def lit_def)
  have safe: "is_safe_relative_path (lit ''a.md'')"
    by (simp add: is_safe_relative_path_def is_normal_def sample_defs)
  have "validate_relative_path (ie_discovery hello_env 0) sample_root (lit ''/r'') (lit ''a.md'')
      default_discovery_options = Inr (Inr sample_document)"
    by (simp add: hello_env_def validate_relative_path_def is_safe_relative_path_def is_normal_def
        discovery_defs sample_defs collected_def
        is_path_gitignored_def)
  moreover obtain r w1 where
    "process_document hello_env sample_root sample_document hello_registry ?w = (r, w1)" by fastforce
  ultimately obtain c1 where
    1: "apply_change hello_env sample_root hello_registry (lit ''/r'') ?added no_counts ?w = (Inr c1, w1)"
    by (simp add: apply_change_def safe andthen_def attempt_def ret_def)
  obtain c2 w2 where 2: "apply_change hello_env sample_root hello_registry (lit ''/r'') ?deleted c1 w1
      = (Inr c2, w2)"
    by (cases "find_source_file (wd_db w1) (rt_id sample_root) (lit ''a.md'')")
      (auto simp: apply_change_def safe andthen_def reading_def now_def hello_clock store_def ret_def)
  have run: "apply_changes hello_env sample_root hello_registry (lit ''/r'') (dedupe_changes ?raw) no_counts ?w
      = (Inr c2, w2)"
    by (simp add: dd andthen_def 1 2 ret_def)
  have "index_view (wd_db w2) (rt_id sample_root, gc_relative_path ?deleted) = None"
    by (rule deleted_path_leaves_index [OF _ _ _ _ _ run]) (simp_all add: hello_db_ok dd safe)
  with run show ?thesis by (auto simp: sample_root_def)
qed

subsection \<open>The life of an index\<close>

text \<open>The operations of the program that write the database, as a step relation: runs of the indexer over
  any roots, the removal of a root, and the record kept of a query.\<close>

inductive app_step :: "'g index_env \<Rightarrow> world \<Rightarrow> world \<Rightarrow> bool" for env where
  step_index: "index_each env registry since roots (empty_report :: unit index_report) w = (r, w')
    \<Longrightarrow> app_step env w w'"
| step_remove: "delete_root_derived (wd_db w) i = Inr (counts, db') \<Longrightarrow> app_step env w (w\<lparr>wd_db := db'\<rparr>)"
| step_query: "app_step env w (w\<lparr>wd_db := record_query_activity (wd_db w) i at mode n elapsed\<rparr>)"

inductive reachable :: "'g index_env \<Rightarrow> world \<Rightarrow> bool" for env where
  reachable_init: "reachable env \<lparr>wd_db = empty_db, wd_tick = n\<rparr>"
| reachable_step: "reachable env w \<Longrightarrow> app_step env w w' \<Longrightarrow> reachable env w'"

inductive_cases app_stepE: "app_step env w w'"

lemma record_query_activity_ok: "db_ok db \<Longrightarrow> db_ok (record_query_activity db i t mode n e)"
  by (simp add: db_ok_defs record_query_activity_def Let_def current_rows_def)

lemma app_step_ok: "app_step env w w' \<Longrightarrow> db_ok (wd_db w) \<Longrightarrow> db_ok (wd_db w')"
proof (erule app_stepE)
  fix registry since roots r
  assume "index_each env registry since roots (empty_report :: unit index_report) w = (r, w')" "db_ok (wd_db w)"
  with keeps_use [OF keeps_index_each [OF order_refl]] show "db_ok (wd_db w')" by blast
next
  fix i counts db' assume w': "w' = w\<lparr>wd_db := db'\<rparr>" and ok: "db_ok (wd_db w)"
    and del: "delete_root_derived (wd_db w) i = Inr (counts, db')"
  have "keys_ok (wd_db w)" "refs_ok (wd_db w)" using ok by (simp_all add: db_ok_def)
  from delete_root_derived_eq [OF this] del have "db' = without_root (wd_db w) i" by simp
  then show "db_ok (wd_db w')" using without_root_ok [OF ok] w' by simp
qed (simp add: record_query_activity_ok)

text \<open>
  C4. Every database the program can reach from an empty one, by any sequence of runs over any roots
  (failing or not), removals of roots and recorded queries, is well-formed: keys and references hold,
  current revisions are indexed ones of active files, and the full-text rows are exactly the segments
  of current revisions.
\<close>
theorem reachable_ok:
  assumes "reachable env w"
  shows "db_ok (wd_db w)"
  using assms by induction (simp_all add: empty_db_ok app_step_ok)

theorem reachable_ok_witness:
  "db_ok (wd_db (snd (index_each hello_env hello_registry None [sample_root] (empty_report :: unit index_report)
      \<lparr>wd_db = empty_db, wd_tick = 0\<rparr>)))"
proof (rule reachable_ok [of hello_env])
  show "reachable hello_env (snd (index_each hello_env hello_registry None [sample_root]
      (empty_report :: unit index_report) \<lparr>wd_db = empty_db, wd_tick = 0\<rparr>))"
    by (rule reachable_step [OF reachable_init [of _ 0]], rule step_index, rule prod.collapse [symmetric])
qed

end
