(* ===== verification/Floats.thy ===== *)
theory Floats
  imports Prelude "HOL-Library.Log_Nat"
begin

text \<open>
  Rust's \<open>f32\<close> and \<open>f64\<close>: binary floating point with round-to-nearest, ties to even, overflow to
  infinity and one quiet NaN. A finite number is the rational it denotes; the sign of zero is not
  represented: no comparison of the source sees it, and only the sign bit of a stored zero component
  would differ. The format is the number of significant bits and the range of the exponent.
\<close>

datatype float = NaN | Infinite bool \<comment> \<open>whether negative\<close> | Finite rat

record format =
  fm_bits :: nat
  fm_emin :: int
  fm_emax :: int

definition F32 :: format where "F32 = \<lparr>fm_bits = 24, fm_emin = -126, fm_emax = 127\<rparr>"
definition F64 :: format where "F64 = \<lparr>fm_bits = 53, fm_emin = -1022, fm_emax = 1023\<rparr>"

abbreviation pow2 :: "int \<Rightarrow> rat" where "pow2 e \<equiv> 2 powi e"

text \<open>The exponent of a positive rational: \<open>2 ^ e \<le> x < 2 ^ (e + 1)\<close>.\<close>

definition exponent :: "rat \<Rightarrow> int" where
  "exponent x = (case quotient_of x of (a, b) \<Rightarrow>
     let k = int (floorlog 2 (nat a)) - int (floorlog 2 (nat b)) in if pow2 k \<le> x then k else k - 1)"

definition round_half_even :: "rat \<Rightarrow> int" where
  "round_half_even x =
     (let n = \<lfloor>x\<rfloor>; d = x - of_int n
      in if d < 1 / 2 then n else if 1 / 2 < d then n + 1 else if even n then n else n + 1)"

definition ulp :: "format \<Rightarrow> rat \<Rightarrow> rat" where
  "ulp fm x = pow2 (max (fm_emin fm) (exponent \<bar>x\<bar>) - int (fm_bits fm) + 1)"

definition rounded :: "format \<Rightarrow> rat \<Rightarrow> rat" where
  "rounded fm x = (if x = 0 then 0 else of_int (round_half_even (x / ulp fm x)) * ulp fm x)"

definition round_to :: "format \<Rightarrow> rat \<Rightarrow> float" where
  "round_to fm x =
     (let y = rounded fm x in if pow2 (fm_emax fm + 1) \<le> \<bar>y\<bar> then Infinite (x < 0) else Finite y)"

subsection \<open>Operations\<close>

fun is_finite :: "float \<Rightarrow> bool" where
  "is_finite (Finite x) = True"
| "is_finite _ = False"

fun is_nan :: "float \<Rightarrow> bool" where
  "is_nan NaN = True"
| "is_nan _ = False"

fun fneg :: "float \<Rightarrow> float" where
  "fneg NaN = NaN"
| "fneg (Infinite s) = Infinite (\<not> s)"
| "fneg (Finite x) = Finite (- x)"

fun fadd :: "format \<Rightarrow> float \<Rightarrow> float \<Rightarrow> float" where
  "fadd fm NaN b = NaN"
| "fadd fm (Infinite s) NaN = NaN"
| "fadd fm (Infinite s) (Infinite t) = (if s = t then Infinite s else NaN)"
| "fadd fm (Infinite s) (Finite y) = Infinite s"
| "fadd fm (Finite x) NaN = NaN"
| "fadd fm (Finite x) (Infinite t) = Infinite t"
| "fadd fm (Finite x) (Finite y) = round_to fm (x + y)"

fun fmul :: "format \<Rightarrow> float \<Rightarrow> float \<Rightarrow> float" where
  "fmul fm NaN b = NaN"
| "fmul fm (Infinite s) NaN = NaN"
| "fmul fm (Infinite s) (Infinite t) = Infinite (s \<noteq> t)"
| "fmul fm (Infinite s) (Finite y) = (if y = 0 then NaN else Infinite (s \<noteq> (y < 0)))"
| "fmul fm (Finite x) NaN = NaN"
| "fmul fm (Finite x) (Infinite t) = (if x = 0 then NaN else Infinite (t \<noteq> (x < 0)))"
| "fmul fm (Finite x) (Finite y) = round_to fm (x * y)"

text \<open>Division by a non-zero number; the source never divides by zero.\<close>

fun fdiv :: "format \<Rightarrow> float \<Rightarrow> float \<Rightarrow> float" where
  "fdiv fm (Finite x) (Finite y) = (if y = 0 then NaN else round_to fm (x / y))"
| "fdiv fm (Finite x) (Infinite t) = Finite 0"
| "fdiv fm (Infinite s) (Finite y) = Infinite (s \<noteq> (y < 0))"
| "fdiv fm _ _ = NaN"

definition of_int_float :: "format \<Rightarrow> int \<Rightarrow> float" where
  "of_int_float fm n = round_to fm (of_int n)"

text \<open>\<open>as f32\<close>, \<open>f64::from\<close>.\<close>

fun fcast :: "format \<Rightarrow> float \<Rightarrow> float" where
  "fcast fm (Finite x) = round_to fm x"
| "fcast fm a = a"

fun partial_cmp :: "float \<Rightarrow> float \<Rightarrow> ordering option" where
  "partial_cmp NaN b = None"
| "partial_cmp a NaN = None"
| "partial_cmp (Infinite s) (Infinite t) = Some (if s = t then Equal else if s then Less else Greater)"
| "partial_cmp (Infinite s) (Finite y) = Some (if s then Less else Greater)"
| "partial_cmp (Finite x) (Infinite t) = Some (if t then Greater else Less)"
| "partial_cmp (Finite x) (Finite y) = Some (cmp x y)"

definition float_cmp :: "float \<Rightarrow> float \<Rightarrow> ordering" where
  "float_cmp a b = (case partial_cmp a b of None \<Rightarrow> Equal | Some c \<Rightarrow> c)"

fun flt :: "float \<Rightarrow> float \<Rightarrow> bool" where
  "flt a b = (partial_cmp a b = Some Less)"

definition fle :: "float \<Rightarrow> float \<Rightarrow> bool" where
  "fle a b \<longleftrightarrow> partial_cmp a b = Some Less \<or> partial_cmp a b = Some Equal"

definition fclamp :: "float \<Rightarrow> rat \<Rightarrow> rat \<Rightarrow> float" where
  "fclamp a lo hi = (if flt a (Finite lo) then Finite lo else if flt (Finite hi) a then Finite hi else a)"

fun fabs :: "float \<Rightarrow> float" where
  "fabs NaN = NaN" | "fabs (Infinite s) = Infinite False" | "fabs (Finite x) = Finite \<bar>x\<bar>"

definition fsum :: "format \<Rightarrow> float list \<Rightarrow> float" where
  "fsum fm xs = foldl (fadd fm) (Finite 0) xs"

subsection \<open>Ordering\<close>

text \<open>Without NaN the comparison is that of the extended rationals, through this key.\<close>

fun float_key :: "float \<Rightarrow> int \<times> rat" where
  "float_key (Infinite s) = (if s then -1 else 1, 0)"
| "float_key (Finite x) = (0, x)"
| "float_key NaN = (2, 0)"

lemma float_cmp_key: "\<not> is_nan a \<Longrightarrow> \<not> is_nan b \<Longrightarrow>
  float_cmp a b = then_with (cmp (fst (float_key a)) (fst (float_key b))) (cmp (snd (float_key a)) (snd (float_key b)))"
  by (cases a; cases b) (auto simp: float_cmp_def cmp_def)

subsection \<open>Square roots and bit patterns\<close>

fun isqrt :: "nat \<Rightarrow> nat" where
  "isqrt n = (if n = 0 then 0
     else let r = 2 * isqrt (n div 4) in if (r + 1) * (r + 1) \<le> n then r + 1 else r)"

declare isqrt.simps [simp del]

text \<open>The square root of a positive number, rounded; its exponent is half of that of the number.\<close>

definition sqrt_rounded :: "format \<Rightarrow> rat \<Rightarrow> rat" where
  "sqrt_rounded fm x =
     (let u = pow2 (exponent x div 2 - int (fm_bits fm) + 1);
          q = x / (u * u);
          n = isqrt (nat \<lfloor>q\<rfloor>);
          half = (of_nat n + 1 / 2) * (of_nat n + 1 / 2);
          m = (if q < half then n else if half < q then n + 1 else if even n then n else n + 1)
      in of_nat m * u)"

fun fsqrt :: "format \<Rightarrow> float \<Rightarrow> float" where
  "fsqrt fm NaN = NaN"
| "fsqrt fm (Infinite s) = (if s then NaN else Infinite False)"
| "fsqrt fm (Finite x) = (if x < 0 then NaN else if x = 0 then Finite 0 else Finite (sqrt_rounded fm x))"

text \<open>\<open>f32::to_bits\<close> of a finite number and \<open>f32::from_bits\<close>.\<close>

definition to_bits :: "rat \<Rightarrow> nat" where
  "to_bits x =
     (if x = 0 then 0
      else let e = max (-126) (exponent \<bar>x\<bar>);
               m = nat \<lfloor>\<bar>x\<bar> / pow2 (e - 23)\<rfloor>
           in (if x < 0 then 2 ^ 31 else 0)
              + (if m < 2 ^ 23 then m else nat (e + 127) * 2 ^ 23 + (m - 2 ^ 23)))"

definition from_bits :: "nat \<Rightarrow> float" where
  "from_bits b =
     (let s = (b div 2 ^ 31 mod 2 = 1); e = b div 2 ^ 23 mod 256; m = b mod 2 ^ 23
      in if e = 255 then (if m = 0 then Infinite s else NaN)
         else let v = (if e = 0 then of_nat m * pow2 (-149)
                       else of_nat (2 ^ 23 + m) * pow2 (int e - 150))
              in Finite (if s then - v else v))"

fun to_le_bytes :: "float \<Rightarrow> nat list" where
  "to_le_bytes (Finite x) = (let b = to_bits x in
     [b mod 256, b div 256 mod 256, b div 65536 mod 256, b div 16777216 mod 256])"
| "to_le_bytes (Infinite s) = [0, 0, 128, if s then 255 else 127]"
| "to_le_bytes NaN = [0, 0, 192, 127]"

fun from_le_bytes :: "nat list \<Rightarrow> float" where
  "from_le_bytes [a, b, c, d] = from_bits (a + 256 * b + 65536 * c + 16777216 * d)"
| "from_le_bytes _ = NaN"

subsection \<open>Rounding keeps the order\<close>

lemma exponent_bounds:
  assumes "0 < x"
  shows "pow2 (exponent x) \<le> x \<and> x < pow2 (exponent x + 1)"
proof -
  obtain a b where q: "quotient_of x = (a, b)" by fastforce
  then have b: "0 < b" by (rule quotient_of_denom_pos)
  have x: "x = of_int a / of_int b" using q by (rule quotient_of_div)
  with assms b have a: "0 < a" by (simp add: zero_less_divide_iff)
  define la lb where "la = floorlog 2 (nat a)" and "lb = floorlog 2 (nat b)"
  have A: "(2::nat) ^ (la - 1) \<le> nat a \<and> nat a < 2 ^ la" and B: "(2::nat) ^ (lb - 1) \<le> nat b \<and> nat b < 2 ^ lb"
    unfolding la_def lb_def using a b by (intro floorlog_bounds; simp)+
  have pos: "0 < la" "0 < lb" using A B a b by (auto intro: Nat.gr0I)
  have a1: "pow2 (int la - 1) \<le> of_int a" and a2: "of_int a < pow2 (int la)"
  proof -
    have "(of_nat (2 ^ (la - 1)) :: rat) \<le> of_nat (nat a)" "(of_nat (nat a) :: rat) < of_nat (2 ^ la)"
      using A by (simp_all only: of_nat_le_iff of_nat_less_iff)
    with a pos show "pow2 (int la - 1) \<le> of_int a" "of_int a < pow2 (int la)"
      by (simp_all add: power_int_def nat_diff_distrib)
  qed
  have b1: "pow2 (int lb - 1) \<le> of_int b" and b2: "of_int b < pow2 (int lb)"
  proof -
    have "(of_nat (2 ^ (lb - 1)) :: rat) \<le> of_nat (nat b)" "(of_nat (nat b) :: rat) < of_nat (2 ^ lb)"
      using B by (simp_all only: of_nat_le_iff of_nat_less_iff)
    with b pos show "pow2 (int lb - 1) \<le> of_int b" "of_int b < pow2 (int lb)"
      by (simp_all add: power_int_def nat_diff_distrib)
  qed
  let ?k = "int la - int lb"
  have "x < pow2 (?k + 1)"
  proof -
    have "x \<le> of_int a / pow2 (int lb - 1)" unfolding x using a b b1 by (intro divide_left_mono) auto
    also have "\<dots> < pow2 (int la) / pow2 (int lb - 1)" using a2 by (intro divide_strict_right_mono) auto
    also have "\<dots> = pow2 (int la - (int lb - 1))" by (rule power_int_diff [symmetric]) simp
    also have "int la - (int lb - 1) = ?k + 1" by simp
    finally show ?thesis .
  qed
  moreover have "pow2 (?k - 1) \<le> x"
  proof -
    have "?k - 1 = (int la - 1) - int lb" by simp
    also have "pow2 \<dots> = pow2 (int la - 1) / pow2 (int lb)" by (rule power_int_diff) simp
    finally have "pow2 (?k - 1) = pow2 (int la - 1) / pow2 (int lb)" .
    also have "\<dots> \<le> of_int a / pow2 (int lb)" using a1 by (intro divide_right_mono) auto
    also have "\<dots> \<le> x" unfolding x using a b b2 by (intro divide_left_mono) auto
    finally show ?thesis .
  qed
  ultimately show ?thesis
    by (auto simp: exponent_def q Let_def la_def lb_def not_le)
qed

lemma round_half_even_mono:
  assumes "x \<le> y" shows "round_half_even x \<le> round_half_even y"
proof (cases "\<lfloor>x\<rfloor> = \<lfloor>y\<rfloor>")
  case True
  with assms show ?thesis by (auto simp: round_half_even_def Let_def)
next
  case False
  with assms have "\<lfloor>x\<rfloor> + 1 \<le> \<lfloor>y\<rfloor>" using floor_mono [OF assms] by linarith
  moreover have "round_half_even x \<le> \<lfloor>x\<rfloor> + 1" "\<lfloor>y\<rfloor> \<le> round_half_even y"
    by (auto simp: round_half_even_def Let_def)
  ultimately show ?thesis by linarith
qed

lemma round_half_even_of_int [simp]: "round_half_even (of_int n) = n"
  by (simp add: round_half_even_def)

lemma round_half_even_0 [simp]: "round_half_even 0 = 0"
  by (simp add: round_half_even_def)

lemma round_half_even_neg: "round_half_even (- x) = - round_half_even x"
proof (cases "x \<in> \<int>")
  case True
  then obtain n where "x = of_int n" by (auto elim: Ints_cases)
  then show ?thesis by (metis of_int_minus round_half_even_of_int)
next
  case False
  then have "\<lfloor>- x\<rfloor> = - \<lfloor>x\<rfloor> - 1" by (simp add: floor_minus ceiling_altdef) (metis Ints_of_int)
  moreover from this have "even \<lfloor>- x\<rfloor> \<longleftrightarrow> odd \<lfloor>x\<rfloor>" by simp
  ultimately show ?thesis by (auto simp: round_half_even_def Let_def field_simps)
qed

lemma ulp_pos [simp]: "0 < ulp fm x"
  by (simp add: ulp_def)

lemma round_half_even_pow2:
  assumes "l \<le> k"
  shows "x \<le> pow2 k \<Longrightarrow> of_int (round_half_even (x / pow2 l)) * pow2 l \<le> pow2 k"
    and "pow2 k \<le> x \<Longrightarrow> pow2 k \<le> of_int (round_half_even (x / pow2 l)) * pow2 l"
proof -
  define n where "n = (2::int) ^ nat (k - l)"
  have "pow2 k / pow2 l = pow2 (k - l)" by (rule power_int_diff [symmetric]) simp
  also have "\<dots> = of_int n" using assms by (simp add: n_def power_int_def)
  finally have q: "pow2 k / pow2 l = of_int n" .
  then have k: "pow2 k = of_int n * pow2 l" by (simp add: field_simps)
  show "of_int (round_half_even (x / pow2 l)) * pow2 l \<le> pow2 k" if "x \<le> pow2 k"
  proof -
    have "x / pow2 l \<le> of_int n" unfolding q [symmetric] using that by (intro divide_right_mono) auto
    from round_half_even_mono [OF this] show ?thesis unfolding k by (simp add: mult_right_mono)
  qed
  show "pow2 k \<le> of_int (round_half_even (x / pow2 l)) * pow2 l" if "pow2 k \<le> x"
  proof -
    have "of_int n \<le> x / pow2 l" unfolding q [symmetric] using that by (intro divide_right_mono) auto
    from round_half_even_mono [OF this] show ?thesis unfolding k by (simp add: mult_right_mono)
  qed
qed

lemma rounded_neg [simp]: "rounded fm (- x) = - rounded fm x"
  by (simp add: rounded_def ulp_def round_half_even_neg)

lemma rounded_mono_pos:
  assumes bits: "0 < fm_bits fm" and x: "0 < x" and le: "x \<le> y"
  shows "rounded fm x \<le> rounded fm y"
proof -
  let ?e = "\<lambda>x. max (fm_emin fm) (exponent x)"
  have y: "0 < y" using x le by simp
  have ex: "pow2 (exponent x) \<le> x" "x < pow2 (exponent x + 1)" and ey: "pow2 (exponent y) \<le> y" "y < pow2 (exponent y + 1)"
    using exponent_bounds x y by blast+
  have "pow2 (exponent x) < pow2 (exponent y + 1)" using ex(1) le ey(2) by linarith
  then have exy: "exponent x \<le> exponent y"
    using power_int_increasing [of "exponent y + 1" "exponent x" "2 :: rat"] by (cases "exponent x \<le> exponent y") auto
  show ?thesis
  proof (cases "?e x = ?e y")
    case True
    then have "ulp fm x = ulp fm y" using x y by (simp add: ulp_def)
    moreover have "x / ulp fm y \<le> y / ulp fm y" using le by (intro divide_right_mono) (auto intro: less_imp_le)
    ultimately show ?thesis
      using x y round_half_even_mono by (auto simp: rounded_def intro!: mult_right_mono less_imp_le)
  next
    case False
    with exy have lt: "?e x < ?e y" and k: "?e y = exponent y" by (auto simp: max_def split: if_splits)
    have "x \<le> pow2 (exponent x + 1)" using ex(2) by simp
    also have "\<dots> \<le> pow2 (exponent y)" using lt k by (intro power_int_increasing) auto
    finally have "x \<le> pow2 (exponent y)" .
    moreover have "?e x - int (fm_bits fm) + 1 \<le> exponent y" using lt k bits by linarith
    ultimately have "rounded fm x \<le> pow2 (exponent y)"
      using x round_half_even_pow2(1) [of "?e x - int (fm_bits fm) + 1" "exponent y" x]
      by (simp add: rounded_def ulp_def)
    also have "\<dots> \<le> rounded fm y"
      using y k bits ey(1) round_half_even_pow2(2) [of "?e y - int (fm_bits fm) + 1" "exponent y" y]
      by (simp add: rounded_def ulp_def)
    finally show ?thesis .
  qed
qed

lemma rounded_nonneg: "0 \<le> x \<Longrightarrow> 0 \<le> rounded fm x"
proof -
  assume "0 \<le> x"
  then have "of_int 0 \<le> x / ulp fm x" by (simp add: divide_nonneg_pos)
  from round_half_even_mono [OF this] have "0 \<le> round_half_even (x / ulp fm x)"
    by (simp add: round_half_even_of_int [of 0, simplified])
  then show ?thesis by (simp add: rounded_def less_imp_le)
qed

lemma rounded_mono:
  assumes "0 < fm_bits fm" "x \<le> y"
  shows "rounded fm x \<le> rounded fm y"
proof -
  have zero: "rounded fm 0 = 0" by (simp add: rounded_def)
  consider "0 < x" | "x \<le> 0" "0 \<le> y" | "y < 0" using assms(2) by linarith
  then show ?thesis
  proof cases
    case 1
    then show ?thesis using rounded_mono_pos assms by blast
  next
    case 2
    then show ?thesis using rounded_nonneg [of y fm] rounded_nonneg [of "- x" fm] by simp
  next
    case 3
    then show ?thesis using rounded_mono_pos [OF assms(1), of "- y" "- x"] assms(2) by simp
  qed
qed

lemma round_to_mono:
  assumes "0 < fm_bits fm" "x \<le> y"
  shows "fle (round_to fm x) (round_to fm y)"
proof -
  have r: "rounded fm x \<le> rounded fm y" by (rule rounded_mono [OF assms])
  have sign: "x < 0 \<Longrightarrow> rounded fm x \<le> 0" "0 \<le> x \<Longrightarrow> 0 \<le> rounded fm x"
    "y < 0 \<Longrightarrow> rounded fm y \<le> 0" "0 \<le> y \<Longrightarrow> 0 \<le> rounded fm y"
    using rounded_nonneg [of "- x" fm] rounded_nonneg [of x fm] rounded_nonneg [of "- y" fm] rounded_nonneg [of y fm]
    by auto
  have big: "0 < pow2 (fm_emax fm + 1)" by simp
  show ?thesis
    using r sign big assms(2)
    by (cases "x < 0"; cases "y < 0") (auto simp: fle_def round_to_def Let_def)
qed

lemma fle_fneg: "fle a b \<Longrightarrow> fle (fneg b) (fneg a)"
  by (cases a; cases b) (auto simp: fle_def split: if_splits)

lemma fcast_mono: "0 < fm_bits fm \<Longrightarrow> x \<le> y \<Longrightarrow> fle (fcast fm (Finite x)) (fcast fm (Finite y))"
  by (simp add: round_to_mono)

lemma fm_bits_simps [simp]: "fm_bits F32 = 24" "fm_bits F64 = 53"
  by (simp_all add: F32_def F64_def)

subsection \<open>Comparison as an ordering\<close>

lemma fle_iff: "\<not> is_nan a \<Longrightarrow> \<not> is_nan b \<Longrightarrow> fle a b \<longleftrightarrow> float_cmp a b \<noteq> Greater"
  by (cases a; cases b) (auto simp: fle_def float_cmp_def)

interpretation floats: comparator float_cmp "{a. \<not> is_nan a}"
proof unfold_locales
  fix a b d :: float
  assume "a \<in> {a. \<not> is_nan a}" "b \<in> {a. \<not> is_nan a}" "d \<in> {a. \<not> is_nan a}"
    "float_cmp a b \<noteq> Greater" "float_cmp b d \<noteq> Greater"
  then show "float_cmp a d \<noteq> Greater"
    by (cases a; cases b; cases d) (auto simp: float_cmp_def split: if_splits)
next
  fix a b :: float assume "a \<in> {a. \<not> is_nan a}" "b \<in> {a. \<not> is_nan a}"
  then show "(float_cmp a b = Greater) = (float_cmp b a = Less)"
    by (cases a; cases b) (auto simp: float_cmp_def split: if_splits)
next
  fix a :: float assume "a \<in> {a. \<not> is_nan a}"
  then show "float_cmp a a = Equal" by (cases a) (auto simp: float_cmp_def)
qed

lemma float_cmp_Equal: "\<not> is_nan a \<Longrightarrow> \<not> is_nan b \<Longrightarrow> float_cmp a b = Equal \<longleftrightarrow> a = b"
  by (cases a; cases b) (auto simp: float_cmp_def)

text \<open>Sums of numbers that are not negative stay so, and are never NaN.\<close>

fun nonneg :: "float \<Rightarrow> bool" where
  "nonneg NaN = False" | "nonneg (Infinite s) = (\<not> s)" | "nonneg (Finite x) = (0 \<le> x)"

lemma nonneg_not_nan: "nonneg a \<Longrightarrow> \<not> is_nan a"
  by (cases a) auto

lemma nonneg_round_to: "0 \<le> x \<Longrightarrow> nonneg (round_to fm x)"
  using rounded_nonneg [of x fm] by (simp add: round_to_def Let_def)

lemma nonneg_fadd: "nonneg a \<Longrightarrow> nonneg b \<Longrightarrow> nonneg (fadd fm a b)"
  by (cases a; cases b) (auto simp: nonneg_round_to)

lemma nonneg_foldl_fadd: "nonneg a \<Longrightarrow> \<forall>b \<in> set bs. nonneg b \<Longrightarrow> nonneg (foldl (fadd fm) a bs)"
  by (induction bs arbitrary: a) (auto simp: nonneg_fadd)

lemma nonneg_fdiv: "0 \<le> x \<Longrightarrow> 0 < y \<Longrightarrow> nonneg (fdiv fm (Finite x) (Finite y))"
  by (simp add: nonneg_round_to)

subsection \<open>The number one, and integer square roots\<close>

lemma exponent_1: "exponent 1 = 0"
proof (rule antisym)
  have e: "pow2 (exponent 1) \<le> 1" "1 < pow2 (exponent 1 + 1)" using exponent_bounds [of 1] by simp_all
  show "exponent 1 \<le> 0"
    using e(1) power_int_increasing [of 1 "exponent 1" "2 :: rat"] by (cases "exponent 1 \<le> 0") auto
  show "0 \<le> exponent 1"
    using e(2) power_int_increasing [of "exponent 1 + 1" 0 "2 :: rat"] by (cases "0 \<le> exponent 1") auto
qed

lemma round_half_even_numeral: "round_half_even (numeral n) = numeral n"
  using round_half_even_of_int [of "numeral n"] by simp

lemma rounded_1: "rounded F64 1 = 1" "rounded F32 1 = 1"
  by (simp_all add: rounded_def ulp_def exponent_1 F64_def F32_def power_int_minus round_half_even_numeral)

lemma round_to_1: "round_to F64 1 = Finite 1" "round_to F32 1 = Finite 1"
  unfolding round_to_def rounded_1 by (simp_all add: F64_def F32_def)

lemma isqrt_spec: "isqrt n * isqrt n \<le> n \<and> n < (isqrt n + 1) * (isqrt n + 1)"
proof (induction n rule: isqrt.induct)
  case (1 n)
  show ?case
  proof (cases "n = 0")
    case True
    then show ?thesis by (simp add: isqrt.simps)
  next
    case False
    let ?r = "isqrt (n div 4)"
    have quarter: "a \<le> n div 4 \<Longrightarrow> 4 * a \<le> n" "n div 4 < a \<Longrightarrow> n < 4 * a" for a by presburger+
    have "4 * (?r * ?r) \<le> n" "n < 4 * ((?r + 1) * (?r + 1))"
      using 1 [OF False] quarter(1) [of "?r * ?r"] quarter(2) [of "(?r + 1) * (?r + 1)"] by blast+
    with False show ?thesis by (subst (1 2 3 4) isqrt.simps) (auto simp: Let_def algebra_simps)
  qed
qed

lemma isqrt_square: "isqrt (m * m) = m"
proof (rule antisym)
  note s = isqrt_spec [of "m * m"]
  show "isqrt (m * m) \<le> m"
  proof (rule ccontr)
    assume "\<not> isqrt (m * m) \<le> m"
    then have "Suc m * Suc m \<le> isqrt (m * m) * isqrt (m * m)" by (intro mult_le_mono) auto
    with s show False by simp
  qed
  show "m \<le> isqrt (m * m)" using s by (metis Suc_eq_plus1 mult_le_mono not_less not_less_eq_eq)
qed

end
