(* ===== verification/Config.thy ===== *)
theory Config
  imports Discovery Git
begin

text \<open>
  \<open>config.rs\<close> and \<open>paths.rs\<close>: the configuration document, its validation, its conversion to domain
  roots, the operations that edit it, and its life on disk. The TOML, JSON, URL and UUID libraries, the
  home directory and the outcome of each system call are the parameters of \<open>config_env\<close>; what the
  files hold is the state \<open>disk\<close> the operations pass on.
\<close>

subsection \<open>The document\<close>

datatype embedding_provider_config = ProviderNone | ProviderOllama

record embedding_config =
  ec_enabled :: bool
  ec_provider :: embedding_provider_config
  ec_endpoint :: ustring
  ec_model :: ustring
  ec_batch_size :: nat
  ec_request_timeout_seconds :: nat
  ec_keep_alive :: ustring
  ec_truncate :: bool
  ec_dimensions :: nat

record retrieval_config =
  rc_default_limit :: nat
  rc_default_token_budget :: nat
  rc_budgets :: "budget_preset list"

record general_config =
  gc_database_path :: ustring
  gc_log_level :: ustring

record sensitivity_config =
  sn_pattern :: ustring
  sn_scope :: ustring

record root_config =
  ro_id :: ustring
  ro_name :: ustring
  ro_path :: ustring
  ro_include :: "ustring list"
  ro_exclude :: "ustring list"
  ro_sensitivity :: "sensitivity_config list"
  ro_follow_symlinks :: bool
  ro_enabled :: bool

record app_config =
  ac_general :: general_config
  ac_embeddings :: embedding_config
  ac_retrieval :: retrieval_config
  ac_roots :: "root_config list"

record app_paths =
  ap_config_dir :: path
  ap_config_file :: path
  ap_data_dir :: path
  ap_default_database_path :: path
  ap_log_dir :: path

subsection \<open>The outside world\<close>

datatype io_error = IoNotFound ustring | IoOther ustring

fun io_message :: "io_error \<Rightarrow> ustring" where
  "io_message (IoNotFound m) = m" | "io_message (IoOther m) = m"

text \<open>A parsed URL, as far as validation looks at it.\<close>

record url =
  ur_scheme :: ustring
  ur_host :: "ustring option"
  ur_username :: ustring
  ur_password :: "ustring option"
  ur_query :: "ustring option"
  ur_fragment :: "ustring option"

record config_env =
  ce_parse_uuid :: "ustring \<Rightarrow> uuid option" \<comment> \<open>\<open>uuid\<close>\<close>
  ce_uuid_string :: "uuid \<Rightarrow> ustring"
  ce_url_parse :: "ustring \<Rightarrow> url option" \<comment> \<open>\<open>url\<close>\<close>
  ce_toml_parse :: "ustring \<Rightarrow> ustring + app_config" \<comment> \<open>\<open>toml\<close>\<close>
  ce_toml_print :: "app_config \<Rightarrow> ustring + ustring"
  ce_fingerprint_json :: "root \<Rightarrow> ustring" \<comment> \<open>\<open>serde_json\<close>\<close>
  ce_blake3 :: "bytes \<Rightarrow> ustring"
  ce_home :: "path option"
  ce_clock :: int
  ce_fs :: fs
  ce_create_dir_all :: "path \<Rightarrow> ustring option" \<comment> \<open>the error, if it fails\<close>
  ce_write :: "path \<Rightarrow> ustring option"
  ce_set_permissions :: "path \<Rightarrow> ustring option"
  ce_read_failure :: "path \<Rightarrow> ustring option"

type_synonym disk = "path \<Rightarrow> ustring option"

subsection \<open>Defaults\<close>

definition default_embedding_config :: embedding_config where
  "default_embedding_config = \<lparr>ec_enabled = False, ec_provider = ProviderNone, ec_endpoint = [],
     ec_model = [], ec_batch_size = 16, ec_request_timeout_seconds = 60, ec_keep_alive = lit ''5m'',
     ec_truncate = False, ec_dimensions = 0\<rparr>"

definition default_budget_presets :: "budget_preset list" where
  "default_budget_presets =
     [\<lparr>bp_name = lit ''small'', bp_token_budget = 1000, bp_max_results = 4\<rparr>,
      \<lparr>bp_name = lit ''standard'', bp_token_budget = 2000, bp_max_results = 8\<rparr>,
      \<lparr>bp_name = lit ''large'', bp_token_budget = 4000, bp_max_results = 16\<rparr>]"

definition default_retrieval_config :: retrieval_config where
  "default_retrieval_config = \<lparr>rc_default_limit = 8, rc_default_token_budget = 2000,
     rc_budgets = default_budget_presets\<rparr>"

definition default_for :: "app_paths \<Rightarrow> app_config" where
  "default_for paths = \<lparr>
     ac_general = \<lparr>gc_database_path = ap_default_database_path paths, gc_log_level = lit ''info''\<rparr>,
     ac_embeddings = default_embedding_config, ac_retrieval = default_retrieval_config, ac_roots = []\<rparr>"

definition default_include_patterns :: "ustring list" where
  "default_include_patterns = map lit
     [''**/*.md'', ''**/*.markdown'', ''**/*.txt'', ''**/*.text'', ''**/*.rs'', ''**/*.py'', ''**/*.ts'',
      ''**/*.js'', ''**/*.toml'', ''**/*.yaml'', ''**/*.yml'', ''**/*.json'']"

definition budget_preset_named :: "app_config \<Rightarrow> ustring \<Rightarrow> config_error + budget_preset" where
  "budget_preset_named config name =
     ok_or (BudgetPresetNotFound name) (find (\<lambda>p. bp_name p = name) (rc_budgets (ac_retrieval config)))"

subsection \<open>Validation\<close>

definition config_invalid :: "string \<Rightarrow> config_error" where
  "config_invalid m = ConfigInvalid (lit ''config'') (lit m)"

definition invalid_embeddings :: "string \<Rightarrow> config_error" where
  "invalid_embeddings m = ConfigInvalid (lit ''config.embeddings'') (lit m)"

definition validate_endpoint :: "config_env \<Rightarrow> ustring \<Rightarrow> config_error + unit" where
  "validate_endpoint env endpoint =
     (case ce_url_parse env endpoint of
        None \<Rightarrow> Inl (invalid_embeddings ''Ollama endpoint is not a valid URL'')
      | Some u \<Rightarrow>
          if \<not> (ur_scheme u = lit ''http'' \<or> ur_scheme u = lit ''https'') \<or> ur_host u = None
          then Inl (invalid_embeddings ''Ollama endpoint must use HTTP or HTTPS and include a host'')
          else if ur_username u \<noteq> [] \<or> ur_password u \<noteq> None
          then Inl (invalid_embeddings ''Ollama endpoint must not contain credentials'')
          else if ur_query u \<noteq> None \<or> ur_fragment u \<noteq> None
          then Inl (invalid_embeddings ''Ollama endpoint must not contain a query or fragment'')
          else Inr ())"

definition validate_embeddings :: "config_env \<Rightarrow> embedding_config \<Rightarrow> config_error + unit" where
  "validate_embeddings env c =
     (if ec_batch_size c = 0 \<or> ec_batch_size c > 256
      then Inl (invalid_embeddings ''batch_size must be between 1 and 256'')
      else if ec_request_timeout_seconds c = 0 \<or> ec_request_timeout_seconds c > 600
      then Inl (invalid_embeddings ''request_timeout_seconds must be between 1 and 600'')
      else if ec_truncate c
      then Inl (invalid_embeddings ''truncate must remain false; source segments are never silently truncated'')
      else if ec_dimensions c \<noteq> 0 \<and> \<not> (8 \<le> ec_dimensions c \<and> ec_dimensions c \<le> 65536)
      then Inl (invalid_embeddings ''dimensions must be zero or between 8 and 65536'')
      else if \<not> ec_enabled c then
        if ec_provider c \<noteq> ProviderNone \<or> ec_endpoint c \<noteq> [] \<or> ec_model c \<noteq> [] \<or> ec_dimensions c \<noteq> 0
        then Inl (ConfigInvalid (lit ''config.embeddings'')
          (lit ''disabled embeddings require provider '' @ [39] @ lit ''none'' @ [39]
            @ lit '' and empty endpoint/model with dimensions 0''))
        else Inr ()
      else if ec_provider c = ProviderNone
      then Inl (invalid_embeddings ''enabled embeddings require an explicit provider'')
      else if trim (ec_model c) = [] then Inl (invalid_embeddings ''Ollama model must not be empty'')
      else if trim (ec_endpoint c) = [] then Inl (invalid_embeddings ''Ollama endpoint must not be empty'')
      else validate_endpoint env (ec_endpoint c))"

fun validate_presets :: "ustring list \<Rightarrow> budget_preset list \<Rightarrow> config_error + unit" where
  "validate_presets names [] = Inr ()"
| "validate_presets names (p # ps) =
     (if trim (bp_name p) = [] then Inl (config_invalid ''budget preset name must not be empty'')
      else if bp_token_budget p = 0 \<or> bp_max_results p = 0
      then Inl (ConfigInvalid (lit ''config'')
        (lit ''budget preset '' @ [39] @ bp_name p @ [39] @ lit '' must use non-zero values''))
      else if bp_name p \<in> set names
      then Inl (ConfigInvalid (lit ''config'') (lit ''duplicate budget preset '' @ [39] @ bp_name p @ [39]))
      else validate_presets (names @ [bp_name p]) ps)"

definition from_str_cfg :: "ustring \<Rightarrow> config_error + sensitivity_scope" where
  "from_str_cfg v = map_err (\<lambda>_. ConfigInvalid (lit ''config'')
     (lit ''invalid sensitivity scope '' @ [39] @ v @ [39])) (sensitivity_scope_from_str v)"

fun validate_tags :: "sensitivity_config list \<Rightarrow> config_error + unit" where
  "validate_tags [] = Inr ()"
| "validate_tags (t # ts) = try_bind (from_str_cfg (sn_scope t)) (\<lambda>_. validate_tags ts)"

definition parse_root_id :: "config_env \<Rightarrow> ustring \<Rightarrow> config_error + uuid" where
  "parse_root_id env i = ok_or (ConfigInvalid (lit ''config'') (lit ''invalid root id '' @ [39] @ i @ [39]))
     (ce_parse_uuid env i)"

fun validate_roots ::
    "config_env \<Rightarrow> ustring list \<Rightarrow> ustring list \<Rightarrow> root_config list \<Rightarrow> config_error + unit" where
  "validate_roots env names paths [] = Inr ()"
| "validate_roots env names paths (r # rs) =
     try_bind (parse_root_id env (ro_id r)) (\<lambda>_.
     if trim (ro_name r) = [] then Inl (config_invalid ''root name must not be empty'')
     else if ro_name r \<in> set names then Inl (DuplicateRootName (ro_name r))
     else if ro_path r \<in> set paths then Inl (DuplicateRootPath (ro_path r))
     else try_bind (validate_tags (ro_sensitivity r)) (\<lambda>_.
       validate_roots env (names @ [ro_name r]) (paths @ [ro_path r]) rs))"

definition validate_config :: "config_env \<Rightarrow> app_config \<Rightarrow> config_error + unit" where
  "validate_config env c =
     try_bind (validate_embeddings env (ac_embeddings c)) (\<lambda>_.
     if rc_default_limit (ac_retrieval c) = 0 \<or> rc_default_token_budget (ac_retrieval c) = 0
     then Inl (config_invalid ''retrieval defaults must be greater than zero'')
     else try_bind (validate_presets [] (rc_budgets (ac_retrieval c))) (\<lambda>_.
       validate_roots env [] [] (ac_roots c)))"

subsection \<open>Domain roots\<close>

definition config_fingerprint :: "config_env \<Rightarrow> root \<Rightarrow> ustring" where
  "config_fingerprint env root = blake3_hex (ce_blake3 env) (as_bytes (ce_fingerprint_json env root))"

fun to_tags :: "sensitivity_config list \<Rightarrow> config_error + sensitivity_tag list" where
  "to_tags [] = Inr []"
| "to_tags (t # ts) =
     try_bind (from_str_cfg (sn_scope t)) (\<lambda>scope.
     try_bind (to_tags ts) (\<lambda>tags. Inr (\<lparr>tag_pattern = sn_pattern t, tag_scope = scope\<rparr> # tags)))"

definition to_domain :: "config_env \<Rightarrow> root_config \<Rightarrow> config_error + root" where
  "to_domain env r =
     try_bind (parse_root_id env (ro_id r)) (\<lambda>i.
     try_bind (to_tags (ro_sensitivity r)) (\<lambda>tags.
       let t = (case try_from_system_time (ce_clock env) of Inr t \<Rightarrow> t | Inl _ \<Rightarrow> 0);
           root = \<lparr>rt_id = i, rt_canonical_path = ro_path r, rt_display_name = ro_name r,
             rt_include_patterns = ro_include r, rt_exclude_patterns = ro_exclude r,
             rt_sensitivity_tags = tags, rt_follow_symlinks = ro_follow_symlinks r,
             rt_enabled = ro_enabled r, rt_created_at = t, rt_updated_at = t,
             rt_config_fingerprint = []\<rparr>
       in Inr (root\<lparr>rt_config_fingerprint := config_fingerprint env root\<rparr>)))"

fun to_domains :: "config_env \<Rightarrow> root_config list \<Rightarrow> config_error + root list" where
  "to_domains env [] = Inr []"
| "to_domains env (r # rs) = try_bind (to_domain env r) (\<lambda>d. try_bind (to_domains env rs) (\<lambda>ds. Inr (d # ds)))"

definition domain_roots :: "config_env \<Rightarrow> app_config \<Rightarrow> config_error + root list" where
  "domain_roots env config = to_domains env (ac_roots config)"

definition find_root :: "app_config \<Rightarrow> ustring \<Rightarrow> root_config option" where
  "find_root config i = find (\<lambda>r. ro_id r = i) (ac_roots config)"

subsection \<open>Editing\<close>

definition new_approved :: "config_env \<Rightarrow> uuid \<Rightarrow> ustring \<Rightarrow> path \<Rightarrow> root_config" where
  "new_approved env i name canonical =
     \<lparr>ro_id = ce_uuid_string env i, ro_name = name, ro_path = canonical,
      ro_include = default_include_patterns, ro_exclude = default_exclude_patterns,
      ro_sensitivity = [], ro_follow_symlinks = False, ro_enabled = True\<rparr>"

text \<open>The configuration left behind is part of the result: it is edited in place.\<close>

definition add_root ::
    "config_env \<Rightarrow> uuid \<Rightarrow> app_config \<Rightarrow> path \<Rightarrow> ustring option
      \<Rightarrow> (config_error + root_config) \<times> app_config" where
  "add_root env new_id config path name =
     (if \<not> fs_exists (ce_fs env) path then (Inl (MissingPath path), config)
      else case fs_metadata (ce_fs env) path of
          Inl e \<Rightarrow> (Inl (ConfigIo path e), config)
        | Inr metadata \<Rightarrow>
      if m_kind metadata \<noteq> Directory then (Inl (NotDirectory path), config)
      else case fs_canonicalize (ce_fs env) path of
          Inl e \<Rightarrow> (Inl (ConfigIo path e), config)
        | Inr canonical \<Rightarrow>
      if \<exists>r \<in> set (ac_roots config). ro_path r = canonical
      then (Inl (DuplicateRootPath canonical), config)
      else let display_name = (case name of Some n \<Rightarrow> n
             | None \<Rightarrow> (case file_name canonical of
                  Some f \<Rightarrow> if f \<noteq> [] then f else lit ''root'' | None \<Rightarrow> lit ''root''))
      in if \<exists>r \<in> set (ac_roots config). ro_name r = display_name
      then (Inl (DuplicateRootName display_name), config)
      else let entry = new_approved env new_id display_name canonical;
               config = config\<lparr>ac_roots := ac_roots config @ [entry]\<rparr>
           in (map_sum id (\<lambda>_. entry) (validate_config env config), config))"

fun remove_first :: "('a \<Rightarrow> bool) \<Rightarrow> 'a list \<Rightarrow> 'a list" where
  "remove_first P [] = []"
| "remove_first P (x # xs) = (if P x then xs else x # remove_first P xs)"

definition remove_root :: "app_config \<Rightarrow> ustring \<Rightarrow> (config_error + root_config) \<times> app_config" where
  "remove_root config i =
     (case find (\<lambda>r. ro_id r = i) (ac_roots config) of
        None \<Rightarrow> (Inl (RootNotFound i), config)
      | Some r \<Rightarrow> (Inr r, config\<lparr>ac_roots := remove_first (\<lambda>r. ro_id r = i) (ac_roots config)\<rparr>))"

subsection \<open>On disk\<close>

definition sys :: "(path \<Rightarrow> ustring option) \<Rightarrow> path \<Rightarrow> config_error + unit" where
  "sys outcome p = (case outcome p of None \<Rightarrow> Inr () | Some m \<Rightarrow> Inl (ConfigIo p m))"

definition restrict_permissions :: "config_env \<Rightarrow> path \<Rightarrow> config_error + unit" where
  "restrict_permissions env p = sys (ce_set_permissions env) p"

definition create_private_dir :: "config_env \<Rightarrow> path \<Rightarrow> config_error + unit" where
  "create_private_dir env p =
     try_bind (sys (ce_create_dir_all env) p) (\<lambda>_. restrict_permissions env p)"

definition for_base :: "path \<Rightarrow> app_paths" where
  "for_base base =
     (let config_dir = path_join base (lit ''config''); data_dir = path_join base (lit ''data'')
      in \<lparr>ap_config_dir = config_dir, ap_config_file = path_join config_dir (lit ''config.toml''),
          ap_data_dir = data_dir, ap_default_database_path = path_join data_dir (lit ''index.sqlite3''),
          ap_log_dir = path_join data_dir (lit ''logs'')\<rparr>)"

text \<open>The platform directories, for configuration and for data, come from the \<open>directories\<close> crate.\<close>

definition from_project_dirs :: "path \<times> path \<Rightarrow> app_paths" where
  "from_project_dirs dirs =
     (case dirs of (config_dir, data_dir) \<Rightarrow>
        \<lparr>ap_config_dir = config_dir, ap_config_file = path_join config_dir (lit ''config.toml''),
          ap_data_dir = data_dir, ap_default_database_path = path_join data_dir (lit ''index.sqlite3''),
          ap_log_dir = path_join data_dir (lit ''logs'')\<rparr>)"

definition discover :: "(path \<times> path) option \<Rightarrow> config_error + app_paths" where
  "discover dirs = map_sum id from_project_dirs (ok_or PathsUnavailable dirs)"

definition ensure_layout :: "config_env \<Rightarrow> app_paths \<Rightarrow> config_error + unit" where
  "ensure_layout env paths =
     try_bind (create_private_dir env (ap_config_dir paths)) (\<lambda>_.
     try_bind (create_private_dir env (ap_data_dir paths)) (\<lambda>_.
       create_private_dir env (ap_log_dir paths)))"

definition expand_user_path :: "config_env \<Rightarrow> ustring \<Rightarrow> config_error + path" where
  "expand_user_path env input =
     (case strip_prefix (lit ''~/'') input of
        Some rest \<Rightarrow> map_sum id (\<lambda>home. path_join home rest) (ok_or HomeUnavailable (ce_home env))
      | None \<Rightarrow> if input = lit ''~'' then ok_or HomeUnavailable (ce_home env) else Inr input)"

definition database_path :: "config_env \<Rightarrow> app_config \<Rightarrow> config_error + path" where
  "database_path env config = expand_user_path env (gc_database_path (ac_general config))"

text \<open>\<open>fs::read_to_string\<close>: a file that is not there is told apart from one that cannot be read.\<close>

definition read_to_string :: "config_env \<Rightarrow> disk \<Rightarrow> path \<Rightarrow> io_error + ustring" where
  "read_to_string env disk p =
     (case ce_read_failure env p of
        Some m \<Rightarrow> Inl (IoOther m)
      | None \<Rightarrow> (case disk p of None \<Rightarrow> Inl (IoNotFound (lit ''not found'')) | Some text \<Rightarrow> Inr text))"

definition load_config :: "config_env \<Rightarrow> disk \<Rightarrow> path \<Rightarrow> config_error + app_config" where
  "load_config env disk path =
     (case read_to_string env disk path of
        Inl (IoNotFound _) \<Rightarrow> Inl (ConfigMissing path)
      | Inl (IoOther m) \<Rightarrow> Inl (ConfigIo path m)
      | Inr text \<Rightarrow>
          (case ce_toml_parse env text of
             Inl message \<Rightarrow> Inl (if contains (lit ''unknown field'') message then UnknownField message
                               else ConfigInvalid path message)
           | Inr config \<Rightarrow> try_bind (validate_config env config) (\<lambda>_. Inr config)))"

definition path_parent :: "path \<Rightarrow> path option" where
  "path_parent p = (if components p = [] \<or> components p = [RootDir] then None
     else Some (case butlast (components p) of
         RootDir # cs \<Rightarrow> slash # path_of_components cs | cs \<Rightarrow> path_of_components cs))"

definition save_config :: "config_env \<Rightarrow> app_config \<Rightarrow> path \<Rightarrow> disk \<Rightarrow> (config_error + unit) \<times> disk" where
  "save_config env config path disk =
     (case try_bind (validate_config env config) (\<lambda>_.
           try_bind (case path_parent path of None \<Rightarrow> Inr () | Some parent \<Rightarrow> sys (ce_create_dir_all env) parent) (\<lambda>_.
             map_err (ConfigInvalid path) (ce_toml_print env config))) of
        Inl e \<Rightarrow> (Inl e, disk)
      | Inr text \<Rightarrow>
          (case ce_write env path of
             Some m \<Rightarrow> (Inl (ConfigIo path m), disk)
           | None \<Rightarrow> (restrict_permissions env path, disk(path \<mapsto> text))))"

definition init_installation ::
    "config_env \<Rightarrow> app_paths \<Rightarrow> disk \<Rightarrow> (config_error + app_config \<times> bool) \<times> disk" where
  "init_installation env paths disk =
     (case ensure_layout env paths of
        Inl e \<Rightarrow> (Inl e, disk)
      | Inr _ \<Rightarrow>
          if disk (ap_config_file paths) \<noteq> None
          then (map_sum id (\<lambda>config. (config, False)) (load_config env disk (ap_config_file paths)), disk)
          else (case save_config env (default_for paths) (ap_config_file paths) disk of
                  (Inl e, disk) \<Rightarrow> (Inl e, disk)
                | (Inr _, disk) \<Rightarrow> (Inr (default_for paths, True), disk)))"

end
