(* ===== verification/Embedding.thy ===== *)
theory Embedding
  imports Floats Config Storage
begin

text \<open>
  \<open>embedding.rs\<close>: embedding spaces and their identity, L2 normalisation, the byte encoding of vectors,
  the provider contract, and the Ollama provider over HTTP, whose transport and JSON codec are
  parameters.
\<close>

definition EMBEDDING_INPUT_CONTRACT_VERSION :: ustring where
  "EMBEDDING_INPUT_CONTRACT_VERSION = lit ''segment-text-v1''"

definition QUERY_EMBEDDING_INPUT_CONTRACT_VERSION :: ustring where
  "QUERY_EMBEDDING_INPUT_CONTRACT_VERSION = lit ''query-text-v1''"

datatype provider_kind = KindNone | KindOllama

fun provider_kind_display :: "provider_kind \<Rightarrow> ustring" where
  "provider_kind_display KindNone = lit ''none''"
| "provider_kind_display KindOllama = lit ''ollama''"

record resolved_model =
  rm_provider :: provider_kind
  rm_configured_name :: ustring
  rm_canonical_name :: ustring
  rm_model_digest :: ustring
  rm_dimensions :: "nat option"

datatype vector_normalization = L2

fun vector_normalization_display :: "vector_normalization \<Rightarrow> ustring" where
  "vector_normalization_display L2 = lit ''l2''"

record embedding_space =
  sp_id :: ustring
  sp_provider :: provider_kind
  sp_canonical_model :: ustring
  sp_model_digest :: ustring
  sp_dimensions :: nat
  sp_normalization :: vector_normalization
  sp_input_contract_version :: ustring

definition space_payload :: "resolved_model \<Rightarrow> nat \<Rightarrow> ustring" where
  "space_payload model dimensions =
     lit ''provider='' @ provider_kind_display (rm_provider model) @ [10]
     @ lit ''model='' @ rm_canonical_name model @ [10]
     @ lit ''digest='' @ rm_model_digest model @ [10]
     @ lit ''dimensions='' @ show_nat dimensions @ [10]
     @ lit ''normalization='' @ vector_normalization_display L2 @ [10]
     @ lit ''input_contract='' @ EMBEDDING_INPUT_CONTRACT_VERSION @ [10]"

definition new_space :: "(bytes \<Rightarrow> ustring) \<Rightarrow> resolved_model \<Rightarrow> nat \<Rightarrow> embedding_space" where
  "new_space blake3 model dimensions =
     \<lparr>sp_id = lit ''es_'' @ blake3_hex blake3 (as_bytes (space_payload model dimensions)),
      sp_provider = rm_provider model, sp_canonical_model = rm_canonical_name model,
      sp_model_digest = rm_model_digest model, sp_dimensions = dimensions, sp_normalization = L2,
      sp_input_contract_version = EMBEDDING_INPUT_CONTRACT_VERSION\<rparr>"

datatype input_purpose = SegmentInput | QueryInput

record embedding_input =
  ei_text_hash :: content_hash
  ei_text :: ustring
  ei_purpose :: input_purpose

definition segment_input :: "content_hash \<Rightarrow> ustring \<Rightarrow> embedding_input" where
  "segment_input h t = \<lparr>ei_text_hash = h, ei_text = t, ei_purpose = SegmentInput\<rparr>"

definition query_input :: "ustring \<Rightarrow> embedding_input" where
  "query_input t = \<lparr>ei_text_hash = QUERY_EMBEDDING_INPUT_CONTRACT_VERSION, ei_text = t, ei_purpose = QueryInput\<rparr>"

type_synonym vector = "float list"

datatype embedding_error =
  EmbeddingUnavailable | FeatureDisabled | ModelNotFound | ModelChanged | EmbeddingFailed ustring
| ResponseInvalid ustring | DimensionMismatch nat nat | VectorInvalid ustring | CacheCorrupt ustring

fun embedding_error_code :: "embedding_error \<Rightarrow> ustring" where
  "embedding_error_code EmbeddingUnavailable = lit ''EMBEDDING_UNAVAILABLE''"
| "embedding_error_code FeatureDisabled = lit ''EMBEDDING_FEATURE_DISABLED''"
| "embedding_error_code ModelNotFound = lit ''EMBEDDING_MODEL_NOT_FOUND''"
| "embedding_error_code ModelChanged = lit ''EMBEDDING_MODEL_CHANGED''"
| "embedding_error_code (EmbeddingFailed _) = lit ''EMBEDDING_FAILED''"
| "embedding_error_code (ResponseInvalid _) = lit ''EMBEDDING_RESPONSE_INVALID''"
| "embedding_error_code (DimensionMismatch _ _) = lit ''EMBEDDING_DIMENSION_MISMATCH''"
| "embedding_error_code (VectorInvalid _) = lit ''EMBEDDING_VECTOR_INVALID''"
| "embedding_error_code (CacheCorrupt _) = lit ''EMBEDDING_CACHE_CORRUPT''"

fun embedding_error_detail :: "embedding_error \<Rightarrow> ustring" where
  "embedding_error_detail EmbeddingUnavailable = lit ''embeddings are disabled''"
| "embedding_error_detail FeatureDisabled = lit ''this build does not include Ollama support''"
| "embedding_error_detail ModelNotFound = lit ''configured model was not reported by Ollama''"
| "embedding_error_detail ModelChanged = lit ''resolved model compatibility changed''"
| "embedding_error_detail (EmbeddingFailed m) = m"
| "embedding_error_detail (ResponseInvalid m) = m"
| "embedding_error_detail (DimensionMismatch e a) =
     lit ''expected '' @ show_nat e @ lit '', received '' @ show_nat a"
| "embedding_error_detail (VectorInvalid m) = m"
| "embedding_error_detail (CacheCorrupt m) = m"

definition embedding_error_display :: "embedding_error \<Rightarrow> ustring" where
  "embedding_error_display e = embedding_error_code e @ lit '': '' @ embedding_error_detail e"

fun systemic :: "embedding_error \<Rightarrow> bool" where
  "systemic EmbeddingUnavailable = True"
| "systemic FeatureDisabled = True"
| "systemic ModelNotFound = True"
| "systemic ModelChanged = True"
| "systemic (EmbeddingFailed _) = True"
| "systemic _ = False"

text \<open>A provider; each call may be answered differently, so the number of the call is an argument.\<close>

record provider =
  pv_kind :: provider_kind
  pv_resolve_model :: "nat \<Rightarrow> embedding_error + resolved_model"
  pv_embed :: "nat \<Rightarrow> embedding_input list \<Rightarrow> resolved_model \<Rightarrow> embedding_error + vector list"

definition disabled_provider :: provider where
  "disabled_provider = \<lparr>pv_kind = KindNone, pv_resolve_model = (\<lambda>_. Inl EmbeddingUnavailable),
     pv_embed = (\<lambda>_ _ _. Inl EmbeddingUnavailable)\<rparr>"

subsection \<open>Normalisation\<close>

definition norm_sq :: "vector \<Rightarrow> float" where
  "norm_sq values = fsum F64 (map (\<lambda>v. fmul F64 (fcast F64 v) (fcast F64 v)) values)"

definition F64_EPSILON :: float where "F64_EPSILON = Finite (1 / 2 ^ 52)"

definition normalize_vector :: "vector \<Rightarrow> embedding_error + vector" where
  "normalize_vector values =
     (if values = [] then Inl (VectorInvalid (lit ''empty vector''))
      else if \<exists>v \<in> set values. \<not> is_finite v then Inl (VectorInvalid (lit ''non-finite component''))
      else let sq = norm_sq values
      in if \<not> is_finite sq \<or> fle sq F64_EPSILON then Inl (VectorInvalid (lit ''zero or invalid norm''))
      else let norm = fsqrt F64 sq;
               normalized = map (\<lambda>v. fcast F32 (fdiv F64 (fcast F64 v) norm)) values
      in if \<exists>v \<in> set normalized. \<not> is_finite v
         then Inl (VectorInvalid (lit ''normalization produced non-finite data''))
         else Inr normalized)"

definition validate_normalized_vector :: "vector \<Rightarrow> embedding_error + unit" where
  "validate_normalized_vector values =
     (if values = [] then Inl (CacheCorrupt (lit ''empty vector''))
      else if \<exists>v \<in> set values. \<not> is_finite v
      then Inl (CacheCorrupt (lit ''vector contains a non-finite component''))
      else let sq = norm_sq values
      in if \<not> is_finite sq \<or> fle sq F64_EPSILON
         then Inl (CacheCorrupt (lit ''vector has zero or invalid norm''))
         else if flt (round_to F64 (1 / 10000)) (fabs (fadd F64 sq (Finite (-1))))
         then Inl (CacheCorrupt (lit ''vector is not L2 normalized''))
         else Inr ())"

subsection \<open>Bytes\<close>

definition encode_vector :: "vector \<Rightarrow> nat \<Rightarrow> embedding_error + bytes" where
  "encode_vector values dimensions =
     (if length values \<noteq> dimensions then Inl (DimensionMismatch dimensions (length values mod 2 ^ 32))
      else map_sum id (\<lambda>normalized. concat (map to_le_bytes normalized)) (normalize_vector values))"

fun chunks_exact4 :: "bytes \<Rightarrow> bytes list" where
  "chunks_exact4 (a # b # c # d # rest) = [a, b, c, d] # chunks_exact4 rest"
| "chunks_exact4 _ = []"

definition decode_vector :: "bytes \<Rightarrow> nat \<Rightarrow> embedding_error + vector" where
  "decode_vector bytes dimensions =
     (if length bytes \<noteq> dimensions * 4
      then Inl (CacheCorrupt (lit ''expected '' @ show_nat (dimensions * 4) @ lit '' vector bytes, found ''
        @ show_nat (length bytes)))
      else let values = map from_le_bytes (chunks_exact4 bytes)
           in map_sum id (\<lambda>_. values) (validate_normalized_vector values))"

subsection \<open>The Ollama provider\<close>

text \<open>
  \<open>mod ollama\<close>. The HTTP agent, the URL library and the JSON codec are the parameters of \<open>ollama_env\<close>:
  a request is answered by its number, with the text of the transport error or a response, whose body
  is read under a byte limit.
\<close>

definition MAX_RESPONSE_BYTES :: nat where "MAX_RESPONSE_BYTES = 32 * 1024 * 1024"

record http_response =
  hr_status :: nat
  hr_read :: "nat \<Rightarrow> ustring + bytes" \<comment> \<open>the body, read under this limit\<close>

record tag_model =
  tm_name :: ustring
  tm_model :: ustring
  tm_digest :: ustring

record embed_response =
  er_model :: ustring
  er_embeddings :: "vector list"

record embed_request =
  eq_model :: ustring
  eq_input :: "ustring list"
  eq_truncate :: bool
  eq_keep_alive :: "ustring option"
  eq_dimensions :: "nat option"

record ollama_env =
  oe_url :: "ustring \<Rightarrow> ustring \<Rightarrow> ustring option" \<comment> \<open>the endpoint with this path, no query or fragment\<close>
  oe_get :: "nat \<Rightarrow> ustring \<Rightarrow> ustring + http_response"
  oe_post :: "nat \<Rightarrow> ustring \<Rightarrow> bytes \<Rightarrow> ustring + http_response"
  oe_tags_json :: "bytes \<Rightarrow> tag_model list option"
  oe_embed_json :: "bytes \<Rightarrow> embed_response option"
  oe_request_json :: "embed_request \<Rightarrow> bytes option"

definition provider_url :: "ollama_env \<Rightarrow> embedding_config \<Rightarrow> ustring \<Rightarrow> embedding_error + ustring" where
  "provider_url env config path =
     ok_or (EmbeddingFailed (lit ''configured endpoint is invalid'')) (oe_url env (ec_endpoint config) path)"

definition read_json :: "(bytes \<Rightarrow> 'a option) \<Rightarrow> http_response \<Rightarrow> embedding_error + 'a" where
  "read_json parse response =
     (if \<not> (200 \<le> hr_status response \<and> hr_status response < 300)
      then Inl (EmbeddingFailed (lit ''Ollama returned HTTP '' @ show_nat (hr_status response)))
      else try_bind (map_err (\<lambda>e. ResponseInvalid (lit ''bounded response read failed: '' @ e))
             (hr_read response MAX_RESPONSE_BYTES)) (\<lambda>bytes.
        ok_or (ResponseInvalid (lit ''malformed JSON response'')) (parse bytes)))"

definition ollama_resolve_model ::
    "ollama_env \<Rightarrow> embedding_config \<Rightarrow> nat \<Rightarrow> embedding_error + resolved_model" where
  "ollama_resolve_model env config n =
     try_bind (provider_url env config (lit ''/api/tags'')) (\<lambda>url.
     try_bind (map_err (\<lambda>e. EmbeddingFailed (lit ''Ollama model discovery failed: '' @ e)) (oe_get env n url)) (\<lambda>response.
     try_bind (read_json (oe_tags_json env) response) (\<lambda>models.
       let configured = ec_model config;
           implicit_latest = (if 58 \<in> set configured then configured else configured @ lit '':latest'')
       in try_bind (ok_or ModelNotFound (find (\<lambda>item.
              tm_name item = configured \<or> tm_model item = configured
              \<or> tm_name item = implicit_latest \<or> tm_model item = implicit_latest) models)) (\<lambda>found.
          if trim (tm_digest found) = [] then Inl (ResponseInvalid (lit ''model digest is empty''))
          else Inr \<lparr>rm_provider = KindOllama, rm_configured_name = configured,
            rm_canonical_name = (if tm_model found = [] then tm_name found else tm_model found),
            rm_model_digest = tm_digest found,
            rm_dimensions = (if ec_dimensions config \<noteq> 0 then Some (ec_dimensions config) else None)\<rparr>))))"

fun normalize_all :: "vector list \<Rightarrow> embedding_error + vector list" where
  "normalize_all [] = Inr []"
| "normalize_all (v # vs) = try_bind (normalize_vector v) (\<lambda>n. try_bind (normalize_all vs) (\<lambda>ns. Inr (n # ns)))"

definition embed_request_of :: "embedding_config \<Rightarrow> embedding_input list \<Rightarrow> embed_request" where
  "embed_request_of config inputs =
     \<lparr>eq_model = ec_model config, eq_input = map ei_text inputs, eq_truncate = False,
      eq_keep_alive = (if ec_keep_alive config \<noteq> [] then Some (ec_keep_alive config) else None),
      eq_dimensions = (if ec_dimensions config \<noteq> 0 then Some (ec_dimensions config) else None)\<rparr>"

text \<open>The checks on a parsed answer.\<close>

definition accept_response ::
    "embedding_input list \<Rightarrow> resolved_model \<Rightarrow> embed_response \<Rightarrow> embedding_error + vector list" where
  "accept_response inputs model response =
     (if er_model response \<noteq> [] \<and> er_model response \<noteq> rm_configured_name model
         \<and> er_model response \<noteq> rm_canonical_name model
      then Inl (ResponseInvalid (lit ''returned model is incompatible with resolved model''))
      else if length (er_embeddings response) \<noteq> length inputs
      then Inl (ResponseInvalid (lit ''vector count differs from input count''))
      else let dimensions = (case er_embeddings response of [] \<Rightarrow> 0 | v # _ \<Rightarrow> length v) mod 2 ^ 32
      in if dimensions = 0 \<or> (\<exists>v \<in> set (er_embeddings response). length v mod 2 ^ 32 \<noteq> dimensions)
         then Inl (ResponseInvalid (lit ''vectors are empty or dimensions are inconsistent''))
         else if rm_dimensions model \<noteq> None \<and> rm_dimensions model \<noteq> Some dimensions
         then Inl (DimensionMismatch (the (rm_dimensions model)) dimensions)
         else normalize_all (er_embeddings response))"

definition ollama_embed ::
    "ollama_env \<Rightarrow> embedding_config \<Rightarrow> nat \<Rightarrow> embedding_input list \<Rightarrow> resolved_model
      \<Rightarrow> embedding_error + vector list" where
  "ollama_embed env config n inputs model =
     (if inputs = [] \<or> length inputs > ec_batch_size config
      then Inl (EmbeddingFailed (lit ''embedding batch is empty or exceeds configured batch size''))
      else try_bind (ok_or (EmbeddingFailed (lit ''request serialization failed''))
             (oe_request_json env (embed_request_of config inputs))) (\<lambda>body.
           try_bind (provider_url env config (lit ''/api/embed'')) (\<lambda>url.
           try_bind (map_err (\<lambda>e. EmbeddingFailed (lit ''Ollama embedding request failed: '' @ e))
             (oe_post env n url body)) (\<lambda>response.
           try_bind (read_json (oe_embed_json env) response) (accept_response inputs model)))))"

definition ollama_provider :: "ollama_env \<Rightarrow> embedding_config \<Rightarrow> provider" where
  "ollama_provider env config = \<lparr>pv_kind = KindOllama,
     pv_resolve_model = ollama_resolve_model env config, pv_embed = ollama_embed env config\<rparr>"

text \<open>The feature \<open>embeddings-ollama\<close>: present, with its environment, or compiled out.\<close>

definition configured_provider :: "ollama_env option \<Rightarrow> embedding_config \<Rightarrow> embedding_error + provider" where
  "configured_provider feature config =
     (if \<not> ec_enabled config then Inl EmbeddingUnavailable
      else case feature of Some env \<Rightarrow> Inr (ollama_provider env config) | None \<Rightarrow> Inl FeatureDisabled)"

definition diagnose_provider ::
    "ollama_env option \<Rightarrow> embedding_config \<Rightarrow> nat \<Rightarrow> embedding_error + resolved_model option" where
  "diagnose_provider feature config n =
     (if \<not> ec_enabled config then Inr None
      else case feature of
          Some env \<Rightarrow> map_sum id Some (ollama_resolve_model env config n)
        | None \<Rightarrow> Inl FeatureDisabled)"

subsection \<open>What the operations promise\<close>

lemma normalize_all_Inr:
  "normalize_all vs = Inr ns \<longleftrightarrow> list_all2 (\<lambda>v n. normalize_vector v = Inr n) vs ns"
proof (induction vs arbitrary: ns)
  case (Cons v vs)
  then show ?case by (cases ns) auto
qed auto

lemma normalize_vector_Inr:
  assumes "normalize_vector v = Inr n"
  shows "v \<noteq> []" "length n = length v" "\<forall>x \<in> set n. is_finite x" "\<forall>x \<in> set v. is_finite x"
  using assms by (auto simp: normalize_vector_def Let_def split: if_splits)

lemma normalized_all_wf:
  "normalize_all vs = Inr ns \<Longrightarrow> \<forall>v \<in> set ns. v \<noteq> [] \<and> (\<forall>x \<in> set v. is_finite x)"
proof (induction vs arbitrary: ns)
  case (Cons v vs)
  then show ?case using normalize_vector_Inr [of v] by fastforce
qed simp

lemma length_chunks_exact4: "length (chunks_exact4 bs) = length bs div 4"
proof (induction bs rule: chunks_exact4.induct)
  case (1 a b c d rest)
  have "(length rest + 4) div 4 = Suc (length rest div 4)" by simp
  then show ?case using 1 by (simp add: add.commute)
qed simp_all

lemma decode_vector_length: "decode_vector bytes d = Inr v \<Longrightarrow> length v = d"
  by (cases "validate_normalized_vector (map from_le_bytes (chunks_exact4 bytes))")
    (auto simp: decode_vector_def length_chunks_exact4 Let_def split: if_splits)

lemma ollama_embed_Inr:
  assumes "ollama_embed env config n inputs model = Inr vectors"
  shows "inputs \<noteq> []" "length inputs \<le> ec_batch_size config" "length vectors = length inputs"
    "\<forall>v \<in> set vectors. v \<noteq> [] \<and> (\<forall>x \<in> set v. is_finite x)"
proof -
  from assms obtain r where r: "accept_response inputs model r = Inr vectors"
    and i: "inputs \<noteq> []" "length inputs \<le> ec_batch_size config"
    by (auto simp: ollama_embed_def split: if_splits)
  then show "inputs \<noteq> []" "length inputs \<le> ec_batch_size config" by auto
  from r have n: "normalize_all (er_embeddings r) = Inr vectors" and "length (er_embeddings r) = length inputs"
    by (auto simp: accept_response_def Let_def split: if_splits)
  then show "length vectors = length inputs" by (auto simp: normalize_all_Inr dest: list_all2_lengthD)
  from n show "\<forall>v \<in> set vectors. v \<noteq> [] \<and> (\<forall>x \<in> set v. is_finite x)"
    by (rule normalized_all_wf)
qed

end
