(* ===== verification/Snapshots.thy ===== *)
theory Snapshots
  imports Config Storage
begin

text \<open>
  The parts of \<open>snapshot.rs\<close> that retrieval relies on: the payload database of a snapshot and the
  mapped sources a query may consult. A payload comes from another installation, so its columns are
  plain text here and are decoded where the code decodes them.
\<close>

subsection \<open>The payload database\<close>

record payload_root =
  pr_id :: ustring
  pr_display_name :: ustring

record payload_source =
  ps_id :: ustring
  ps_root_id :: ustring
  ps_relative_path :: path
  ps_file_type :: ustring
  ps_current_revision_id :: "ustring option"
  ps_state :: ustring

record payload_revision =
  pv_id :: ustring
  pv_source_file_id :: ustring
  pv_content_hash :: ustring
  pv_parser_id :: ustring
  pv_parser_version :: ustring
  pv_status :: ustring

record payload_segment =
  pg_id :: ustring
  pg_revision_id :: ustring
  pg_segment_type :: ustring
  pg_anchor :: ustring
  pg_ordinal :: int
  pg_text :: ustring
  pg_text_hash :: ustring

record payload_fts =
  pf_text :: ustring
  pf_segment_id :: ustring
  pf_revision_id :: ustring
  pf_source_file_id :: ustring
  pf_root_id :: ustring
  pf_relative_path :: path
  pf_anchor :: ustring

record payload =
  pd_roots :: "payload_root list"
  pd_source_files :: "payload_source list"
  pd_revisions :: "payload_revision list"
  pd_segments :: "payload_segment list"
  pd_segments_fts :: "payload_fts list"

subsection \<open>Sources for a query\<close>

record snapshot_source =
  ss_snapshot_id :: ustring
  ss_snapshot_root_id :: ustring
  ss_local_root_id :: uuid
  ss_payload_path :: path

text \<open>\<open>Path::is_file\<close> follows links and answers false on any error.\<close>

definition is_file :: "fs \<Rightarrow> path \<Rightarrow> bool" where
  "is_file fs p = (case fs_metadata fs p of Inr m \<Rightarrow> m_kind m = RegularFile | Inl _ \<Rightarrow> False)"

definition open_snapshot_readonly :: "(path \<Rightarrow> ustring + 'a) \<Rightarrow> path \<Rightarrow> config_error + 'a" where
  "open_snapshot_readonly opens p = map_err (ConfigIo p) (opens p)"

text \<open>The join of the two registry tables in its order.\<close>

definition mapped_rows :: "db \<Rightarrow> (snapshot_row \<times> snapshot_root_map) list" where
  "mapped_rows db =
     sort_by (\<lambda>(s, m) (t, n). then_with (cmp (sr_imported_at_ms s) (sr_imported_at_ms t))
         (then_with (cmp (sr_id s) (sr_id t)) (cmp (sm_snapshot_root_id m) (sm_snapshot_root_id n))))
       [(s, m). s \<leftarrow> db_snapshots db, m \<leftarrow> db_snapshot_root_maps db, sm_snapshot_id m = sr_id s]"

fun eligible_rows ::
    "config_env \<Rightarrow> ustring set \<Rightarrow> retrieval_query \<Rightarrow> (snapshot_row \<times> snapshot_root_map) list
      \<Rightarrow> config_error + snapshot_source list" where
  "eligible_rows env enabled request [] = Inr []"
| "eligible_rows env enabled request ((s, m) # rows) =
     (let local_root = ce_uuid_string env (sm_local_root_id m) in
      if local_root \<notin> enabled then eligible_rows env enabled request rows
      else try_bind (ok_or (RootNotFound local_root) (ce_parse_uuid env local_root)) (\<lambda>local_id.
        if (rq_root_ids request \<noteq> [] \<and> local_id \<notin> set (rq_root_ids request))
           \<or> \<not> is_file (ce_fs env) (sr_payload_path s)
        then eligible_rows env enabled request rows
        else try_bind (eligible_rows env enabled request rows) (\<lambda>rest.
          Inr (\<lparr>ss_snapshot_id = sr_id s, ss_snapshot_root_id = sm_snapshot_root_id m,
                ss_local_root_id = local_id, ss_payload_path = sr_payload_path s\<rparr> # rest))))"

definition eligible_snapshot_sources ::
    "config_env \<Rightarrow> db \<Rightarrow> app_config \<Rightarrow> retrieval_query \<Rightarrow> config_error + snapshot_source list" where
  "eligible_snapshot_sources env db config request =
     (let enabled = set (map ro_id (filter ro_enabled (ac_roots config)))
      in eligible_rows env enabled request (mapped_rows db))"

text \<open>What a source owes to the registry row it comes from.\<close>

definition source_from ::
    "config_env \<Rightarrow> ustring set \<Rightarrow> retrieval_query \<Rightarrow> snapshot_row \<times> snapshot_root_map \<Rightarrow> snapshot_source \<Rightarrow> bool" where
  "source_from env enabled request row src \<longleftrightarrow>
     (case row of (s, m) \<Rightarrow> src = \<lparr>ss_snapshot_id = sr_id s, ss_snapshot_root_id = sm_snapshot_root_id m,
          ss_local_root_id = ss_local_root_id src, ss_payload_path = sr_payload_path s\<rparr>
      \<and> ce_uuid_string env (sm_local_root_id m) \<in> enabled
      \<and> ce_parse_uuid env (ce_uuid_string env (sm_local_root_id m)) = Some (ss_local_root_id src)
      \<and> (rq_root_ids request = [] \<or> ss_local_root_id src \<in> set (rq_root_ids request))
      \<and> is_file (ce_fs env) (sr_payload_path s))"

lemma eligible_rows_Inr:
  "eligible_rows env enabled request rows = Inr sources \<Longrightarrow> src \<in> set sources \<Longrightarrow>
   \<exists>row \<in> set rows. source_from env enabled request row src"
proof (induction rows arbitrary: sources)
  case (Cons row rows)
  obtain s m where row: "row = (s, m)" by fastforce
  let ?keep = "\<lambda>i. \<not> (rq_root_ids request \<noteq> [] \<and> i \<notin> set (rq_root_ids request)
    \<or> \<not> is_file (ce_fs env) (sr_payload_path s))"
  show ?case
  proof (cases "ce_uuid_string env (sm_local_root_id m) \<in> enabled")
    case False
    with Cons row show ?thesis by (auto simp: Let_def)
  next
    case en: True
    with Cons.prems row obtain i where i: "ce_parse_uuid env (ce_uuid_string env (sm_local_root_id m)) = Some i"
      by (cases "ce_parse_uuid env (ce_uuid_string env (sm_local_root_id m))") (auto simp: Let_def)
    show ?thesis
    proof (cases "?keep i")
      case False
      then have "eligible_rows env enabled request rows = Inr sources"
        using Cons.prems(1) row i en by (simp add: Let_def)
      from Cons.IH [OF this Cons.prems(2)] show ?thesis by simp
    next
      case True
      then obtain rest where rest: "eligible_rows env enabled request rows = Inr rest"
        and sources: "sources = \<lparr>ss_snapshot_id = sr_id s, ss_snapshot_root_id = sm_snapshot_root_id m,
          ss_local_root_id = i, ss_payload_path = sr_payload_path s\<rparr> # rest"
        using Cons.prems(1) row i en by (auto simp: Let_def split: if_splits)
      show ?thesis
      proof (cases "src \<in> set rest")
        case True
        from Cons.IH [OF rest this] show ?thesis by simp
      next
        case False
        with Cons.prems(2) sources have "src = \<lparr>ss_snapshot_id = sr_id s,
          ss_snapshot_root_id = sm_snapshot_root_id m, ss_local_root_id = i, ss_payload_path = sr_payload_path s\<rparr>"
          by simp
        with True en i row have "source_from env enabled request row src" by (auto simp: source_from_def)
        then show ?thesis by simp
      qed
    qed
  qed
qed simp

end
