(* ===== verification/Retrieval.thy ===== *)
theory Retrieval
  imports Embedding Snapshots Query Tokens "HOL-Library.AList"
begin

text \<open>
  \<open>retrieval.rs\<close>, the lexical channel: the FTS5 search over the active index and over mapped snapshots,
  duplicate suppression, the sensitivity filter, reciprocal rank fusion and the packing of results into
  a budget. FTS5 itself (matching, \<open>bm25\<close>, \<open>highlight\<close>), globs, the Unicode lowercase tables, the order
  in which a \<open>HashMap\<close> is drained and the clock are the parameters of \<open>retrieval_env\<close>.
\<close>

subsection \<open>Results\<close>

datatype evidence_origin = LocalIndex | FromSnapshot ustring ustring \<comment> \<open>snapshot and its root\<close>

record retrieval_signals =
  si_channel :: ustring
  si_raw_bm25 :: "float option"
  si_public_score :: float
  si_federation_score :: "float option"
  si_lexical_rank :: "nat option"
  si_semantic_rank :: "nat option"
  si_cosine_similarity :: "float option"
  si_fusion_score :: "float option"
  si_embedding_space_id :: "ustring option"

record match_explanation =
  mx_matched_terms :: "ustring list"
  mx_matched_excerpt :: "ustring option"
  mx_explanation_kind :: explanation_kind

record retrieval_hit =
  rh_segment_id :: uuid
  rh_revision_id :: uuid
  rh_source_file_id :: uuid
  rh_root_id :: uuid
  rh_relative_path :: path
  rh_file_type :: supported_file_type
  rh_anchor :: ustring
  rh_text :: ustring
  rh_text_hash :: content_hash
  rh_score :: float
  rh_signals :: retrieval_signals
  rh_explanation :: match_explanation
  rh_freshness :: freshness_status
  rh_sensitivity_scope :: "sensitivity_scope option"
  rh_token_estimate :: nat
  rh_truncated :: bool
  rh_origin :: evidence_origin

record retrieval_telemetry =
  te_query_embedding_ms :: float
  te_vector_scan_ms :: float
  te_active_vectors_examined :: nat
  te_corrupt_vectors_excluded :: nat
  te_local_lexical_candidates :: nat
  te_snapshot_lexical_candidates :: nat
  te_semantic_candidates :: nat
  te_candidates_admitted_to_fusion :: nat
  te_unique_fused_candidates :: nat
  te_fusion_duplicates_suppressed :: nat

definition default_telemetry :: retrieval_telemetry where
  "default_telemetry = \<lparr>te_query_embedding_ms = Finite 0, te_vector_scan_ms = Finite 0,
     te_active_vectors_examined = 0, te_corrupt_vectors_excluded = 0, te_local_lexical_candidates = 0,
     te_snapshot_lexical_candidates = 0, te_semantic_candidates = 0,
     te_candidates_admitted_to_fusion = 0, te_unique_fused_candidates = 0,
     te_fusion_duplicates_suppressed = 0\<rparr>"

record retrieval_response =
  rp_query :: ustring
  rp_requested_mode :: retrieval_mode
  rp_mode :: retrieval_mode
  rp_score_kind :: ustring
  rp_results :: "retrieval_hit list"
  rp_token_estimate :: nat
  rp_truncated :: bool
  rp_applied_limit :: nat
  rp_applied_token_budget :: nat
  rp_budget_preset :: "ustring option"
  rp_duplicates_suppressed :: nat
  rp_warnings :: "ustring list"
  rp_telemetry :: retrieval_telemetry
  rp_elapsed_ms :: nat

subsection \<open>The outside world\<close>

record fts_engine =
  fx_error :: "ustring \<Rightarrow> sql_error option" \<comment> \<open>for a MATCH expression it rejects\<close>
  fx_match :: "ustring \<Rightarrow> ustring \<Rightarrow> bool" \<comment> \<open>expression, text\<close>
  fx_bm25 :: "ustring list \<Rightarrow> ustring \<Rightarrow> ustring \<Rightarrow> float" \<comment> \<open>all texts, expression, text\<close>
  fx_highlight :: "ustring \<Rightarrow> ustring \<Rightarrow> ustring"

record 'g retrieval_env =
  re_config :: config_env
  re_lowercase :: "ustring \<Rightarrow> ustring" \<comment> \<open>\<open>str::to_lowercase\<close>\<close>
  re_glob_new :: "ustring \<Rightarrow> ustring + 'g"
  re_glob_build :: "'g list \<Rightarrow> ustring + glob_set"
  re_fts :: fts_engine
  re_open_snapshot :: "path \<Rightarrow> ustring + payload"
  re_sql_text :: "sql_error \<Rightarrow> ustring"
  re_map_order :: "ustring list \<Rightarrow> ustring list" \<comment> \<open>keys in the order \<open>into_values\<close> visits them\<close>
  re_embedding_seconds :: float
  re_scan_seconds :: float
  re_elapsed_ms :: nat

abbreviation id_text :: "'g retrieval_env \<Rightarrow> uuid \<Rightarrow> ustring" where
  "id_text env \<equiv> ce_uuid_string (re_config env)"

definition MAX_CANDIDATES :: nat where "MAX_CANDIDATES = 200"
definition CANDIDATE_MULTIPLIER :: nat where "CANDIDATE_MULTIPLIER = 8"
definition MAX_FUSION_CANDIDATES :: nat where "MAX_FUSION_CANDIDATES = 768"
definition MAX_SNAPSHOTS_PER_QUERY :: nat where "MAX_SNAPSHOTS_PER_QUERY = 8"
definition SNAPSHOT_CANDIDATES :: nat where "SNAPSHOT_CANDIDATES = 32"
definition RRF_K :: float where "RRF_K = Finite 60"

definition public_score_from_bm25 :: "float \<Rightarrow> float" where
  "public_score_from_bm25 raw = (if \<not> is_finite raw then Infinite True else fneg raw)"

subsection \<open>Full-text search\<close>

text \<open>A result row of \<open>ORDER BY rank, relative_path, anchor, segment_id\<close>: the row and its \<open>bm25\<close>. SQLite
  has no NaN, it stores NULL, which sorts first and which \<open>row.get::<f64>\<close> refuses.\<close>

definition null_rank :: "nat \<Rightarrow> sql_error" where
  "null_rank index = EngineError (lit ''Invalid column type Null at index: '' @ show_nat index @ lit '', name: rank'')"

definition rank_order ::
    "('r \<Rightarrow> path) \<Rightarrow> ('r \<Rightarrow> ustring) \<Rightarrow> ('r \<Rightarrow> ustring) \<Rightarrow> 'r \<times> float \<Rightarrow> 'r \<times> float \<Rightarrow> ordering" where
  "rank_order path anchor segment a b =
     then_with (float_cmp (snd a) (snd b))
       (then_with (cmp (path (fst a)) (path (fst b)))
         (then_with (cmp (anchor (fst a)) (anchor (fst b))) (cmp (segment (fst a)) (segment (fst b)))))"

definition ranked_rows ::
    "nat \<Rightarrow> ('r \<Rightarrow> path) \<Rightarrow> ('r \<Rightarrow> ustring) \<Rightarrow> ('r \<Rightarrow> ustring) \<Rightarrow> nat \<Rightarrow> ('r \<times> float) list
      \<Rightarrow> sql_error + ('r \<times> float) list" where
  "ranked_rows column path anchor segment limit rows =
     (if \<exists>r \<in> set rows. is_nan (snd r) then Inl (null_rank column)
      else Inr (take limit (sort_by (rank_order path anchor segment) rows)))"

record raw_candidate =
  cd_segment_id :: uuid
  cd_revision_id :: uuid
  cd_source_file_id :: uuid
  cd_root_id :: uuid
  cd_relative_path :: path
  cd_anchor :: ustring
  cd_text :: ustring
  cd_text_hash :: content_hash
  cd_file_type :: supported_file_type
  cd_root_path :: path
  cd_modified_at :: "timestamp option"
  cd_raw_bm25 :: float
  cd_highlighted :: ustring

text \<open>The joins of the query.\<close>

definition fts_join :: "db \<Rightarrow> (fts_row \<times> source_file \<times> root \<times> segment) list" where
  "fts_join db =
     [(f, sf, r, s). f \<leftarrow> db_segments_fts db, sf \<leftarrow> db_source_files db,
        sf_id sf = fr_source_file_id f \<and> sf_state sf = Active
          \<and> sf_current_revision_id sf = Some (fr_revision_id f),
        r \<leftarrow> db_roots db, rt_id r = fr_root_id f \<and> rt_enabled r,
        s \<leftarrow> db_segments db, sg_id s = fr_segment_id f]"

definition request_allows :: "retrieval_query \<Rightarrow> uuid \<Rightarrow> supported_file_type \<Rightarrow> bool" where
  "request_allows request root_id file_type \<longleftrightarrow>
     (rq_root_ids request = [] \<or> root_id \<in> set (rq_root_ids request))
     \<and> (rq_file_types request = [] \<or> file_type \<in> set (rq_file_types request))"

definition candidate_of ::
    "fts_engine \<Rightarrow> ustring \<Rightarrow> (fts_row \<times> source_file \<times> root \<times> segment) \<times> float \<Rightarrow> raw_candidate" where
  "candidate_of fx expr row = (case row of ((f, sf, r, s), rank) \<Rightarrow>
     \<lparr>cd_segment_id = fr_segment_id f, cd_revision_id = fr_revision_id f,
      cd_source_file_id = fr_source_file_id f, cd_root_id = fr_root_id f,
      cd_relative_path = fr_relative_path f, cd_anchor = fr_anchor f, cd_text = fr_text f,
      cd_text_hash = sg_text_hash s, cd_file_type = sf_file_type sf,
      cd_root_path = rt_canonical_path r, cd_modified_at = sf_modified_at sf,
      cd_raw_bm25 = fcast F32 rank, cd_highlighted = fx_highlight fx expr (fr_text f)\<rparr>)"

definition search_fts ::
    "'g retrieval_env \<Rightarrow> db \<Rightarrow> retrieval_query \<Rightarrow> parsed_query \<Rightarrow> nat \<Rightarrow> retrieval_error + raw_candidate list" where
  "search_fts env db request parsed limit =
     (let fx = re_fts env; expr = pq_fts_match parsed in
      case fx_error fx expr of
        Some e \<Rightarrow> Inl (RetrievalStorage (Database e))
      | None \<Rightarrow>
          let corpus = map fr_text (db_segments_fts db);
              rows = filter (\<lambda>(f, sf, r, s). fx_match fx expr (fr_text f)
                       \<and> request_allows request (fr_root_id f) (sf_file_type sf)) (fts_join db)
          in map_sum (\<lambda>e. RetrievalStorage (Database e)) (map (candidate_of fx expr))
               (ranked_rows 11 (\<lambda>(f, _). fr_relative_path f) (\<lambda>(f, _). fr_anchor f)
                  (\<lambda>(f, _). id_text env (fr_segment_id f)) limit
                  (map (\<lambda>row. (row, fx_bm25 fx corpus expr (fr_text (fst row)))) rows)))"

fun suppress_loop :: "uuid set \<Rightarrow> content_hash set \<Rightarrow> raw_candidate list \<Rightarrow> raw_candidate list" where
  "suppress_loop segments hashes [] = []"
| "suppress_loop segments hashes (c # cs) =
     (if cd_segment_id c \<in> segments then suppress_loop segments hashes cs
      else if cd_text_hash c \<in> hashes then suppress_loop (insert (cd_segment_id c) segments) hashes cs
      else c # suppress_loop (insert (cd_segment_id c) segments) (insert (cd_text_hash c) hashes) cs)"

definition suppress_duplicates :: "raw_candidate list \<Rightarrow> raw_candidate list" where
  "suppress_duplicates candidates = suppress_loop {} {} candidates"

subsection \<open>Sensitivity\<close>

type_synonym sensitivity_index = "ustring \<Rightarrow> (glob_set \<times> sensitivity_scope) list option"

definition sensitivity_entry ::
    "'g retrieval_env \<Rightarrow> sensitivity_config \<Rightarrow> (glob_set \<times> sensitivity_scope) list" where
  "sensitivity_entry env tag =
     (case sensitivity_scope_from_str (sn_scope tag) of
        Inl _ \<Rightarrow> []
      | Inr scope \<Rightarrow>
          (case re_glob_build env (case re_glob_new env (sn_pattern tag) of Inr g \<Rightarrow> [g] | Inl _ \<Rightarrow> []) of
             Inr globs \<Rightarrow> [(globs, scope)] | Inl _ \<Rightarrow> []))"

definition load_sensitivity_sets :: "'g retrieval_env \<Rightarrow> app_config \<Rightarrow> sensitivity_index" where
  "load_sensitivity_sets env config =
     foldl (\<lambda>by_root root. by_root(ro_id root \<mapsto> concat (map (sensitivity_entry env) (ro_sensitivity root))))
       Map.empty (ac_roots config)"

definition stronger_scope :: "sensitivity_scope option \<Rightarrow> sensitivity_scope \<Rightarrow> sensitivity_scope" where
  "stronger_scope matched scope =
     (if matched = Some NeverReturnToMcp \<or> scope = NeverReturnToMcp then NeverReturnToMcp else scope)"

definition sensitivity_for_path ::
    "'g retrieval_env \<Rightarrow> sensitivity_index \<Rightarrow> uuid \<Rightarrow> path \<Rightarrow> sensitivity_scope option" where
  "sensitivity_for_path env index root_id relative_path =
     (case index (id_text env root_id) of
        None \<Rightarrow> None
      | Some entries \<Rightarrow>
          foldl (\<lambda>matched (globs, scope).
              if globs (relative_to_match_str relative_path) then Some (stronger_scope matched scope) else matched)
            None entries)"

definition hidden :: "'g retrieval_env \<Rightarrow> sensitivity_index \<Rightarrow> bool \<Rightarrow> uuid \<Rightarrow> path \<Rightarrow> bool" where
  "hidden env index include_sensitive root_id relative_path \<longleftrightarrow>
     sensitivity_for_path env index root_id relative_path = Some RequireExplicitQuery \<and> \<not> include_sensitive"

definition filter_sensitivity ::
    "'g retrieval_env \<Rightarrow> sensitivity_index \<Rightarrow> bool \<Rightarrow> raw_candidate list \<Rightarrow> raw_candidate list" where
  "filter_sensitivity env index include_sensitive candidates =
     filter (\<lambda>c. \<not> hidden env index include_sensitive (cd_root_id c) (cd_relative_path c)) candidates"

subsection \<open>Hits\<close>

definition matched_terms_for :: "'g retrieval_env \<Rightarrow> parsed_query \<Rightarrow> ustring \<Rightarrow> ustring list" where
  "matched_terms_for env parsed text =
     filter (\<lambda>t. contains (re_lowercase env t) (re_lowercase env text)) (pq_terms parsed)"

definition excerpt_from_highlight :: "ustring \<Rightarrow> ustring \<Rightarrow> ustring" where
  "excerpt_from_highlight highlighted fallback =
     fst (truncate_utf8 (if trim highlighted = [] then fallback else highlighted) 240)"

definition lexical_signals :: "string \<Rightarrow> float \<Rightarrow> nat \<Rightarrow> retrieval_signals" where
  "lexical_signals channel raw rank =
     \<lparr>si_channel = lit channel, si_raw_bm25 = Some raw, si_public_score = public_score_from_bm25 raw,
      si_federation_score = None, si_lexical_rank = Some (u32_sat (rank + 1)), si_semantic_rank = None,
      si_cosine_similarity = None, si_fusion_score = None, si_embedding_space_id = None\<rparr>"

definition lexical_hit ::
    "'g retrieval_env \<Rightarrow> sensitivity_index \<Rightarrow> parsed_query \<Rightarrow> nat \<Rightarrow> raw_candidate \<Rightarrow> retrieval_hit" where
  "lexical_hit env sensitivity parsed rank c =
     (let (text, truncated) = truncate_utf8 (cd_text c) MAX_HIT_TEXT_BYTES
      in \<lparr>rh_segment_id = cd_segment_id c, rh_revision_id = cd_revision_id c,
          rh_source_file_id = cd_source_file_id c, rh_root_id = cd_root_id c,
          rh_relative_path = cd_relative_path c, rh_file_type = cd_file_type c, rh_anchor = cd_anchor c,
          rh_text = text, rh_text_hash = cd_text_hash c,
          rh_score = public_score_from_bm25 (cd_raw_bm25 c),
          rh_signals = lexical_signals ''lexical_fts5'' (cd_raw_bm25 c) rank,
          rh_explanation = \<lparr>mx_matched_terms = matched_terms_for env parsed (cd_text c),
            mx_matched_excerpt = Some (excerpt_from_highlight (cd_highlighted c) (cd_text c)),
            mx_explanation_kind = LexicalTermOverlap\<rparr>,
          rh_freshness = inspect_freshness (ce_fs (re_config env)) (cd_root_path c) (cd_relative_path c)
            (cd_modified_at c),
          rh_sensitivity_scope = sensitivity_for_path env sensitivity (cd_root_id c) (cd_relative_path c),
          rh_token_estimate = u32_sat (RESULT_OVERHEAD_TOKENS + estimate text), rh_truncated = truncated,
          rh_origin = LocalIndex\<rparr>)"

definition lexical_hits ::
    "'g retrieval_env \<Rightarrow> sensitivity_index \<Rightarrow> parsed_query \<Rightarrow> raw_candidate list \<Rightarrow> retrieval_hit list" where
  "lexical_hits env sensitivity parsed cs =
     map (\<lambda>(rank, c). lexical_hit env sensitivity parsed rank c) (enumerate 0 cs)"

end
