(* ===== verification/Fusion.thy ===== *)
theory Fusion
  imports Retrieval
begin

text \<open>
  \<open>retrieval.rs\<close>: the lexical search of one imported snapshot, reciprocal rank fusion of ranked lists,
  the federation of the local index with the mapped snapshots, and the packing of hits into the
  limit, the token budget and the byte cap of a response.
\<close>

subsection \<open>One snapshot\<close>

definition snapshot_join :: "payload \<Rightarrow> ustring \<Rightarrow> (payload_fts \<times> payload_source \<times> payload_segment) list" where
  "snapshot_join snap root_id =
     [(f, sf, s). f \<leftarrow> pd_segments_fts snap, pf_root_id f = root_id,
        sf \<leftarrow> pd_source_files snap, ps_id sf = pf_source_file_id f \<and> ps_state sf = lit ''active''
          \<and> ps_current_revision_id sf = Some (pf_revision_id f),
        s \<leftarrow> pd_segments snap, pg_id s = pf_segment_id f]"

definition decode_id :: "'g retrieval_env \<Rightarrow> ustring \<Rightarrow> ustring + uuid" where
  "decode_id env t = ok_or (domain_error_display InvalidIdentifier) (ce_parse_uuid (re_config env) t)"

definition snapshot_hit ::
    "'g retrieval_env \<Rightarrow> parsed_query \<Rightarrow> snapshot_source \<Rightarrow> sensitivity_index
      \<Rightarrow> (payload_fts \<times> payload_source \<times> payload_segment) \<times> float \<Rightarrow> ustring + retrieval_hit" where
  "snapshot_hit env parsed source sensitivity row = (case row of ((f, sf, s), rank) \<Rightarrow>
     (let raw = fcast F32 rank;
          (text, truncated) = truncate_utf8 (pf_text f) MAX_HIT_TEXT_BYTES
      in try_bind (map_err domain_error_display (file_type_from_str (ps_file_type sf))) (\<lambda>file_type.
         try_bind (decode_id env (pf_segment_id f)) (\<lambda>segment_id.
         try_bind (decode_id env (pf_revision_id f)) (\<lambda>revision_id.
         try_bind (decode_id env (pf_source_file_id f)) (\<lambda>source_file_id.
           Inr \<lparr>rh_segment_id = segment_id, rh_revision_id = revision_id,
             rh_source_file_id = source_file_id, rh_root_id = ss_local_root_id source,
             rh_relative_path = pf_relative_path f, rh_file_type = file_type, rh_anchor = pf_anchor f,
             rh_text = text, rh_text_hash = pg_text_hash s, rh_score = public_score_from_bm25 raw,
             rh_signals = (lexical_signals ''snapshot_fts5'' raw 0)\<lparr>si_lexical_rank := None\<rparr>,
             rh_explanation = \<lparr>mx_matched_terms = matched_terms_for env parsed text,
               mx_matched_excerpt = Some (excerpt_from_highlight
                 (fx_highlight (re_fts env) (pq_fts_match parsed) (pf_text f)) text),
               mx_explanation_kind = LexicalTermOverlap\<rparr>,
             rh_freshness = Unknown,
             rh_sensitivity_scope =
               sensitivity_for_path env sensitivity (ss_local_root_id source) (pf_relative_path f),
             rh_token_estimate = (let n = RESULT_OVERHEAD_TOKENS + estimate text in if n \<le> u32_max then n else 1),
             rh_truncated = truncated,
             rh_origin = FromSnapshot (ss_snapshot_id source) (ss_snapshot_root_id source)\<rparr>))))))"

fun snapshot_rows ::
    "'g retrieval_env \<Rightarrow> retrieval_query \<Rightarrow> parsed_query \<Rightarrow> snapshot_source \<Rightarrow> sensitivity_index
      \<Rightarrow> ((payload_fts \<times> payload_source \<times> payload_segment) \<times> float) list \<Rightarrow> ustring + retrieval_hit list" where
  "snapshot_rows env request parsed source sensitivity [] = Inr []"
| "snapshot_rows env request parsed source sensitivity (row # rows) =
     (if (rq_root_ids request \<noteq> [] \<and> ss_local_root_id source \<notin> set (rq_root_ids request))
         \<or> hidden env sensitivity (rq_include_sensitive request) (ss_local_root_id source)
              (pf_relative_path (fst (fst row)))
      then snapshot_rows env request parsed source sensitivity rows
      else try_bind (snapshot_hit env parsed source sensitivity row) (\<lambda>hit.
           try_bind (snapshot_rows env request parsed source sensitivity rows) (\<lambda>hits. Inr (hit # hits))))"

definition rank_hits :: "retrieval_hit list \<Rightarrow> retrieval_hit list" where
  "rank_hits hits = map (\<lambda>(rank, hit). hit\<lparr>rh_signals := (rh_signals hit)\<lparr>si_lexical_rank := Some (u32_sat (rank + 1))\<rparr>\<rparr>)
     (enumerate 0 hits)"

definition search_snapshot_hits ::
    "'g retrieval_env \<Rightarrow> retrieval_query \<Rightarrow> parsed_query \<Rightarrow> snapshot_source \<Rightarrow> sensitivity_index
      \<Rightarrow> ustring + retrieval_hit list" where
  "search_snapshot_hits env request parsed source sensitivity =
     try_bind (map_err config_error_display
         (open_snapshot_readonly (re_open_snapshot env) (ss_payload_path source))) (\<lambda>snap.
       let fx = re_fts env; expr = pq_fts_match parsed in
       case fx_error fx expr of
         Some e \<Rightarrow> Inl (re_sql_text env e)
       | None \<Rightarrow>
           let corpus = map pf_text (pd_segments_fts snap);
               rows = filter (\<lambda>(f, sf, s). fx_match fx expr (pf_text f)
                   \<and> (rq_file_types request = [] \<or> ps_file_type sf \<in> set (map file_type_as_str (rq_file_types request))))
                 (snapshot_join snap (ss_snapshot_root_id source))
           in try_bind (map_err (re_sql_text env)
                (ranked_rows 9 (\<lambda>(f, _). pf_relative_path f) (\<lambda>(f, _). pf_anchor f) (\<lambda>(f, _). pf_segment_id f)
                   SNAPSHOT_CANDIDATES (map (\<lambda>row. (row, fx_bm25 fx corpus expr (pf_text (fst row)))) rows))) (\<lambda>rows.
              map_sum id rank_hits (snapshot_rows env request parsed source sensitivity rows)))"

subsection \<open>Reciprocal rank fusion\<close>

definition merge_signals :: "retrieval_hit \<Rightarrow> retrieval_hit \<Rightarrow> retrieval_hit" where
  "merge_signals target incoming =
     (let keep = (\<lambda>a b. if a = None then b else a);
          t = rh_signals target; i = rh_signals incoming;
          target = target\<lparr>rh_signals := t\<lparr>
            si_raw_bm25 := keep (si_raw_bm25 t) (si_raw_bm25 i),
            si_cosine_similarity := keep (si_cosine_similarity t) (si_cosine_similarity i),
            si_semantic_rank := (if si_semantic_rank t = None then si_semantic_rank i else si_semantic_rank t),
            si_lexical_rank := (if si_lexical_rank t = None then si_lexical_rank i else si_lexical_rank t),
            si_embedding_space_id := (if si_embedding_space_id t = None then si_embedding_space_id i
              else si_embedding_space_id t)\<rparr>\<rparr>
      in if mx_explanation_kind (rh_explanation incoming) = SemanticNeighbor
            \<and> mx_matched_terms (rh_explanation target) = []
         then target\<lparr>rh_explanation := rh_explanation incoming\<rparr> else target)"

record fused =
  fu_hit :: retrieval_hit
  fu_score :: float
  fu_local :: bool

record fusion_report =
  fp_hits :: "retrieval_hit list"
  fp_snapshot_candidates :: nat
  fp_semantic_candidates :: nat
  fp_admitted :: nat
  fp_unique :: nat
  fp_duplicates :: nat

definition unfused :: "retrieval_hit list \<Rightarrow> fusion_report" where
  "unfused hits = \<lparr>fp_hits = hits, fp_snapshot_candidates = 0, fp_semantic_candidates = 0,
     fp_admitted = 0, fp_unique = 0, fp_duplicates = 0\<rparr>"

definition contribution :: "nat \<Rightarrow> float" where
  "contribution rank = fdiv F32 (Finite 1) (fadd F32 (fadd F32 RRF_K (of_int_float F32 (int rank))) (Finite 1))"

definition is_local :: "retrieval_hit \<Rightarrow> bool" where
  "is_local hit \<longleftrightarrow> rh_origin hit = LocalIndex"

definition with_score :: "float \<Rightarrow> retrieval_hit \<Rightarrow> retrieval_hit" where
  "with_score s hit = hit\<lparr>rh_signals := (rh_signals hit)\<lparr>si_federation_score := Some s\<rparr>, rh_score := s\<rparr>"

definition fresh_acc :: "nat \<times> retrieval_hit \<Rightarrow> fused" where
  "fresh_acc c = \<lparr>fu_hit = with_score (contribution (fst c)) (snd c), fu_score = contribution (fst c),
     fu_local = is_local (snd c)\<rparr>"

definition accumulate :: "fused \<Rightarrow> nat \<times> retrieval_hit \<Rightarrow> fused" where
  "accumulate a c =
     (if fu_local a then
        if is_local (snd c)
        then a\<lparr>fu_score := fadd F32 (fu_score a) (contribution (fst c)), fu_hit := merge_signals (fu_hit a) (snd c)\<rparr>
        else a
      else if is_local (snd c) then (fresh_acc c)\<lparr>fu_local := True\<rparr>
      else a\<lparr>fu_score := fadd F32 (fu_score a) (contribution (fst c))\<rparr>)"

text \<open>The \<open>HashMap\<close> as its entries in insertion order.\<close>

definition admit :: "(content_hash \<times> fused) list \<Rightarrow> nat \<times> retrieval_hit \<Rightarrow> (content_hash \<times> fused) list" where
  "admit best c =
     (let key = rh_text_hash (snd c)
      in case map_of best key of
           Some a \<Rightarrow> AList.update key (accumulate a c) best
         | None \<Rightarrow> best @ [(key, fresh_acc c)])"

definition rrf_step ::
    "(content_hash \<times> fused) list \<times> nat \<Rightarrow> nat \<times> retrieval_hit \<Rightarrow> (content_hash \<times> fused) list \<times> nat" where
  "rrf_step st c = (case st of (best, count_in) \<Rightarrow>
     if count_in \<ge> MAX_FUSION_CANDIDATES then (best, count_in) else (admit best c, count_in + 1))"

definition fused_order :: "'g retrieval_env \<Rightarrow> fused \<Rightarrow> fused \<Rightarrow> ordering" where
  "fused_order env a b =
     then_with (float_cmp (fu_score b) (fu_score a))
       (then_with (path_cmp (rh_relative_path (fu_hit a)) (rh_relative_path (fu_hit b)))
         (then_with (cmp (rh_anchor (fu_hit a)) (rh_anchor (fu_hit b)))
           (cmp (id_text env (rh_segment_id (fu_hit a))) (id_text env (rh_segment_id (fu_hit b))))))"

definition finished :: "fused \<Rightarrow> retrieval_hit" where
  "finished a = (let hit = fu_hit a in
     hit\<lparr>rh_signals := (rh_signals hit)\<lparr>si_federation_score := Some (fu_score a),
            si_fusion_score := Some (fu_score a)\<rparr>, rh_score := fu_score a\<rparr>)"

definition rrf_merge :: "'g retrieval_env \<Rightarrow> retrieval_hit list list \<Rightarrow> fusion_report" where
  "rrf_merge env rankings =
     (let (best, count_in) = foldl rrf_step ([], 0) (concat (map (enumerate 0) rankings));
          merged = map (\<lambda>k. the (map_of best k)) (re_map_order env (map fst best));
          hits = map finished (sort_by (fused_order env) merged);
          unique = u32_sat (length hits); count_in = u32_sat count_in
      in \<lparr>fp_hits = hits, fp_snapshot_candidates = 0, fp_semantic_candidates = 0,
          fp_admitted = count_in, fp_unique = unique, fp_duplicates = count_in - unique\<rparr>)"

subsection \<open>Federation\<close>

fun gather_snapshots ::
    "'g retrieval_env \<Rightarrow> retrieval_query \<Rightarrow> parsed_query \<Rightarrow> sensitivity_index \<Rightarrow> snapshot_source list
      \<Rightarrow> retrieval_hit list list \<times> nat \<times> ustring list \<Rightarrow> retrieval_hit list list \<times> nat \<times> ustring list" where
  "gather_snapshots env request parsed sensitivity [] st = st"
| "gather_snapshots env request parsed sensitivity (source # sources) (rankings, candidates, warnings) =
     gather_snapshots env request parsed sensitivity sources
       (case search_snapshot_hits env request parsed source sensitivity of
          Inr hits \<Rightarrow> if hits \<noteq> [] then (rankings @ [hits], u32_sat_add candidates (u32_sat (length hits)), warnings)
            else (rankings, candidates, warnings)
        | Inl message \<Rightarrow> (rankings, candidates, warnings
            @ [lit ''snapshot '' @ ss_snapshot_id source @ lit '' excluded: '' @ message]))"

definition federate_with_snapshots ::
    "'g retrieval_env \<Rightarrow> db \<Rightarrow> app_config \<Rightarrow> retrieval_query \<Rightarrow> parsed_query \<Rightarrow> retrieval_hit list
      \<Rightarrow> sensitivity_index \<Rightarrow> ustring list \<Rightarrow> retrieval_hit list \<Rightarrow> fusion_report \<times> ustring list" where
  "federate_with_snapshots env db config request parsed local_hits sensitivity warnings semantic_hits =
     (let semantic_candidates = u32_sat (length semantic_hits)
      in case eligible_snapshot_sources (re_config env) db config request of
           Inl e \<Rightarrow>
             (let warnings = warnings @ [lit ''snapshot federation skipped: '' @ config_error_display e]
              in if semantic_hits = [] then (unfused local_hits, warnings)
                 else ((rrf_merge env [local_hits, semantic_hits])\<lparr>fp_semantic_candidates := semantic_candidates\<rparr>,
                       warnings))
         | Inr sources \<Rightarrow>
             if sources = [] \<and> semantic_hits = [] then (unfused local_hits, warnings)
             else let (rankings, candidates, warnings) = gather_snapshots env request parsed sensitivity
                        (take MAX_SNAPSHOTS_PER_QUERY sources) ([local_hits], 0, warnings);
                      rankings = (if semantic_hits \<noteq> [] then rankings @ [semantic_hits] else rankings)
                  in if length rankings = 1 then (unfused local_hits, warnings)
                     else ((rrf_merge env rankings)\<lparr>fp_snapshot_candidates := candidates,
                             fp_semantic_candidates := semantic_candidates\<rparr>, warnings))"

subsection \<open>Packing\<close>

definition TRUNCATED_WARNING :: ustring where
  "TRUNCATED_WARNING = lit ''top result truncated to fit the configured token budget''"

text \<open>The cut made to a first result that does not fit.\<close>

definition shorten :: "nat \<Rightarrow> nat \<Rightarrow> nat \<Rightarrow> ustring \<Rightarrow> ustring" where
  "shorten budget used_tokens used_bytes text =
     (let allowed_tokens = budget - (used_tokens + RESULT_OVERHEAD_TOKENS);
          max_chars = max 1 (usize_sat_mul allowed_tokens 3);
          byte_bound = max 1 (HARD_BYTE_CAP - used_bytes)
      in fst (truncate_utf8 (take max_chars text) (min byte_bound MAX_HIT_TEXT_BYTES)))"

definition hit_cost :: "ustring \<Rightarrow> nat" where
  "hit_cost text = RESULT_OVERHEAD_TOKENS + estimate text"

definition over_budget :: "nat \<Rightarrow> nat \<Rightarrow> nat \<Rightarrow> ustring \<Rightarrow> bool" where
  "over_budget budget used_tokens used_bytes text \<longleftrightarrow>
     usize_sat_add used_tokens (hit_cost text) > budget \<or> usize_sat_add used_bytes (str_len text) > HARD_BYTE_CAP"

definition packed_hit :: "ustring \<Rightarrow> bool \<Rightarrow> retrieval_hit \<Rightarrow> retrieval_hit" where
  "packed_hit text truncated hit =
     hit\<lparr>rh_text := text, rh_truncated := truncated, rh_token_estimate := u32_sat (hit_cost text)\<rparr>"

fun pack_loop ::
    "nat \<Rightarrow> nat \<Rightarrow> retrieval_hit list \<Rightarrow> nat \<Rightarrow> nat \<Rightarrow> ustring list \<Rightarrow> retrieval_hit list
      \<Rightarrow> retrieval_hit list \<times> bool \<times> ustring list" where
  "pack_loop budget limit selected used_tokens used_bytes warnings [] = (selected, False, warnings)"
| "pack_loop budget limit selected used_tokens used_bytes warnings (hit # hits) =
     (if length selected \<ge> limit then (selected, True, warnings)
      else let text = rh_text hit in
        if over_budget budget used_tokens used_bytes text then
          if selected = [] then
            let text = shorten budget used_tokens used_bytes text;
                warnings = (if usize_sat_add used_tokens (hit_cost text) > budget
                            then warnings @ [TRUNCATED_WARNING] else warnings)
            in pack_loop budget limit [packed_hit text True hit]
                 (usize_sat_add used_tokens (hit_cost text)) (usize_sat_add used_bytes (str_len text)) warnings hits
          else (selected, True, warnings)
        else pack_loop budget limit (selected @ [packed_hit text (rh_truncated hit) hit])
               (usize_sat_add used_tokens (hit_cost text)) (usize_sat_add used_bytes (str_len text)) warnings hits)"

text \<open>The results, whether more was cut off, and the warnings.\<close>

definition pack_results ::
    "ustring \<Rightarrow> retrieval_hit list \<Rightarrow> nat \<Rightarrow> nat \<Rightarrow> ustring list \<Rightarrow> retrieval_hit list \<times> bool \<times> ustring list" where
  "pack_results query hits limit token_budget warnings =
     (let (selected, truncated, warnings) = pack_loop token_budget limit []
            (RESPONSE_OVERHEAD_TOKENS + estimate query) 0 warnings hits
      in (selected, truncated \<or> length selected \<ge> limit, warnings))"

end
