(* ===== verification/Semantic.thy ===== *)
theory Semantic
  imports Fusion
begin

text \<open>
  \<open>retrieval.rs\<close>, the semantic channel and the whole of a request: the exact scan over the stored
  vectors, the checks that a query embedding belongs to the active space, the four modes of
  \<open>retrieve\<close>, and the resolution of the budget arguments. The search behind the semantic channel is
  injectable (\<open>VectorSearch\<close>), so it is a field of \<open>runtime\<close>; \<open>sqlite_exact_search\<close> is the one the
  program installs.
\<close>

definition MAX_ACTIVE_VECTORS :: nat where "MAX_ACTIVE_VECTORS = 50000"
definition MAX_SEMANTIC_CANDIDATES :: nat where "MAX_SEMANTIC_CANDIDATES = 200"

record vector_search_report =
  vs_hits :: "retrieval_hit list"
  vs_examined :: nat
  vs_corrupt_excluded :: nat

type_synonym vector_search =
  "db \<Rightarrow> app_config \<Rightarrow> embedding_space \<Rightarrow> vector \<Rightarrow> retrieval_query \<Rightarrow> nat \<Rightarrow> retrieval_error + vector_search_report"

record runtime =
  rn_provider :: "provider option"
  rn_search :: vector_search

definition semantic_error :: "ustring \<Rightarrow> ustring \<Rightarrow> retrieval_error" where
  "semantic_error code message = SemanticError code (take 240 message)"

definition bounded_warning :: "string \<Rightarrow> ustring \<Rightarrow> ustring" where
  "bounded_warning label message = lit label @ lit '': '' @ take 180 message"

subsection \<open>The exact scan\<close>

text \<open>Segments that are current: of the current revision of an active file of an enabled root.\<close>

definition current_join :: "db \<Rightarrow> segment \<Rightarrow> (source_file \<times> root) list" where
  "current_join db s =
     [(sf, r). sf \<leftarrow> db_source_files db, sf_current_revision_id sf = Some (sg_revision_id s) \<and> sf_state sf = Active,
        r \<leftarrow> db_roots db, rt_id r = sf_root_id sf \<and> rt_enabled r]"

definition linked_current :: "db \<Rightarrow> ustring \<Rightarrow> nat" where
  "linked_current db space_id =
     length [(). se \<leftarrow> db_segment_embeddings db, el_space_id se = space_id,
        s \<leftarrow> db_segments db, sg_id s = el_segment_id se, _ \<leftarrow> current_join db s]"

type_synonym vector_row = "embedding_vector_row \<times> segment \<times> source_file \<times> root"

definition vector_rows :: "'g retrieval_env \<Rightarrow> db \<Rightarrow> ustring \<Rightarrow> vector_row list" where
  "vector_rows env db space_id =
     sort_by (\<lambda>(_, s, sf, _) (_, t, tf, _).
         then_with (cmp (sf_relative_path sf) (sf_relative_path tf))
           (then_with (cmp (sg_anchor s) (sg_anchor t)) (cmp (id_text env (sg_id s)) (id_text env (sg_id t)))))
       [(ev, s, sf, r). se \<leftarrow> db_segment_embeddings db, el_space_id se = space_id,
          ev \<leftarrow> db_embedding_vectors db, ev_space_id ev = el_space_id se \<and> ev_text_hash ev = el_text_hash se,
          s \<leftarrow> db_segments db, sg_id s = el_segment_id se \<and> sg_revision_id s = el_revision_id se,
          (sf, r) \<leftarrow> current_join db s]"

definition dot_product :: "vector \<Rightarrow> vector \<Rightarrow> float" where
  "dot_product a b = fsum F64 (map (\<lambda>(x, y). fmul F64 (fcast F64 x) (fcast F64 y)) (zip a b))"

definition semantic_hit ::
    "'g retrieval_env \<Rightarrow> embedding_space \<Rightarrow> sensitivity_scope option \<Rightarrow> float \<Rightarrow> segment \<Rightarrow> source_file \<Rightarrow> root
      \<Rightarrow> retrieval_hit" where
  "semantic_hit env space scope similarity s sf r =
     (let (text, truncated) = truncate_utf8 (sg_text s) MAX_HIT_TEXT_BYTES; score = fcast F32 similarity
      in \<lparr>rh_segment_id = sg_id s, rh_revision_id = sg_revision_id s, rh_source_file_id = sf_id sf,
          rh_root_id = sf_root_id sf, rh_relative_path = sf_relative_path sf, rh_file_type = sf_file_type sf,
          rh_anchor = sg_anchor s, rh_text = text, rh_text_hash = sg_text_hash s, rh_score = score,
          rh_signals = \<lparr>si_channel = lit ''local_semantic'', si_raw_bm25 = None, si_public_score = score,
            si_federation_score = None, si_lexical_rank = None, si_semantic_rank = None,
            si_cosine_similarity = Some score, si_fusion_score = None, si_embedding_space_id = Some (sp_id space)\<rparr>,
          rh_explanation = \<lparr>mx_matched_terms = [], mx_matched_excerpt = None, mx_explanation_kind = SemanticNeighbor\<rparr>,
          rh_freshness = inspect_freshness (ce_fs (re_config env)) (rt_canonical_path r) (sf_relative_path sf)
            (sf_modified_at sf),
          rh_sensitivity_scope = scope,
          rh_token_estimate = u32_sat (RESULT_OVERHEAD_TOKENS + estimate text), rh_truncated = truncated,
          rh_origin = LocalIndex\<rparr>)"

datatype row_outcome = PassedOver | Corrupt | Scored float retrieval_hit

definition score_row ::
    "'g retrieval_env \<Rightarrow> sensitivity_index \<Rightarrow> embedding_space \<Rightarrow> vector \<Rightarrow> retrieval_query \<Rightarrow> vector_row \<Rightarrow> row_outcome" where
  "score_row env sensitivity space query filters row = (case row of (ev, s, sf, r) \<Rightarrow>
     if \<not> request_allows filters (sf_root_id sf) (sf_file_type sf) then PassedOver
     else let scope = sensitivity_for_path env sensitivity (sf_root_id sf) (sf_relative_path sf)
     in if scope = Some RequireExplicitQuery \<and> \<not> rq_include_sensitive filters then PassedOver
     else if ev_dimensions ev \<noteq> sp_dimensions space then Corrupt
     else case decode_vector (ev_vector_bytes ev) (ev_dimensions ev) of
         Inl _ \<Rightarrow> Corrupt
       | Inr candidate \<Rightarrow>
           let similarity = dot_product query candidate
           in if \<not> is_finite similarity then Corrupt
              else let similarity = fclamp similarity (-1) 1
                   in Scored similarity (semantic_hit env space scope similarity s sf r))"

fun scan_vectors ::
    "(vector_row \<Rightarrow> row_outcome) \<Rightarrow> vector_row list \<Rightarrow> (float \<times> retrieval_hit) list \<times> nat \<times> nat
      \<Rightarrow> (float \<times> retrieval_hit) list \<times> nat \<times> nat" where
  "scan_vectors outcome [] st = st"
| "scan_vectors outcome (row # rows) (scored, examined, corrupt) =
     scan_vectors outcome rows
       (case outcome row of
          PassedOver \<Rightarrow> (scored, examined, corrupt)
        | Corrupt \<Rightarrow> (scored, u32_sat_add examined 1, u32_sat_add corrupt 1)
        | Scored similarity hit \<Rightarrow> (scored @ [(similarity, hit)], u32_sat_add examined 1, corrupt))"

definition scored_order ::
    "'g retrieval_env \<Rightarrow> float \<times> retrieval_hit \<Rightarrow> float \<times> retrieval_hit \<Rightarrow> ordering" where
  "scored_order env a b =
     then_with (float_cmp (fst b) (fst a))
       (then_with (path_cmp (rh_relative_path (snd a)) (rh_relative_path (snd b)))
         (then_with (cmp (rh_anchor (snd a)) (rh_anchor (snd b)))
           (cmp (id_text env (rh_segment_id (snd a))) (id_text env (rh_segment_id (snd b))))))"

definition rank_semantic :: "retrieval_hit list \<Rightarrow> retrieval_hit list" where
  "rank_semantic hits = map (\<lambda>(rank, hit). hit\<lparr>rh_signals := (rh_signals hit)\<lparr>si_semantic_rank := Some (u32_sat (rank + 1))\<rparr>\<rparr>)
     (enumerate 0 hits)"

definition exact_search :: "'g retrieval_env \<Rightarrow> nat \<Rightarrow> nat \<Rightarrow> vector_search" where
  "exact_search env max_active_vectors max_candidates db config space query filters limit =
     (if linked_current db (sp_id space) > max_active_vectors
      then Inl (semantic_error (lit ''VECTOR_SCAN_LIMIT_EXCEEDED'')
        (lit ''eligible active-vector count exceeds the exact-scan safety bound''))
      else let sensitivity = load_sensitivity_sets env config;
               (scored, examined, corrupt) = scan_vectors (score_row env sensitivity space query filters)
                 (vector_rows env db (sp_id space)) ([], 0, 0);
               hits = rank_semantic (map snd
                 (take (min limit max_candidates) (sort_by (scored_order env) scored)))
           in if hits = [] \<and> corrupt > 0
              then Inl (semantic_error (lit ''VECTOR_SEARCH_FAILED'')
                (lit ''no valid semantic candidates remained after corrupt-vector exclusion''))
              else Inr \<lparr>vs_hits = hits, vs_examined = examined, vs_corrupt_excluded = corrupt\<rparr>)"

definition sqlite_exact_search :: "'g retrieval_env \<Rightarrow> vector_search" where
  "sqlite_exact_search env = exact_search env MAX_ACTIVE_VECTORS MAX_SEMANTIC_CANDIDATES"

subsection \<open>The semantic channel\<close>

record semantic_channel =
  sn_hits :: "retrieval_hit list"
  sn_warnings :: "ustring list"
  sn_telemetry :: retrieval_telemetry

definition query_invalid :: "string \<Rightarrow> retrieval_error" where
  "query_invalid m = semantic_error (lit ''QUERY_INVALID'') (lit m)"

definition validate_query_text :: "ustring \<Rightarrow> retrieval_error + ustring" where
  "validate_query_text query =
     (let trimmed = trim query
      in if trimmed = [] then Inl (query_invalid ''query is empty'')
         else if length trimmed > MAX_QUERY_CHARS
         then Inl (query_invalid ''query exceeds the configured character bound'')
         else if length (filter (\<lambda>ch. is_control ch \<and> ch \<notin> {10, 13, 9}) trimmed) > 8
         then Inl (query_invalid ''query contains too many control characters'')
         else Inr trimmed)"

definition incompatible :: "string \<Rightarrow> retrieval_error" where
  "incompatible m = semantic_error (lit ''EMBEDDING_SPACE_INCOMPATIBLE'') (lit m)"

definition load_active_space :: "db \<Rightarrow> retrieval_error + embedding_space" where
  "load_active_space db =
     (case Option.bind (db_active_space db) (\<lambda>i. find (\<lambda>es. es_id es = i) (db_embedding_spaces db)) of
        None \<Rightarrow> Inl (semantic_error (lit ''EMBEDDING_SPACE_MISSING'')
          (lit ''no active embedding space; run omnisem index''))
      | Some es \<Rightarrow>
          if es_provider es \<noteq> lit ''ollama'' \<or> es_normalization es \<noteq> lit ''l2''
             \<or> es_input_contract_version es \<noteq> EMBEDDING_INPUT_CONTRACT_VERSION
          then Inl (incompatible ''active embedding-space contract is unsupported'')
          else Inr \<lparr>sp_id = es_id es, sp_provider = KindOllama, sp_canonical_model = es_canonical_model es,
            sp_model_digest = es_model_digest es, sp_dimensions = es_dimensions es, sp_normalization = L2,
            sp_input_contract_version = es_input_contract_version es\<rparr>)"

text \<open>The checks between the resolved model and the active space.\<close>

definition check_model :: "embedding_space \<Rightarrow> resolved_model \<Rightarrow> retrieval_error + unit" where
  "check_model space model =
     (if rm_provider model \<noteq> sp_provider space \<or> rm_canonical_name model \<noteq> sp_canonical_model space
      then Inl (incompatible ''resolved model identity differs from active space; run omnisem index'')
      else if rm_model_digest model \<noteq> sp_model_digest space
      then Inl (semantic_error (lit ''EMBEDDING_MODEL_CHANGED'')
        (lit ''configured model digest changed; run omnisem index''))
      else if rm_dimensions model \<noteq> None \<and> rm_dimensions model \<noteq> Some (sp_dimensions space)
      then Inl (incompatible ''configured dimensions differ from active space; run omnisem index'')
      else Inr ())"

definition embedding_failed :: "ustring \<Rightarrow> retrieval_error" where
  "embedding_failed m = semantic_error (lit ''QUERY_EMBEDDING_FAILED'') m"

text \<open>The query vector, of the dimensions of the space.\<close>

definition embed_query :: "provider \<Rightarrow> embedding_space \<Rightarrow> ustring \<Rightarrow> retrieval_error + vector" where
  "embed_query provider space query =
     try_bind (map_err (\<lambda>e. semantic_error (embedding_error_code e) (embedding_error_display e))
       (pv_resolve_model provider 0)) (\<lambda>model.
     try_bind (check_model space model) (\<lambda>_.
     try_bind (map_err (\<lambda>e. embedding_failed (embedding_error_display e))
       (pv_embed provider 1 [query_input query] model)) (\<lambda>vectors.
     if length vectors \<noteq> 1
     then Inl (embedding_failed (lit ''provider returned an invalid query-vector count''))
     else try_bind (map_err (\<lambda>e. embedding_failed (embedding_error_display e))
       (normalize_vector (hd vectors))) (\<lambda>vector.
     if length vector \<noteq> sp_dimensions space
     then Inl (incompatible ''query-vector dimensions differ from active space'')
     else Inr vector))))"

definition semantic_hits ::
    "'g retrieval_env \<Rightarrow> db \<Rightarrow> app_config \<Rightarrow> retrieval_query \<Rightarrow> runtime \<Rightarrow> retrieval_error + semantic_channel" where
  "semantic_hits env db config request runtime =
     try_bind (validate_query_text (rq_query request)) (\<lambda>query.
     try_bind (ok_or (semantic_error (lit ''SEMANTIC_UNAVAILABLE'') (lit ''embedding provider is unavailable''))
       (rn_provider runtime)) (\<lambda>provider.
     try_bind (load_active_space db) (\<lambda>space.
     let dimensions = ec_dimensions (ac_embeddings config) in
     if pv_kind provider \<noteq> sp_provider space
     then Inl (incompatible ''configured provider differs from active space'')
     else if dimensions \<noteq> 0 \<and> dimensions \<noteq> sp_dimensions space
     then Inl (incompatible ''configured dimensions differ from active space; run omnisem index'')
     else if linked_current db (sp_id space) = 0
     then Inl (semantic_error (lit ''SEMANTIC_UNAVAILABLE'')
       (lit ''active embedding space has no linked active segments; run omnisem index''))
     else try_bind (embed_query provider space query) (\<lambda>vector.
     try_bind (rn_search runtime db config space vector request MAX_SEMANTIC_CANDIDATES) (\<lambda>report.
     Inr \<lparr>sn_hits = vs_hits report,
       sn_warnings = (if vs_corrupt_excluded report > 0
         then [show_nat (vs_corrupt_excluded report) @ lit '' corrupt vectors excluded from semantic search''] else []),
       sn_telemetry = default_telemetry\<lparr>
         te_query_embedding_ms := fmul F64 (re_embedding_seconds env) (Finite 1000),
         te_vector_scan_ms := fmul F64 (re_scan_seconds env) (Finite 1000),
         te_active_vectors_examined := vs_examined report,
         te_corrupt_vectors_excluded := vs_corrupt_excluded report,
         te_semantic_candidates := u32_sat (length (vs_hits report))\<rparr>\<rparr>)))))"

definition response_tokens :: "retrieval_query \<Rightarrow> retrieval_hit list \<Rightarrow> nat" where
  "response_tokens request hits = u32_sat (estimate_response_tokens estimate (rq_query request) (map rh_text hits))"

definition semantic_response ::
    "'g retrieval_env \<Rightarrow> db \<Rightarrow> app_config \<Rightarrow> retrieval_query \<Rightarrow> runtime \<Rightarrow> retrieval_error + retrieval_response" where
  "semantic_response env db config request runtime =
     try_bind (semantic_hits env db config request runtime) (\<lambda>channel.
       let (results, truncated, warnings) = pack_results (rq_query request) (sn_hits channel) (rq_limit request)
             (rq_token_budget request) (sn_warnings channel)
       in Inr \<lparr>rp_query = rq_query request, rp_requested_mode = rq_mode request, rp_mode = Semantic,
            rp_score_kind = lit ''cosine_similarity'', rp_results = results,
            rp_token_estimate = response_tokens request results, rp_truncated = truncated,
            rp_applied_limit = rq_limit request, rp_applied_token_budget = rq_token_budget request,
            rp_budget_preset = rq_budget_preset request, rp_duplicates_suppressed = 0, rp_warnings = warnings,
            rp_telemetry = sn_telemetry channel, rp_elapsed_ms = u64_sat (re_elapsed_ms env)\<rparr>)"

subsection \<open>Requests\<close>

definition candidate_limit :: "retrieval_query \<Rightarrow> nat" where
  "candidate_limit request = max 1 (min MAX_CANDIDATES (rq_limit request * CANDIDATE_MULTIPLIER))"

definition hits_use_fusion :: "retrieval_hit list \<Rightarrow> bool" where
  "hits_use_fusion hits \<longleftrightarrow> (\<exists>h \<in> set hits. si_fusion_score (rh_signals h) \<noteq> None)"

definition retrieve_lexical ::
    "'g retrieval_env \<Rightarrow> db \<Rightarrow> app_config \<Rightarrow> retrieval_query \<Rightarrow> retrieval_mode \<Rightarrow> retrieval_hit list \<Rightarrow> ustring list
      \<Rightarrow> retrieval_telemetry \<Rightarrow> retrieval_error + retrieval_response" where
  "retrieve_lexical env db config request requested_mode semantic warnings telemetry =
     (let effective_mode = (if semantic = [] then Lexical else Hybrid)
      in try_bind (map_err RetrievalDomain (parse_lexical_query (rq_query request))) (\<lambda>parsed.
         try_bind (search_fts env db request parsed (candidate_limit request)) (\<lambda>candidates.
         let deduped = suppress_duplicates candidates;
             sensitivity = load_sensitivity_sets env config;
             hits = lexical_hits env sensitivity parsed
               (filter_sensitivity env sensitivity (rq_include_sensitive request) deduped);
             (fusion, warnings) = federate_with_snapshots env db config request parsed hits sensitivity warnings semantic;
             (results, truncated, warnings) = pack_results (rq_query request) (fp_hits fusion) (rq_limit request)
               (rq_token_budget request) warnings
         in Inr \<lparr>rp_query = rq_query request, rp_requested_mode = requested_mode, rp_mode = effective_mode,
              rp_score_kind = (if effective_mode = Hybrid \<or> hits_use_fusion results then lit ''rrf''
                else lit ''bm25_public''),
              rp_results = results, rp_token_estimate = response_tokens request results,
              rp_truncated = truncated, rp_applied_limit = rq_limit request,
              rp_applied_token_budget = rq_token_budget request, rp_budget_preset = rq_budget_preset request,
              rp_duplicates_suppressed = u32_sat (length candidates - length deduped), rp_warnings = warnings,
              rp_telemetry = telemetry\<lparr>te_local_lexical_candidates := u32_sat (length hits),
                te_snapshot_lexical_candidates := fp_snapshot_candidates fusion,
                te_semantic_candidates := fp_semantic_candidates fusion,
                te_candidates_admitted_to_fusion := fp_admitted fusion,
                te_unique_fused_candidates := fp_unique fusion,
                te_fusion_duplicates_suppressed := fp_duplicates fusion\<rparr>,
              rp_elapsed_ms = u64_sat (re_elapsed_ms env)\<rparr>)))"

definition retrieve_with_runtime ::
    "'g retrieval_env \<Rightarrow> db \<Rightarrow> app_config \<Rightarrow> retrieval_query \<Rightarrow> runtime \<Rightarrow> retrieval_error + retrieval_response" where
  "retrieve_with_runtime env db config request runtime =
     (let lexical = retrieve_lexical env db config request (rq_mode request);
          fuse = (\<lambda>channel. lexical (sn_hits channel) (sn_warnings channel) (sn_telemetry channel))
      in case rq_mode request of
           Lexical \<Rightarrow> lexical [] [] default_telemetry
         | Semantic \<Rightarrow> semantic_response env db config request runtime
         | Hybrid \<Rightarrow> try_bind (semantic_hits env db config request runtime) fuse
         | Auto \<Rightarrow> (case semantic_hits env db config request runtime of
               Inr channel \<Rightarrow> fuse channel
             | Inl e \<Rightarrow> lexical [] [bounded_warning ''semantic channel unavailable; using lexical''
                   (retrieval_error_display (re_sql_text env) e)] default_telemetry))"

definition retrieve ::
    "'g retrieval_env \<Rightarrow> ollama_env option \<Rightarrow> db \<Rightarrow> app_config \<Rightarrow> retrieval_query \<Rightarrow> retrieval_error + retrieval_response" where
  "retrieve env feature db config request =
     (let lexical = retrieve_lexical env db config request (rq_mode request) []
      in if rq_mode request = Lexical \<or> rq_mode request = Auto \<and> \<not> ec_enabled (ac_embeddings config)
         then lexical [] default_telemetry
         else case configured_provider feature (ac_embeddings config) of
             Inr provider \<Rightarrow> retrieve_with_runtime env db config request
               \<lparr>rn_provider = Some provider, rn_search = sqlite_exact_search env\<rparr>
           | Inl e \<Rightarrow>
               if rq_mode request = Auto
               then lexical [bounded_warning ''semantic channel unavailable'' (embedding_error_display e)] default_telemetry
               else Inl (semantic_error (embedding_error_code e) (embedding_error_display e)))"

definition resolve_budget_args ::
    "app_config \<Rightarrow> ustring option \<Rightarrow> nat option \<Rightarrow> nat option \<Rightarrow> retrieval_error + nat \<times> nat \<times> ustring option" where
  "resolve_budget_args config budget limit token_budget =
     (case budget of
        Some name \<Rightarrow>
          if limit \<noteq> None \<or> token_budget \<noteq> None
          then Inl (RetrievalConfig (ConfigInvalid (lit ''cli'')
            (lit ''do not combine --budget with --limit or --token-budget'')))
          else try_bind (map_err RetrievalConfig (budget_preset_named config name)) (\<lambda>preset.
            try_bind (map_err RetrievalDomain (retrieval_limit_new (bp_max_results preset))) (\<lambda>l.
            try_bind (map_err RetrievalDomain (token_budget_new (bp_token_budget preset))) (\<lambda>t.
              Inr (l, t, Some (bp_name preset)))))
      | None \<Rightarrow>
          try_bind (map_err RetrievalDomain (retrieval_limit_new
            (case limit of Some l \<Rightarrow> l | None \<Rightarrow> rc_default_limit (ac_retrieval config)))) (\<lambda>l.
          try_bind (map_err RetrievalDomain (token_budget_new
            (case token_budget of Some t \<Rightarrow> t | None \<Rightarrow> rc_default_token_budget (ac_retrieval config)))) (\<lambda>t.
            Inr (l, t, None))))"

end
