(* ===== verification/Fusion_Properties.thy ===== *)
theory Fusion_Properties
  imports Fusion
begin

text \<open>
  What packing and fusion promise: the bounds of a response, which hits it keeps, and that reciprocal
  rank fusion computes, for every distinct text, the sum of the reciprocal ranks of its local
  occurrences (or of all, when none is local), independently of the order of the hash map.
\<close>

subsection \<open>Packing\<close>

definition results_cost :: "ustring \<Rightarrow> retrieval_hit list \<Rightarrow> nat" where
  "results_cost query hits = RESPONSE_OVERHEAD_TOKENS + estimate query + (\<Sum>h\<leftarrow>hits. hit_cost (rh_text h))"

definition results_bytes :: "retrieval_hit list \<Rightarrow> nat" where
  "results_bytes hits = (\<Sum>h\<leftarrow>hits. str_len (rh_text h))"

lemma results_cost_append [simp]:
  "results_cost q (xs @ [h]) = results_cost q xs + hit_cost (rh_text h)"
  by (simp add: results_cost_def)

lemma results_bytes_append [simp]:
  "results_bytes (xs @ [h]) = results_bytes xs + str_len (rh_text h)"
  "results_bytes [] = 0" "results_bytes [h] = str_len (rh_text h)"
  by (simp_all add: results_bytes_def)

lemma packed_hit_simps [simp]:
  "rh_text (packed_hit t b h) = t" "rh_truncated (packed_hit t b h) = b"
  "rh_root_id (packed_hit t b h) = rh_root_id h" "rh_relative_path (packed_hit t b h) = rh_relative_path h"
  "rh_file_type (packed_hit t b h) = rh_file_type h" "rh_segment_id (packed_hit t b h) = rh_segment_id h" "rh_text_hash (packed_hit t b h) = rh_text_hash h"
  "rh_score (packed_hit t b h) = rh_score h" "rh_signals (packed_hit t b h) = rh_signals h"
  by (simp_all add: packed_hit_def)

lemma shorten_bytes: "str_len (shorten budget used_tokens used_bytes text) \<le> MAX_HIT_TEXT_BYTES + 3"
  unfolding shorten_def Let_def using truncate_utf8_len by (meson add_le_mono1 le_trans min.cobounded2)

lemma over_budget_iff:
  assumes "budget < usize_max"
  shows "over_budget budget ut ub t \<longleftrightarrow> ut + hit_cost t > budget \<or> ub + str_len t > HARD_BYTE_CAP"
  using assms usize_sat_add_le_iff [of budget ut "hit_cost t"] usize_sat_add_le_iff [of HARD_BYTE_CAP ub "str_len t"]
  by (auto simp: over_budget_def not_le [symmetric] token_consts usize_max_def)

text \<open>The state of the loop: the counters agree with what is selected, unless a cut first result is
  already over the budget.\<close>

definition pack_state :: "ustring \<Rightarrow> nat \<Rightarrow> retrieval_hit list \<Rightarrow> nat \<Rightarrow> nat \<Rightarrow> ustring list \<Rightarrow> bool" where
  "pack_state q budget selected ut ub warnings \<longleftrightarrow>
     ub = results_bytes selected \<and> ub \<le> HARD_BYTE_CAP
     \<and> (ut = results_cost q selected \<and> (selected = [] \<or> ut \<le> budget)
        \<or> length selected = 1 \<and> ut > budget \<and> TRUNCATED_WARNING \<in> set warnings)"

lemma pack_state_over:
  assumes "budget < usize_max" "over_budget budget ut ub (rh_text h)" "pack_state q budget [] ut ub warnings"
  shows "let t = shorten budget ut ub (rh_text h) in
    pack_state q budget [packed_hit t True h] (usize_sat_add ut (hit_cost t)) (usize_sat_add ub (str_len t))
      (if usize_sat_add ut (hit_cost t) > budget then warnings @ [TRUNCATED_WARNING] else warnings)"
proof -
  define t where "t = shorten budget ut ub (rh_text h)"
  have "str_len t \<le> 4003" using shorten_bytes unfolding t_def by (auto simp: token_consts)
  then have bytes: "usize_sat_add 0 (str_len t) = str_len t" "str_len t \<le> HARD_BYTE_CAP"
    by (auto simp: usize_sat_add_def usize_max_def token_consts)
  have st: "ub = 0" "ut = results_cost q []" using assms(3) by (auto simp: pack_state_def)
  have "results_cost q [packed_hit t True h] = ut + hit_cost t"
    using results_cost_append [of q "[]" "packed_hit t True h"] st by simp
  then have "pack_state q budget [packed_hit t True h] (usize_sat_add ut (hit_cost t)) (usize_sat_add ub (str_len t))
      (if usize_sat_add ut (hit_cost t) > budget then warnings @ [TRUNCATED_WARNING] else warnings)"
    using bytes st(1) usize_sat_add_le_iff [OF assms(1), of ut "hit_cost t"] assms(1)
    by (auto simp: pack_state_def usize_sat_add_def)
  then show ?thesis by (simp add: Let_def t_def)
qed

lemma pack_state_fits:
  assumes "budget < usize_max" "\<not> over_budget budget ut ub (rh_text h)" "pack_state q budget selected ut ub warnings"
  shows "pack_state q budget (selected @ [packed_hit (rh_text h) b h])
    (usize_sat_add ut (hit_cost (rh_text h))) (usize_sat_add ub (str_len (rh_text h))) warnings"
proof -
  have fits: "ut + hit_cost (rh_text h) \<le> budget" "ub + str_len (rh_text h) \<le> HARD_BYTE_CAP"
    using assms(2) over_budget_iff [OF assms(1)] by auto
  then have "ut \<le> budget" by simp
  then have "ut = results_cost q selected" "ub = results_bytes selected"
    using assms(3) by (auto simp: pack_state_def)
  with fits assms(1) show ?thesis
    by (auto simp: pack_state_def usize_sat_add_def usize_max_def token_consts)
qed

lemma pack_loop_state:
  assumes b: "budget < usize_max" and "pack_state q budget selected ut ub warnings"
    and "pack_loop budget limit selected ut ub warnings hits = (out, tr, w)"
  shows "\<exists>ut ub. pack_state q budget out ut ub w"
  using assms(2,3)
proof (induction hits arbitrary: selected ut ub warnings)
  case Nil
  then show ?case by auto
next
  case (Cons hit hits)
  show ?case
  proof (cases "length selected \<ge> limit")
    case True
    with Cons.prems show ?thesis by auto
  next
    case room: False
    show ?thesis
    proof (cases "over_budget budget ut ub (rh_text hit)")
      case True
      then show ?thesis
        using Cons.prems room Cons.IH [OF pack_state_over [OF b True, unfolded Let_def]]
        by (cases "selected = []") (auto simp: Let_def)
    next
      case False
      then show ?thesis using Cons.prems room Cons.IH [OF pack_state_fits [OF b False]] by (auto simp: Let_def)
    qed
  qed
qed

lemma pack_loop_limit:
  "pack_loop budget limit selected ut ub warnings hits = (out, tr, w) \<Longrightarrow> length out \<le> max limit (length selected)"
proof (induction hits arbitrary: selected ut ub warnings)
  case (Cons hit hits)
  then show ?case by (fastforce simp: Let_def not_le split: if_splits)
qed simp

text \<open>The hits a packing returns: those it was given, in order, all unchanged but for the estimate,
  except that the first may have been cut.\<close>

definition whole :: "retrieval_hit \<Rightarrow> retrieval_hit" where
  "whole h = packed_hit (rh_text h) (rh_truncated h) h"

lemma pack_loop_tail:
  assumes "pack_loop budget limit selected ut ub warnings hits = (out, tr, w)" "selected \<noteq> []"
  shows "\<exists>k \<le> length hits. out = selected @ map whole (take k hits) \<and> tr = (k < length hits)"
  using assms
proof (induction hits arbitrary: selected ut ub warnings)
  case (Cons hit hits)
  show ?case
  proof (cases "length selected \<ge> limit \<or> over_budget budget ut ub (rh_text hit)")
    case True
    with Cons.prems show ?thesis by (intro exI [of _ 0]) (auto simp: Let_def split: if_splits)
  next
    case False
    with Cons.prems have "pack_loop budget limit (selected @ [whole hit]) (usize_sat_add ut (hit_cost (rh_text hit)))
        (usize_sat_add ub (str_len (rh_text hit))) warnings hits = (out, tr, w)"
      by (auto simp: Let_def whole_def)
    from Cons.IH [OF this] obtain k where "k \<le> length hits" "out = (selected @ [whole hit]) @ map whole (take k hits)"
      "tr = (k < length hits)" by auto
    then show ?thesis by (intro exI [of _ "Suc k"]) simp
  qed
qed simp

lemma pack_loop_first:
  assumes "pack_loop budget limit [] ut ub warnings (h # hs) = (out, tr, w)" "0 < limit"
  shows "\<exists>k \<le> length hs. \<exists>first. out = first # map whole (take k hs) \<and> tr = (k < length hs)
    \<and> (first = whole h \<or> first = packed_hit (shorten budget ut ub (rh_text h)) True h)"
proof (cases "over_budget budget ut ub (rh_text h)")
  case True
  let ?first = "packed_hit (shorten budget ut ub (rh_text h)) True h"
  from True assms obtain ut' ub' w' where "pack_loop budget limit [?first] ut' ub' w' hs = (out, tr, w)"
    by (auto simp: Let_def)
  from pack_loop_tail [OF this] show ?thesis by auto
next
  case False
  with assms obtain ut' ub' where "pack_loop budget limit [whole h] ut' ub' warnings hs = (out, tr, w)"
    by (auto simp: Let_def whole_def)
  from pack_loop_tail [OF this] show ?thesis by auto
qed

text \<open>Nothing a packing returns is new: where a hit is from is kept.\<close>

definition locus :: "retrieval_hit \<Rightarrow> uuid \<times> path \<times> supported_file_type" where
  "locus h = (rh_root_id h, rh_relative_path h, rh_file_type h)"

lemma locus_packed [simp]: "locus (packed_hit t b h) = locus h" "locus (whole h) = locus h"
  by (simp_all add: locus_def whole_def)

lemma pack_results_locus:
  assumes "pack_results query hits limit budget warnings = (results, tr, w)"
  shows "locus ` set results \<subseteq> locus ` set hits"
proof (cases "hits = [] \<or> limit = 0")
  case True
  with assms show ?thesis by (cases hits) (auto simp: pack_results_def)
next
  case False
  then obtain h hs where hits: "hits = h # hs" by (cases hits) auto
  obtain tr' where "pack_loop budget limit [] (RESPONSE_OVERHEAD_TOKENS + estimate query) 0 warnings (h # hs)
      = (results, tr', w)"
    using assms hits by (auto simp: pack_results_def split: prod.splits)
  from pack_loop_first [OF this] False obtain k first where "results = first # map whole (take k hs)"
    "locus first = locus h" by fastforce
  then have "locus ` set results = insert (locus h) (locus ` set (take k hs))" by (simp add: image_image)
  then show ?thesis unfolding hits using set_take_subset [of k hs] by auto
qed


text \<open>
  What a response keeps: the hits from the best on, without a gap and in order, each whole except that
  the first one may be cut; the flag \<open>truncated\<close> is raised when something was left out, but also when
  nothing was and the number of hits equals the limit.
\<close>
theorem pack_results_prefix:
  assumes "pack_results query hits limit budget warnings = (results, truncated, w)" "0 < limit" "hits \<noteq> []"
  shows "\<exists>k \<le> length (tl hits). \<exists>first. results = first # map whole (take k (tl hits))
    \<and> (first = whole (hd hits) \<or> (\<exists>t. first = packed_hit t True (hd hits) \<and> str_len t \<le> MAX_HIT_TEXT_BYTES + 3))
    \<and> (truncated \<longleftrightarrow> length results < length hits \<or> length results = limit)"
proof -
  obtain tr where run: "pack_loop budget limit [] (results_cost query []) 0 warnings hits = (results, tr, w)"
    and t: "truncated \<longleftrightarrow> tr \<or> length results \<ge> limit"
    using assms(1) by (auto simp: pack_results_def results_cost_def split: prod.splits)
  obtain h hs where hits: "hits = h # hs" using assms(3) by (cases hits) auto
  from pack_loop_first [OF run [unfolded hits] assms(2)] obtain k first where k: "k \<le> length hs"
    "results = first # map whole (take k hs)" "tr = (k < length hs)"
    "first = whole h \<or> first = packed_hit (shorten budget (results_cost query []) 0 (rh_text h)) True h" by blast
  have "length results \<le> limit" using pack_loop_limit [OF run] by simp
  with t k have "truncated \<longleftrightarrow> length results < length hits \<or> length results = limit" using hits by auto
  moreover have "first = whole h \<or> (\<exists>t. first = packed_hit t True h \<and> str_len t \<le> MAX_HIT_TEXT_BYTES + 3)"
    using k(4) shorten_bytes by blast
  ultimately show ?thesis using k(1,2) hits by (intro exI [of _ k] conjI exI [of _ first]) simp_all
qed

subsection \<open>Reciprocal ranks\<close>

lemma rounded_ge_1:
  assumes "1 \<le> x" shows "1 \<le> rounded F32 x"
proof -
  from assms have "rounded F32 1 \<le> rounded F32 x" by (intro rounded_mono) auto
  moreover have "1 \<le> rounded F32 1"
    using round_half_even_pow2(2) [of "-23" 0 1] by (simp add: rounded_def ulp_def F32_def exponent_1)
  ultimately show ?thesis by simp
qed

lemma fadd_nonneg_Finite: "nonneg a \<Longrightarrow> 0 \<le> y \<Longrightarrow> nonneg (fadd fm a (Finite y))"
  by (rule nonneg_fadd) auto

lemma contribution_nonneg: "nonneg (contribution rank)"
proof -
  let ?r = "fadd F32 RRF_K (of_int_float F32 (int rank))"
  have r: "nonneg ?r"
    by (intro nonneg_fadd) (simp_all add: RRF_K_def of_int_float_def nonneg_round_to)
  show ?thesis
  proof (cases ?r)
    case (Finite x)
    with r have "1 \<le> rounded F32 (x + 1)" by (intro rounded_ge_1) simp
    then have "fadd F32 ?r (Finite 1) = Infinite False \<or> (\<exists>y \<ge> 1. fadd F32 ?r (Finite 1) = Finite y)"
      using r Finite by (auto simp: round_to_def Let_def)
    then show ?thesis
      by (auto simp: contribution_def intro!: nonneg_round_to)
  next
    case (Infinite s)
    then show ?thesis by (simp add: contribution_def)
  next
    case NaN
    with r show ?thesis by simp
  qed
qed

subsection \<open>Fusion\<close>

definition ranked_hits :: "retrieval_hit list list \<Rightarrow> (nat \<times> retrieval_hit) list" where
  "ranked_hits rankings = take MAX_FUSION_CANDIDATES (concat (map (enumerate 0) rankings))"

text \<open>The occurrences of a text that count: the local ones when there is one, all otherwise.\<close>

definition occurrences :: "content_hash \<Rightarrow> (nat \<times> retrieval_hit) list \<Rightarrow> (nat \<times> retrieval_hit) list" where
  "occurrences h cs = filter (\<lambda>c. rh_text_hash (snd c) = h) cs"

definition counted :: "(nat \<times> retrieval_hit) list \<Rightarrow> (nat \<times> retrieval_hit) list" where
  "counted cs = (if \<exists>c \<in> set cs. is_local (snd c) then filter (\<lambda>c. is_local (snd c)) cs else cs)"

definition total_contribution :: "(nat \<times> retrieval_hit) list \<Rightarrow> float" where
  "total_contribution cs = foldl (fadd F32) (contribution (fst (hd cs))) (map (\<lambda>c. contribution (fst c)) (tl cs))"

text \<open>What identifies the evidence a hit shows.\<close>

definition evidence ::
    "retrieval_hit \<Rightarrow> uuid \<times> uuid \<times> path \<times> supported_file_type \<times> ustring \<times> ustring \<times> content_hash \<times> evidence_origin" where
  "evidence h = (rh_segment_id h, rh_root_id h, rh_relative_path h, rh_file_type h, rh_anchor h, rh_text h,
     rh_text_hash h, rh_origin h)"

lemma evidence_simps [simp]:
  "evidence (merge_signals t i) = evidence t" "evidence (with_score s h) = evidence h" "evidence (finished a) = evidence (fu_hit a)"
  by (simp_all add: evidence_def merge_signals_def with_score_def finished_def Let_def)

lemma rrf_fold:
  "foldl rrf_step (best, n) cs =
    (foldl admit best (take (MAX_FUSION_CANDIDATES - n) cs), n + length (take (MAX_FUSION_CANDIDATES - n) cs))"
proof (induction cs arbitrary: best n)
  case (Cons c cs)
  then show ?case
    by (cases "MAX_FUSION_CANDIDATES - n") (auto simp: rrf_step_def not_le Suc_diff_Suc
      simp flip: Suc_diff_Suc)
qed simp

text \<open>The accumulator of one text.\<close>

definition acc_of :: "(nat \<times> retrieval_hit) list \<Rightarrow> fused option" where
  "acc_of cs = (case cs of [] \<Rightarrow> None | c # cs \<Rightarrow> Some (foldl accumulate (fresh_acc c) cs))"

lemma acc_of_snoc:
  "acc_of (cs @ [c]) = Some (case acc_of cs of None \<Rightarrow> fresh_acc c | Some a \<Rightarrow> accumulate a c)"
  by (cases cs) (auto simp: acc_of_def)

lemma admit_cases:
  "map_of best (rh_text_hash (snd c)) = None \<Longrightarrow> admit best c = best @ [(rh_text_hash (snd c), fresh_acc c)]"
  "map_of best (rh_text_hash (snd c)) = Some a \<Longrightarrow> admit best c = AList.update (rh_text_hash (snd c)) (accumulate a c) best"
  by (simp_all add: admit_def)

lemma admit_fold:
  "map_of (foldl admit [] cs) h = acc_of (occurrences h cs)
    \<and> distinct (map fst (foldl admit [] cs))"
proof (induction cs arbitrary: h rule: rev_induct)
  case Nil
  then show ?case by (simp add: acc_of_def occurrences_def)
next
  case (snoc c cs)
  let ?best = "foldl admit [] cs" and ?key = "rh_text_hash (snd c)"
  note IH = conjunct1 [OF snoc] conjunct2 [OF snoc]
  show ?case
  proof (cases "map_of ?best ?key")
    case None
    then have "?key \<notin> fst ` set ?best" by (simp add: map_of_eq_None_iff)
    moreover have "acc_of (occurrences ?key cs) = None" using None IH by simp
    ultimately show ?thesis
      using IH(2) snoc by (auto simp: admit_cases(1) [OF None] occurrences_def acc_of_snoc map_add_def split: option.split)
  next
    case (Some a)
    then have "acc_of (occurrences ?key cs) = Some a" using IH by simp
    then show ?thesis
      using IH(2) snoc by (auto simp: admit_cases(2) [OF Some] occurrences_def acc_of_snoc update_conv' distinct_update)
  qed
qed

lemma accumulate_simps [simp]:
  "fu_local (accumulate a c) \<longleftrightarrow> fu_local a \<or> is_local (snd c)"
  "fu_score (accumulate a c) = (if fu_local a then if is_local (snd c) then fadd F32 (fu_score a) (contribution (fst c))
     else fu_score a else if is_local (snd c) then contribution (fst c) else fadd F32 (fu_score a) (contribution (fst c)))"
  "evidence (fu_hit (accumulate a c)) =
     (if \<not> fu_local a \<and> is_local (snd c) then evidence (snd c) else evidence (fu_hit a))"
  by (auto simp: accumulate_def fresh_acc_def)

lemma counted_snoc:
  "counted (cs @ [c]) =
     (if \<exists>c \<in> set cs. is_local (snd c) then if is_local (snd c) then counted cs @ [c] else counted cs
      else if is_local (snd c) then [c] else counted cs @ [c])"
proof -
  have "filter (\<lambda>c. is_local (snd c)) cs = []" if "\<not> (\<exists>c \<in> set cs. is_local (snd c))"
    using that by (simp add: filter_empty_conv)
  then show ?thesis by (auto simp: counted_def)
qed

lemma counted_nonempty: "cs \<noteq> [] \<Longrightarrow> counted cs \<noteq> []"
  by (auto simp: counted_def filter_empty_conv)

lemma set_counted: "set (counted cs) \<subseteq> set cs"
  by (auto simp: counted_def)

lemma hd_counted: "cs \<noteq> [] \<Longrightarrow> hd (counted cs) \<in> set cs"
  using hd_in_set [OF counted_nonempty] set_counted by blast

lemma total_contribution_snoc:
  "cs \<noteq> [] \<Longrightarrow> total_contribution (cs @ [c]) = fadd F32 (total_contribution cs) (contribution (fst c))"
  "total_contribution [c] = contribution (fst c)"
  by (simp_all add: total_contribution_def)

text \<open>What an accumulator holds after the occurrences \<open>cs\<close>.\<close>

definition accounts_for :: "fused \<Rightarrow> (nat \<times> retrieval_hit) list \<Rightarrow> bool" where
  "accounts_for a cs \<longleftrightarrow>
     (fu_local a \<longleftrightarrow> (\<exists>c \<in> set cs. is_local (snd c)))
     \<and> fu_score a = total_contribution (counted cs)
     \<and> evidence (fu_hit a) = evidence (snd (hd (counted cs)))"

lemma accounts_for_fresh: "accounts_for (fresh_acc c) [c]"
  by (simp add: accounts_for_def fresh_acc_def counted_def total_contribution_def)

lemma accounts_for_snoc:
  assumes "accounts_for a cs" "cs \<noteq> []"
  shows "accounts_for (accumulate a c) (cs @ [c])"
  using assms counted_nonempty [OF assms(2)]
  by (auto simp: accounts_for_def counted_snoc total_contribution_snoc)

lemma acc_of_spec: "cs \<noteq> [] \<Longrightarrow> \<exists>a. acc_of cs = Some a \<and> accounts_for a cs"
proof (induction cs rule: rev_induct)
  case (snoc c cs)
  show ?case
  proof (cases "cs = []")
    case True
    then show ?thesis by (simp add: acc_of_def accounts_for_fresh)
  next
    case False
    with snoc.IH show ?thesis by (auto simp: acc_of_snoc accounts_for_snoc)
  qed
qed simp

text \<open>The entries that are drained, and their order.\<close>

definition fair_map_order :: "'g retrieval_env \<Rightarrow> bool" where
  "fair_map_order env \<longleftrightarrow> (\<forall>ks. mset (re_map_order env ks) = mset ks)"

definition drained :: "'g retrieval_env \<Rightarrow> retrieval_hit list list \<Rightarrow> fused list" where
  "drained env rankings =
     (let best = foldl admit [] (ranked_hits rankings)
      in map (\<lambda>k. the (map_of best k)) (re_map_order env (map fst best)))"

lemma rrf_merge_hits:
  "fp_hits (rrf_merge env rankings) = map finished (sort_by (fused_order env) (drained env rankings))"
  "fp_admitted (rrf_merge env rankings) = u32_sat (length (ranked_hits rankings))"
  "fp_unique (rrf_merge env rankings) = u32_sat (length (drained env rankings))"
  "fp_duplicates (rrf_merge env rankings) =
     u32_sat (length (ranked_hits rankings)) - u32_sat (length (drained env rankings))"
  by (simp_all add: rrf_merge_def Let_def rrf_fold ranked_hits_def drained_def)

lemma drained_entries:
  assumes "fair_map_order env"
  shows "distinct (map (\<lambda>a. rh_text_hash (fu_hit a)) (drained env rankings))"
    and "(\<lambda>a. rh_text_hash (fu_hit a)) ` set (drained env rankings) = (\<lambda>c. rh_text_hash (snd c)) ` set (ranked_hits rankings)"
    and "\<forall>a \<in> set (drained env rankings).
      occurrences (rh_text_hash (fu_hit a)) (ranked_hits rankings) \<noteq> []
      \<and> accounts_for a (occurrences (rh_text_hash (fu_hit a)) (ranked_hits rankings))"
proof -
  let ?cs = "ranked_hits rankings"
  define best where "best = foldl admit [] ?cs"
  let ?keys = "re_map_order env (map fst best)"
  have map: "map_of best h = acc_of (occurrences h ?cs)" for h using admit_fold best_def by metis
  have d: "distinct ?keys"
    using admit_fold [of ?cs] assms unfolding fair_map_order_def best_def by (metis mset_eq_imp_distinct_iff)
  have keys: "set ?keys = (\<lambda>c. rh_text_hash (snd c)) ` set ?cs"
  proof -
    have "set ?keys = dom (map_of best)"
      using assms unfolding fair_map_order_def by (metis dom_map_of_conv_image_fst list.set_map set_mset_mset)
    also have "\<dots> = {h. occurrences h ?cs \<noteq> []}" by (auto simp: map dom_def acc_of_def split: list.splits)
    finally show ?thesis by (auto simp: occurrences_def filter_empty_conv)
  qed
  have entry: "\<exists>a. map_of best h = Some a \<and> accounts_for a (occurrences h ?cs) \<and> rh_text_hash (fu_hit a) = h
      \<and> occurrences h ?cs \<noteq> []" if "h \<in> set ?keys" for h
  proof -
    from that have ne: "occurrences h ?cs \<noteq> []" unfolding keys by (auto simp: occurrences_def filter_empty_conv)
    from acc_of_spec [OF ne] obtain a where a: "map_of best h = Some a" "accounts_for a (occurrences h ?cs)"
      by (auto simp: map)
    have "hd (counted (occurrences h ?cs)) \<in> set (occurrences h ?cs)"
      by (rule hd_counted [OF ne])
    then have "rh_text_hash (snd (hd (counted (occurrences h ?cs)))) = h" by (simp add: occurrences_def)
    with a ne show ?thesis by (auto simp: accounts_for_def evidence_def)
  qed
  have dr: "drained env rankings = map (\<lambda>k. the (map_of best k)) ?keys" by (simp add: drained_def best_def Let_def)
  have hashes: "map (\<lambda>a. rh_text_hash (fu_hit a)) (drained env rankings) = ?keys"
    unfolding dr map_map comp_def
  proof (rule map_idI)
    fix h assume "h \<in> set ?keys"
    from entry [OF this] show "rh_text_hash (fu_hit (the (map_of best h))) = h" by auto
  qed
  show "distinct (map (\<lambda>a. rh_text_hash (fu_hit a)) (drained env rankings))" using d hashes by simp
  show "(\<lambda>a. rh_text_hash (fu_hit a)) ` set (drained env rankings) = (\<lambda>c. rh_text_hash (snd c)) ` set ?cs"
    using keys hashes by (metis list.set_map)
  show "\<forall>a \<in> set (drained env rankings). occurrences (rh_text_hash (fu_hit a)) ?cs \<noteq> []
      \<and> accounts_for a (occurrences (rh_text_hash (fu_hit a)) ?cs)"
    unfolding dr using entry by fastforce
qed

lemma ranked_from: "c \<in> set (concat (map (enumerate 0) xss)) \<Longrightarrow> snd c \<in> \<Union> (set ` set xss)"
  by (cases c) (auto simp: enumerate_eq_zip dest: set_zip_rightD)

lemma rrf_merge_evidence:
  assumes "fair_map_order env" "h \<in> set (fp_hits (rrf_merge env rankings))"
  shows "\<exists>h' \<in> \<Union> (set ` set rankings). evidence h = evidence h'"
proof -
  from assms(2) obtain a where a: "a \<in> set (drained env rankings)" "evidence h = evidence (fu_hit a)"
    by (auto simp: rrf_merge_hits)
  let ?os = "occurrences (rh_text_hash (fu_hit a)) (ranked_hits rankings)"
  from drained_entries(3) [OF assms(1), rule_format, OF a(1)]
  have os: "?os \<noteq> []" "evidence (fu_hit a) = evidence (snd (hd (counted ?os)))" by (auto simp: accounts_for_def)
  have "hd (counted ?os) \<in> set (concat (map (enumerate 0) rankings))"
    using hd_counted [OF os(1)] set_take_subset by (fastforce simp: occurrences_def ranked_hits_def)
  then have "snd (hd (counted ?os)) \<in> \<Union> (set ` set rankings)"
    by (rule ranked_from)
  with os a show ?thesis by auto
qed

lemma foldl_scores_not_nan: "cs \<noteq> [] \<Longrightarrow> nonneg (total_contribution cs)"
  by (auto simp: total_contribution_def contribution_nonneg intro!: nonneg_foldl_fadd)

lemma drained_not_nan:
  assumes "fair_map_order env" "a \<in> set (drained env rankings)"
  shows "\<not> is_nan (fu_score a)"
proof (rule nonneg_not_nan)
  from drained_entries(3) [OF assms(1), rule_format, OF assms(2)]
  show "nonneg (fu_score a)" using foldl_scores_not_nan [OF counted_nonempty] by (simp add: accounts_for_def)
qed

interpretation fused: comparator "fused_order env" "{a. \<not> is_nan (fu_score a)}"
  unfolding fused_order_def path_cmp_def
  using comparator_pull [OF comparator_rev [OF floats.comparator_axioms], of fu_score]
  by (intro comparator_then comparator_key) simp

text \<open>
  C22. Reciprocal rank fusion: among the first 768 ranked hits every distinct text appears exactly once in
  the fused list; it carries the evidence of its first local occurrence, or of its first one when none is
  local, and its score is the sum, in \<open>f32\<close>, of the reciprocal ranks of its local occurrences (of all when
  none is local); the list is sorted by falling score.
\<close>
theorem rrf_merge_spec:
  fixes env :: "'g retrieval_env"
  assumes "fair_map_order env"
  shows "let cs = ranked_hits rankings; hits = fp_hits (rrf_merge env rankings) in
    distinct (map rh_text_hash hits)
    \<and> rh_text_hash ` set hits = (\<lambda>c. rh_text_hash (snd c)) ` set cs
    \<and> (\<forall>h \<in> set hits. let os = counted (occurrences (rh_text_hash h) cs) in
         evidence h = evidence (snd (hd os)) \<and> rh_score h = total_contribution os)
    \<and> sorted_wrt (\<lambda>a b. float_cmp (rh_score a) (rh_score b) \<noteq> Less) hits"
proof -
  let ?as = "drained env rankings" and ?cs = "ranked_hits rankings" and ?hits = "fp_hits (rrf_merge env rankings)"
  have hits: "?hits = map finished (sort_by (fused_order env) ?as)" by (simp add: rrf_merge_hits)
  have hash: "rh_text_hash (finished a) = rh_text_hash (fu_hit a)" "rh_score (finished a) = fu_score a" for a
    by (simp_all add: finished_def Let_def)
  note entries = drained_entries [OF assms(1), of rankings]
  have "mset (map rh_text_hash ?hits) = mset (map (\<lambda>a. rh_text_hash (fu_hit a)) ?as)"
    by (simp add: hits hash image_mset.compositionality comp_def)
  then have d: "distinct (map rh_text_hash ?hits)" using entries(1) by (metis mset_eq_imp_distinct_iff)
  have "sorted_wrt (\<lambda>a b. fused_order env a b \<noteq> Greater) (sort_by (fused_order env) ?as)"
    by (rule fused.sorted_sort_by) (auto simp: drained_not_nan [OF assms(1)])
  moreover have "float_cmp (fu_score a) (fu_score b) \<noteq> Less"
    if "fused_order env a b \<noteq> Greater" "a \<in> set ?as" "b \<in> set ?as" for a b
    using that floats.swap [of "fu_score b" "fu_score a"] drained_not_nan [OF assms(1)] by (auto simp: fused_order_def)
  ultimately have "sorted_wrt (\<lambda>a b. float_cmp (rh_score a) (rh_score b) \<noteq> Less) ?hits"
    unfolding hits sorted_wrt_map by (auto simp: hash elim!: sorted_wrt_mono_rel [rotated])
  with d entries(2,3) show ?thesis
    by (auto simp: hits hash image_image Let_def accounts_for_def)
qed

text \<open>
  The fused list does not depend on the order in which the hash map is drained, provided no segment
  appears with two texts and identifiers are written differently.
\<close>
theorem rrf_merge_deterministic:
  assumes "fair_map_order env" "fair_map_order env'" "id_text env' = id_text env" "inj (id_text env)"
    and "\<forall>a \<in> set (ranked_hits rankings). \<forall>b \<in> set (ranked_hits rankings).
      rh_segment_id (snd a) = rh_segment_id (snd b) \<longrightarrow> rh_text_hash (snd a) = rh_text_hash (snd b)"
  shows "rrf_merge env' rankings = rrf_merge env rankings"
proof -
  let ?cs = "ranked_hits rankings" and ?as = "drained env rankings"
  have perm: "mset (drained env' rankings) = mset ?as"
    using assms(1,2) by (simp add: drained_def Let_def fair_map_order_def)
  have order: "fused_order env' = fused_order env" unfolding fused_order_def assms(3) ..
  have source: "\<exists>c \<in> set ?cs. rh_segment_id (snd c) = rh_segment_id (fu_hit a) \<and> rh_text_hash (snd c) = rh_text_hash (fu_hit a)"
    if "a \<in> set ?as" for a
  proof -
    let ?os = "occurrences (rh_text_hash (fu_hit a)) ?cs"
    from drained_entries(3) [OF assms(1), rule_format, OF that]
    have "?os \<noteq> []" "evidence (fu_hit a) = evidence (snd (hd (counted ?os)))" by (auto simp: accounts_for_def)
    moreover from this(1) have "hd (counted ?os) \<in> set ?cs"
      using hd_counted [of ?os] by (simp add: occurrences_def)
    ultimately show ?thesis by (intro bexI [of _ "hd (counted ?os)"]) (simp_all add: evidence_def)
  qed
  have strict: "a = b" if ab: "a \<in> set ?as" "b \<in> set ?as" "fused_order env a b = Equal" for a b
  proof -
    have "rh_segment_id (fu_hit a) = rh_segment_id (fu_hit b)"
      using ab(3) assms(4) by (auto simp: fused_order_def dest: injD)
    moreover obtain c d where "c \<in> set ?cs" "d \<in> set ?cs" "rh_segment_id (snd c) = rh_segment_id (fu_hit a)"
      "rh_text_hash (snd c) = rh_text_hash (fu_hit a)" "rh_segment_id (snd d) = rh_segment_id (fu_hit b)"
      "rh_text_hash (snd d) = rh_text_hash (fu_hit b)"
      using source [OF ab(1)] source [OF ab(2)] by blast
    ultimately have "rh_text_hash (fu_hit a) = rh_text_hash (fu_hit b)" using assms(5) by (metis (no_types))
    then show ?thesis using drained_entries(1) [OF assms(1), of rankings] ab(1,2)
      by (auto simp: distinct_map dest: inj_onD)
  qed
  have "comparator (fused_order env) (set ?as)"
    by (rule comparator_subset [OF fused.comparator_axioms]) (auto simp: drained_not_nan [OF assms(1)])
  then have "sort_by (fused_order env) ?as = sort_by (fused_order env) (drained env' rankings)"
    by (rule comparator.sort_by_perm) (use perm strict in auto)
  then have hits: "fp_hits (rrf_merge env' rankings) = fp_hits (rrf_merge env rankings)"
    by (simp add: rrf_merge_hits order)
  have "length (drained env' rankings) = length ?as" using perm by (metis size_mset)
  then show ?thesis using hits
    by (intro fusion_report.equality) (simp_all add: rrf_merge_hits, simp_all add: rrf_merge_def Let_def split: prod.split)
qed

subsection \<open>A small environment\<close>

text \<open>Identifiers in decimal, literal globs, an \<open>fts\<close> engine that matches the letter \<open>o\<close>.\<close>

definition plain_config_env :: config_env where
  "plain_config_env = \<lparr>ce_parse_uuid = (\<lambda>s. if s \<noteq> [] \<and> list_all is_ascii_digit s then Some (digits_val s) else None),
     ce_uuid_string = show_nat, ce_url_parse = (\<lambda>s. None), ce_toml_parse = (\<lambda>s. Inl []), ce_toml_print = (\<lambda>c. Inr []),
     ce_fingerprint_json = (\<lambda>r. []), ce_blake3 = (\<lambda>b. b), ce_home = None, ce_clock = 0, ce_fs = note_fs,
     ce_create_dir_all = (\<lambda>p. None), ce_write = (\<lambda>p. None), ce_set_permissions = (\<lambda>p. None),
     ce_read_failure = (\<lambda>p. None)\<rparr>"

definition plain_env :: "ustring retrieval_env" where
  "plain_env = \<lparr>re_config = plain_config_env, re_lowercase = id, re_glob_new = Inr,
     re_glob_build = (\<lambda>gs. Inr (\<lambda>s. s \<in> set gs)),
     re_fts = \<lparr>fx_error = (\<lambda>e. None), fx_match = (\<lambda>e t. 111 \<in> set t), fx_bm25 = (\<lambda>ts e t. Finite (-1)),
       fx_highlight = (\<lambda>e t. t)\<rparr>,
     re_open_snapshot = (\<lambda>p. Inl []), re_sql_text = (\<lambda>e. []), re_map_order = id,
     re_embedding_seconds = Finite 0, re_scan_seconds = Finite 0, re_elapsed_ms = 0\<rparr>"

lemma plain_fair: "fair_map_order plain_env" "fair_map_order (plain_env\<lparr>re_map_order := rev\<rparr>)"
  by (simp_all add: fair_map_order_def plain_env_def)

definition plain_hit :: "uuid \<Rightarrow> ustring \<Rightarrow> retrieval_hit" where
  "plain_hit i t = \<lparr>rh_segment_id = i, rh_revision_id = 1, rh_source_file_id = 1, rh_root_id = 1,
     rh_relative_path = [97], rh_file_type = PlainText, rh_anchor = [], rh_text = t, rh_text_hash = t,
     rh_score = Finite 1, rh_signals = lexical_signals ''lexical_fts5'' (Finite (-1)) 0,
     rh_explanation = \<lparr>mx_matched_terms = [], mx_matched_excerpt = None, mx_explanation_kind = LexicalTermOverlap\<rparr>,
     rh_freshness = Unknown, rh_sensitivity_scope = None, rh_token_estimate = 9, rh_truncated = False,
     rh_origin = LocalIndex\<rparr>"

lemma plain_hit_text [simp]: "rh_text (plain_hit i t) = t" "rh_text_hash (plain_hit i t) = t"
  "rh_segment_id (plain_hit i t) = i" "rh_truncated (plain_hit i t) = False"
  by (simp_all add: plain_hit_def)

lemma plain_pack: "pack_results [111] [plain_hit 1 [111], plain_hit 2 [112]] 1 100 []
  = ([whole (plain_hit 1 [111])], True, [])"
  by (simp add: pack_results_def token_consts hit_cost_def over_budget_def estimate_def div_ceil_def rust_int usize_max_def
      utf8_len_def whole_def str_len_def Let_def)


theorem pack_results_prefix_witness:
  "\<exists>k \<le> 1. \<exists>first. [whole (plain_hit 1 [111])] = first # map whole (take k [plain_hit 2 [112]])"
  using pack_results_prefix [OF plain_pack] by auto

theorem rrf_merge_spec_witness:
  "distinct (map rh_text_hash (fp_hits (rrf_merge plain_env [[plain_hit 1 [111]], [plain_hit 2 [112], plain_hit 1 [111]]])))"
  using rrf_merge_spec [OF plain_fair(1)] by (simp add: Let_def)

theorem rrf_merge_deterministic_witness:
  "rrf_merge (plain_env\<lparr>re_map_order := rev\<rparr>) [[plain_hit 1 [111]], [plain_hit 2 [112], plain_hit 1 [111]]]
    = rrf_merge plain_env [[plain_hit 1 [111]], [plain_hit 2 [112], plain_hit 1 [111]]]"
proof (rule rrf_merge_deterministic [OF plain_fair])
  show "inj (id_text plain_env)"
    by (simp add: plain_env_def plain_config_env_def) (metis digits_val_show_nat injI)
qed (simp_all add: plain_env_def ranked_hits_def MAX_FUSION_CANDIDATES_def)

end
