(* ===== verification/Retrieval_Properties.thy ===== *)
theory Retrieval_Properties
  imports Semantic Fusion_Properties Storage_Properties
begin

text \<open>
  Properties of retrieval as a whole: what the full-text search returns in terms of the abstract index,
  that no sensitive path reaches a response, that the semantic channel is a top-k scan inside one
  embedding space and never costs a request in automatic mode, and what duplicates and snapshots do.
\<close>

lemma map_sum_Inr_iff: "map_sum f g r = Inr b \<longleftrightarrow> (\<exists>a. r = Inr a \<and> g a = b)"
  by (cases r) auto

subsection \<open>Full-text search\<close>

text \<open>A segment the request may see: of the current revision of a file, in an enabled root.\<close>

definition searchable :: "db \<Rightarrow> retrieval_query \<Rightarrow> source_file \<Rightarrow> segment \<Rightarrow> root \<Rightarrow> bool" where
  "searchable db request sf s r \<longleftrightarrow>
     sf \<in> set (db_source_files db) \<and> r \<in> set (db_roots db) \<and> rt_id r = sf_root_id sf \<and> rt_enabled r
     \<and> request_allows request (sf_root_id sf) (sf_file_type sf)
     \<and> (\<exists>v gs. index_view db (sf_root_id sf, sf_relative_path sf) = Some (v, gs) \<and> s \<in> set gs)"

definition rank_of :: "'g retrieval_env \<Rightarrow> db \<Rightarrow> parsed_query \<Rightarrow> ustring \<Rightarrow> float" where
  "rank_of env db parsed text = fx_bm25 (re_fts env) (map fr_text (db_segments_fts db)) (pq_fts_match parsed) text"

lemma searchable_iff:
  assumes "db_ok db"
  shows "searchable db request sf s r \<longleftrightarrow>
    sf \<in> set (db_source_files db) \<and> r \<in> set (db_roots db) \<and> rt_id r = sf_root_id sf \<and> rt_enabled r
    \<and> request_allows request (sf_root_id sf) (sf_file_type sf)
    \<and> s \<in> set (db_segments db) \<and> sf_current_revision_id sf = Some (sg_revision_id s)"
proof -
  have keys: "keys_ok db" and cur: "current_ok db" using assms by (simp_all add: db_ok_def)
  have "(\<exists>v gs. index_view db (sf_root_id sf, sf_relative_path sf) = Some (v, gs) \<and> s \<in> set gs)
      \<longleftrightarrow> s \<in> set (db_segments db) \<and> sf_current_revision_id sf = Some (sg_revision_id s)"
    if sf: "sf \<in> set (db_source_files db)"
  proof
    assume "\<exists>v gs. index_view db (sf_root_id sf, sf_relative_path sf) = Some (v, gs) \<and> s \<in> set gs"
    then obtain v gs where view: "index_view db (sf_root_id sf, sf_relative_path sf) = Some (v, gs)" "s \<in> set gs" by blast
    from view(1) obtain t where "t \<in> set (db_source_files db)" "sf_root_id t = sf_root_id sf"
      "sf_relative_path t = sf_relative_path sf" "sf_current_revision_id t = Some (rv_id v)" "gs = segments_of db (rv_id v)"
      unfolding index_view_Some [OF keys] by blast
    note t = this(1-4) view(2) [unfolded this(5)]
    from t have "t = sf" using source_path_eqI [OF keys] sf by blast
    with t show "s \<in> set (db_segments db) \<and> sf_current_revision_id sf = Some (sg_revision_id s)"
      by (simp add: segments_of_def)
  next
    assume s: "s \<in> set (db_segments db) \<and> sf_current_revision_id sf = Some (sg_revision_id s)"
    with cur sf obtain v where "v \<in> set (db_revisions db)" "rv_id v = sg_revision_id s"
      unfolding current_ok_def by blast
    with s sf show "\<exists>v gs. index_view db (sf_root_id sf, sf_relative_path sf) = Some (v, gs) \<and> s \<in> set gs"
      unfolding index_view_Some [OF keys] by (intro exI [of _ v]) (auto simp: segments_of_def)
  qed
  then show ?thesis unfolding searchable_def by blast
qed

lemma fts_join_iff:
  assumes "db_ok db"
  shows "(f, sf, r, s) \<in> set (fts_join db) \<longleftrightarrow>
    f = fts_row_of sf s \<and> sf \<in> set (db_source_files db) \<and> s \<in> set (db_segments db) \<and> r \<in> set (db_roots db)
    \<and> sf_current_revision_id sf = Some (sg_revision_id s) \<and> rt_id r = sf_root_id sf \<and> rt_enabled r"
proof -
  have keys: "keys_ok db" and cur: "current_ok db" and fts: "set (db_segments_fts db) = set (current_rows db)"
    using assms by (simp_all add: db_ok_def fts_ok_def)
  show ?thesis
  proof
    assume "(f, sf, r, s) \<in> set (fts_join db)"
    then have m: "f \<in> set (current_rows db)" "sf \<in> set (db_source_files db)" "sf_id sf = fr_source_file_id f"
      "r \<in> set (db_roots db)" "rt_id r = fr_root_id f" "rt_enabled r" "s \<in> set (db_segments db)" "sg_id s = fr_segment_id f"
      by (auto simp: fts_join_def fts)
    then obtain t g where t: "t \<in> set (db_source_files db)" "g \<in> set (db_segments db)"
      "sf_current_revision_id t = Some (sg_revision_id g)" "f = fts_row_of t g" unfolding in_current_rows by blast
    with m have "sf = t" "s = g" using source_eqI [OF keys] segment_eqI [OF keys] by auto
    with t m show "f = fts_row_of sf s \<and> sf \<in> set (db_source_files db) \<and> s \<in> set (db_segments db)
      \<and> r \<in> set (db_roots db) \<and> sf_current_revision_id sf = Some (sg_revision_id s) \<and> rt_id r = sf_root_id sf \<and> rt_enabled r"
      by simp
  next
    assume a: "f = fts_row_of sf s \<and> sf \<in> set (db_source_files db) \<and> s \<in> set (db_segments db) \<and> r \<in> set (db_roots db)
      \<and> sf_current_revision_id sf = Some (sg_revision_id s) \<and> rt_id r = sf_root_id sf \<and> rt_enabled r"
    then have "f \<in> set (db_segments_fts db)" unfolding fts in_current_rows by blast
    moreover have "sf_state sf = Active" using a cur unfolding current_ok_def by blast
    ultimately show "(f, sf, r, s) \<in> set (fts_join db)" using a by (auto simp: fts_join_def)
  qed
qed

lemma rank_order_comparator:
  "comparator (rank_order path anchor segment) {a. \<not> is_nan (snd a)}"
  unfolding rank_order_def
  using comparator_pull [OF floats.comparator_axioms, of snd]
  by (intro comparator_then comparator_key) simp

lemma ranked_rows_Inr:
  assumes "ranked_rows column path anchor segment n rows = Inr out"
  shows "length out \<le> n" "set out \<subseteq> set rows" "\<forall>r \<in> set rows. \<not> is_nan (snd r)"
    and "\<And>x. x \<in> set rows \<Longrightarrow> x \<notin> set out \<Longrightarrow> length out = n \<and> (\<forall>y \<in> set out. float_cmp (snd y) (snd x) \<noteq> Greater)"
    and "sorted_wrt (\<lambda>a b. float_cmp (snd a) (snd b) \<noteq> Greater) out"
proof -
  let ?c = "rank_order path anchor segment"
  from assms show nan: "\<forall>r \<in> set rows. \<not> is_nan (snd r)" by (simp add: ranked_rows_def split: if_splits)
  from assms have out: "out = take n (sort_by ?c rows)" by (simp add: ranked_rows_def split: if_splits)
  then show "length out \<le> n" by simp
  show "set out \<subseteq> set rows" using out set_take_subset by fastforce
  have sub: "set rows \<subseteq> {a. \<not> is_nan (snd a)}" using nan by auto
  have rank: "?c a b \<noteq> Greater \<Longrightarrow> float_cmp (snd a) (snd b) \<noteq> Greater" for a b
    by (auto simp: rank_order_def)
  show "length out = n \<and> (\<forall>y \<in> set out. float_cmp (snd y) (snd x) \<noteq> Greater)" if "x \<in> set rows" "x \<notin> set out" for x
    using comparator.take_sort_by [OF rank_order_comparator sub that(1)] that(2) rank unfolding out by blast
  have "sorted_wrt (\<lambda>a b. ?c a b \<noteq> Greater) (take n (sort_by ?c rows) @ drop n (sort_by ?c rows))"
    using comparator.sorted_sort_by [OF rank_order_comparator sub] by simp
  then have "sorted_wrt (\<lambda>a b. ?c a b \<noteq> Greater) out" unfolding out sorted_wrt_append by blast
  then show "sorted_wrt (\<lambda>a b. float_cmp (snd a) (snd b) \<noteq> Greater) out"
    by (rule sorted_wrt_mono_rel [rotated]) (rule rank)
qed

lemma search_fts_result:
  assumes "db_ok db" "search_fts env db request parsed limit = Inr cs"
  shows "length cs \<le> limit
    \<and> (\<forall>c \<in> set cs. \<exists>sf s r. searchable db request sf s r \<and> fx_match (re_fts env) (pq_fts_match parsed) (sg_text s)
        \<and> c = candidate_of (re_fts env) (pq_fts_match parsed) ((fts_row_of sf s, sf, r, s), rank_of env db parsed (sg_text s)))
    \<and> (\<forall>sf s r. searchable db request sf s r \<longrightarrow> fx_match (re_fts env) (pq_fts_match parsed) (sg_text s) \<longrightarrow>
        (\<exists>c \<in> set cs. cd_segment_id c = sg_id s)
        \<or> length cs = limit \<and> (\<forall>c \<in> set cs. float_cmp (rank_of env db parsed (cd_text c)) (rank_of env db parsed (sg_text s)) \<noteq> Greater))"
proof -
  let ?fx = "re_fts env" and ?expr = "pq_fts_match parsed"
  define rows where "rows = map (\<lambda>row. (row, rank_of env db parsed (fr_text (fst row))))
    (filter (\<lambda>(f, sf, r, s). fx_match ?fx ?expr (fr_text f) \<and> request_allows request (fr_root_id f) (sf_file_type sf)) (fts_join db))"
  obtain out where out: "ranked_rows 11 (\<lambda>(f, _). fr_relative_path f) (\<lambda>(f, _). fr_anchor f)
      (\<lambda>(f, _). id_text env (fr_segment_id f)) limit rows = Inr out" and cs: "cs = map (candidate_of ?fx ?expr) out"
    using assms(2) unfolding search_fts_def Let_def rows_def rank_of_def
    by (auto split: option.splits simp: map_sum_Inr_iff)
  note o = ranked_rows_Inr [OF out]
  have rows: "((f, sf, r, s), x) \<in> set rows \<longleftrightarrow> searchable db request sf s r \<and> f = fts_row_of sf s
      \<and> fx_match ?fx ?expr (sg_text s) \<and> x = rank_of env db parsed (sg_text s)" for f sf r s x
    using fts_join_iff [OF assms(1)] by (auto simp: rows_def searchable_iff [OF assms(1)])
  have item: "c \<in> set cs \<longleftrightarrow> (\<exists>row \<in> set out. c = candidate_of ?fx ?expr row)" for c by (auto simp: cs)
  have parts: "cd_text (candidate_of ?fx ?expr row) = fr_text (fst (fst row))" "cd_segment_id (candidate_of ?fx ?expr row) = fr_segment_id (fst (fst row))" for row
    by (simp_all add: candidate_of_def split: prod.split)
  have rank: "snd row = rank_of env db parsed (fr_text (fst (fst row)))" if "row \<in> set out" for row
    using that o(2) by (auto simp: rows_def)
  have sound: "\<exists>sf s r. searchable db request sf s r \<and> fx_match ?fx ?expr (sg_text s)
      \<and> c = candidate_of ?fx ?expr ((fts_row_of sf s, sf, r, s), rank_of env db parsed (sg_text s))" if "c \<in> set cs" for c
  proof -
    from that obtain f sf r s x where row: "((f, sf, r, s), x) \<in> set out" "c = candidate_of ?fx ?expr ((f, sf, r, s), x)"
      by (auto simp: item)
    with o(2) have "((f, sf, r, s), x) \<in> set rows" by blast
    with row(2) show ?thesis unfolding rows by blast
  qed
  have complete: "(\<exists>c \<in> set cs. cd_segment_id c = sg_id s) \<or> length cs = limit
      \<and> (\<forall>c \<in> set cs. float_cmp (rank_of env db parsed (cd_text c)) (rank_of env db parsed (sg_text s)) \<noteq> Greater)"
    if "searchable db request sf s r" "fx_match ?fx ?expr (sg_text s)" for sf s r
  proof -
    let ?row = "((fts_row_of sf s, sf, r, s), rank_of env db parsed (sg_text s))"
    have row: "?row \<in> set rows" unfolding rows using that by blast
    show ?thesis
    proof (cases "?row \<in> set out")
      case True
      then have "candidate_of ?fx ?expr ?row \<in> set cs" by (simp add: cs)
      moreover have "cd_segment_id (candidate_of ?fx ?expr ?row) = sg_id s" by (simp add: parts)
      ultimately show ?thesis by blast
    next
      case False
      from o(4) [OF row False] show ?thesis by (auto simp: cs parts rank)
    qed
  qed
  show ?thesis using o(1) sound complete by (auto simp: cs)
qed


subsection \<open>Filters\<close>

text \<open>What a request lets through, by where a hit is from.\<close>

definition permitted ::
    "'g retrieval_env \<Rightarrow> app_config \<Rightarrow> retrieval_query \<Rightarrow> uuid \<times> path \<times> supported_file_type \<Rightarrow> bool" where
  "permitted env config request l = (case l of (root_id, path, file_type) \<Rightarrow>
     request_allows request root_id file_type
     \<and> \<not> hidden env (load_sensitivity_sets env config) (rq_include_sensitive request) root_id path)"

definition all_permitted ::
    "'g retrieval_env \<Rightarrow> app_config \<Rightarrow> retrieval_query \<Rightarrow> retrieval_hit list \<Rightarrow> bool" where
  "all_permitted env config request hits \<longleftrightarrow> (\<forall>h \<in> set hits. permitted env config request (locus h))"

lemma all_permittedI:
  "(\<And>h. h \<in> set hits \<Longrightarrow> permitted env config request (locus h)) \<Longrightarrow> all_permitted env config request hits"
  by (simp add: all_permitted_def)

lemma all_permittedD: "all_permitted env config request hits \<Longrightarrow> h \<in> set hits \<Longrightarrow> permitted env config request (locus h)"
  by (simp add: all_permitted_def)

lemma search_fts_request:
  assumes "search_fts env db request parsed limit = Inr cs" "c \<in> set cs"
  shows "request_allows request (cd_root_id c) (cd_file_type c)"
proof -
  let ?fx = "re_fts env" and ?expr = "pq_fts_match parsed"
  obtain out rows where out: "ranked_rows 11 (\<lambda>(f, _). fr_relative_path f) (\<lambda>(f, _). fr_anchor f)
      (\<lambda>(f, _). id_text env (fr_segment_id f)) limit rows = Inr out" and c: "c \<in> candidate_of ?fx ?expr ` set out"
    and rows: "\<forall>row \<in> set rows. case row of ((f, sf, r, s), x) \<Rightarrow> request_allows request (fr_root_id f) (sf_file_type sf)"
    using assms unfolding search_fts_def Let_def by (fastforce split: option.splits simp: map_sum_Inr_iff)
  from c ranked_rows_Inr(2) [OF out] obtain row where "row \<in> set rows" "c = candidate_of ?fx ?expr row" by blast
  with rows show ?thesis by (auto simp: candidate_of_def split: prod.splits)
qed

lemma suppress_loop_subset: "set (suppress_loop segments hashes cs) \<subseteq> set cs"
  by (induction segments hashes cs rule: suppress_loop.induct) auto

lemma lexical_hits_from:
  "h \<in> set (lexical_hits env sensitivity parsed cs) \<Longrightarrow> \<exists>c \<in> set cs. locus h = (cd_root_id c, cd_relative_path c, cd_file_type c)"
  by (auto simp: lexical_hits_def lexical_hit_def locus_def enumerate_eq_zip split: prod.splits dest!: set_zip_rightD)

lemma lexical_permitted:
  assumes "search_fts env db request parsed limit = Inr cs"
  shows "all_permitted env config request (lexical_hits env sensitivity parsed
    (filter_sensitivity env (load_sensitivity_sets env config) (rq_include_sensitive request) (suppress_duplicates cs)))"
proof (rule all_permittedI)
  fix h assume "h \<in> set (lexical_hits env sensitivity parsed
    (filter_sensitivity env (load_sensitivity_sets env config) (rq_include_sensitive request) (suppress_duplicates cs)))"
  from lexical_hits_from [OF this] show "permitted env config request (locus h)"
    using search_fts_request [OF assms] suppress_loop_subset [of "{}" "{}" cs]
    by (fastforce simp: permitted_def filter_sensitivity_def suppress_duplicates_def)
qed

lemma snapshot_hit_locus:
  assumes "snapshot_hit env parsed source sensitivity row = Inr h"
  obtains ft where "file_type_from_str (ps_file_type (fst (snd (fst row)))) = Inr ft"
    "locus h = (ss_local_root_id source, pf_relative_path (fst (fst row)), ft)"
  using assms by (auto simp: snapshot_hit_def Let_def locus_def split: prod.splits)

lemma snapshot_rows_from:
  assumes "snapshot_rows env request parsed source sensitivity rows = Inr hits" "h \<in> set hits"
  shows "\<exists>row \<in> set rows. snapshot_hit env parsed source sensitivity row = Inr h
    \<and> (rq_root_ids request = [] \<or> ss_local_root_id source \<in> set (rq_root_ids request))
    \<and> \<not> hidden env sensitivity (rq_include_sensitive request) (ss_local_root_id source) (pf_relative_path (fst (fst row)))"
  using assms
  by (induction env request parsed source sensitivity rows arbitrary: hits rule: snapshot_rows.induct)
    (fastforce split: if_splits)+

lemma rank_hits_locus: "locus ` set (rank_hits hits) = locus ` set hits"
proof -
  have "map locus (rank_hits hits) = map locus hits"
    by (rule nth_equalityI) (simp_all add: rank_hits_def locus_def nth_enumerate_eq)
  then show ?thesis by (metis list.set_map)
qed

lemma file_type_tokens_iff: "file_type_from_str t = Inr ft \<longleftrightarrow> t = file_type_as_str ft"
  by (rule file_type_tokens.decode_iff)

lemma file_type_as_str_inj: "file_type_as_str a = file_type_as_str b \<longleftrightarrow> a = b"
  by (metis file_type_tokens_iff sum.inject(2))

lemma snapshot_permitted:
  assumes "search_snapshot_hits env request parsed source (load_sensitivity_sets env config) = Inr hits"
  shows "all_permitted env config request hits"
proof (rule all_permittedI)
  let ?s = "load_sensitivity_sets env config"
  obtain out rows hs where out: "ranked_rows 9 (\<lambda>(f, _). pf_relative_path f) (\<lambda>(f, _). pf_anchor f)
      (\<lambda>(f, _). pf_segment_id f) SNAPSHOT_CANDIDATES rows = Inr out"
    and rows: "\<forall>row \<in> set rows. rq_file_types request = []
      \<or> ps_file_type (fst (snd (fst row))) \<in> set (map file_type_as_str (rq_file_types request))"
    and hs: "snapshot_rows env request parsed source ?s out = Inr hs" "hits = rank_hits hs"
    using assms unfolding search_snapshot_hits_def Let_def
    by (fastforce split: option.splits simp: map_sum_Inr_iff)
  fix h assume "h \<in> set hits"
  then obtain h' where h': "h' \<in> set hs" "locus h = locus h'"
    using hs(2) rank_hits_locus [of hs] by (metis image_iff)
  from snapshot_rows_from [OF hs(1) h'(1)] obtain row where row: "row \<in> set out"
    "snapshot_hit env parsed source ?s row = Inr h'"
    "rq_root_ids request = [] \<or> ss_local_root_id source \<in> set (rq_root_ids request)"
    "\<not> hidden env ?s (rq_include_sensitive request) (ss_local_root_id source) (pf_relative_path (fst (fst row)))"
    by blast
  from snapshot_hit_locus [OF row(2)] obtain ft where
    ft: "file_type_from_str (ps_file_type (fst (snd (fst row)))) = Inr ft"
      "locus h' = (ss_local_root_id source, pf_relative_path (fst (fst row)), ft)" by blast
  have "row \<in> set rows" using row(1) ranked_rows_Inr(2) [OF out] by blast
  with rows ft(1) have "rq_file_types request = [] \<or> ft \<in> set (rq_file_types request)"
    by (auto simp: file_type_tokens_iff file_type_as_str_inj)
  with row(3,4) ft(2) h'(2) show "permitted env config request (locus h)"
    by (simp add: permitted_def request_allows_def)
qed

lemma gather_permitted:
  assumes "\<forall>hits \<in> set rankings. all_permitted env config request hits"
    and "gather_snapshots env request parsed (load_sensitivity_sets env config) sources (rankings, n, w) = (rankings', n', w')"
  shows "\<forall>hits \<in> set rankings'. all_permitted env config request hits"
  using assms
proof (induction sources arbitrary: rankings n w)
  case (Cons source sources)
  show ?case
  proof (cases "search_snapshot_hits env request parsed source (load_sensitivity_sets env config)")
    case (Inl m)
    with Cons show ?thesis by simp
  next
    case (Inr hits)
    have "\<forall>hs \<in> set (rankings @ [hits]). all_permitted env config request hs"
      using Cons.prems(1) snapshot_permitted [OF Inr] by simp
    from Cons.IH [OF this] Cons.IH [OF Cons.prems(1)] Cons.prems(2) Inr show ?thesis
      by (cases "hits = []") simp_all
  qed
qed simp

lemma rrf_permitted:
  assumes "fair_map_order env" "\<forall>hits \<in> set rankings. all_permitted env config request hits"
  shows "all_permitted env config request (fp_hits (rrf_merge env rankings))"
proof (rule all_permittedI)
  fix h assume "h \<in> set (fp_hits (rrf_merge env rankings))"
  from rrf_merge_evidence [OF assms(1) this] obtain hits h' where "hits \<in> set rankings" "h' \<in> set hits"
    "evidence h = evidence h'" by blast
  moreover from this(3) have "locus h = locus h'" by (simp add: evidence_def locus_def)
  ultimately show "permitted env config request (locus h)" using assms(2) all_permittedD by metis
qed

lemma federate_permitted:
  assumes "fair_map_order env" "all_permitted env config request local_hits" "all_permitted env config request semantic"
    and "federate_with_snapshots env db config request parsed local_hits (load_sensitivity_sets env config) w semantic = (report, w')"
  shows "all_permitted env config request (fp_hits report)"
proof -
  let ?s = "load_sensitivity_sets env config"
  have unf: "fp_hits (unfused hs) = hs" for hs by (simp add: unfused_def)
  show ?thesis
  proof (cases "eligible_snapshot_sources (re_config env) db config request")
    case (Inl e)
    have "all_permitted env config request (fp_hits (rrf_merge env [local_hits, semantic]))"
      by (rule rrf_permitted [OF assms(1)]) (use assms(2,3) in simp)
    with assms(2,4) Inl show ?thesis
      by (cases "semantic = []") (auto simp: federate_with_snapshots_def Let_def unf)
  next
    case (Inr sources)
    obtain rankings n w2 where g: "gather_snapshots env request parsed ?s (take MAX_SNAPSHOTS_PER_QUERY sources)
        ([local_hits], 0, w) = (rankings, n, w2)" by (metis prod_cases3)
    have all: "\<forall>hits \<in> set rankings. all_permitted env config request hits"
      by (rule gather_permitted [OF _ g]) (use assms(2) in simp)
    define full where "full = (if semantic \<noteq> [] then rankings @ [semantic] else rankings)"
    have "\<forall>hits \<in> set full. all_permitted env config request hits" using all assms(3) by (auto simp: full_def)
    note rrf = rrf_permitted [OF assms(1) this]
    have "fp_hits report = local_hits \<or> fp_hits report = fp_hits (rrf_merge env full)"
      using assms(4) Inr g unfolding federate_with_snapshots_def Let_def full_def [symmetric]
      by (simp add: unf full_def [symmetric] split: if_splits) (auto simp: unf)
    with assms(2) rrf show ?thesis by auto
  qed
qed

subsection \<open>The exact scan\<close>

definition scored_of :: "(vector_row \<Rightarrow> row_outcome) \<Rightarrow> vector_row \<Rightarrow> (float \<times> retrieval_hit) list" where
  "scored_of outcome row = (case outcome row of Scored x h \<Rightarrow> [(x, h)] | _ \<Rightarrow> [])"

lemma scan_vectors_scored:
  "fst (scan_vectors outcome rows st) = fst st @ concat (map (scored_of outcome) rows)"
proof (induction rows arbitrary: st)
  case (Cons row rows)
  then show ?case by (cases st; cases "outcome row") (simp_all add: scored_of_def)
qed simp

text \<open>All the scored candidates of a request.\<close>

definition scored_vectors ::
    "'g retrieval_env \<Rightarrow> db \<Rightarrow> app_config \<Rightarrow> embedding_space \<Rightarrow> vector \<Rightarrow> retrieval_query \<Rightarrow> (float \<times> retrieval_hit) list" where
  "scored_vectors env db config space query filters =
     concat (map (scored_of (score_row env (load_sensitivity_sets env config) space query filters))
       (vector_rows env db (sp_id space)))"

lemma exact_search_hits:
  assumes "exact_search env m k db config space query filters limit = Inr report"
  shows "vs_hits report = rank_semantic (map snd (take (min limit k)
    (sort_by (scored_order env) (scored_vectors env db config space query filters))))"
    and "linked_current db (sp_id space) \<le> m"
  using assms scan_vectors_scored [of "score_row env (load_sensitivity_sets env config) space query filters"
      "vector_rows env db (sp_id space)" "([], 0, 0)"]
  by (auto simp: exact_search_def scored_vectors_def Let_def not_less split: if_splits prod.splits)

lemma score_row_Scored:
  assumes "score_row env sensitivity space query filters (ev, s, sf, r) = Scored x h"
  obtains v where "request_allows filters (sf_root_id sf) (sf_file_type sf)"
    "\<not> hidden env sensitivity (rq_include_sensitive filters) (sf_root_id sf) (sf_relative_path sf)"
    "ev_dimensions ev = sp_dimensions space" "decode_vector (ev_vector_bytes ev) (sp_dimensions space) = Inr v"
    "is_finite (dot_product query v)" "x = fclamp (dot_product query v) (-1) 1"
    "h = semantic_hit env space (sensitivity_for_path env sensitivity (sf_root_id sf) (sf_relative_path sf)) x s sf r"
  using assms by (auto simp: score_row_def hidden_def Let_def split: if_splits sum.splits)

lemma semantic_hit_locus: "locus (semantic_hit env space scope x s sf r) = (sf_root_id sf, sf_relative_path sf, sf_file_type sf)"
  by (simp add: semantic_hit_def locus_def Let_def split: prod.split)

lemma scored_vectors_from:
  assumes "(x, h) \<in> set (scored_vectors env db config space query filters)"
  obtains ev s sf r where "(ev, s, sf, r) \<in> set (vector_rows env db (sp_id space))"
    "score_row env (load_sensitivity_sets env config) space query filters (ev, s, sf, r) = Scored x h"
  using assms by (auto simp: scored_vectors_def scored_of_def split: row_outcome.splits)

lemma rank_semantic_locus: "locus ` set (rank_semantic hits) = locus ` set hits"
proof -
  have "map locus (rank_semantic hits) = map locus hits"
    by (rule nth_equalityI) (simp_all add: rank_semantic_def locus_def nth_enumerate_eq)
  then show ?thesis by (metis list.set_map)
qed

lemma exact_search_permitted:
  assumes "exact_search env m k db config space query filters limit = Inr report"
  shows "all_permitted env config filters (vs_hits report)"
proof (rule all_permittedI)
  let ?best = "take (min limit k) (sort_by (scored_order env) (scored_vectors env db config space query filters))"
  fix h assume "h \<in> set (vs_hits report)"
  then have "locus h \<in> locus ` set (vs_hits report)" by simp
  also have "\<dots> = locus ` set (map snd ?best)" unfolding exact_search_hits(1) [OF assms] by (rule rank_semantic_locus)
  finally obtain x h' where h': "locus h = locus h'" "(x, h') \<in> set ?best" by auto
  then have "(x, h') \<in> set (scored_vectors env db config space query filters)"
    using set_take_subset [of "min limit k"] by fastforce
  then obtain ev s sf r where "score_row env (load_sensitivity_sets env config) space query filters (ev, s, sf, r) = Scored x h'"
    by (rule scored_vectors_from)
  then show "permitted env config filters (locus h)"
    by (rule score_row_Scored) (simp add: h'(1) semantic_hit_locus permitted_def)
qed

lemma fclamp_finite: "is_finite a \<Longrightarrow> \<exists>y. fclamp a (-1) 1 = Finite y \<and> -1 \<le> y \<and> y \<le> 1"
  by (cases a) (auto simp: fclamp_def)

lemma scored_vectors_finite:
  assumes "(x, h) \<in> set (scored_vectors env db config space query filters)"
  shows "\<exists>y. x = Finite y \<and> -1 \<le> y \<and> y \<le> 1"
  using assms by (rule scored_vectors_from) (erule score_row_Scored, simp add: fclamp_finite)

interpretation scored: comparator "scored_order env" "{a. \<not> is_nan (fst a)}"
  unfolding scored_order_def path_cmp_def
  using comparator_pull [OF comparator_rev [OF floats.comparator_axioms], of fst]
  by (intro comparator_then comparator_key) simp


subsection \<open>Requests\<close>

lemma semantic_hits_Inr:
  assumes "semantic_hits env db config request rt = Inr channel"
  obtains provider space q v report where "rn_provider rt = Some provider" "load_active_space db = Inr space"
    "pv_kind provider = sp_provider space" "embed_query provider space q = Inr v" "linked_current db (sp_id space) \<noteq> 0"
    "rn_search rt db config space v request MAX_SEMANTIC_CANDIDATES = Inr report" "sn_hits channel = vs_hits report"
proof -
  from assms obtain q provider space where a: "rn_provider rt = Some provider" "load_active_space db = Inr space"
    "validate_query_text (rq_query request) = Inr q"
    by (cases "rn_provider rt") (auto simp: semantic_hits_def)
  then show ?thesis using assms that [of provider space q]
    by (auto simp: semantic_hits_def Let_def split: if_splits)
qed

lemma retrieve_lexical_Inr:
  assumes "retrieve_lexical env db config request mode semantic w t = Inr resp"
  obtains parsed cs report w1 w2 tr where "parse_lexical_query (rq_query request) = Inr parsed"
    "search_fts env db request parsed (candidate_limit request) = Inr cs"
    "federate_with_snapshots env db config request parsed
       (lexical_hits env (load_sensitivity_sets env config) parsed
         (filter_sensitivity env (load_sensitivity_sets env config) (rq_include_sensitive request) (suppress_duplicates cs)))
       (load_sensitivity_sets env config) w semantic = (report, w1)"
    "pack_results (rq_query request) (fp_hits report) (rq_limit request) (rq_token_budget request) w1
       = (rp_results resp, tr, w2)"
    "rp_warnings resp = w2" "rp_token_estimate resp = response_tokens request (rp_results resp)" "rp_truncated resp = tr"
proof -
  from assms obtain parsed where p: "parse_lexical_query (rq_query request) = Inr parsed"
    by (cases "parse_lexical_query (rq_query request)") (auto simp: retrieve_lexical_def)
  with assms obtain cs where c: "search_fts env db request parsed (candidate_limit request) = Inr cs"
    by (cases "search_fts env db request parsed (candidate_limit request)") (auto simp: retrieve_lexical_def)
  obtain report w1 where f: "federate_with_snapshots env db config request parsed
       (lexical_hits env (load_sensitivity_sets env config) parsed
         (filter_sensitivity env (load_sensitivity_sets env config) (rq_include_sensitive request) (suppress_duplicates cs)))
       (load_sensitivity_sets env config) w semantic = (report, w1)" by fastforce
  obtain results tr w2 where k: "pack_results (rq_query request) (fp_hits report) (rq_limit request) (rq_token_budget request) w1
       = (results, tr, w2)" by (metis prod_cases3)
  have "rp_results resp = results" "rp_warnings resp = w2" "rp_token_estimate resp = response_tokens request results"
    "rp_truncated resp = tr"
    using assms by (auto simp: retrieve_lexical_def p c f k Let_def)
  then show ?thesis using that [OF p c f, of tr w2] k by simp
qed

lemma retrieve_lexical_permitted:
  assumes "fair_map_order env" "all_permitted env config request semantic"
    and "retrieve_lexical env db config request mode semantic w t = Inr resp"
  shows "all_permitted env config request (rp_results resp)"
proof (rule retrieve_lexical_Inr [OF assms(3)])
  fix parsed cs report w1 w2 tr
  assume r: "search_fts env db request parsed (candidate_limit request) = Inr cs"
    "federate_with_snapshots env db config request parsed
       (lexical_hits env (load_sensitivity_sets env config) parsed
         (filter_sensitivity env (load_sensitivity_sets env config) (rq_include_sensitive request) (suppress_duplicates cs)))
       (load_sensitivity_sets env config) w semantic = (report, w1)"
    "pack_results (rq_query request) (fp_hits report) (rq_limit request) (rq_token_budget request) w1
       = (rp_results resp, tr, w2)"
  have "all_permitted env config request (fp_hits report)"
    by (rule federate_permitted [OF assms(1) lexical_permitted [OF r(1)] assms(2) r(2)])
  with pack_results_locus [OF r(3)] show ?thesis by (fastforce simp: all_permitted_def)
qed

lemma semantic_channel_permitted:
  assumes "semantic_hits env db config request rt = Inr channel" "rn_search rt = sqlite_exact_search env"
  shows "all_permitted env config request (sn_hits channel)"
  by (rule semantic_hits_Inr [OF assms(1)])
    (simp add: assms(2) sqlite_exact_search_def exact_search_permitted)

lemma retrieve_with_runtime_permitted:
  assumes "fair_map_order env" "rn_search rt = sqlite_exact_search env"
    and "retrieve_with_runtime env db config request rt = Inr resp"
  shows "all_permitted env config request (rp_results resp)"
proof -
  have lex: "all_permitted env config request (rp_results resp)"
    if "retrieve_lexical env db config request mode semantic w t = Inr resp" "all_permitted env config request semantic"
    for mode semantic w t
    using retrieve_lexical_permitted [OF assms(1)] that by blast
  have none: "all_permitted env config request []" by (simp add: all_permitted_def)
  have sem: "all_permitted env config request (rp_results resp)"
    if "semantic_response env db config request rt = Inr resp"
  proof -
    from that obtain channel where c: "semantic_hits env db config request rt = Inr channel"
      by (cases "semantic_hits env db config request rt") (auto simp: semantic_response_def)
    obtain results tr w where k: "pack_results (rq_query request) (sn_hits channel) (rq_limit request)
        (rq_token_budget request) (sn_warnings channel) = (results, tr, w)" by (metis prod_cases3)
    have "rp_results resp = results" using that by (auto simp: semantic_response_def c k)
    then show ?thesis
      using semantic_channel_permitted [OF c assms(2)] pack_results_locus [OF k]
      by (fastforce simp: all_permitted_def)
  qed
  show ?thesis
  proof (cases "semantic_hits env db config request rt")
    case (Inl e)
    with assms(3) lex none sem show ?thesis
      by (cases "rq_mode request") (auto simp: retrieve_with_runtime_def Let_def)
  next
    case (Inr channel)
    from semantic_channel_permitted [OF this assms(2)] Inr assms(3) lex none sem show ?thesis
      by (cases "rq_mode request") (auto simp: retrieve_with_runtime_def Let_def)
  qed
qed


text \<open>
  In automatic mode the semantic channel never costs a request: it succeeds exactly when the purely
  lexical request succeeds, and fails with the same error otherwise.
\<close>
theorem auto_mode_falls_back:
  assumes "rq_mode request = Auto"
  shows "map_sum id (\<lambda>_. ()) (retrieve env feature db config request)
    = map_sum id (\<lambda>_. ()) (retrieve env feature db config (request\<lparr>rq_mode := Lexical\<rparr>))"
proof -
  let ?out = "map_sum id (\<lambda>_. ())"
  define base where "base = ?out (retrieve_lexical env db config (request\<lparr>rq_mode := Lexical\<rparr>) Lexical [] [] default_telemetry)"
  have allows: "request_allows (request\<lparr>rq_mode := Lexical\<rparr>) = request_allows request"
    by (intro ext) (simp add: request_allows_def)
  have search: "search_fts env db (request\<lparr>rq_mode := Lexical\<rparr>) p n = search_fts env db request p n" for p n
    unfolding search_fts_def allows ..
  have limit: "candidate_limit (request\<lparr>rq_mode := Lexical\<rparr>) = candidate_limit request" by (simp add: candidate_limit_def)
  have lexical: "?out (retrieve_lexical env db config request mode semantic w t) = base" for mode semantic w t
  proof (cases "parse_lexical_query (rq_query request)")
    case (Inl e)
    then show ?thesis by (simp add: base_def retrieve_lexical_def)
  next
    case (Inr parsed)
    then show ?thesis
      by (cases "search_fts env db request parsed (candidate_limit request)")
        (simp_all add: base_def retrieve_lexical_def search limit Let_def case_prod_beta)
  qed
  have "?out (retrieve env feature db config (request\<lparr>rq_mode := Lexical\<rparr>)) = base"
    by (simp add: retrieve_def base_def)
  moreover have "?out (retrieve_with_runtime env db config request rt) = base" for rt
    using assms by (cases "semantic_hits env db config request rt") (simp_all add: retrieve_with_runtime_def Let_def lexical)
  then have "?out (retrieve env feature db config request) = base"
    using assms lexical by (cases "configured_provider feature (ac_embeddings config)") (auto simp: retrieve_def Let_def)
  ultimately show ?thesis by simp
qed

subsection \<open>The active space\<close>

lemma embed_query_Inr:
  assumes "embed_query provider space q = Inr v"
  obtains model where "pv_resolve_model provider 0 = Inr model" "check_model space model = Inr ()"
    "length v = sp_dimensions space"
  using assms by (cases "pv_resolve_model provider 0") (auto simp: embed_query_def split: if_splits)

text \<open>
  C18. Vectors of different spaces are never compared: when the semantic channel answers, the model that
  embedded the query has the provider, the name and the digest of the active space, and each hit is the
  clamped dot product of the query vector with a stored vector of that same space and of the same length,
  linked to the segment the hit shows.
\<close>
theorem semantic_channel_in_one_space:
  assumes "semantic_hits env db config request rt = Inr channel" "rn_search rt = sqlite_exact_search env"
  shows "\<exists>provider space model v. rn_provider rt = Some provider \<and> load_active_space db = Inr space
    \<and> pv_resolve_model provider 0 = Inr model \<and> rm_provider model = sp_provider space
    \<and> rm_canonical_name model = sp_canonical_model space \<and> rm_model_digest model = sp_model_digest space
    \<and> length v = sp_dimensions space
    \<and> (\<forall>h \<in> set (sn_hits channel). \<exists>ev s sf r u. (ev, s, sf, r) \<in> set (vector_rows env db (sp_id space))
        \<and> ev_space_id ev = sp_id space \<and> decode_vector (ev_vector_bytes ev) (sp_dimensions space) = Inr u
        \<and> length u = length v \<and> rh_segment_id h = sg_id s
        \<and> rh_score h = fcast F32 (fclamp (dot_product v u) (-1) 1))"
proof (rule semantic_hits_Inr [OF assms(1)])
  fix provider space q v report
  assume a: "rn_provider rt = Some provider" "load_active_space db = Inr space"
    "embed_query provider space q = Inr v" "sn_hits channel = vs_hits report"
    "rn_search rt db config space v request MAX_SEMANTIC_CANDIDATES = Inr report"
  from a(3) obtain model where m: "pv_resolve_model provider 0 = Inr model" "check_model space model = Inr ()"
    "length v = sp_dimensions space" by (rule embed_query_Inr)
  let ?xs = "scored_vectors env db config space v request"
  have hit: "\<exists>ev s sf r u. (ev, s, sf, r) \<in> set (vector_rows env db (sp_id space))
        \<and> ev_space_id ev = sp_id space \<and> decode_vector (ev_vector_bytes ev) (sp_dimensions space) = Inr u
        \<and> length u = length v \<and> rh_segment_id h = sg_id s
        \<and> rh_score h = fcast F32 (fclamp (dot_product v u) (-1) 1)" if "h \<in> set (sn_hits channel)" for h
  proof -
    have "vs_hits report = rank_semantic (map snd (take (min MAX_SEMANTIC_CANDIDATES MAX_SEMANTIC_CANDIDATES)
        (sort_by (scored_order env) ?xs)))"
      using a(5) by (auto simp: assms(2) sqlite_exact_search_def dest: exact_search_hits)
    then have "h \<in> set (rank_semantic (map snd (take MAX_SEMANTIC_CANDIDATES (sort_by (scored_order env) ?xs))))"
      using that a(4) by simp
    then obtain g where g: "g \<in> set (map snd (take MAX_SEMANTIC_CANDIDATES (sort_by (scored_order env) ?xs)))"
      "rh_segment_id h = rh_segment_id g" "rh_score h = rh_score g"
      by (auto simp: rank_semantic_def enumerate_eq_zip dest!: set_zip_rightD)
    then obtain x where "(x, g) \<in> set ?xs" using set_take_subset [of MAX_SEMANTIC_CANDIDATES] by fastforce
    then obtain ev s sf r where row: "(ev, s, sf, r) \<in> set (vector_rows env db (sp_id space))"
      "score_row env (load_sensitivity_sets env config) space v request (ev, s, sf, r) = Scored x g"
      by (rule scored_vectors_from)
    from row(2) obtain u where u: "decode_vector (ev_vector_bytes ev) (sp_dimensions space) = Inr u"
      "x = fclamp (dot_product v u) (-1) 1"
      "g = semantic_hit env space (sensitivity_for_path env (load_sensitivity_sets env config) (sf_root_id sf)
        (sf_relative_path sf)) x s sf r" by (rule score_row_Scored)
    have "ev_space_id ev = sp_id space" using row(1) by (auto simp: vector_rows_def)
    with row(1) u g m(3) decode_vector_length [OF u(1)] show ?thesis
      by (intro exI [of _ ev] exI [of _ s] exI [of _ sf] exI [of _ r] exI [of _ u])
        (simp add: semantic_hit_def Let_def case_prod_beta)
  qed
  from m(2) have "rm_provider model = sp_provider space" "rm_canonical_name model = sp_canonical_model space"
    "rm_model_digest model = sp_model_digest space" by (auto simp: check_model_def split: if_splits)
  with a(1,2) m(1,3) hit show ?thesis
    by (intro exI [of _ provider] exI [of _ space] exI [of _ model] exI [of _ v]) simp
qed

subsection \<open>Tags and identifiers\<close>

lemma load_sensitivity_sets_dom: "dom (load_sensitivity_sets env config) = ro_id ` set (ac_roots config)"
proof -
  have gen: "dom (foldl (\<lambda>by_root root. by_root(ro_id root \<mapsto> e root)) m rs) = dom m \<union> ro_id ` set rs" for e m rs
    by (induction rs arbitrary: m) auto
  show ?thesis
    unfolding load_sensitivity_sets_def using gen [of "\<lambda>r. concat (map (sensitivity_entry env) (ro_sensitivity r))" Map.empty]
    by simp
qed

text \<open>
  C19. Sensitivity tags follow the spelling of an identifier: a root whose configured id, although it parses
  to the root's identifier, is not written in the canonical form has no effective tags at all; no path of it
  is ever hidden.
\<close>
theorem sensitivity_needs_canonical_id:
  assumes "\<forall>r \<in> set (ac_roots config). ro_id r \<noteq> id_text env i"
  shows "\<not> hidden env (load_sensitivity_sets env config) include_sensitive i path"
proof -
  have "id_text env i \<notin> dom (load_sensitivity_sets env config)"
    using assms unfolding load_sensitivity_sets_dom by force
  then show ?thesis by (simp add: hidden_def sensitivity_for_path_def domIff)
qed

subsection \<open>Two files with one text\<close>

definition plain_request :: retrieval_query where
  "plain_request = \<lparr>rq_query = lit ''one'', rq_root_ids = [], rq_file_types = [], rq_mode = Lexical, rq_limit = 8,
     rq_token_budget = 2000, rq_include_sensitive = False, rq_budget_preset = None\<rparr>"

definition tagged_config :: "string \<Rightarrow> app_config" where
  "tagged_config i = (default_for \<lparr>ap_config_dir = [], ap_config_file = [], ap_data_dir = [],
       ap_default_database_path = [], ap_log_dir = []\<rparr>)\<lparr>ac_roots := [\<lparr>ro_id = lit i, ro_name = lit ''r'',
     ro_path = lit ''/r'', ro_include = [], ro_exclude = [],
     ro_sensitivity = [\<lparr>sn_pattern = lit ''a'', sn_scope = lit ''require_explicit_query''\<rparr>],
     ro_follow_symlinks = False, ro_enabled = True\<rparr>]\<rparr>"

definition twin_db :: db where
  "twin_db = (let b = note_source\<lparr>sf_id := 12, sf_relative_path := lit ''b'', sf_current_revision_id := Some 13\<rparr>
     in note_db\<lparr>db_source_files := [note_source, b],
          db_revisions := [note_revision 3 (lit ''h1''), (note_revision 13 (lit ''h1''))\<lparr>rv_source_file_id := 12\<rparr>],
          db_segments := [note_segment 4 3, note_segment 14 13],
          db_segments_fts := [fts_row_of note_source (note_segment 4 3), fts_row_of b (note_segment 14 13)]\<rparr>)"

lemma twin_db_ok: "db_ok twin_db"
  by (simp add: db_ok_defs twin_db_def Let_def note_defs current_rows_def lit_def revision_key_def)

lemmas plain_defs = plain_env_def plain_config_env_def plain_request_def

lemma plain_parse: "parse_lexical_query (rq_query plain_request)
  = Inr \<lparr>pq_original = lit ''one'', pq_terms = [lit ''one''], pq_fts_match = [34, 111, 110, 101, 34]\<rparr>"
  by (simp add: plain_request_def query_eval)

lemma one_sat: "show_nat (Suc 0) = [49]"
  by (simp add: show_nat.simps)


definition twin_candidate :: "uuid \<Rightarrow> uuid \<Rightarrow> uuid \<Rightarrow> string \<Rightarrow> raw_candidate" where
  "twin_candidate i v f p = \<lparr>cd_segment_id = i, cd_revision_id = v, cd_source_file_id = f, cd_root_id = 1,
     cd_relative_path = lit p, cd_anchor = lit ''0'', cd_text = lit ''one'', cd_text_hash = [],
     cd_file_type = PlainText, cd_root_path = lit ''/r'', cd_modified_at = Some 1,
     cd_raw_bm25 = fcast F32 (Finite (-1)), cd_highlighted = lit ''one''\<rparr>"

lemma twin_search:
  "search_fts plain_env twin_db plain_request p 64 = Inr [twin_candidate 4 3 2 ''a'', twin_candidate 14 13 12 ''b'']"
  by (simp add: search_fts_def plain_defs twin_db_def Let_def note_defs fts_join_def lit_def fts_row_of_def
      request_allows_def ranked_rows_def rank_order_def float_cmp_def candidate_of_def twin_candidate_def cmp_def)

lemma twin_hidden:
  "hidden plain_env (load_sensitivity_sets plain_env (tagged_config ''1'')) False 1 p \<longleftrightarrow> relative_to_match_str p = [97]"
  by (simp add: hidden_def load_sensitivity_sets_def tagged_config_def sensitivity_for_path_def plain_defs one_sat lit_def
     sensitivity_entry_def sensitivity_scope_from_str_def stronger_scope_def)

lemma match_str: "relative_to_match_str (lit ''a'') = [97]" "relative_to_match_str (lit ''b'') = [98]"
  by (simp_all add: relative_to_match_str_def components_def lit_def is_absolute_def slash_def)

lemma twin_answer:
  "\<exists>resp. retrieve plain_env None twin_db (tagged_config ''1'') plain_request = Inr resp \<and> rp_results resp = []"
proof -
  let ?s = "load_sensitivity_sets plain_env (tagged_config ''1'')"
  have lim: "candidate_limit plain_request = 64" by (simp add: candidate_limit_def plain_request_def MAX_CANDIDATES_def CANDIDATE_MULTIPLIER_def)
  have none: "filter_sensitivity plain_env ?s False (suppress_duplicates [twin_candidate 4 3 2 ''a'', twin_candidate 14 13 12 ''b'']) = []"
    by (simp add: suppress_duplicates_def filter_sensitivity_def twin_hidden [unfolded One_nat_def] twin_candidate_def match_str)
  have snap: "eligible_snapshot_sources (re_config plain_env) twin_db (tagged_config ''1'') plain_request = Inr []"
    by (simp add: eligible_snapshot_sources_def mapped_rows_def twin_db_def note_defs Let_def)
  have mode: "rq_mode plain_request = Lexical" "rq_include_sensitive plain_request = False" by (simp_all add: plain_request_def)
  show ?thesis
    by (simp add: retrieve_def retrieve_lexical_def mode plain_parse lim twin_search none federate_with_snapshots_def snap
       lexical_hits_def unfused_def pack_results_def)
qed



subsection \<open>Witnesses\<close>

definition one_parsed :: parsed_query where
  "one_parsed = \<lparr>pq_original = lit ''one'', pq_terms = [lit ''one''], pq_fts_match = [34, 111, 110, 101, 34]\<rparr>"


theorem sensitivity_needs_canonical_id_witness:
  "ce_parse_uuid plain_config_env (lit ''01'') = Some 1
   \<and> \<not> hidden plain_env (load_sensitivity_sets plain_env (tagged_config ''01'')) False 1 (lit ''a'')
   \<and> hidden plain_env (load_sensitivity_sets plain_env (tagged_config ''1'')) False 1 (lit ''a'')"
proof (intro conjI)
  show "\<not> hidden plain_env (load_sensitivity_sets plain_env (tagged_config ''01'')) False 1 (lit ''a'')"
    by (rule sensitivity_needs_canonical_id) (simp add: tagged_config_def plain_defs one_sat lit_def)
  show "hidden plain_env (load_sensitivity_sets plain_env (tagged_config ''1'')) False 1 (lit ''a'')"
    by (simp add: twin_hidden [unfolded One_nat_def] match_str)
qed (simp add: plain_config_env_def lit_def digits_val_def is_ascii_digit_def)

theorem auto_mode_falls_back_witness:
  "\<exists>resp. retrieve plain_env None twin_db (tagged_config ''1'') (plain_request\<lparr>rq_mode := Auto\<rparr>) = Inr resp"
proof -
  have "\<exists>resp. retrieve plain_env None twin_db (tagged_config ''1'') plain_request = Inr resp"
    using twin_answer by blast
  moreover have "(plain_request\<lparr>rq_mode := Auto\<rparr>)\<lparr>rq_mode := Lexical\<rparr> = plain_request" by (simp add: plain_request_def)
  ultimately show ?thesis
    using auto_mode_falls_back [of "plain_request\<lparr>rq_mode := Auto\<rparr>" plain_env None twin_db "tagged_config ''1''"]
    by (cases "retrieve plain_env None twin_db (tagged_config ''1'') (plain_request\<lparr>rq_mode := Auto\<rparr>)") auto
qed

subsection \<open>A database with one vector\<close>

lemma bits_1: "from_le_bytes [0, 0, 128, 63] = Finite 1"
  by (simp add: from_bits_def power_int_minus)

lemma unit_ops: "fmul F64 (Finite 1) (Finite 1) = Finite 1" "fadd F64 (Finite 0) (Finite 1) = Finite 1"
  "fcast F64 (Finite 1) = Finite 1" "fcast F32 (Finite 1) = Finite 1" "norm_sq [Finite 1] = Finite 1"
  by (simp_all add: round_to_1 norm_sq_def fsum_def)

lemma unit_valid: "validate_normalized_vector [Finite 1] = Inr ()"
proof -
  have "rounded F64 0 = 0" by (simp add: rounded_def)
  then have z: "fadd F64 (Finite 1) (Finite (-1)) = Finite 0" by (simp add: round_to_def not_le)
  have "0 \<le> rounded F64 (1 / 10000)" by (rule rounded_nonneg) simp
  then have "\<not> flt (round_to F64 (1 / 10000)) (Finite 0)"
    by (simp add: round_to_def Let_def)
  then show ?thesis
    by (simp add: validate_normalized_vector_def unit_ops z fle_def F64_EPSILON_def Let_def del: fadd.simps)
qed

lemma unit_decode: "decode_vector [0, 0, 128, 63] 1 = Inr [Finite 1]"
  by (simp add: decode_vector_def bits_1 unit_valid del: from_le_bytes.simps)


definition unit_space :: embedding_space_row where
  "unit_space = \<lparr>es_id = lit ''s'', es_provider = lit ''ollama'', es_canonical_model = lit ''m'',
     es_model_digest = lit ''d'', es_dimensions = 1, es_normalization = lit ''l2'',
     es_input_contract_version = EMBEDDING_INPUT_CONTRACT_VERSION, es_created_at_ms = 0, es_config_fingerprint = []\<rparr>"

definition vector_db :: db where
  "vector_db = note_db\<lparr>db_embedding_spaces := [unit_space], db_active_space := Some (lit ''s''),
     db_embedding_vectors := [\<lparr>ev_space_id = lit ''s'', ev_text_hash = [], ev_vector_bytes = [0, 0, 128, 63],
       ev_dimensions = 1, ev_created_at_ms = 0\<rparr>],
     db_segment_embeddings := [\<lparr>el_segment_id = 4, el_revision_id = 3, el_space_id = lit ''s'', el_text_hash = [],
       el_linked_at_ms = 0\<rparr>]\<rparr>"

definition unit_provider :: provider where
  "unit_provider = \<lparr>pv_kind = KindOllama,
     pv_resolve_model = (\<lambda>n. Inr \<lparr>rm_provider = KindOllama, rm_configured_name = lit ''m'', rm_canonical_name = lit ''m'',
       rm_model_digest = lit ''d'', rm_dimensions = None\<rparr>),
     pv_embed = (\<lambda>n inputs model. Inr [[Finite 1]])\<rparr>"

definition unit_runtime :: runtime where
  "unit_runtime = \<lparr>rn_provider = Some unit_provider, rn_search = sqlite_exact_search plain_env\<rparr>"

lemma unit_normalize: "normalize_vector [Finite 1] = Inr [Finite 1]"
proof -
  have q: "pow2 (exponent 1 div 2 - int (fm_bits F64) + 1) = 1 / 2 ^ 52" by (simp add: exponent_1 power_int_minus)
  have "isqrt (2 ^ 104) = 2 ^ 52" using isqrt_square [of "2 ^ 52"] by simp
  then have "sqrt_rounded F64 1 = 1" unfolding sqrt_rounded_def Let_def q by simp
  then show ?thesis
    by (simp add: normalize_vector_def unit_ops round_to_1 fle_def F64_EPSILON_def Let_def del: fadd.simps)
qed

abbreviation "unit_active \<equiv> \<lparr>sp_id = lit ''s'', sp_provider = KindOllama, sp_canonical_model = lit ''m'',
  sp_model_digest = lit ''d'', sp_dimensions = 1, sp_normalization = L2,
  sp_input_contract_version = EMBEDDING_INPUT_CONTRACT_VERSION\<rparr>"

lemma unit_load: "load_active_space vector_db = Inr unit_active"
  by (simp add: load_active_space_def vector_db_def note_defs unit_space_def lit_def)

lemma unit_embed: "embed_query unit_provider unit_active q = Inr [Finite 1]"
  by (simp add: embed_query_def unit_provider_def check_model_def unit_normalize)

lemma unit_rows: "vector_rows plain_env vector_db (lit ''s'')
  = [(hd (db_embedding_vectors vector_db), note_segment 4 3, note_source, note_root)]"
  by (simp add: vector_rows_def vector_db_def note_defs current_join_def)

lemma unit_linked: "linked_current vector_db (lit ''s'') = 1"
  by (simp add: linked_current_def vector_db_def note_defs current_join_def)

lemma unit_dot: "dot_product [Finite 1] [Finite 1] = Finite 1"
  by (simp add: dot_product_def unit_ops fsum_def del: fadd.simps fmul.simps fcast.simps)

lemma unit_score: "\<exists>h. score_row plain_env (load_sensitivity_sets plain_env (tagged_config ''2'')) unit_active [Finite 1] plain_request
    (hd (db_embedding_vectors vector_db), note_segment 4 3, note_source, note_root) = Scored (Finite 1) h"
proof -
  have s: "sensitivity_for_path plain_env (load_sensitivity_sets plain_env (tagged_config ''2'')) i p = None" if "i = 1" for i p
    using that by (simp add: sensitivity_for_path_def load_sensitivity_sets_def tagged_config_def plain_defs one_sat lit_def)
  have c: "fclamp (Finite 1) (-1) 1 = Finite 1" by (simp add: fclamp_def)
  have n: "sf_root_id note_source = 1" by (simp add: note_source_def)
  show ?thesis
    by (simp add: score_row_def request_allows_def plain_request_def vector_db_def s [OF n] unit_decode [unfolded One_nat_def] unit_dot c Let_def)
qed


lemma unit_search: "\<exists>h. exact_search plain_env 10 5 vector_db (tagged_config ''2'') unit_active [Finite 1] plain_request 7
    = Inr \<lparr>vs_hits = rank_semantic [h], vs_examined = 1, vs_corrupt_excluded = 0\<rparr>"
proof -
  obtain h where "score_row plain_env (load_sensitivity_sets plain_env (tagged_config ''2'')) unit_active [Finite 1] plain_request
    (hd (db_embedding_vectors vector_db), note_segment 4 3, note_source, note_root) = Scored (Finite 1) h"
    using unit_score by blast
  then show ?thesis
    by (intro exI [of _ h]) (simp add: exact_search_def unit_linked unit_rows u32_sat_add_def u32_max_def rank_semantic_def)
qed


lemma unit_hits: "\<exists>channel. semantic_hits plain_env vector_db (tagged_config ''2'') plain_request unit_runtime = Inr channel"
proof -
  have q: "validate_query_text (rq_query plain_request) = Inr (lit ''one'')"
    by (simp add: validate_query_text_def plain_request_def query_eval is_control_def MAX_QUERY_CHARS_def Let_def)
  have d: "ec_dimensions (ac_embeddings (tagged_config ''2'')) = 0"
    by (simp add: tagged_config_def default_for_def default_embedding_config_def)
  obtain h where h: "score_row plain_env (load_sensitivity_sets plain_env (tagged_config ''2'')) unit_active [Finite 1] plain_request
    (hd (db_embedding_vectors vector_db), note_segment 4 3, note_source, note_root) = Scored (Finite 1) h"
    using unit_score by blast
  have k: "pv_kind unit_provider = KindOllama" "rn_provider unit_runtime = Some unit_provider"
    "rn_search unit_runtime = sqlite_exact_search plain_env"
    by (simp_all add: unit_provider_def unit_runtime_def)
  have "sqlite_exact_search plain_env vector_db (tagged_config ''2'') unit_active [Finite 1] plain_request MAX_SEMANTIC_CANDIDATES
    = Inr \<lparr>vs_hits = rank_semantic [h], vs_examined = 1, vs_corrupt_excluded = 0\<rparr>"
    using h by (simp add: sqlite_exact_search_def exact_search_def unit_linked unit_rows u32_sat_add_def u32_max_def
        rank_semantic_def MAX_ACTIVE_VECTORS_def MAX_SEMANTIC_CANDIDATES_def)
  then show ?thesis
    by (simp add: semantic_hits_def q k unit_load d unit_linked unit_embed [unfolded One_nat_def])
qed

theorem semantic_channel_in_one_space_witness:
  "\<exists>channel v. semantic_hits plain_env vector_db (tagged_config ''2'') plain_request unit_runtime = Inr channel
    \<and> length v = 1 \<and> (\<forall>h \<in> set (sn_hits channel). \<exists>u. length u = length v
        \<and> rh_score h = fcast F32 (fclamp (dot_product v u) (-1) 1))"
proof -
  obtain channel where c: "semantic_hits plain_env vector_db (tagged_config ''2'') plain_request unit_runtime = Inr channel"
    using unit_hits by blast
  have "rn_search unit_runtime = sqlite_exact_search plain_env" by (simp add: unit_runtime_def)
  from semantic_channel_in_one_space [OF c this] obtain space v where v: "load_active_space vector_db = Inr space"
    "length v = sp_dimensions space" "\<forall>h \<in> set (sn_hits channel). \<exists>ev s sf r u.
      (ev, s, sf, r) \<in> set (vector_rows plain_env vector_db (sp_id space)) \<and> ev_space_id ev = sp_id space
      \<and> decode_vector (ev_vector_bytes ev) (sp_dimensions space) = Inr u \<and> length u = length v
      \<and> rh_segment_id h = sg_id s \<and> rh_score h = fcast F32 (fclamp (dot_product v u) (-1) 1)" by blast
  from v(1) have "sp_dimensions space = 1" by (auto simp: unit_load)
  with v(2) have "length v = 1" by simp
  with c v(3) show ?thesis by blast
qed

lemma twin_allowed: "\<exists>resp h. retrieve plain_env None twin_db (tagged_config ''2'') plain_request = Inr resp \<and> h \<in> set (rp_results resp)"
proof -
  let ?s = "load_sensitivity_sets plain_env (tagged_config ''2'')"
  let ?c = "twin_candidate 4 3 2 ''a''"
  have lim: "candidate_limit plain_request = 64"
    by (simp add: candidate_limit_def plain_request_def MAX_CANDIDATES_def CANDIDATE_MULTIPLIER_def)
  have "sensitivity_for_path plain_env ?s (Suc 0) p = None" for p
    by (simp add: sensitivity_for_path_def load_sensitivity_sets_def tagged_config_def plain_defs one_sat lit_def)
  then have one: "filter_sensitivity plain_env ?s False (suppress_duplicates [?c, twin_candidate 14 13 12 ''b'']) = [?c]"
    by (simp add: suppress_duplicates_def filter_sensitivity_def twin_candidate_def hidden_def)
  have snap: "eligible_snapshot_sources (re_config plain_env) twin_db (tagged_config ''2'') plain_request = Inr []"
    by (simp add: eligible_snapshot_sources_def mapped_rows_def twin_db_def note_defs Let_def)
  have mode: "rq_mode plain_request = Lexical" "rq_include_sensitive plain_request = False" "rq_limit plain_request = 8"
    by (simp_all add: plain_request_def)
  obtain hit where hit: "lexical_hits plain_env ?s \<lparr>pq_original = lit ''one'', pq_terms = [lit ''one''],
      pq_fts_match = [34, 111, 110, 101, 34]\<rparr> [?c] = [hit]" by (simp add: lexical_hits_def)
  have "\<exists>r tr w. pack_results q [hit] 8 b [] = (r, tr, w) \<and> r \<noteq> []" for q b
    by (simp add: pack_results_def Let_def) blast
  then obtain r tr w where k: "pack_results (rq_query plain_request) [hit] 8 (rq_token_budget plain_request) [] = (r, tr, w)"
    "r \<noteq> []" by blast
  then obtain h where "h \<in> set r" by (cases r) auto
  then show ?thesis
    by (simp add: retrieve_def retrieve_lexical_def mode plain_parse lim twin_search one federate_with_snapshots_def snap
       hit unfused_def k(1)) blast
qed


end
