(* ===== verification/Embedding_Sync.thy ===== *)
theory Embedding_Sync
  imports Embedding Effects
begin

text \<open>
  \<open>embedding_sync.rs\<close>: after indexing, every active segment is given a vector of the active embedding
  space, from the cache or from the provider. The statements are the table operations they denote, with the
  constraints of the fourth migration; the operations are effects on the world of \<open>Effects\<close>, where each
  clock reading and each provider call takes a tick. The clock, the digest, the JSON text of the
  configuration and the text of identifiers are the parameters of \<open>sync_env\<close>.
\<close>

record sync_env =
  se_clock :: "nat \<Rightarrow> int"
  se_blake3 :: "bytes \<Rightarrow> ustring"
  se_config_json :: "embedding_config \<Rightarrow> ustring + ustring"
  se_id_text :: "uuid \<Rightarrow> ustring"
  se_elapsed_ms :: nat

record sync_report =
  yr_enabled :: bool
  yr_provider :: ustring
  yr_embedding_space :: "ustring option"
  yr_model :: "ustring option"
  yr_model_digest :: "ustring option"
  yr_dimensions :: "nat option"
  yr_active_segments :: nat
  yr_cache_hits :: nat
  yr_provider_inputs :: nat
  yr_linked_segments :: nat
  yr_missing_segments :: nat
  yr_failed_segments :: nat
  yr_duration_ms :: nat
  yr_status :: ustring
  yr_error_code :: "ustring option"

record active_segment =
  ag_id :: uuid
  ag_revision_id :: uuid
  ag_text_hash :: content_hash
  ag_text :: ustring

type_synonym hash_group = "content_hash \<times> active_segment list"

definition disabled_report :: sync_report where
  "disabled_report = \<lparr>yr_enabled = False, yr_provider = lit ''none'', yr_embedding_space = None, yr_model = None,
     yr_model_digest = None, yr_dimensions = None, yr_active_segments = 0, yr_cache_hits = 0,
     yr_provider_inputs = 0, yr_linked_segments = 0, yr_missing_segments = 0, yr_failed_segments = 0,
     yr_duration_ms = 0, yr_status = lit ''disabled'', yr_error_code = None\<rparr>"

definition failed_report :: "ustring \<Rightarrow> embedding_error \<Rightarrow> sync_report" where
  "failed_report provider error = \<lparr>yr_enabled = True, yr_provider = provider, yr_embedding_space = None,
     yr_model = None, yr_model_digest = None, yr_dimensions = None, yr_active_segments = 0, yr_cache_hits = 0,
     yr_provider_inputs = 0, yr_linked_segments = 0, yr_missing_segments = 0, yr_failed_segments = 0,
     yr_duration_ms = 0, yr_status = lit ''failed'', yr_error_code = Some (embedding_error_code error)\<rparr>"

subsection \<open>Statements\<close>

definition active_segments :: "sync_env \<Rightarrow> db \<Rightarrow> active_segment list" where
  "active_segments env db =
     sort_by (\<lambda>a b. then_with (cmp (ag_text_hash a) (ag_text_hash b))
         (cmp (se_id_text env (ag_id a)) (se_id_text env (ag_id b))))
       [\<lparr>ag_id = sg_id s, ag_revision_id = sg_revision_id s, ag_text_hash = sg_text_hash s, ag_text = sg_text s\<rparr>.
          s \<leftarrow> db_segments db, f \<leftarrow> db_source_files db,
          sf_current_revision_id f = Some (sg_revision_id s) \<and> sf_state f = Active]"

definition find_existing_dimensions :: "db \<Rightarrow> resolved_model \<Rightarrow> nat option" where
  "find_existing_dimensions db model =
     (case sort_by (\<lambda>a b. cmp (es_created_at_ms b) (es_created_at_ms a))
        (filter (\<lambda>e. es_provider e = provider_kind_display (rm_provider model)
             \<and> es_canonical_model e = rm_canonical_name model \<and> es_model_digest e = rm_model_digest model
             \<and> es_normalization e = lit ''l2'' \<and> es_input_contract_version e = EMBEDDING_INPUT_CONTRACT_VERSION)
          (db_embedding_spaces db)) of
        [] \<Rightarrow> None | e # _ \<Rightarrow> Some (es_dimensions e))"

text \<open>\<open>INSERT OR IGNORE\<close> skips a row that breaks a key or a CHECK.\<close>

definition space_key :: "embedding_space_row \<Rightarrow> ustring \<times> ustring \<times> ustring \<times> nat \<times> ustring \<times> ustring" where
  "space_key e = (es_provider e, es_canonical_model e, es_model_digest e, es_dimensions e, es_normalization e,
     es_input_contract_version e)"

definition insert_space :: "embedding_space_row \<Rightarrow> db \<Rightarrow> db" where
  "insert_space e db =
     (if es_id e \<in> set (map es_id (db_embedding_spaces db)) \<or> space_key e \<in> set (map space_key (db_embedding_spaces db))
         \<or> es_provider e \<noteq> lit ''ollama'' \<or> \<not> (0 < es_dimensions e \<and> es_dimensions e \<le> 65536)
         \<or> es_normalization e \<noteq> lit ''l2''
      then db else db\<lparr>db_embedding_spaces := db_embedding_spaces db @ [e]\<rparr>)"

definition update_active_space :: "ustring option \<Rightarrow> db \<Rightarrow> storage_error + db" where
  "update_active_space space_id db =
     (if space_id \<noteq> None \<and> the space_id \<notin> set (map es_id (db_embedding_spaces db))
      then Inl (foreign_key_violation ''embedding_state.active_embedding_space_id'')
      else Inr (db\<lparr>db_active_space := space_id\<rparr>))"

definition load_validated_cache :: "db \<Rightarrow> embedding_space \<Rightarrow> content_hash \<Rightarrow> embedding_error + vector option" where
  "load_validated_cache db space h =
     (case find (\<lambda>v. ev_space_id v = sp_id space \<and> ev_text_hash v = h) (db_embedding_vectors db) of
        None \<Rightarrow> Inr None
      | Some v \<Rightarrow>
          if ev_dimensions v \<noteq> sp_dimensions space
          then Inl (CacheCorrupt (lit ''cache dimensions '' @ show_nat (ev_dimensions v)
            @ lit '' differ from space dimensions '' @ show_nat (sp_dimensions space)))
          else map_sum id Some (decode_vector (ev_vector_bytes v) (ev_dimensions v)))"

definition delete_vector :: "ustring \<Rightarrow> content_hash \<Rightarrow> db \<Rightarrow> db" where
  "delete_vector space_id h db = db\<lparr>
     db_embedding_vectors := delete_where (\<lambda>v. ev_space_id v = space_id \<and> ev_text_hash v = h) (db_embedding_vectors db),
     db_segment_embeddings := delete_where (\<lambda>l. el_space_id l = space_id \<and> el_text_hash l = h) (db_segment_embeddings db)\<rparr>"

definition upsert_vector :: "embedding_vector_row \<Rightarrow> db \<Rightarrow> storage_error + db" where
  "upsert_vector v db =
     (if \<not> (0 < ev_dimensions v \<and> length (ev_vector_bytes v) = ev_dimensions v * 4)
      then Inl (Database (CheckViolation (lit ''embedding_vectors'')))
      else if ev_space_id v \<notin> set (map es_id (db_embedding_spaces db))
      then Inl (foreign_key_violation ''embedding_vectors.embedding_space_id'')
      else let same = (\<lambda>u. ev_space_id u = ev_space_id v \<and> ev_text_hash u = ev_text_hash v) in
      if \<exists>u \<in> set (db_embedding_vectors db). same u
      then Inr (db\<lparr>db_embedding_vectors := update_where same (\<lambda>_. v) (db_embedding_vectors db)\<rparr>)
      else Inr (db\<lparr>db_embedding_vectors := db_embedding_vectors db @ [v]\<rparr>))"

definition replace_link :: "embedding_link \<Rightarrow> db \<Rightarrow> storage_error + db" where
  "replace_link l db =
     (if el_segment_id l \<notin> set (map sg_id (db_segments db))
      then Inl (foreign_key_violation ''segment_embeddings.segment_id'')
      else if el_revision_id l \<notin> set (map rv_id (db_revisions db))
      then Inl (foreign_key_violation ''segment_embeddings.revision_id'')
      else if \<forall>v \<in> set (db_embedding_vectors db). \<not> (ev_space_id v = el_space_id l \<and> ev_text_hash v = el_text_hash l)
      then Inl (foreign_key_violation ''segment_embeddings.embedding_space_id'')
      else Inr (db\<lparr>db_segment_embeddings :=
        delete_where (\<lambda>k. el_segment_id k = el_segment_id l \<and> el_space_id k = el_space_id l) (db_segment_embeddings db) @ [l]\<rparr>))"

definition delete_failure :: "uuid \<Rightarrow> ustring \<Rightarrow> db \<Rightarrow> db" where
  "delete_failure segment_id space_id db = db\<lparr>db_embedding_failures :=
     delete_where (\<lambda>f. ef_segment_id f = segment_id \<and> ef_space_id f = space_id) (db_embedding_failures db)\<rparr>"

definition upsert_failure :: "embedding_failure_row \<Rightarrow> db \<Rightarrow> storage_error + db" where
  "upsert_failure f db =
     (let same = (\<lambda>g. ef_segment_id g = ef_segment_id f \<and> ef_space_id g = ef_space_id f) in
      if \<exists>g \<in> set (db_embedding_failures db). same g
      then Inr (db\<lparr>db_embedding_failures := update_where same
        (\<lambda>g. f\<lparr>ef_retry_count := min 1000000 (ef_retry_count g + 1)\<rparr>) (db_embedding_failures db)\<rparr>)
      else if ef_segment_id f \<notin> set (map sg_id (db_segments db))
      then Inl (foreign_key_violation ''embedding_failures.segment_id'')
      else if ef_space_id f \<notin> set (map es_id (db_embedding_spaces db))
      then Inl (foreign_key_violation ''embedding_failures.embedding_space_id'')
      else Inr (db\<lparr>db_embedding_failures := db_embedding_failures db @ [f]\<rparr>))"

definition SYNC_RUN_WINDOW :: nat where "SYNC_RUN_WINDOW = 100"

text \<open>The newest row always stays, so the next \<open>AUTOINCREMENT\<close> number is one more than the largest.\<close>

definition next_run_id :: "db \<Rightarrow> nat" where
  "next_run_id db = Suc (foldr max (map sy_id (db_sync_runs db)) 0)"

definition insert_sync_run :: "sync_run_row \<Rightarrow> db \<Rightarrow> storage_error + db" where
  "insert_sync_run run db =
     (if sy_space_id run \<noteq> None \<and> the (sy_space_id run) \<notin> set (map es_id (db_embedding_spaces db))
      then Inl (foreign_key_violation ''embedding_sync_runs.embedding_space_id'')
      else let rows = db_sync_runs db @ [run\<lparr>sy_id := next_run_id db\<rparr>];
               keep = map sy_id (take SYNC_RUN_WINDOW (sort_by (\<lambda>a b. cmp (sy_id b) (sy_id a)) rows))
           in Inr (db\<lparr>db_sync_runs := delete_where (\<lambda>r. sy_id r \<notin> set keep) rows\<rparr>))"

subsection \<open>Operations\<close>

fun each_try :: "('a \<Rightarrow> 'b \<Rightarrow> 'e + 'b) \<Rightarrow> 'a list \<Rightarrow> 'b \<Rightarrow> 'e + 'b" where
  "each_try f [] b = Inr b"
| "each_try f (x # xs) b = try_bind (f x b) (each_try f xs)"

definition sync_now :: "sync_env \<Rightarrow> timestamp ix" where
  "sync_now env w =
     (map_err (\<lambda>e. IndexStorage (Decode (domain_error_display e))) (try_from_system_time (se_clock env (wd_tick w))),
      w\<lparr>wd_tick := wd_tick w + 1\<rparr>)"

text \<open>A call of the provider, numbered by the tick.\<close>

definition calling :: "(nat \<Rightarrow> 'a) \<Rightarrow> 'a ix" where
  "calling f w = (Inr (f (wd_tick w)), w\<lparr>wd_tick := wd_tick w + 1\<rparr>)"

definition persist_space :: "sync_env \<Rightarrow> embedding_space \<Rightarrow> embedding_config \<Rightarrow> unit ix" where
  "persist_space env space config =
     andthen (sync_now env) (\<lambda>now.
       case se_config_json env config of
         Inl m \<Rightarrow> fail (IndexStorage (Decode m))
       | Inr json \<Rightarrow>
           store (\<lambda>db. Inr (insert_space \<lparr>es_id = sp_id space, es_provider = provider_kind_display (sp_provider space),
             es_canonical_model = sp_canonical_model space, es_model_digest = sp_model_digest space,
             es_dimensions = sp_dimensions space, es_normalization = vector_normalization_display (sp_normalization space),
             es_input_contract_version = sp_input_contract_version space, es_created_at_ms = now,
             es_config_fingerprint = blake3_hex (se_blake3 env) (as_bytes json)\<rparr> db)))"

definition set_active_space :: "ustring option \<Rightarrow> unit ix" where
  "set_active_space space_id = store (update_active_space space_id)"

definition link_segment :: "timestamp \<Rightarrow> ustring \<Rightarrow> content_hash \<Rightarrow> active_segment \<Rightarrow> db \<Rightarrow> storage_error + db" where
  "link_segment now space_id h s db =
     try_bind (replace_link \<lparr>el_segment_id = ag_id s, el_revision_id = ag_revision_id s, el_space_id = space_id,
         el_text_hash = h, el_linked_at_ms = now\<rparr> db) (\<lambda>db.
       Inr (delete_failure (ag_id s) space_id db))"

definition link_refs :: "sync_env \<Rightarrow> embedding_space \<Rightarrow> content_hash \<Rightarrow> active_segment list \<Rightarrow> unit ix" where
  "link_refs env space h refs =
     andthen (sync_now env) (\<lambda>now. store (each_try (link_segment now (sp_id space) h) refs))"

definition record_failures :: "sync_env \<Rightarrow> embedding_space \<Rightarrow> hash_group list \<Rightarrow> embedding_error \<Rightarrow> unit ix" where
  "record_failures env space groups error =
     andthen (sync_now env) (\<lambda>now.
       store (each_try (\<lambda>s. upsert_failure \<lparr>ef_segment_id = ag_id s, ef_space_id = sp_id space,
           ef_attempted_at_ms = now, ef_error_code = embedding_error_code error,
           ef_safe_message = take 512 (embedding_error_display error), ef_retry_count = 1\<rparr>)
         (concat (map snd groups))))"

definition record_sync_run ::
    "sync_env \<Rightarrow> ustring option \<Rightarrow> timestamp \<Rightarrow> nat \<Rightarrow> nat \<Rightarrow> nat \<Rightarrow> nat \<Rightarrow> nat \<Rightarrow> ustring \<Rightarrow> ustring option \<Rightarrow> unit ix" where
  "record_sync_run env space_id started attempted hits inputs linked failures status category =
     andthen (sync_now env) (\<lambda>completed.
       store (insert_sync_run \<lparr>sy_id = 0, sy_space_id = space_id, sy_started_at_ms = started,
         sy_completed_at_ms = Some completed, sy_attempted_segments = attempted, sy_cache_hits = hits,
         sy_provider_inputs = inputs, sy_linked_segments = linked, sy_failures = failures, sy_status = status,
         sy_failure_category = category\<rparr>))"

definition validate_provider_batch ::
    "vector list \<Rightarrow> nat \<Rightarrow> nat option \<Rightarrow> embedding_error + vector list" where
  "validate_provider_batch vectors expected_count expected_dimensions =
     (if length vectors \<noteq> expected_count
      then Inl (ResponseInvalid (lit ''vector count differs from input count''))
      else case vectors of
        [] \<Rightarrow> Inl (ResponseInvalid (lit ''empty embedding batch''))
      | first # _ \<Rightarrow>
          let dimensions = length first in
          if dimensions > u32_max
          then Inl (ResponseInvalid (lit ''vector dimensions exceed supported bounds''))
          else if dimensions = 0 then Inl (VectorInvalid (lit ''empty vector''))
          else if expected_dimensions \<noteq> None \<and> expected_dimensions \<noteq> Some dimensions
          then Inl (DimensionMismatch (the expected_dimensions) dimensions)
          else if \<exists>v \<in> set vectors. length v \<noteq> length first
          then Inl (ResponseInvalid (lit ''vectors have inconsistent dimensions''))
          else normalize_all vectors)"

subsection \<open>The run\<close>

record sync_state =
  st_space :: "embedding_space option"
  st_hits :: nat
  st_inputs :: nat
  st_linked :: nat
  st_failures :: nat
  st_code :: "ustring option"
  st_pending :: "hash_group list"

text \<open>The \<open>BTreeMap\<close> of the segments by their hash.\<close>

definition by_hash :: "active_segment list \<Rightarrow> hash_group list" where
  "by_hash segments =
     map (\<lambda>h. (h, filter (\<lambda>s. ag_text_hash s = h) segments)) (sort_by cmp (remdups (map ag_text_hash segments)))"

definition first_code :: "embedding_error \<Rightarrow> ustring option \<Rightarrow> ustring option" where
  "first_code error code = (case code of None \<Rightarrow> Some (embedding_error_code error) | Some c \<Rightarrow> Some c)"

definition refs_count :: "hash_group list \<Rightarrow> nat" where
  "refs_count groups = sum_list (map (\<lambda>g. length (snd g)) groups)"

fun cache_loop :: "sync_env \<Rightarrow> hash_group list \<Rightarrow> sync_state \<Rightarrow> sync_state ix" where
  "cache_loop env [] st = ret st"
| "cache_loop env ((h, refs) # groups) st =
     (case st_space st of
        None \<Rightarrow> cache_loop env groups (st\<lparr>st_pending := st_pending st @ [(h, refs)]\<rparr>)
      | Some space \<Rightarrow>
          andthen (reading (\<lambda>db. load_validated_cache db space h)) (\<lambda>cached.
            case cached of
              Inr (Some _) \<Rightarrow>
                andthen (link_refs env space h refs) (\<lambda>_.
                  cache_loop env groups (st\<lparr>st_hits := st_hits st + length refs, st_linked := st_linked st + length refs\<rparr>))
            | Inr None \<Rightarrow> cache_loop env groups (st\<lparr>st_pending := st_pending st @ [(h, refs)]\<rparr>)
            | Inl error \<Rightarrow>
                andthen (store (\<lambda>db. Inr (delete_vector (sp_id space) h db))) (\<lambda>_.
                andthen (record_failures env space [(h, refs)] error) (\<lambda>_.
                  cache_loop env groups (st\<lparr>st_code := first_code error (st_code st),
                    st_failures := st_failures st + length refs\<rparr>)))))"

definition store_group ::
    "timestamp \<Rightarrow> embedding_space \<Rightarrow> hash_group \<times> vector \<Rightarrow> db \<Rightarrow> storage_error + db" where
  "store_group started_at space gv db = (case gv of ((h, refs), vector) \<Rightarrow>
     (case encode_vector vector (sp_dimensions space) of
        Inl error \<Rightarrow> Inl (Decode (lit ''validated vector encoding invariant failed: '' @ embedding_error_code error))
      | Inr bytes \<Rightarrow>
          try_bind (upsert_vector \<lparr>ev_space_id = sp_id space, ev_text_hash = h, ev_vector_bytes = bytes,
              ev_dimensions = sp_dimensions space, ev_created_at_ms = started_at\<rparr> db)
            (each_try (link_segment started_at (sp_id space) h) refs)))"

definition establish_space ::
    "sync_env \<Rightarrow> embedding_config \<Rightarrow> resolved_model \<Rightarrow> nat \<Rightarrow> embedding_space option \<Rightarrow> embedding_space ix" where
  "establish_space env config resolved dimensions space =
     (case space of
        Some s \<Rightarrow> ret s
      | None \<Rightarrow>
          (let s = new_space (se_blake3 env) resolved dimensions in
           andthen (persist_space env s config) (\<lambda>_. andthen (set_active_space (Some (sp_id s))) (\<lambda>_. ret s))))"

text \<open>Failures are only recorded when there is a space to record them under.\<close>

definition note_failures :: "sync_env \<Rightarrow> embedding_space option \<Rightarrow> hash_group list \<Rightarrow> embedding_error \<Rightarrow> unit ix" where
  "note_failures env space groups error =
     (case space of None \<Rightarrow> ret () | Some s \<Rightarrow> record_failures env s groups error)"

fun note_each :: "sync_env \<Rightarrow> embedding_space option \<Rightarrow> hash_group list list \<Rightarrow> embedding_error \<Rightarrow> unit ix" where
  "note_each env space [] error = ret ()"
| "note_each env space (chunk # cs) error =
     andthen (note_failures env space chunk error) (\<lambda>_. note_each env space cs error)"

definition failed_with :: "embedding_error \<Rightarrow> nat \<Rightarrow> sync_state \<Rightarrow> sync_state" where
  "failed_with error n st = st\<lparr>st_code := first_code error (st_code st), st_failures := st_failures st + n\<rparr>"

fun embed_loop ::
    "sync_env \<Rightarrow> embedding_config \<Rightarrow> provider \<Rightarrow> resolved_model \<Rightarrow> timestamp \<Rightarrow> hash_group list list \<Rightarrow> sync_state
      \<Rightarrow> sync_state ix" where
  "embed_loop env config provider resolved started_at [] st = ret st"
| "embed_loop env config provider resolved started_at (chunk # cs) st =
     (let inputs = map (\<lambda>(h, refs). segment_input h (ag_text (hd refs))) chunk;
          st = st\<lparr>st_inputs := st_inputs st + length inputs\<rparr>
      in andthen (calling (\<lambda>n. pv_embed provider n inputs resolved)) (\<lambda>answer.
           case answer of
             Inr vectors \<Rightarrow>
               (case validate_provider_batch vectors (length inputs) (map_option sp_dimensions (st_space st)) of
                  Inr batch \<Rightarrow>
                    andthen (establish_space env config resolved (length (hd batch)) (st_space st)) (\<lambda>space.
                    andthen (store (each_try (store_group started_at space) (zip chunk batch))) (\<lambda>_.
                      embed_loop env config provider resolved started_at cs
                        (st\<lparr>st_space := Some space, st_linked := st_linked st + refs_count chunk\<rparr>)))
                | Inl error \<Rightarrow>
                    andthen (note_failures env (st_space st) chunk error) (\<lambda>_.
                      embed_loop env config provider resolved started_at cs (failed_with error (refs_count chunk) st)))
           | Inl error \<Rightarrow>
               if systemic error
               then andthen (note_each env (st_space st) (chunk # cs) error) (\<lambda>_.
                      ret (failed_with error (refs_count (concat (chunk # cs))) st))
               else andthen (note_failures env (st_space st) chunk error) (\<lambda>_.
                      embed_loop env config provider resolved started_at cs (failed_with error (refs_count chunk) st))))"

text \<open>\<open>slice::chunks\<close>; a batch size of zero, at which the library panics, is excluded by the validation of
  the configuration.\<close>

function chunks :: "nat \<Rightarrow> 'a list \<Rightarrow> 'a list list" where
  "chunks n xs = (if n = 0 \<or> xs = [] then [] else take n xs # chunks n (drop n xs))"
  by pat_completeness auto
termination by (relation "measure (\<lambda>(n, xs). length xs)") auto

declare chunks.simps [simp del]

definition open_space :: "sync_env \<Rightarrow> embedding_config \<Rightarrow> embedding_space option \<Rightarrow> unit ix" where
  "open_space env config space =
     (case space of
        Some s \<Rightarrow> andthen (persist_space env s config) (\<lambda>_. set_active_space (Some (sp_id s)))
      | None \<Rightarrow> set_active_space None)"

definition finish_sync ::
    "sync_env \<Rightarrow> provider \<Rightarrow> resolved_model \<Rightarrow> timestamp \<Rightarrow> nat \<Rightarrow> sync_state \<Rightarrow> sync_report ix" where
  "finish_sync env provider resolved started_at active_count st =
     (let missing = active_count - st_linked st;
          status = (if st_failures st = 0 \<and> missing = 0 then lit ''completed'' else lit ''partial'');
          code = (if st_failures st > 0
            then Some (case st_code st of Some c \<Rightarrow> c | None \<Rightarrow> lit ''EMBEDDING_FAILED'') else None)
      in andthen (case st_space st of Some s \<Rightarrow> set_active_space (Some (sp_id s)) | None \<Rightarrow> ret ()) (\<lambda>_.
         andthen (record_sync_run env (map_option sp_id (st_space st)) started_at active_count (st_hits st)
           (st_inputs st) (st_linked st) (st_failures st) status code) (\<lambda>_.
         ret \<lparr>yr_enabled = True, yr_provider = provider_kind_display (pv_kind provider),
           yr_embedding_space = map_option sp_id (st_space st), yr_model = Some (rm_canonical_name resolved),
           yr_model_digest = Some (rm_model_digest resolved), yr_dimensions = map_option sp_dimensions (st_space st),
           yr_active_segments = active_count, yr_cache_hits = st_hits st, yr_provider_inputs = st_inputs st,
           yr_linked_segments = st_linked st, yr_missing_segments = missing, yr_failed_segments = st_failures st,
           yr_duration_ms = u64_sat (se_elapsed_ms env), yr_status = status, yr_error_code = code\<rparr>)))"

definition synchronize_with_provider :: "sync_env \<Rightarrow> embedding_config \<Rightarrow> provider \<Rightarrow> sync_report ix" where
  "synchronize_with_provider env config provider =
     andthen (sync_now env) (\<lambda>started_at.
     andthen (reading (active_segments env)) (\<lambda>segments.
     let active_count = length segments in
     andthen (calling (pv_resolve_model provider)) (\<lambda>resolution.
     case resolution of
       Inl error \<Rightarrow>
         andthen (record_sync_run env None started_at active_count 0 0 0 active_count (lit ''failed'')
           (Some (embedding_error_code error))) (\<lambda>_.
         ret ((failed_report (provider_kind_display (pv_kind provider)) error)\<lparr>yr_active_segments := active_count,
           yr_missing_segments := active_count, yr_failed_segments := active_count,
           yr_duration_ms := u64_sat (se_elapsed_ms env)\<rparr>))
     | Inr resolved \<Rightarrow>
         andthen (reading (\<lambda>db. find_existing_dimensions db resolved)) (\<lambda>existing.
         let dimensions = (case rm_dimensions resolved of Some d \<Rightarrow> Some d | None \<Rightarrow> existing);
             space = map_option (new_space (se_blake3 env) resolved) dimensions in
         andthen (open_space env config space) (\<lambda>_.
         andthen (cache_loop env (by_hash segments) \<lparr>st_space = space, st_hits = 0, st_inputs = 0, st_linked = 0,
             st_failures = 0, st_code = None, st_pending = []\<rparr>) (\<lambda>st.
         andthen (embed_loop env config provider resolved started_at (chunks (ec_batch_size config) (st_pending st)) st) (\<lambda>st.
           finish_sync env provider resolved started_at active_count st)))))))"

text \<open>The entry point, with the feature \<open>embeddings-ollama\<close> present or compiled out.\<close>

definition synchronize_embeddings :: "sync_env \<Rightarrow> ollama_env option \<Rightarrow> embedding_config \<Rightarrow> sync_report ix" where
  "synchronize_embeddings env feature config =
     (if \<not> ec_enabled config then ret disabled_report
      else case ec_provider config of
          ProviderNone \<Rightarrow> ret disabled_report
        | ProviderOllama \<Rightarrow>
            (case feature of
               Some ollama \<Rightarrow> synchronize_with_provider env config (ollama_provider ollama config)
             | None \<Rightarrow> ret (failed_report (lit ''ollama'') FeatureDisabled)))"

end
