(* ===== verification/Sync_Properties.thy ===== *)
theory Sync_Properties
  imports Embedding_Sync
begin

text \<open>
  What a synchronisation of embeddings promises, however the provider behaves: it never touches the lexical
  index, it keeps the embedding tables well-formed, it accounts for every active segment, and when it says
  it is complete every active segment has a vector in the active space.
\<close>

subsection \<open>The embedding tables\<close>

definition vector_key :: "embedding_vector_row \<Rightarrow> ustring \<times> content_hash" where
  "vector_key v = (ev_space_id v, ev_text_hash v)"

definition link_key :: "embedding_link \<Rightarrow> uuid \<times> ustring" where
  "link_key l = (el_segment_id l, el_space_id l)"

definition failure_key :: "embedding_failure_row \<Rightarrow> uuid \<times> ustring" where
  "failure_key f = (ef_segment_id f, ef_space_id f)"

definition spaces_ok :: "db \<Rightarrow> bool" where
  "spaces_ok db \<longleftrightarrow> distinct (map es_id (db_embedding_spaces db))
     \<and> (\<forall>e \<in> set (db_embedding_spaces db). 0 < es_dimensions e \<and> es_dimensions e \<le> 65536)
     \<and> set_option (db_active_space db) \<subseteq> es_id ` set (db_embedding_spaces db)"

definition vectors_ok :: "db \<Rightarrow> bool" where
  "vectors_ok db \<longleftrightarrow> distinct (map vector_key (db_embedding_vectors db))
     \<and> (\<forall>v \<in> set (db_embedding_vectors db). ev_space_id v \<in> es_id ` set (db_embedding_spaces db)
          \<and> length (ev_vector_bytes v) = ev_dimensions v * 4)"

definition links_ok :: "db \<Rightarrow> bool" where
  "links_ok db \<longleftrightarrow> distinct (map link_key (db_segment_embeddings db))
     \<and> (\<forall>l \<in> set (db_segment_embeddings db). el_segment_id l \<in> sg_id ` set (db_segments db)
          \<and> el_revision_id l \<in> rv_id ` set (db_revisions db)
          \<and> (el_space_id l, el_text_hash l) \<in> vector_key ` set (db_embedding_vectors db))"

definition failures_ok :: "db \<Rightarrow> bool" where
  "failures_ok db \<longleftrightarrow> distinct (map failure_key (db_embedding_failures db))
     \<and> (\<forall>f \<in> set (db_embedding_failures db). ef_segment_id f \<in> sg_id ` set (db_segments db)
          \<and> ef_space_id f \<in> es_id ` set (db_embedding_spaces db))"

definition runs_ok :: "db \<Rightarrow> bool" where
  "runs_ok db \<longleftrightarrow> distinct (map sy_id (db_sync_runs db)) \<and> length (db_sync_runs db) \<le> SYNC_RUN_WINDOW"

definition embeddings_ok :: "db \<Rightarrow> bool" where
  "embeddings_ok db \<longleftrightarrow> spaces_ok db \<and> vectors_ok db \<and> links_ok db \<and> failures_ok db \<and> runs_ok db"

lemmas embeddings_ok_defs = embeddings_ok_def spaces_ok_def vectors_ok_def links_ok_def failures_ok_def runs_ok_def

text \<open>The tables that are not of the embeddings.\<close>

definition lexical_part :: "db \<Rightarrow> db" where
  "lexical_part db = db\<lparr>db_embedding_spaces := [], db_active_space := None, db_segment_embeddings := [],
     db_embedding_failures := [], db_sync_runs := [], db_embedding_vectors := []\<rparr>"

definition sync_inv :: "db \<Rightarrow> db \<Rightarrow> bool" where
  "sync_inv db0 db \<longleftrightarrow> lexical_part db = lexical_part db0 \<and> embeddings_ok db"

text \<open>A statement that keeps the invariant.\<close>

definition keeps_inv :: "(db \<Rightarrow> storage_error + db) \<Rightarrow> bool" where
  "keeps_inv f \<longleftrightarrow> (\<forall>db0 db db'. sync_inv db0 db \<longrightarrow> f db = Inr db' \<longrightarrow> sync_inv db0 db')"

lemma keeps_invI:
  "(\<And>db db'. embeddings_ok db \<Longrightarrow> f db = Inr db' \<Longrightarrow> lexical_part db' = lexical_part db \<and> embeddings_ok db') \<Longrightarrow> keeps_inv f"
  unfolding keeps_inv_def sync_inv_def by metis

lemma keeps_inv_each: "(\<And>x. keeps_inv (f x)) \<Longrightarrow> keeps_inv (each_try f xs)"
proof (induction xs)
  case (Cons x xs)
  then have x: "keeps_inv (f x)" and xs: "keeps_inv (each_try f xs)" by blast+
  show ?case unfolding keeps_inv_def
  proof (intro allI impI)
    fix db0 db db' assume inv: "sync_inv db0 db" and run: "each_try f (x # xs) db = Inr db'"
    from run obtain db1 where "f x db = Inr db1" "each_try f xs db1 = Inr db'" by (cases "f x db") auto
    with x xs inv show "sync_inv db0 db'" unfolding keeps_inv_def by blast
  qed
qed (simp add: keeps_inv_def)

lemma keeps_inv_bind: "keeps_inv f \<Longrightarrow> keeps_inv g \<Longrightarrow> keeps_inv (\<lambda>db. try_bind (f db) g)"
  unfolding keeps_inv_def by (metis try_bind_Inr_iff)

lemma keeps_insert_space: "keeps_inv (\<lambda>db. Inr (insert_space e db))"
proof (rule keeps_invI)
  fix db db' assume ok: "embeddings_ok db" and "Inr (insert_space e db) = Inr db'"
  then have db': "db' = insert_space e db" by simp
  show "lexical_part db' = lexical_part db \<and> embeddings_ok db'"
  proof (cases "db' = db")
    case False
    then have "db' = db\<lparr>db_embedding_spaces := db_embedding_spaces db @ [e]\<rparr>"
      and "es_id e \<notin> set (map es_id (db_embedding_spaces db))" "0 < es_dimensions e \<and> es_dimensions e \<le> 65536"
      unfolding db' insert_space_def by (auto split: if_splits)
    with ok show ?thesis by (auto simp: embeddings_ok_defs lexical_part_def)
  qed (use ok in simp)
qed

lemma keeps_active_space: "keeps_inv (update_active_space i)"
  by (rule keeps_invI)
    (auto simp: update_active_space_def embeddings_ok_defs lexical_part_def split: if_splits)

lemma keeps_delete_vector: "keeps_inv (\<lambda>db. Inr (delete_vector i h db))"
proof (rule keeps_invI)
  fix db db' assume ok: "embeddings_ok db" and db': "Inr (delete_vector i h db) = Inr db'"
  have keys: "vector_key ` set (db_embedding_vectors (delete_vector i h db))
      = vector_key ` set (db_embedding_vectors db) - {(i, h)}"
    by (auto simp: delete_vector_def vector_key_def)
  have "links_ok (delete_vector i h db)"
    using ok unfolding links_ok_def keys
    by (auto simp: delete_vector_def embeddings_ok_def links_ok_def distinct_map_delete_where)
  with ok db' show "lexical_part db' = lexical_part db \<and> embeddings_ok db'"
    by (auto simp: embeddings_ok_def spaces_ok_def vectors_ok_def failures_ok_def runs_ok_def delete_vector_def
        lexical_part_def distinct_map_delete_where)
qed

lemma keeps_delete_failure: "keeps_inv (\<lambda>db. Inr (delete_failure i s db))"
  by (rule keeps_invI) (auto simp: delete_failure_def embeddings_ok_defs lexical_part_def distinct_map_delete_where)

lemma keeps_upsert_vector: "keeps_inv (upsert_vector v)"
proof (rule keeps_invI)
  fix db db' assume ok: "embeddings_ok db" and run: "upsert_vector v db = Inr db'"
  let ?same = "\<lambda>u. ev_space_id u = ev_space_id v \<and> ev_text_hash u = ev_text_hash v"
  from run have v: "length (ev_vector_bytes v) = ev_dimensions v * 4" "ev_space_id v \<in> es_id ` set (db_embedding_spaces db)"
    by (auto simp: upsert_vector_def split: if_splits)
  define vs where "vs = (if \<exists>u \<in> set (db_embedding_vectors db). ?same u
    then update_where ?same (\<lambda>_. v) (db_embedding_vectors db) else db_embedding_vectors db @ [v])"
  have db': "db' = db\<lparr>db_embedding_vectors := vs\<rparr>"
    using run by (auto simp: upsert_vector_def vs_def Let_def split: if_splits)
  have "map vector_key (update_where ?same (\<lambda>_. v) (db_embedding_vectors db)) = map vector_key (db_embedding_vectors db)"
    by (rule map_update_where) (simp add: vector_key_def)
  note up = this arg_cong [OF this, of set, unfolded list.set_map]
  have "distinct (map vector_key (db_embedding_vectors db))" using ok by (simp add: embeddings_ok_defs)
  then have keys: "distinct (map vector_key vs)" "vector_key ` set (db_embedding_vectors db) \<subseteq> vector_key ` set vs"
    using up by (auto simp: vs_def vector_key_def)
  have "\<forall>u \<in> set vs. ev_space_id u \<in> es_id ` set (db_embedding_spaces db) \<and> length (ev_vector_bytes u) = ev_dimensions u * 4"
    using ok v by (auto simp: vs_def embeddings_ok_defs set_update_where)
  with ok keys show "lexical_part db' = lexical_part db \<and> embeddings_ok db'"
    by (auto simp: db' embeddings_ok_defs lexical_part_def)
qed

lemma keeps_replace_link: "keeps_inv (replace_link l)"
proof (rule keeps_invI)
  fix db db' assume ok: "embeddings_ok db" and run: "replace_link l db = Inr db'"
  let ?same = "\<lambda>k. el_segment_id k = el_segment_id l \<and> el_space_id k = el_space_id l"
  from run have db': "db' = db\<lparr>db_segment_embeddings := delete_where ?same (db_segment_embeddings db) @ [l]\<rparr>"
    and l: "el_segment_id l \<in> sg_id ` set (db_segments db)" "el_revision_id l \<in> rv_id ` set (db_revisions db)"
      "\<exists>v \<in> set (db_embedding_vectors db). ev_space_id v = el_space_id l \<and> ev_text_hash v = el_text_hash l"
    by (auto simp: replace_link_def split: if_splits)
  from l(3) have key: "(el_space_id l, el_text_hash l) \<in> vector_key ` set (db_embedding_vectors db)"
    by (metis image_eqI vector_key_def)
  have "distinct (map link_key (delete_where ?same (db_segment_embeddings db) @ [l]))"
    using ok by (auto simp: embeddings_ok_defs distinct_map_delete_where link_key_def)
  with ok l(1,2) key show "lexical_part db' = lexical_part db \<and> embeddings_ok db'"
    by (auto simp: db' embeddings_ok_defs lexical_part_def)
qed

lemma keeps_upsert_failure: "keeps_inv (upsert_failure f)"
proof (rule keeps_invI)
  fix db db' assume ok: "embeddings_ok db" and run: "upsert_failure f db = Inr db'"
  let ?same = "\<lambda>g. ef_segment_id g = ef_segment_id f \<and> ef_space_id g = ef_space_id f"
  let ?up = "\<lambda>g. f\<lparr>ef_retry_count := min 1000000 (ef_retry_count g + 1)\<rparr>"
  show "lexical_part db' = lexical_part db \<and> embeddings_ok db'"
  proof (cases "\<exists>g \<in> set (db_embedding_failures db). ?same g")
    case True
    then have db': "db' = db\<lparr>db_embedding_failures := update_where ?same ?up (db_embedding_failures db)\<rparr>"
      using run by (simp add: upsert_failure_def)
    have m: "map failure_key (update_where ?same ?up (db_embedding_failures db)) = map failure_key (db_embedding_failures db)"
      by (rule map_update_where) (simp add: failure_key_def)
    from True obtain g where g: "g \<in> set (db_embedding_failures db)" "?same g" by blast
    have "failures_ok db'"
      using ok g m by (auto simp: db' failures_ok_def embeddings_ok_def set_update_where) metis+
    with ok show ?thesis
      by (auto simp: db' embeddings_ok_def spaces_ok_def vectors_ok_def links_ok_def runs_ok_def lexical_part_def)
  next
    case False
    then have db': "db' = db\<lparr>db_embedding_failures := db_embedding_failures db @ [f]\<rparr>"
      and f: "ef_segment_id f \<in> sg_id ` set (db_segments db)" "ef_space_id f \<in> es_id ` set (db_embedding_spaces db)"
      using run unfolding upsert_failure_def Let_def by (auto split: if_splits)
    from False ok f show ?thesis
      by (auto simp: db' embeddings_ok_defs failure_key_def lexical_part_def)
  qed
qed

lemma next_run_id_fresh: "i \<in> sy_id ` set (db_sync_runs db) \<Longrightarrow> i < next_run_id db"
proof -
  have "i \<in> set xs \<Longrightarrow> i < Suc (foldr max xs 0)" for xs by (induction xs) auto
  then show "i \<in> sy_id ` set (db_sync_runs db) \<Longrightarrow> i < next_run_id db" by (simp add: next_run_id_def)
qed

lemma length_kept_ids:
  assumes "distinct (map f rows)"
  shows "length (delete_where (\<lambda>r. f r \<notin> set (map f (take n (sort_by c rows)))) rows) \<le> n"
proof -
  let ?keep = "take n (sort_by c rows)"
  have "set (delete_where (\<lambda>r. f r \<notin> set (map f ?keep)) rows) \<subseteq> set ?keep"
  proof
    fix r assume "r \<in> set (delete_where (\<lambda>r. f r \<notin> set (map f ?keep)) rows)"
    then obtain k where "r \<in> set rows" "k \<in> set ?keep" "f r = f k" by auto
    moreover from this have "k \<in> set rows" using set_take_subset [of n "sort_by c rows"] by auto
    ultimately show "r \<in> set ?keep" using assms by (auto simp: distinct_map dest: inj_onD)
  qed
  moreover have "distinct (delete_where (\<lambda>r. f r \<notin> set (map f ?keep)) rows)"
    using assms by (auto simp: delete_where_def distinct_map intro: distinct_filter)
  ultimately have "length (delete_where (\<lambda>r. f r \<notin> set (map f ?keep)) rows) \<le> card (set ?keep)"
    by (metis card_mono distinct_card finite_set)
  also have "\<dots> \<le> length ?keep" by (rule card_length)
  also have "\<dots> \<le> n" by simp
  finally show ?thesis .
qed

lemma keeps_insert_run: "keeps_inv (insert_sync_run run)"
proof (rule keeps_invI)
  fix db db' assume ok: "embeddings_ok db" and run: "insert_sync_run run db = Inr db'"
  let ?rows = "db_sync_runs db @ [run\<lparr>sy_id := next_run_id db\<rparr>]"
  from run have db': "db' = db\<lparr>db_sync_runs := delete_where
      (\<lambda>r. sy_id r \<notin> set (map sy_id (take SYNC_RUN_WINDOW (sort_by (\<lambda>a b. cmp (sy_id b) (sy_id a)) ?rows)))) ?rows\<rparr>"
    by (auto simp: insert_sync_run_def Let_def split: if_splits)
  have d: "distinct (map sy_id ?rows)"
    using ok next_run_id_fresh by (fastforce simp: embeddings_ok_defs)
  from ok length_kept_ids [OF d] distinct_map_delete_where [OF d] show "lexical_part db' = lexical_part db \<and> embeddings_ok db'"
    unfolding db' by (simp add: embeddings_ok_def spaces_ok_def vectors_ok_def links_ok_def failures_ok_def runs_ok_def lexical_part_def)
qed

end
