(* ===== verification/Sync_Guarantees.thy ===== *)
theory Sync_Guarantees
  imports Sync_Properties Retrieval_Properties
begin

text \<open>
  The run of a synchronisation as a whole: every operation keeps the invariant of \<open>Sync_Properties\<close>, the
  counters of the report add up, and a run that reports itself completed has linked every active segment.
\<close>

subsection \<open>The invariant through the run\<close>

definition keeps_ix :: "'a ix \<Rightarrow> bool" where
  "keeps_ix m \<longleftrightarrow> (\<forall>db0. triple (sync_inv db0) m (\<lambda>r. sync_inv db0))"

named_theorems keeping \<comment> \<open>operations that keep the invariant\<close>

lemma keeps_ix_store [keeping]: "keeps_inv f \<Longrightarrow> keeps_ix (store f)"
  by (auto simp: keeps_ix_def keeps_inv_def intro!: triple_store)

lemma keeps_ix_quiet: "quiet m \<Longrightarrow> keeps_ix m"
  by (simp add: keeps_ix_def triple_quiet)

lemma keeps_ix_andthen [keeping]: "keeps_ix m \<Longrightarrow> (\<And>a. keeps_ix (f a)) \<Longrightarrow> keeps_ix (andthen m f)"
  unfolding keeps_ix_def by (blast intro: triple_andthen)

lemma quiet_sync_now [simp]: "quiet (sync_now env)"
  by (auto simp: quiet_def sync_now_def)

lemma quiet_calling [simp]: "quiet (calling f)"
  by (auto simp: quiet_def calling_def)

lemma keeps_ix_basic [keeping]:
  "keeps_ix (ret a)" "keeps_ix (fail e)" "keeps_ix (reading g)" "keeps_ix (sync_now env)" "keeps_ix (calling h)"
  by (simp_all add: keeps_ix_quiet)

lemmas keeps_statements [keeping] = keeps_insert_space keeps_active_space keeps_delete_vector keeps_delete_failure
  keeps_upsert_vector keeps_replace_link keeps_upsert_failure keeps_insert_run keeps_inv_each

lemma keeps_link_segment [keeping]: "keeps_inv (link_segment now space_id h s)"
  unfolding link_segment_def by (intro keeps_inv_bind keeping)

lemma keeps_store_group [keeping]: "keeps_inv (store_group t space gv)"
proof -
  obtain h refs v where gv: "gv = ((h, refs), v)" by (metis surj_pair)
  show ?thesis
  proof (cases "encode_vector v (sp_dimensions space)")
    case (Inl e)
    then show ?thesis by (simp add: gv store_group_def keeps_inv_def)
  next
    case (Inr bytes)
    show ?thesis unfolding store_group_def gv prod.case Inr sum.case
      by (intro keeps_inv_bind keeping)
  qed
qed

lemma keeps_persist_space [keeping]: "keeps_ix (persist_space env space config)"
  unfolding persist_space_def by (auto intro!: keeping split: sum.split)

lemma keeps_set_active_space [keeping]: "keeps_ix (set_active_space i)"
  unfolding set_active_space_def by (intro keeping)

lemma keeps_link_refs [keeping]: "keeps_ix (link_refs env space h refs)"
  unfolding link_refs_def by (intro keeping)

lemma keeps_record_failures [keeping]: "keeps_ix (record_failures env space groups error)"
  unfolding record_failures_def by (intro keeping)

lemma keeps_record_sync_run [keeping]:
  "keeps_ix (record_sync_run env space_id started attempted hits inputs linked failures status category)"
  unfolding record_sync_run_def by (intro keeping)

lemma keeps_note_failures [keeping]: "keeps_ix (note_failures env space groups error)"
  unfolding note_failures_def by (auto intro!: keeping split: option.split)

lemma keeps_note_each [keeping]: "keeps_ix (note_each env space cs error)"
  by (induction cs) (auto intro!: keeping)

lemma keeps_establish_space [keeping]: "keeps_ix (establish_space env config resolved d space)"
  unfolding establish_space_def by (auto simp: Let_def intro!: keeping split: option.split)

lemma keeps_cache_loop [keeping]: "keeps_ix (cache_loop env groups st)"
proof (induction groups arbitrary: st)
  case (Cons g groups)
  then show ?case by (cases g) (auto intro!: keeping Cons.IH split: option.split sum.split)
qed (simp add: keeping)

lemma keeps_embed_loop [keeping]: "keeps_ix (embed_loop env config provider resolved t cs st)"
proof (induction cs arbitrary: st)
  case (Cons c cs)
  show ?case by (auto simp: Let_def simp del: note_each.simps intro!: keeping Cons.IH split: sum.split)
qed (simp add: keeping)

lemma keeps_open_space [keeping]: "keeps_ix (open_space env config space)"
  unfolding open_space_def by (auto intro!: keeping split: option.split)

lemma keeps_finish_sync [keeping]: "keeps_ix (finish_sync env provider resolved t n st)"
  unfolding finish_sync_def Let_def by (intro keeping) (auto intro!: keeping split: option.split)

lemma keeps_synchronize_with_provider [keeping]: "keeps_ix (synchronize_with_provider env config provider)"
  unfolding synchronize_with_provider_def Let_def by (auto intro!: keeping split: sum.split)

lemma keeps_synchronize_embeddings: "keeps_ix (synchronize_embeddings env feature config)"
  unfolding synchronize_embeddings_def
  by (auto intro!: keeping split: embedding_provider_config.split option.split)

text \<open>
  C23. A synchronisation is a side channel: however it ends, with a report, an error of the clock or the
  database, and whatever the provider answers, roots, files, revisions, segments and the full-text rows
  are what they were, and the embedding tables stay well-formed: vectors of the length of their dimensions,
  links only to stored segments and to vectors of their text in their space, an active space that exists,
  at most one row per key and at most a hundred runs.
\<close>
theorem sync_keeps_lexical_index:
  assumes "embeddings_ok (wd_db w)" and "synchronize_embeddings env feature config w = (r, w')"
  shows "lexical_part (wd_db w') = lexical_part (wd_db w) \<and> embeddings_ok (wd_db w')"
proof -
  have "sync_inv (wd_db w) (wd_db w)" using assms(1) by (simp add: sync_inv_def)
  from triple_use [OF keeps_synchronize_embeddings [unfolded keeps_ix_def, rule_format] this assms(2)]
  show ?thesis by (simp add: sync_inv_def)
qed


subsection \<open>The counters\<close>

lemma andthen_Inr_iff:
  "andthen m f w = (Inr b, w') \<longleftrightarrow> (\<exists>a w1. m w = (Inr a, w1) \<and> f a w1 = (Inr b, w'))"
  by (cases "m w") (auto simp: andthen_def split: sum.splits)

lemma running_simps:
  "ret a w = (Inr b, w') \<longleftrightarrow> b = a \<and> w' = w"
  "fail e w \<noteq> (Inr b, w')"
  "reading g w = (Inr c, w') \<longleftrightarrow> c = g (wd_db w) \<and> w' = w"
  "calling h w = (Inr d, w') \<longleftrightarrow> d = h (wd_tick w) \<and> w' = w\<lparr>wd_tick := wd_tick w + 1\<rparr>"
  "store k w = (Inr (), w') \<longleftrightarrow> (\<exists>db. k (wd_db w) = Inr db \<and> w' = w\<lparr>wd_db := db\<rparr>)"
  by (auto simp: ret_def fail_def reading_def calling_def store_def split: sum.splits)

lemmas running = andthen_Inr_iff running_simps

lemma sync_now_db: "sync_now env w = (r, w') \<Longrightarrow> wd_db w' = wd_db w"
  by (auto simp: sync_now_def)

definition settled :: "sync_state \<Rightarrow> nat" where
  "settled st = st_linked st + st_failures st"

lemma refs_count_append [simp]: "refs_count (gs @ hs) = refs_count gs + refs_count hs"
  by (simp add: refs_count_def)

lemma refs_count_simps [simp]: "refs_count [] = 0" "refs_count (g # gs) = length (snd g) + refs_count gs"
  by (simp_all add: refs_count_def)

lemma cache_loop_counts:
  "cache_loop env groups st w = (Inr st', w') \<Longrightarrow>
     settled st' + refs_count (st_pending st') = settled st + refs_count (st_pending st) + refs_count groups
     \<and> st_failures st \<le> st_failures st'"
proof (induction groups arbitrary: st w)
  case (Cons g groups)
  obtain h refs where g: "g = (h, refs)" by fastforce
  show ?case
  proof (cases "st_space st")
    case None
    with Cons.prems have "cache_loop env groups (st\<lparr>st_pending := st_pending st @ [(h, refs)]\<rparr>) w = (Inr st', w')"
      by (simp add: g)
    from Cons.IH [OF this] show ?thesis by (simp add: g settled_def)
  next
    case (Some space)
    from Cons.prems obtain st1 w1 where run: "cache_loop env groups st1 w1 = (Inr st', w')"
      and st1: "settled st1 + refs_count (st_pending st1) = settled st + refs_count (st_pending st) + length refs"
        "st_failures st \<le> st_failures st1"
      by (auto simp: g Some running settled_def split: sum.splits option.splits)
    from Cons.IH [OF run] st1 show ?thesis by (simp add: g)
  qed
qed (simp add: running)

lemma failed_with_settled [simp]:
  "settled (failed_with error n st) = settled st + n" "st_failures (failed_with error n st) = st_failures st + n"
  by (simp_all add: failed_with_def settled_def)

lemma embed_loop_counts:
  "embed_loop env config provider resolved t cs st w = (Inr st', w') \<Longrightarrow>
     settled st' = settled st + refs_count (concat cs) \<and> st_failures st \<le> st_failures st'"
proof (induction cs arbitrary: st w)
  case (Cons c cs)
  let ?st = "st\<lparr>st_inputs := st_inputs st + length c\<rparr>"
  from Cons.prems obtain st1 w1 where
    "st' = st1 \<and> settled st1 = settled st + refs_count (concat (c # cs)) \<and> st_failures st \<le> st_failures st1
     \<or> embed_loop env config provider resolved t cs st1 w1 = (Inr st', w')
       \<and> settled st1 = settled st + refs_count c \<and> st_failures st \<le> st_failures st1"
    by (auto simp: Let_def running settled_def failed_with_def simp del: note_each.simps
        split: sum.splits if_splits) (force)+
  then show ?case using Cons.IH [of st1 w1] by auto
qed (simp add: running)

lemma concat_chunks: "0 < n \<Longrightarrow> concat (chunks n xs) = xs"
proof (induction n xs rule: chunks.induct)
  case (1 n xs)
  then show ?case by (subst chunks.simps) auto
qed

lemma sum_filter_lengths:
  "finite H \<Longrightarrow> f ` set xs \<subseteq> H \<Longrightarrow> (\<Sum>h \<in> H. length (filter (\<lambda>x. f x = h) xs)) = length xs"
proof (induction xs)
  case (Cons x xs)
  have "(\<Sum>h \<in> H. length (filter (\<lambda>x. f x = h) (x # xs)))
      = (\<Sum>h \<in> H. (if f x = h then 1 else 0) + length (filter (\<lambda>x. f x = h) xs))"
    by (rule sum.cong) auto
  with Cons show ?case by (simp add: sum.distrib)
qed simp

lemma refs_count_by_hash [simp]: "refs_count (by_hash segments) = length segments"
proof -
  let ?hs = "sort_by cmp (remdups (map ag_text_hash segments))"
  have "refs_count (by_hash segments) = (\<Sum>h \<leftarrow> ?hs. length (filter (\<lambda>s. ag_text_hash s = h) segments))"
    by (simp add: refs_count_def by_hash_def o_def)
  also have "\<dots> = (\<Sum>h \<in> set ?hs. length (filter (\<lambda>s. ag_text_hash s = h) segments))"
    by (rule sum_list_distinct_conv_sum_set) simp
  also have "\<dots> = length segments" by (rule sum_filter_lengths) auto
  finally show ?thesis .
qed


lemma finish_sync_report:
  assumes "finish_sync env provider resolved t n st w = (Inr report, w')"
  shows "yr_active_segments report = n" "yr_linked_segments report = st_linked st"
    "yr_missing_segments report = n - st_linked st" "yr_failed_segments report = st_failures st"
    "yr_cache_hits report = st_hits st" "yr_embedding_space report = map_option sp_id (st_space st)"
    "yr_status report = (if st_failures st = 0 \<and> n - st_linked st = 0 then lit ''completed'' else lit ''partial'')"
    "yr_error_code report = None \<longleftrightarrow> st_failures st = 0"
  using assms by (auto simp: finish_sync_def Let_def running split: if_splits)

text \<open>The stages of a run that resolves its model.\<close>

definition initial_state :: "embedding_space option \<Rightarrow> sync_state" where
  "initial_state space = \<lparr>st_space = space, st_hits = 0, st_inputs = 0, st_linked = 0, st_failures = 0,
     st_code = None, st_pending = []\<rparr>"

lemma synchronize_stages:
  assumes "synchronize_with_provider env config provider w = (Inr report, w')"
  obtains (unresolved) error where "yr_active_segments report = length (active_segments env (wd_db w))"
      "yr_missing_segments report = yr_active_segments report" "yr_failed_segments report = yr_active_segments report"
      "yr_linked_segments report = 0" "yr_status report = lit ''failed''"
      "yr_error_code report = Some (embedding_error_code error)"
  | (resolved) resolved t space st w1 w2 st' w3 where
      "wd_db w1 = wd_db w" "open_space env config space w1 = (Inr (), w2)"
      "\<exists>w2'. cache_loop env (by_hash (active_segments env (wd_db w))) (initial_state space) w2 = (Inr st, w2')
         \<and> embed_loop env config provider resolved t (chunks (ec_batch_size config) (st_pending st)) st w2' = (Inr st', w3)"
      "finish_sync env provider resolved t (length (active_segments env (wd_db w))) st' w3 = (Inr report, w')"
proof -
  obtain t w0 where now: "sync_now env w = (Inr t, w0)"
    using assms by (auto simp: synchronize_with_provider_def andthen_Inr_iff)
  then have db0: "wd_db w0 = wd_db w" by (auto simp: sync_now_def)
  note run = assms [unfolded synchronize_with_provider_def Let_def andthen_Inr_iff running_simps]
  show thesis
  proof (cases "pv_resolve_model provider (wd_tick w0)")
    case (Inl error)
    with run now db0 unresolved show thesis by (auto simp: running failed_report_def)
  next
    case (Inr resolved)
    with run now db0 show thesis
      by (auto simp: running initial_state_def intro!: that(2) [of "w0\<lparr>wd_tick := Suc (wd_tick w0)\<rparr>"])
  qed
qed

text \<open>
  The report of a synchronisation accounts for every segment: it names as many active segments as the
  index has, each is either linked or failed, what is missing is what failed, cache hits are among the linked,
  and the run is called completed exactly when nothing failed, which is when it carries no error code,
  unless the model could not be resolved at all.
\<close>
theorem sync_accounts:
  assumes "synchronize_with_provider env config provider w = (Inr report, w')" and "0 < ec_batch_size config"
  shows "yr_active_segments report = length (active_segments env (wd_db w))
    \<and> yr_linked_segments report + yr_failed_segments report = yr_active_segments report
    \<and> yr_missing_segments report = yr_failed_segments report
    \<and> (yr_status report = lit ''completed'' \<longleftrightarrow> yr_failed_segments report = 0 \<and> yr_status report \<noteq> lit ''failed'')
    \<and> (yr_status report \<noteq> lit ''failed'' \<longrightarrow> (yr_error_code report = None \<longleftrightarrow> yr_failed_segments report = 0))"
  using assms(1)
proof (cases rule: synchronize_stages)
  case (resolved r t space st w1 w2 st' w3)
  let ?segs = "active_segments env (wd_db w)"
  from resolved(3) obtain w2' where
    c: "cache_loop env (by_hash ?segs) (initial_state space) w2 = (Inr st, w2')" and
    e: "embed_loop env config provider r t (chunks (ec_batch_size config) (st_pending st)) st w2' = (Inr st', w3)"
    by blast
  from cache_loop_counts [OF c] embed_loop_counts [OF e] have "st_linked st' + st_failures st' = length ?segs"
    by (simp add: concat_chunks [OF assms(2)] initial_state_def settled_def)
  with finish_sync_report [OF resolved(4)] show ?thesis by (auto simp: lit_eq)
qed (auto simp: lit_eq)

subsection \<open>Links\<close>

text \<open>The segments with a link to a vector of their own text, whose hash is \<open>H\<close>.\<close>

definition linked_ids :: "(uuid \<Rightarrow> content_hash) \<Rightarrow> db \<Rightarrow> ustring \<Rightarrow> uuid set" where
  "linked_ids H db space_id = {i. \<exists>l \<in> set (db_segment_embeddings db).
     el_segment_id l = i \<and> el_space_id l = space_id \<and> el_text_hash l = H i}"

definition group_ok :: "(uuid \<Rightarrow> content_hash) \<Rightarrow> hash_group \<Rightarrow> bool" where
  "group_ok H g \<longleftrightarrow> snd g \<noteq> [] \<and> (\<forall>s \<in> set (snd g). H (ag_id s) = fst g)"

definition grows :: "(uuid \<Rightarrow> content_hash) \<Rightarrow> db \<Rightarrow> db \<Rightarrow> bool" where
  "grows H db db' \<longleftrightarrow> (\<forall>space_id. linked_ids H db space_id \<subseteq> linked_ids H db' space_id)"

lemma grows_refl [simp]: "grows H db db" by (simp add: grows_def)

lemma grows_trans [trans]: "grows H a b \<Longrightarrow> grows H b c \<Longrightarrow> grows H a c"
  unfolding grows_def by blast

lemma growsD: "grows H a b \<Longrightarrow> linked_ids H a i \<subseteq> linked_ids H b i"
  by (simp add: grows_def)

lemma grows_same_links: "db_segment_embeddings db' = db_segment_embeddings db \<Longrightarrow> grows H db db'"
  by (simp add: grows_def linked_ids_def)

lemma link_segment_links:
  assumes "link_segment t space_id h s db = Inr db'" and "H (ag_id s) = h"
  shows "grows H db db' \<and> ag_id s \<in> linked_ids H db' space_id"
proof -
  let ?l = "\<lparr>el_segment_id = ag_id s, el_revision_id = ag_revision_id s, el_space_id = space_id,
      el_text_hash = h, el_linked_at_ms = t\<rparr>"
  have links: "set (db_segment_embeddings db') = insert ?l {k \<in> set (db_segment_embeddings db).
      \<not> (el_segment_id k = ag_id s \<and> el_space_id k = space_id)}"
    using assms(1) by (auto simp: link_segment_def replace_link_def delete_failure_def split: if_splits)
  show ?thesis unfolding grows_def linked_ids_def links using assms(2) by auto
qed

lemma each_link_segment_links:
  "each_try (link_segment t space_id h) refs db = Inr db' \<Longrightarrow> \<forall>s \<in> set refs. H (ag_id s) = h \<Longrightarrow>
     grows H db db' \<and> ag_id ` set refs \<subseteq> linked_ids H db' space_id"
proof (induction refs arbitrary: db)
  case (Cons s refs)
  then obtain db1 where 1: "link_segment t space_id h s db = Inr db1" and 2: "each_try (link_segment t space_id h) refs db1 = Inr db'"
    by auto
  from link_segment_links [OF 1, where H = H] Cons.IH [OF 2] Cons.prems(2) show ?case by (auto simp: grows_def)
qed simp

lemma link_refs_links:
  assumes "link_refs env space h refs w = (Inr u, w')" and "\<forall>s \<in> set refs. H (ag_id s) = h"
  shows "grows H (wd_db w) (wd_db w') \<and> ag_id ` set refs \<subseteq> linked_ids H (wd_db w') (sp_id space)"
proof -
  from assms(1) obtain t where "each_try (link_segment t (sp_id space) h) refs (wd_db w) = Inr (wd_db w')"
    by (auto simp: link_refs_def running dest: sync_now_db)
  from each_link_segment_links [OF this assms(2)] show ?thesis .
qed

lemma store_group_links:
  assumes "store_group t space (g, v) db = Inr db'" and "group_ok H g"
  shows "grows H db db' \<and> ag_id ` set (snd g) \<subseteq> linked_ids H db' (sp_id space)"
proof -
  obtain h refs where g: "g = (h, refs)" by fastforce
  from assms(1) obtain vec db1 where 1: "upsert_vector vec db = Inr db1"
    and 2: "each_try (link_segment t (sp_id space) h) refs db1 = Inr db'"
    by (auto simp: store_group_def g split: sum.splits)
  from 1 have "grows H db db1"
    by (intro grows_same_links) (auto simp: upsert_vector_def Let_def split: if_splits)
  with each_link_segment_links [OF 2] assms(2) show ?thesis by (auto simp: g group_ok_def intro: grows_trans)
qed

lemma each_store_group_links:
  "each_try (store_group t space) (zip groups vs) db = Inr db' \<Longrightarrow> length vs = length groups \<Longrightarrow>
     \<forall>g \<in> set groups. group_ok H g \<Longrightarrow>
     grows H db db' \<and> (\<forall>g \<in> set groups. ag_id ` set (snd g) \<subseteq> linked_ids H db' (sp_id space))"
proof (induction groups arbitrary: vs db)
  case (Cons g groups)
  then obtain v vs' where vs: "vs = v # vs'" by (cases vs) auto
  with Cons.prems obtain db1 where 1: "store_group t space (g, v) db = Inr db1"
    and 2: "each_try (store_group t space) (zip groups vs') db1 = Inr db'" by auto
  from store_group_links [OF 1, where H = H] Cons.IH [OF 2] Cons.prems(2,3) vs show ?case
    by simp (meson grows_trans growsD subset_trans)
qed simp

text \<open>
  What the two loops do to the links when nothing fails: a group is linked in the space of the state, or is
  left to the provider.
\<close>

definition served :: "(uuid \<Rightarrow> content_hash) \<Rightarrow> db \<Rightarrow> sync_state \<Rightarrow> hash_group \<Rightarrow> bool" where
  "served H db st g \<longleftrightarrow> (\<exists>space. st_space st = Some space \<and> ag_id ` set (snd g) \<subseteq> linked_ids H db (sp_id space))"

lemma served_grows: "served H db st g \<Longrightarrow> grows H db db' \<Longrightarrow> st_space st' = st_space st \<Longrightarrow> served H db' st' g"
  unfolding served_def by (metis growsD subset_trans)

lemma cache_loop_links:
  "cache_loop env groups st w = (Inr st', w') \<Longrightarrow> st_failures st' = 0 \<Longrightarrow> \<forall>g \<in> set groups. group_ok H g \<Longrightarrow>
     grows H (wd_db w) (wd_db w') \<and> st_space st' = st_space st
     \<and> set (st_pending st') \<subseteq> set (st_pending st) \<union> set groups \<and> set (st_pending st) \<subseteq> set (st_pending st')
     \<and> (\<forall>g \<in> set groups. g \<in> set (st_pending st') \<or> served H (wd_db w') st' g)"
proof (induction groups arbitrary: st w)
  case (Cons g groups)
  obtain h refs where g: "g = (h, refs)" by fastforce
  have later: ?case if run: "cache_loop env groups (st\<lparr>st_pending := st_pending st @ [(h, refs)]\<rparr>) w = (Inr st', w')"
    using Cons.IH [OF run Cons.prems(2)] Cons.prems(3) by (auto simp: g)
  show ?case
  proof (cases "st_space st")
    case None
    with Cons.prems(1) later show ?thesis by (simp add: g)
  next
    case (Some space)
    from Cons.prems(1) consider
        "cache_loop env groups (st\<lparr>st_pending := st_pending st @ [(h, refs)]\<rparr>) w = (Inr st', w')"
      | (hit) w1 st1 where "link_refs env space h refs w = (Inr (), w1)" "cache_loop env groups st1 w1 = (Inr st', w')"
          "st_space st1 = st_space st" "st_pending st1 = st_pending st"
      | (corrupt) w1 st1 where "cache_loop env groups st1 w1 = (Inr st', w')" "st_failures st1 = st_failures st + length refs"
      by (auto simp: g Some running split: sum.splits option.splits)
    then show ?thesis
    proof cases
      case 1
      then show ?thesis by (rule later)
    next
      case hit
      from Cons.prems(3) have ok: "\<forall>s \<in> set refs. H (ag_id s) = h" by (simp add: g group_ok_def)
      note link = link_refs_links [OF hit(1) ok]
      have ih: "grows H (wd_db w1) (wd_db w')" "st_space st' = st_space st"
        "set (st_pending st') \<subseteq> set (st_pending st) \<union> set groups" "set (st_pending st) \<subseteq> set (st_pending st')"
        "\<forall>g \<in> set groups. g \<in> set (st_pending st') \<or> served H (wd_db w') st' g"
        using Cons.IH [OF hit(2) Cons.prems(2)] Cons.prems(3) hit(3,4) by auto
      have "served H (wd_db w1) st g" using link Some by (simp add: served_def g)
      from served_grows [OF this ih(1,2)] link ih show ?thesis by (auto intro: grows_trans)
    next
      case corrupt
      then have "length refs \<le> st_failures st'" using cache_loop_counts [OF corrupt(1)] by simp
      with Cons.prems(2,3) show ?thesis by (simp add: g group_ok_def)
    qed
  qed
qed (simp add: running)

lemma normalize_all_length: "normalize_all vs = Inr us \<Longrightarrow> length us = length vs"
  by (induction vs arbitrary: us) auto

lemma insert_space_links [simp]: "db_segment_embeddings (insert_space e db) = db_segment_embeddings db"
  by (simp add: insert_space_def)

lemma persist_space_links:
  "persist_space env space config w = (Inr u, w') \<Longrightarrow> db_segment_embeddings (wd_db w') = db_segment_embeddings (wd_db w)"
  by (cases "se_config_json env config") (auto simp: persist_space_def running dest!: sync_now_db)

lemma set_active_space_links:
  "set_active_space i w = (Inr u, w') \<Longrightarrow> db_segment_embeddings (wd_db w') = db_segment_embeddings (wd_db w)
     \<and> db_active_space (wd_db w') = i"
  by (auto simp: set_active_space_def update_active_space_def running split: if_splits)

lemma establish_space_links:
  assumes "establish_space env config resolved d space w = (Inr s, w')"
  shows "grows H (wd_db w) (wd_db w')" "space \<noteq> None \<Longrightarrow> space = Some s"
proof -
  have "db_segment_embeddings (wd_db w') = db_segment_embeddings (wd_db w)"
    using assms by (auto simp: establish_space_def Let_def running split: option.splits
        dest!: persist_space_links set_active_space_links)
  then show "grows H (wd_db w) (wd_db w')" by (rule grows_same_links)
  show "space \<noteq> None \<Longrightarrow> space = Some s" using assms by (auto simp: establish_space_def running split: option.splits)
qed

lemma embed_loop_links:
  "embed_loop env config provider resolved t cs st w = (Inr st', w') \<Longrightarrow> st_failures st' = 0 \<Longrightarrow>
     \<forall>c \<in> set cs. c \<noteq> [] \<and> (\<forall>g \<in> set c. group_ok H g) \<Longrightarrow>
     grows H (wd_db w) (wd_db w') \<and> (st_space st \<noteq> None \<longrightarrow> st_space st' = st_space st)
     \<and> (\<forall>g \<in> set (concat cs). served H (wd_db w') st' g)"
proof (induction cs arbitrary: st w)
  case (Cons c cs)
  let ?st = "st\<lparr>st_inputs := st_inputs st + length c\<rparr>"
  have pos: "0 < refs_count c"
    using Cons.prems(3) by (cases c) (auto simp: group_ok_def)
  from Cons.prems(1) consider
      (stored) batch space w1 db w2 st1 where "validate_provider_batch batch (length c) (map_option sp_dimensions (st_space st)) = Inr w2"
        "establish_space env config resolved (length (hd w2)) (st_space st) (w\<lparr>wd_tick := Suc (wd_tick w)\<rparr>) = (Inr space, w1)"
        "each_try (store_group t space) (zip c w2) (wd_db w1) = Inr db"
        "embed_loop env config provider resolved t cs st1 (w1\<lparr>wd_db := db\<rparr>) = (Inr st', w')" "st_space st1 = Some space"
    | (passed) w1 st1 where "embed_loop env config provider resolved t cs st1 w1 = (Inr st', w')"
        "st_failures st1 = st_failures st + refs_count c"
    | (stopped) "st_failures st' = st_failures st + refs_count (concat (c # cs))"
    by (auto simp: Let_def running failed_with_def simp del: note_each.simps split: sum.splits if_splits)
  then show ?case
  proof cases
    case stored
    have len: "length w2 = length c"
      using stored(1) by (auto simp: validate_provider_batch_def Let_def split: if_splits list.splits dest: normalize_all_length)
    note est = establish_space_links [OF stored(2)]
    have put: "grows H (wd_db w1) db" "\<forall>g \<in> set c. ag_id ` set (snd g) \<subseteq> linked_ids H db (sp_id space)"
      using each_store_group_links [OF stored(3) len] Cons.prems(3) by auto
    have ih: "grows H db (wd_db w')" "st_space st' = st_space st1" "\<forall>g \<in> set (concat cs). served H (wd_db w') st' g"
      using Cons.IH [OF stored(4) Cons.prems(2)] Cons.prems(3) stored(5) by auto
    have "\<forall>g \<in> set c. served H db st1 g" using put(2) stored(5) by (simp add: served_def)
    then have now: "\<forall>g \<in> set c. served H (wd_db w') st' g" using served_grows [OF _ ih(1,2)] by blast
    have "grows H (wd_db w) (wd_db w')" using est(1) [of H] put(1) ih(1) by (auto intro: grows_trans)
    moreover have "st_space st \<noteq> None \<longrightarrow> st_space st' = st_space st" using est(2) ih(2) stored(5) by auto
    ultimately show ?thesis using now ih(3) by auto
  next
    case passed
    with embed_loop_counts [OF passed(1)] Cons.prems(2) pos show ?thesis by simp
  next
    case stopped
    with Cons.prems(2) pos show ?thesis by simp
  qed
qed (simp add: running)

lemma chunks_nonempty: "c \<in> set (chunks n xs) \<Longrightarrow> c \<noteq> [] \<and> set c \<subseteq> set xs"
proof (induction n xs rule: chunks.induct)
  case (1 n xs)
  then show ?case
    by (subst (asm) (2) chunks.simps) (auto split: if_splits dest: in_set_takeD in_set_dropD)
qed

lemma in_by_hash:
  "g \<in> set (by_hash segments) \<longleftrightarrow> fst g \<in> ag_text_hash ` set segments \<and> snd g = filter (\<lambda>s. ag_text_hash s = fst g) segments"
  by (cases g) (auto simp: by_hash_def)

lemma finish_sync_db:
  assumes "finish_sync env provider resolved t n st w = (Inr report, w')"
  shows "db_segment_embeddings (wd_db w') = db_segment_embeddings (wd_db w)"
    "st_space st = Some s \<Longrightarrow> db_active_space (wd_db w') = Some (sp_id s)"
  using assms
  by (auto simp: finish_sync_def Let_def running record_sync_run_def insert_sync_run_def split: option.splits if_splits
      dest!: set_active_space_links sync_now_db)

lemma open_space_links:
  "open_space env config space w = (Inr u, w') \<Longrightarrow> db_segment_embeddings (wd_db w') = db_segment_embeddings (wd_db w)"
  by (auto simp: open_space_def running split: option.splits dest!: persist_space_links set_active_space_links)

lemma lexical_part_tables:
  "db_segments db = db_segments (lexical_part db)" "db_source_files db = db_source_files (lexical_part db)"
  by (simp_all add: lexical_part_def)

text \<open>What a segment needs to be found by a semantic query: a link in the space to a vector of its text.\<close>

definition embedded :: "db \<Rightarrow> ustring \<Rightarrow> active_segment \<Rightarrow> bool" where
  "embedded db space_id s \<longleftrightarrow> (space_id, ag_text_hash s) \<in> vector_key ` set (db_embedding_vectors db)
     \<and> (\<exists>l \<in> set (db_segment_embeddings db). el_segment_id l = ag_id s \<and> el_space_id l = space_id
          \<and> el_text_hash l = ag_text_hash s)"

lemma active_hashes:
  assumes "db_ok db"
  obtains H where "\<forall>s \<in> set (active_segments env db). H (ag_id s) = ag_text_hash s"
proof
  let ?H = "\<lambda>i. sg_text_hash (the (find (\<lambda>s. sg_id s = i) (db_segments db)))"
  have d: "distinct (map sg_id (db_segments db))" using assms by (simp add: db_ok_def keys_ok_def)
  have "find (\<lambda>s. sg_id s = sg_id x) (db_segments db) = Some x" if "x \<in> set (db_segments db)" for x
    using that find_key [OF d] by blast
  then show "\<forall>s \<in> set (active_segments env db). ?H (ag_id s) = ag_text_hash s"
    by (auto simp: active_segments_def)
qed

text \<open>
  C24. A completed synchronisation leaves nothing behind: if the report says completed, the space it names is
  the active one and every segment of the current revisions of active files has, in that space, a link to a
  stored vector of its own text.
\<close>
theorem sync_completed_embeds_all:
  assumes "db_ok (wd_db w)" "embeddings_ok (wd_db w)" "0 < ec_batch_size config"
    and run: "synchronize_with_provider env config provider w = (Inr report, w')"
    and "yr_status report = lit ''completed''"
  shows "active_segments env (wd_db w') = active_segments env (wd_db w)
    \<and> (\<forall>s \<in> set (active_segments env (wd_db w')). \<exists>i. yr_embedding_space report = Some i
         \<and> db_active_space (wd_db w') = Some i \<and> embedded (wd_db w') i s)"
proof -
  let ?segs = "active_segments env (wd_db w)"
  have "sync_inv (wd_db w) (wd_db w)" using assms(2) by (simp add: sync_inv_def)
  from triple_use [OF keeps_synchronize_with_provider [unfolded keeps_ix_def, rule_format] this run]
  have inv: "lexical_part (wd_db w') = lexical_part (wd_db w)" "embeddings_ok (wd_db w')" by (simp_all add: sync_inv_def)
  have "db_segments (wd_db w') = db_segments (wd_db w)" "db_source_files (wd_db w') = db_source_files (wd_db w)"
    using lexical_part_tables [of "wd_db w'"] lexical_part_tables [of "wd_db w"] inv(1) by metis+
  then have same: "active_segments env (wd_db w') = ?segs" by (simp add: active_segments_def)
  obtain H where H: "\<forall>s \<in> set ?segs. H (ag_id s) = ag_text_hash s" using active_hashes [OF assms(1)] .
  have ok: "\<forall>g \<in> set (by_hash ?segs). group_ok H g"
    using H by (auto simp: in_by_hash group_ok_def filter_empty_conv)
  have "\<exists>i. yr_embedding_space report = Some i \<and> db_active_space (wd_db w') = Some i \<and> embedded (wd_db w') i s"
    if s: "s \<in> set ?segs" for s
    using run
  proof (cases rule: synchronize_stages)
    case (unresolved error)
    with assms(5) show ?thesis by (simp add: lit_eq)
  next
    case (resolved r t space st w1 w2 st' w3)
    from resolved(3) obtain w2' where
      c: "cache_loop env (by_hash ?segs) (initial_state space) w2 = (Inr st, w2')" and
      e: "embed_loop env config provider r t (chunks (ec_batch_size config) (st_pending st)) st w2' = (Inr st', w3)"
      by blast
    have none: "st_failures st' = 0" using assms(5) finish_sync_report(7) [OF resolved(4)] by (auto simp: lit_eq split: if_splits)
    then have "st_failures st = 0" using embed_loop_counts [OF e] by simp
    note cl = cache_loop_links [OF c this ok]
    have pend: "\<forall>c \<in> set (chunks (ec_batch_size config) (st_pending st)). c \<noteq> [] \<and> (\<forall>g \<in> set c. group_ok H g)"
      using cl ok chunks_nonempty by (auto simp: initial_state_def) blast+
    note el = embed_loop_links [OF e none pend]
    have "served H (wd_db w3) st' g" if "g \<in> set (by_hash ?segs)" for g
    proof (cases "g \<in> set (st_pending st)")
      case True
      with el show ?thesis by (simp add: concat_chunks [OF assms(3)])
    next
      case False
      with cl that have "served H (wd_db w2') st g" by blast
      moreover from this el have "st_space st' = st_space st" by (auto simp: served_def)
      ultimately show ?thesis using el served_grows by blast
    qed
    moreover have "(ag_text_hash s, filter (\<lambda>x. ag_text_hash x = ag_text_hash s) ?segs) \<in> set (by_hash ?segs)"
      using s by (simp add: in_by_hash)
    ultimately have "served H (wd_db w3) st' (ag_text_hash s, filter (\<lambda>x. ag_text_hash x = ag_text_hash s) ?segs)" by blast
    then obtain sp where sp: "st_space st' = Some sp" "ag_id s \<in> linked_ids H (wd_db w3) (sp_id sp)"
      using s by (auto simp: served_def)
    note fin = finish_sync_db [OF resolved(4)]
    from sp(2) fin(1) obtain l where l: "l \<in> set (db_segment_embeddings (wd_db w'))" "el_segment_id l = ag_id s"
      "el_space_id l = sp_id sp" "el_text_hash l = ag_text_hash s"
      using H s by (auto simp: linked_ids_def)
    then have "embedded (wd_db w') (sp_id sp) s"
      using inv(2) by (fastforce simp: embedded_def embeddings_ok_def links_ok_def)
    then show ?thesis using fin(2) [OF sp(1)] finish_sync_report(6) [OF resolved(4)] sp(1) by simp
  qed
  then show ?thesis using same by simp
qed

subsection \<open>One segment, embedded\<close>

definition unit_sync :: sync_env where
  "unit_sync = \<lparr>se_clock = (\<lambda>n. 0), se_blake3 = (\<lambda>b. b), se_config_json = (\<lambda>c. Inr []), se_id_text = (\<lambda>i. show_nat i),
     se_elapsed_ms = 0\<rparr>"

definition unit_config :: embedding_config where
  "unit_config = default_embedding_config\<lparr>ec_enabled := True, ec_provider := ProviderOllama, ec_batch_size := 1\<rparr>"

lemma unit_db_ok: "embeddings_ok note_db"
  by (simp add: embeddings_ok_defs note_defs)

lemma new_space_fields [simp]:
  "sp_provider (new_space b m d) = rm_provider m" "sp_canonical_model (new_space b m d) = rm_canonical_name m"
  "sp_model_digest (new_space b m d) = rm_model_digest m" "sp_dimensions (new_space b m d) = d"
  "sp_normalization (new_space b m d) = L2"
  by (simp_all add: new_space_def)

lemma unit_encode: "encode_vector [Finite 1] 1 = Inr (to_le_bytes (Finite 1))"
  by (simp add: encode_vector_def unit_normalize del: to_le_bytes.simps)

lemma length_to_le_bytes [simp]: "length (to_le_bytes x) = 4"
  by (cases x) (simp_all add: Let_def)

lemma unit_run: "\<exists>report w'. synchronize_with_provider unit_sync unit_config unit_provider \<lparr>wd_db = note_db, wd_tick = 0\<rparr> = (Inr report, w')
    \<and> yr_status report = lit ''completed''"
proof -
  let ?m = "\<lparr>rm_provider = KindOllama, rm_configured_name = lit ''m'', rm_canonical_name = lit ''m'',
       rm_model_digest = lit ''d'', rm_dimensions = None\<rparr>"
  let ?s = "\<lparr>ag_id = 4, ag_revision_id = 3, ag_text_hash = [], ag_text = lit ''one''\<rparr>"
  have segs: "active_segments unit_sync note_db = [\<lparr>ag_id = 4, ag_revision_id = 3, ag_text_hash = [], ag_text = sg_text (note_segment 4 3)\<rparr>]"
    by (simp add: active_segments_def note_defs)
  have now: "sync_now unit_sync w = (Inr 0, w\<lparr>wd_tick := Suc (wd_tick w)\<rparr>)" for w
    by (simp add: sync_now_def unit_sync_def try_from_system_time_def i64_max_def i64_min_def)
  have existing: "find_existing_dimensions note_db ?m = None"
    by (simp add: find_existing_dimensions_def note_defs)
  have chunk: "chunks (Suc 0) [x] = [[x]]" for x :: hash_group by (simp add: chunks.simps)
  have u: "pv_resolve_model unit_provider n = Inr ?m" "pv_embed unit_provider n i m = Inr [[Finite 1]]"
    "pv_kind unit_provider = KindOllama" for n i m by (simp_all add: unit_provider_def)
  have v: "validate_provider_batch [[Finite 1]] (Suc 0) None = Inr [[Finite 1]]"
    by (simp add: validate_provider_batch_def unit_normalize u32_max_def)
  have n: "db_embedding_spaces note_db = []" "db_segment_embeddings note_db = []" "db_embedding_vectors note_db = []"
    "db_embedding_failures note_db = []" "db_sync_runs note_db = []" "sg_id ` set (db_segments note_db) = {4}"
    "rv_id ` set (db_revisions note_db) = {3}" by (simp_all add: note_defs)
  have j: "se_config_json unit_sync c = Inr []" for c by (simp add: unit_sync_def)
  show ?thesis
    by (simp add: synchronize_with_provider_def andthen_def now reading_def calling_def u segs existing Let_def
       open_space_def set_active_space_def store_def update_active_space_def n by_hash_def ret_def unit_config_def
       chunk v establish_space_def persist_space_def j insert_space_def store_group_def unit_encode [unfolded One_nat_def]
       upsert_vector_def link_segment_def replace_link_def delete_failure_def finish_sync_def record_sync_run_def
       insert_sync_run_def refs_count_def)
qed

abbreviation "unit_world \<equiv> \<lparr>wd_db = note_db, wd_tick = 0\<rparr>"

theorem sync_accounts_witness:
  "\<exists>report w'. synchronize_with_provider unit_sync unit_config unit_provider unit_world = (Inr report, w')
    \<and> yr_active_segments report = 1 \<and> yr_linked_segments report = 1 \<and> yr_failed_segments report = 0"
proof -
  obtain report w' where run: "synchronize_with_provider unit_sync unit_config unit_provider unit_world = (Inr report, w')"
    and fin: "yr_status report = lit ''completed''" using unit_run by blast
  have "length (active_segments unit_sync note_db) = 1" by (simp add: active_segments_def note_defs)
  moreover have "0 < ec_batch_size unit_config" by (simp add: unit_config_def)
  ultimately show ?thesis using sync_accounts [OF run] run fin by auto
qed

theorem sync_completed_embeds_all_witness:
  "\<exists>report w' s i. synchronize_with_provider unit_sync unit_config unit_provider unit_world = (Inr report, w')
    \<and> s \<in> set (active_segments unit_sync (wd_db w')) \<and> db_active_space (wd_db w') = Some i \<and> embedded (wd_db w') i s"
proof -
  obtain report w' where run: "synchronize_with_provider unit_sync unit_config unit_provider unit_world = (Inr report, w')"
    and fin: "yr_status report = lit ''completed''" using unit_run by blast
  have b: "0 < ec_batch_size unit_config" by (simp add: unit_config_def)
  have s: "\<exists>s. s \<in> set (active_segments unit_sync note_db)" by (simp add: active_segments_def note_defs)
  have "db_ok (wd_db unit_world)" "embeddings_ok (wd_db unit_world)" by (simp_all add: note_db_ok unit_db_ok)
  from sync_completed_embeds_all [OF this b run fin] s run show ?thesis by fastforce
qed

definition no_answer :: ollama_env where
  "no_answer = \<lparr>oe_url = (\<lambda>e p. Some p), oe_get = (\<lambda>n u. Inl []), oe_post = (\<lambda>n u b. Inl []),
     oe_tags_json = (\<lambda>b. None), oe_embed_json = (\<lambda>b. None), oe_request_json = (\<lambda>r. None)\<rparr>"

theorem sync_keeps_lexical_index_witness:
  "\<exists>r w'. synchronize_embeddings unit_sync (Some no_answer) unit_config unit_world = (r, w')
    \<and> lexical_part (wd_db w') = lexical_part note_db \<and> embeddings_ok (wd_db w')"
proof -
  obtain r w' where run: "synchronize_embeddings unit_sync (Some no_answer) unit_config unit_world = (r, w')" by fastforce
  from sync_keeps_lexical_index [OF _ run] unit_db_ok run show ?thesis by simp
qed

end
