(* ===== verification/Snapshot_Payload.thy ===== *)
theory Snapshot_Payload
  imports Snapshots
begin

text \<open>
  The content of a snapshot (\<open>snapshot.rs\<close>): the manifest, the payload database built from the index, and the
  checks an import makes on both. A payload read from a file is seen through the answers SQLite gives to the
  code's queries (\<open>payload_view\<close>); \<open>view_of\<close> are the answers for a payload with the tables of \<open>build_payload\<close>.
\<close>

definition SNAPSHOT_FORMAT_VERSION :: nat where "SNAPSHOT_FORMAT_VERSION = 1"
definition MAX_SNAPSHOT_BYTES :: nat where "MAX_SNAPSHOT_BYTES = 64 * 1024 * 1024"

subsection \<open>The manifest\<close>

record schema_compatibility =
  cs_min :: int
  cs_max :: int

record root_descriptor =
  rd_snapshot_root_id :: ustring
  rd_display_name :: ustring
  rd_source_count :: int
  rd_segment_count :: int

record snapshot_counts =
  sn_sources :: int
  sn_revisions :: int
  sn_segments :: int
  sn_fts_rows :: int

record manifest =
  mf_snapshot_format_version :: nat
  mf_omnisem_version :: ustring
  mf_schema_compatibility :: schema_compatibility
  mf_created_at_ms :: int
  mf_payload_checksum :: ustring
  mf_roots :: "root_descriptor list"
  mf_counts :: snapshot_counts
  mf_embedding_spaces :: "ustring list"
  mf_capabilities :: "ustring list"
  mf_warning :: ustring

subsection \<open>Building a payload\<close>

definition empty_payload :: payload where
  "empty_payload = \<lparr>pd_roots = [], pd_source_files = [], pd_revisions = [], pd_segments = [], pd_segments_fts = []\<rparr>"

definition insert_payload_root :: "payload_root \<Rightarrow> payload \<Rightarrow> storage_error + payload" where
  "insert_payload_root r p =
     (if pr_id r \<in> set (map pr_id (pd_roots p)) then Inl (unique_violation ''roots.id'')
      else Inr (p\<lparr>pd_roots := pd_roots p @ [r]\<rparr>))"

definition insert_payload_source :: "payload_source \<Rightarrow> payload \<Rightarrow> storage_error + payload" where
  "insert_payload_source s p =
     (if ps_id s \<in> set (map ps_id (pd_source_files p)) then Inl (unique_violation ''source_files.id'')
      else Inr (p\<lparr>pd_source_files := pd_source_files p @ [s]\<rparr>))"

definition insert_payload_revision :: "payload_revision \<Rightarrow> payload \<Rightarrow> storage_error + payload" where
  "insert_payload_revision r p =
     (if pv_id r \<in> set (map pv_id (pd_revisions p)) then Inl (unique_violation ''revisions.id'')
      else Inr (p\<lparr>pd_revisions := pd_revisions p @ [r]\<rparr>))"

definition insert_payload_segment :: "payload_segment \<times> payload_fts \<Rightarrow> payload \<Rightarrow> storage_error + payload" where
  "insert_payload_segment sf p = (case sf of (s, f) \<Rightarrow>
     if pg_id s \<in> set (map pg_id (pd_segments p)) then Inl (unique_violation ''segments.id'')
     else Inr (p\<lparr>pd_segments := pd_segments p @ [s], pd_segments_fts := pd_segments_fts p @ [f]\<rparr>))"

fun insert_rows :: "('r \<Rightarrow> payload \<Rightarrow> storage_error + payload) \<Rightarrow> 'r list \<Rightarrow> payload \<Rightarrow> storage_error + payload" where
  "insert_rows f [] p = Inr p"
| "insert_rows f (r # rs) p = try_bind (f r p) (insert_rows f rs)"

text \<open>The queries on the index, one root at a time.\<close>

definition exported_roots :: "db \<Rightarrow> uuid option \<Rightarrow> root list" where
  "exported_roots db only = filter (\<lambda>r. rt_enabled r \<and> (case only of None \<Rightarrow> True | Some i \<Rightarrow> rt_id r = i)) (db_roots db)"

definition exported_sources :: "db \<Rightarrow> uuid \<Rightarrow> source_file list" where
  "exported_sources db root_id = filter (\<lambda>s. sf_root_id s = root_id \<and> sf_state s = Active) (db_source_files db)"

definition exported_revisions :: "db \<Rightarrow> uuid \<Rightarrow> revision list" where
  "exported_revisions db root_id = [r. r \<leftarrow> db_revisions db, s \<leftarrow> exported_sources db root_id,
     sf_current_revision_id s = Some (rv_id r)]"

definition exported_segments :: "db \<Rightarrow> uuid \<Rightarrow> (segment \<times> source_file) list" where
  "exported_segments db root_id = [(g, s). g \<leftarrow> db_segments db, r \<leftarrow> db_revisions db, rv_id r = sg_revision_id g,
     s \<leftarrow> exported_sources db root_id, sf_current_revision_id s = Some (rv_id r)]"

definition payload_source_of :: "(uuid \<Rightarrow> ustring) \<Rightarrow> source_file \<Rightarrow> payload_source" where
  "payload_source_of ids s = \<lparr>ps_id = ids (sf_id s), ps_root_id = ids (sf_root_id s),
     ps_relative_path = sf_relative_path s, ps_file_type = file_type_as_str (sf_file_type s),
     ps_current_revision_id = map_option ids (sf_current_revision_id s), ps_state = source_state_as_str (sf_state s)\<rparr>"

definition payload_revision_of :: "(uuid \<Rightarrow> ustring) \<Rightarrow> revision \<Rightarrow> payload_revision" where
  "payload_revision_of ids r = \<lparr>pv_id = ids (rv_id r), pv_source_file_id = ids (rv_source_file_id r),
     pv_content_hash = rv_content_hash r, pv_parser_id = rv_parser_id r, pv_parser_version = rv_parser_version r,
     pv_status = revision_status_as_str (rv_status r)\<rparr>"

definition payload_segment_of :: "(uuid \<Rightarrow> ustring) \<Rightarrow> segment \<times> source_file \<Rightarrow> payload_segment \<times> payload_fts" where
  "payload_segment_of ids gs = (case gs of (g, s) \<Rightarrow>
     (\<lparr>pg_id = ids (sg_id g), pg_revision_id = ids (sg_revision_id g),
       pg_segment_type = segment_type_as_str (sg_segment_type g), pg_anchor = sg_anchor g,
       pg_ordinal = int (sg_ordinal g), pg_text = sg_text g, pg_text_hash = sg_text_hash g\<rparr>,
      \<lparr>pf_text = sg_text g, pf_segment_id = ids (sg_id g), pf_revision_id = ids (sg_revision_id g),
       pf_source_file_id = ids (sf_id s), pf_root_id = ids (sf_root_id s),
       pf_relative_path = sf_relative_path s, pf_anchor = sg_anchor g\<rparr>))"

definition export_root :: "(uuid \<Rightarrow> ustring) \<Rightarrow> db \<Rightarrow> uuid \<Rightarrow> payload \<Rightarrow> storage_error + payload" where
  "export_root ids db root_id p =
     try_bind (insert_rows insert_payload_source (map (payload_source_of ids) (exported_sources db root_id)) p) (\<lambda>p.
     try_bind (insert_rows insert_payload_revision (map (payload_revision_of ids) (exported_revisions db root_id)) p)
       (insert_rows insert_payload_segment (map (payload_segment_of ids) (exported_segments db root_id))))"

definition build_payload :: "(uuid \<Rightarrow> ustring) \<Rightarrow> db \<Rightarrow> uuid option \<Rightarrow> storage_error + payload" where
  "build_payload ids db only =
     (let roots = exported_roots db only in
      try_bind (insert_rows insert_payload_root
         (map (\<lambda>r. \<lparr>pr_id = ids (rt_id r), pr_display_name = rt_display_name r\<rparr>) roots) empty_payload)
        (insert_rows (export_root ids db) (map rt_id roots)))"

definition list_payload_roots :: "payload \<Rightarrow> root_descriptor list" where
  "list_payload_roots p = map (\<lambda>r. \<lparr>rd_snapshot_root_id = pr_id r, rd_display_name = pr_display_name r,
     rd_source_count = int (length (filter (\<lambda>s. ps_root_id s = pr_id r) (pd_source_files p))),
     rd_segment_count = int (length (filter (\<lambda>f. pf_root_id f = pr_id r) (pd_segments_fts p)))\<rparr>) (pd_roots p)"

definition count_payload :: "payload \<Rightarrow> snapshot_counts" where
  "count_payload p = \<lparr>sn_sources = int (length (pd_source_files p)), sn_revisions = int (length (pd_revisions p)),
     sn_segments = int (length (pd_segments p)), sn_fts_rows = int (length (pd_segments_fts p))\<rparr>"

subsection \<open>What an import checks\<close>

fun validate_descriptors :: "path \<Rightarrow> ustring list \<Rightarrow> root_descriptor list \<Rightarrow> config_error + unit" where
  "validate_descriptors dir seen [] = Inr ()"
| "validate_descriptors dir seen (r # rs) =
     (if rd_snapshot_root_id r = [] then Inl (ConfigInvalid dir (lit ''snapshot root id must be nonempty''))
      else if rd_snapshot_root_id r \<in> set seen
      then Inl (ConfigInvalid dir (lit ''duplicate snapshot root id '' @ rd_snapshot_root_id r))
      else if rd_source_count r < 0 \<or> rd_segment_count r < 0
      then Inl (ConfigInvalid dir (lit ''root counts must be nonnegative''))
      else validate_descriptors dir (rd_snapshot_root_id r # seen) rs)"

definition SNAPSHOT_CAPABILITIES :: "ustring list" where
  "SNAPSHOT_CAPABILITIES = map lit [''lexical_fts5'', ''read_only_retrieval'', ''markdown'', ''plain_text'']"

definition validate_manifest_compatibility :: "manifest \<Rightarrow> path \<Rightarrow> config_error + unit" where
  "validate_manifest_compatibility m dir =
     (let c = mf_schema_compatibility m; counts = mf_counts m in
      if mf_snapshot_format_version m \<noteq> SNAPSHOT_FORMAT_VERSION
      then Inl (ConfigInvalid dir (lit ''unsupported snapshot format '' @ show_nat (mf_snapshot_format_version m)))
      else if cs_min c < 0 \<or> cs_max c < 0 \<or> cs_min c > cs_max c
      then Inl (ConfigInvalid dir (lit ''contradictory schema compatibility range''))
      else if cs_min c > 4 \<or> cs_max c < 2
      then Inl (ConfigInvalid dir (lit ''snapshot schema range is not supported by this installation''))
      else if mf_embedding_spaces m \<noteq> []
      then Inl (ConfigInvalid dir (lit ''snapshot declares unknown embedding spaces''))
      else case find (\<lambda>c. c \<notin> set SNAPSHOT_CAPABILITIES) (mf_capabilities m) of
          Some capability \<Rightarrow> Inl (ConfigInvalid dir (lit ''unsupported snapshot capability: '' @ capability))
        | None \<Rightarrow>
      try_bind (validate_descriptors dir [] (mf_roots m)) (\<lambda>_.
        if sn_sources counts < 0 \<or> sn_revisions counts < 0 \<or> sn_segments counts < 0 \<or> sn_fts_rows counts < 0
           \<or> sn_segments counts > 1000000 \<or> sn_fts_rows counts > 1000000
        then Inl (ConfigInvalid dir (lit ''manifest counts out of supported range''))
        else Inr ()))"

text \<open>SQLite's answers on a payload file; \<open>None\<close> and \<open>Inl\<close> are failing queries.\<close>

record payload_view =
  pw_integrity :: "ustring option"
  pw_has_table :: "ustring \<Rightarrow> bool"
  pw_count :: "ustring \<Rightarrow> int option"
  pw_broken_sources :: "int option"
  pw_orphan_segments :: "int option"
  pw_orphan_fts :: "int option"
  pw_source_rows :: "ustring + (ustring + ustring \<times> path \<times> ustring) list"

definition PAYLOAD_TABLES :: "ustring list" where
  "PAYLOAD_TABLES = map lit [''roots'', ''source_files'', ''revisions'', ''segments'', ''segments_fts'']"

definition payload_count :: "payload \<Rightarrow> ustring \<Rightarrow> int option" where
  "payload_count p t =
     (if t = lit ''roots'' then Some (int (length (pd_roots p)))
      else if t = lit ''source_files'' then Some (int (length (pd_source_files p)))
      else if t = lit ''revisions'' then Some (int (length (pd_revisions p)))
      else if t = lit ''segments'' then Some (int (length (pd_segments p)))
      else if t = lit ''segments_fts'' then Some (int (length (pd_segments_fts p)))
      else None)"

definition view_of :: "payload \<Rightarrow> payload_view" where
  "view_of p =
     (let revisions = set (map pv_id (pd_revisions p)); segments = set (map pg_id (pd_segments p)) in
      \<lparr>pw_integrity = Some (lit ''ok''), pw_has_table = (\<lambda>t. t \<in> set PAYLOAD_TABLES), pw_count = payload_count p,
       pw_broken_sources = Some (int (length (filter (\<lambda>s. ps_state s = lit ''active''
         \<and> (case ps_current_revision_id s of None \<Rightarrow> True | Some r \<Rightarrow> r \<notin> revisions)) (pd_source_files p)))),
       pw_orphan_segments = Some (int (length (filter (\<lambda>g. pg_revision_id g \<notin> revisions) (pd_segments p)))),
       pw_orphan_fts = Some (int (length (filter (\<lambda>f. pf_segment_id f \<notin> segments) (pd_segments_fts p)))),
       pw_source_rows = Inr (map (\<lambda>s. Inr (ps_root_id s, ps_relative_path s, ps_file_type s)) (pd_source_files p))\<rparr>)"

definition unwrap_or :: "'a \<Rightarrow> 'a option \<Rightarrow> 'a" where
  "unwrap_or d x = (case x of None \<Rightarrow> d | Some a \<Rightarrow> a)"

lemma unwrap_or_simps [simp]: "unwrap_or d None = d" "unwrap_or d (Some a) = a"
  by (simp_all add: unwrap_or_def)

definition unsafe_relative :: "path \<Rightarrow> bool" where
  "unsafe_relative p \<longleftrightarrow> is_absolute p \<or> p = [] \<or> (\<exists>c \<in> set (components p). is_parent_or_root c)"

fun validate_source_rows ::
    "path \<Rightarrow> ustring set \<Rightarrow> (ustring + ustring \<times> path \<times> ustring) list \<Rightarrow> config_error + unit" where
  "validate_source_rows p declared [] = Inr ()"
| "validate_source_rows p declared (Inl m # rows) = Inl (ConfigIo p m)"
| "validate_source_rows p declared (Inr (root_id, relative, file_type) # rows) =
     (if root_id \<notin> declared
      then Inl (ConfigInvalid p (lit ''payload root id undeclared in manifest: '' @ root_id))
      else if unsafe_relative relative
      then Inl (ConfigInvalid p (lit ''unsafe relative path in payload: '' @ relative))
      else if file_type \<notin> {lit ''markdown'', lit ''plain_text''}
      then Inl (ConfigInvalid p (lit ''unknown file type in payload: '' @ file_type))
      else validate_source_rows p declared rows)"

definition validate_payload_database ::
    "(path \<Rightarrow> ustring + payload_view) \<Rightarrow> path \<Rightarrow> manifest \<Rightarrow> config_error + unit" where
  "validate_payload_database opens p m =
     try_bind (open_snapshot_readonly opens p) (\<lambda>v.
     let counts = mf_counts m; rows = (\<lambda>t. unwrap_or (-1) (pw_count v (lit t))) in
     if unwrap_or (lit ''failed'') (pw_integrity v) \<noteq> lit ''ok''
     then Inl (ConfigInvalid p (lit ''payload integrity_check failed''))
     else case find (\<lambda>t. \<not> pw_has_table v t) PAYLOAD_TABLES of
         Some t \<Rightarrow> Inl (ConfigInvalid p (lit ''payload missing required table '' @ t))
       | None \<Rightarrow>
     if rows ''segments'' \<noteq> sn_segments counts \<or> rows ''segments_fts'' \<noteq> sn_fts_rows counts
        \<or> rows ''source_files'' \<noteq> sn_sources counts \<or> rows ''revisions'' \<noteq> sn_revisions counts
     then Inl (ConfigInvalid p (lit ''manifest counts do not match payload''))
     else if unwrap_or 1 (pw_broken_sources v) > 0
     then Inl (ConfigInvalid p (lit ''payload has active sources without valid revisions''))
     else if unwrap_or 1 (pw_orphan_segments v) > 0
     then Inl (ConfigInvalid p (lit ''payload has segments without revisions''))
     else if unwrap_or 1 (pw_orphan_fts v) > 0
     then Inl (ConfigInvalid p (lit ''payload FTS rows do not match segments''))
     else case pw_source_rows v of
         Inl e \<Rightarrow> Inl (ConfigIo p e)
       | Inr rows \<Rightarrow> validate_source_rows p (set (map rd_snapshot_root_id (mf_roots m))) rows)"

end
