(* ===== verification/Snapshot_Files.thy ===== *)
theory Snapshot_Files
  imports Snapshot_Payload Parsing
begin

text \<open>
  The file operations of \<open>snapshot.rs\<close>. A depot is the index database with a tree of files; every operation
  on files takes a tick, at which the environment may make it fail. Paths are looked up by their components,
  so that different spellings of a path name one file. Operations are functions on the depot that return a
  result and the depot left behind.
\<close>

datatype node = FileNode bytes | DirNode | OtherNode | LinkNode "node option"

type_synonym tree = "(component list \<times> node) list"

fun resolved :: "node \<Rightarrow> node option" where
  "resolved (LinkNode target) = (case target of None \<Rightarrow> None | Some n \<Rightarrow> resolved n)"
| "resolved n = Some n"

record depot =
  dp_db :: db
  dp_tree :: tree
  dp_tick :: nat

record snapshot_env =
  sv_io_error :: "nat \<Rightarrow> ustring option" \<comment> \<open>the failure of the file operation of this tick\<close>
  sv_id_text :: "uuid \<Rightarrow> ustring"
  sv_parse_id :: "ustring \<Rightarrow> uuid option"
  sv_new_id :: "nat \<Rightarrow> ustring" \<comment> \<open>a fresh identifier, as text\<close>
  sv_clock :: "nat \<Rightarrow> int"
  sv_blake3 :: "bytes \<Rightarrow> ustring"
  sv_version :: ustring \<comment> \<open>\<open>CARGO_PKG_VERSION\<close>\<close>
  sv_write_payload :: "payload \<Rightarrow> bytes" \<comment> \<open>SQLite's file of these tables\<close>
  sv_partial_payload :: bytes \<comment> \<open>the file before the tables are complete\<close>
  sv_create_tables :: "bytes \<Rightarrow> ustring option" \<comment> \<open>the error of creating the tables in an existing file\<close>
  sv_read_payload :: "bytes \<Rightarrow> payload_view"
  sv_uri_path :: "path \<Rightarrow> path" \<comment> \<open>the file SQLite opens for a \<open>file:\<close> URI with this text\<close>
  sv_pretty_json :: "manifest \<Rightarrow> ustring + ustring"
  sv_json :: "manifest \<Rightarrow> ustring + ustring"
  sv_parse_json :: "ustring \<Rightarrow> ustring + manifest"
  sv_json_segments :: "ustring \<Rightarrow> int option option" \<comment> \<open>\<open>json_extract(.., $.counts.segments)\<close>; \<open>None\<close> on malformed text\<close>
  sv_main_path :: path \<comment> \<open>\<open>PRAGMA database_list\<close>\<close>
  sv_sql_text :: "sql_error \<Rightarrow> ustring"

type_synonym 'a dx = "depot \<Rightarrow> (config_error + 'a) \<times> depot"

definition dret :: "'a \<Rightarrow> 'a dx" where "dret a d = (Inr a, d)"
definition dfail :: "config_error \<Rightarrow> 'a dx" where "dfail e d = (Inl e, d)"

definition dthen :: "'a dx \<Rightarrow> ('a \<Rightarrow> 'b dx) \<Rightarrow> 'b dx" where
  "dthen m f d = (case m d of (Inl e, d') \<Rightarrow> (Inl e, d') | (Inr a, d') \<Rightarrow> f a d')"

text \<open>\<open>let _ = ..\<close> drops the outcome; \<open>dcatch\<close> runs a clean-up and passes the error on.\<close>

definition ignoring :: "'a dx \<Rightarrow> unit dx" where
  "ignoring m d = (Inr (), snd (m d))"

definition dcatch :: "'a dx \<Rightarrow> unit dx \<Rightarrow> 'a dx" where
  "dcatch m cleanup d = (case m d of (Inl e, d') \<Rightarrow> (Inl e, snd (cleanup d')) | r \<Rightarrow> r)"

definition dlift :: "config_error + 'a \<Rightarrow> 'a dx" where
  "dlift r d = (r, d)"

definition dread :: "(depot \<Rightarrow> 'a) \<Rightarrow> 'a dx" where
  "dread f d = (Inr (f d), d)"

definition dtick :: "nat dx" where
  "dtick d = (Inr (dp_tick d), d\<lparr>dp_tick := Suc (dp_tick d)\<rparr>)"

definition ddb :: "path \<Rightarrow> (sql_error \<Rightarrow> ustring) \<Rightarrow> (db \<Rightarrow> sql_error + db) \<Rightarrow> unit dx" where
  "ddb p sql_text f d = (case f (dp_db d) of
     Inl e \<Rightarrow> (Inl (ConfigIo p (sql_text e)), d) | Inr db \<Rightarrow> (Inr (), d\<lparr>dp_db := db\<rparr>))"

subsection \<open>The tree\<close>

definition node_at :: "tree \<Rightarrow> path \<Rightarrow> node option" where
  "node_at t p = map_of t (components p)"

definition opened :: "tree \<Rightarrow> path \<Rightarrow> node option" where
  "opened t p = Option.bind (node_at t p) resolved"

definition tree_exists :: "tree \<Rightarrow> path \<Rightarrow> bool" where
  "tree_exists t p \<longleftrightarrow> opened t p \<noteq> None"

definition tree_is_file :: "tree \<Rightarrow> path \<Rightarrow> bool" where
  "tree_is_file t p = (case opened t p of Some (FileNode _) \<Rightarrow> True | _ \<Rightarrow> False)"

definition without :: "component list \<Rightarrow> tree \<Rightarrow> tree" where
  "without k t = filter (\<lambda>(q, _). \<not> prefix k q) t"

definition put_node :: "component list \<Rightarrow> node \<Rightarrow> tree \<Rightarrow> tree" where
  "put_node k n t = (k, n) # filter (\<lambda>(q, _). q \<noteq> k) t"

definition dir_entries :: "tree \<Rightarrow> path \<Rightarrow> (ustring \<times> node) list" where
  "dir_entries t p = [(as_os_str (last q), n). (q, n) \<leftarrow> t, q \<noteq> [] \<and> butlast q = components p]"

definition has_parent :: "tree \<Rightarrow> path \<Rightarrow> bool" where
  "has_parent t p \<longleftrightarrow> length (components p) \<le> 1 \<or> map_of t (butlast (components p)) = Some DirNode"

text \<open>Every file operation: the failure of its tick, or its outcome.\<close>

definition file_op :: "snapshot_env \<Rightarrow> path \<Rightarrow> (tree \<Rightarrow> ustring + tree \<times> 'a) \<Rightarrow> 'a dx" where
  "file_op env p f d =
     (let d' = d\<lparr>dp_tick := Suc (dp_tick d)\<rparr> in
      case sv_io_error env (dp_tick d) of
        Some m \<Rightarrow> (Inl (ConfigIo p m), d')
      | None \<Rightarrow> (case f (dp_tree d) of
            Inl m \<Rightarrow> (Inl (ConfigIo p m), d')
          | Inr (t, a) \<Rightarrow> (Inr a, d'\<lparr>dp_tree := t\<rparr>)))"

text \<open>An operation on a path that changes nothing.\<close>

definition probe :: "snapshot_env \<Rightarrow> path \<Rightarrow> unit dx" where
  "probe env p = file_op env p (\<lambda>t. Inr (t, ()))"

definition NOT_FOUND :: ustring where "NOT_FOUND = lit ''No such file or directory''"
definition NOT_A_FILE :: ustring where "NOT_A_FILE = lit ''Is a directory''"
definition FILE_EXISTS :: ustring where "FILE_EXISTS = lit ''File exists''"

fun make_dirs :: "component list \<Rightarrow> component list \<Rightarrow> tree \<Rightarrow> ustring + tree" where
  "make_dirs k [] t = Inr t"
| "make_dirs k (c # cs) t =
     (let k = k @ [c] in
      case Option.bind (map_of t k) resolved of
        Some DirNode \<Rightarrow> make_dirs k cs t
      | Some _ \<Rightarrow> Inl FILE_EXISTS
      | None \<Rightarrow> if map_of t k = None then make_dirs k cs (put_node k DirNode t) else Inl FILE_EXISTS)"

definition create_dir_all :: "snapshot_env \<Rightarrow> path \<Rightarrow> unit dx" where
  "create_dir_all env p = file_op env p (\<lambda>t. map_sum id (\<lambda>t. (t, ())) (make_dirs [] (components p) t))"

definition remove_dir_all :: "snapshot_env \<Rightarrow> path \<Rightarrow> unit dx" where
  "remove_dir_all env p = file_op env p (\<lambda>t.
     if node_at t p = None then Inl NOT_FOUND else Inr (without (components p) t, ()))"

definition remove_file :: "snapshot_env \<Rightarrow> path \<Rightarrow> unit dx" where
  "remove_file env p = file_op env p (\<lambda>t.
     case node_at t p of
       None \<Rightarrow> Inl NOT_FOUND
     | Some DirNode \<Rightarrow> Inl NOT_A_FILE
     | Some _ \<Rightarrow> Inr (without (components p) t, ()))"

definition read_file :: "snapshot_env \<Rightarrow> path \<Rightarrow> bytes dx" where
  "read_file env p = file_op env p (\<lambda>t.
     case opened t p of Some (FileNode bs) \<Rightarrow> Inr (t, bs) | None \<Rightarrow> Inl NOT_FOUND | Some _ \<Rightarrow> Inl NOT_A_FILE)"

definition write_file :: "snapshot_env \<Rightarrow> path \<Rightarrow> bytes \<Rightarrow> unit dx" where
  "write_file env p bs = file_op env p (\<lambda>t.
     if \<not> has_parent t p then Inl NOT_FOUND
     else case opened t p of
         Some DirNode \<Rightarrow> Inl NOT_A_FILE
       | _ \<Rightarrow> Inr (put_node (components p) (FileNode bs) t, ()))"

definition copy_file :: "snapshot_env \<Rightarrow> path \<Rightarrow> path \<Rightarrow> unit dx" where
  "copy_file env a b = file_op env b (\<lambda>t.
     case opened t a of
       Some (FileNode bs) \<Rightarrow>
         if \<not> has_parent t b then Inl NOT_FOUND else Inr (put_node (components b) (FileNode bs) t, ())
     | _ \<Rightarrow> Inl NOT_FOUND)"

text \<open>\<open>fs::rename\<close> moves a file over a file, or a directory, with what is below it, to a free name.\<close>

definition move_below :: "component list \<Rightarrow> component list \<Rightarrow> tree \<Rightarrow> tree" where
  "move_below a b t = map (\<lambda>(q, n). (if prefix a q then b @ drop (length a) q else q, n)) t"

definition rename_node :: "snapshot_env \<Rightarrow> path \<Rightarrow> path \<Rightarrow> unit dx" where
  "rename_node env a b = file_op env b (\<lambda>t.
     let ka = components a; kb = components b in
     case node_at t a of
       None \<Rightarrow> Inl NOT_FOUND
     | Some n \<Rightarrow>
         if ka = kb then Inr (t, ())
         else if \<not> has_parent t b then Inl NOT_FOUND
         else case node_at t b of
             None \<Rightarrow> Inr (move_below ka kb t, ())
           | Some DirNode \<Rightarrow> Inl FILE_EXISTS
           | Some _ \<Rightarrow> if n = DirNode then Inl FILE_EXISTS else Inr (move_below ka kb (without kb t), ()))"

definition restrict :: "snapshot_env \<Rightarrow> path \<Rightarrow> unit dx" where
  "restrict env p = file_op env p (\<lambda>t. if tree_exists t p then Inr (t, ()) else Inl NOT_FOUND)"

text \<open>\<open>Path::with_extension\<close>.\<close>

definition with_extension :: "path \<Rightarrow> ustring \<Rightarrow> path" where
  "with_extension p ext =
     (case file_name p of
        None \<Rightarrow> p
      | Some f \<Rightarrow>
          (let stem = (case extension p of None \<Rightarrow> f | Some e \<Rightarrow> take (length f - length e - 1) f);
               name = stem @ [46] @ ext
           in case path_parent p of None \<Rightarrow> name | Some parent \<Rightarrow> path_join parent name))"

text \<open>The payload behind a path, as SQLite opens it.\<close>

definition open_payload :: "snapshot_env \<Rightarrow> tree \<Rightarrow> path \<Rightarrow> ustring + payload_view" where
  "open_payload env t p =
     (case opened t (sv_uri_path env p) of
        Some (FileNode bs) \<Rightarrow> Inr (sv_read_payload env bs)
      | _ \<Rightarrow> Inl (lit ''unable to open database file''))"

end
