(* ===== verification/Snapshot_Store.thy ===== *)
theory Snapshot_Store
  imports Snapshot_Files
begin

text \<open>
  Export, import, listing, inspection and removal of snapshots (\<open>snapshot.rs\<close>). The registry tables fail only
  through their constraints; the commit of a transaction may fail like any file operation.
\<close>

subsection \<open>Export\<close>

record export_report =
  xr_path :: path
  xr_payload_checksum :: ustring
  xr_roots :: nat
  xr_segments :: int

definition payload_file :: "path \<Rightarrow> path" where "payload_file dir = path_join dir (lit ''payload.sqlite3'')"
definition manifest_file :: "path \<Rightarrow> path" where "manifest_file dir = path_join dir (lit ''MANIFEST.json'')"

text \<open>\<open>Timestamp::now().map_or(0, Timestamp::as_millis)\<close>.\<close>

definition now_or_zero :: "snapshot_env \<Rightarrow> int dx" where
  "now_or_zero env = dthen dtick (\<lambda>n. dret (case try_from_system_time (sv_clock env n) of Inr t \<Rightarrow> t | Inl _ \<Rightarrow> 0))"

definition SNAPSHOT_WARNING :: ustring where
  "SNAPSHOT_WARNING = lit ''This snapshot contains derived indexed text and may include substantially all approved corpus content. Treat it as sensitive.''"

definition manifest_of :: "snapshot_env \<Rightarrow> int \<Rightarrow> ustring \<Rightarrow> root_descriptor list \<Rightarrow> snapshot_counts \<Rightarrow> manifest" where
  "manifest_of env created checksum roots counts =
     \<lparr>mf_snapshot_format_version = SNAPSHOT_FORMAT_VERSION, mf_omnisem_version = sv_version env,
      mf_schema_compatibility = \<lparr>cs_min = 2, cs_max = 4\<rparr>, mf_created_at_ms = created,
      mf_payload_checksum = checksum, mf_roots = roots, mf_counts = counts, mf_embedding_spaces = [],
      mf_capabilities = map lit [''lexical_fts5'', ''read_only_retrieval''], mf_warning = SNAPSHOT_WARNING\<rparr>"

text \<open>\<open>Connection::open\<close> and the creation of the tables: a left-over file may already have them.\<close>

definition create_payload :: "snapshot_env \<Rightarrow> path \<Rightarrow> unit dx" where
  "create_payload env p =
     dthen (dread (\<lambda>d. opened (dp_tree d) p)) (\<lambda>old.
       case old of
         Some (FileNode bs) \<Rightarrow>
           (case sv_create_tables env bs of Some e \<Rightarrow> dfail (ConfigIo p (lit ''database error: '' @ e)) | None \<Rightarrow> dret ())
       | _ \<Rightarrow> write_file env p (sv_partial_payload env))"

definition write_export :: "snapshot_env \<Rightarrow> path \<Rightarrow> path \<Rightarrow> uuid option \<Rightarrow> (manifest \<times> ustring) dx" where
  "write_export env destination temp only =
     (let payload_path = payload_file temp; manifest_path = manifest_file temp in
      dthen (create_payload env payload_path) (\<lambda>_.
      dthen (dread dp_db) (\<lambda>db.
      dthen (dlift (map_err (\<lambda>e. ConfigIo payload_path (storage_error_display (sv_sql_text env) e))
        (build_payload (sv_id_text env) db only))) (\<lambda>payload.
      dthen (write_file env payload_path (sv_write_payload env payload)) (\<lambda>_.
      dthen (read_file env payload_path) (\<lambda>bytes.
      if length bytes > MAX_SNAPSHOT_BYTES
      then dthen (ignoring (remove_dir_all env temp)) (\<lambda>_.
        dfail (ConfigInvalid destination (lit ''snapshot payload exceeds size limit'')))
      else
        let checksum = blake3_hex (sv_blake3 env) bytes in
        dthen (file_op env payload_path (\<lambda>t. Inr (t, list_payload_roots payload))) (\<lambda>roots.
        dthen (file_op env payload_path (\<lambda>t. Inr (t, count_payload payload))) (\<lambda>counts.
        dthen (now_or_zero env) (\<lambda>created.
        let manifest = manifest_of env created checksum roots counts in
        dthen (dlift (map_err (ConfigInvalid manifest_path) (sv_pretty_json env manifest))) (\<lambda>json.
        dthen (write_file env manifest_path (as_bytes json)) (\<lambda>_.
        dthen (restrict env payload_path) (\<lambda>_.
        dthen (restrict env manifest_path) (\<lambda>_.
          dret (manifest, checksum))))))))))))))"

definition export_snapshot :: "snapshot_env \<Rightarrow> path \<Rightarrow> uuid option \<Rightarrow> export_report dx" where
  "export_snapshot env destination only =
     dthen (dread (\<lambda>d. tree_exists (dp_tree d) destination)) (\<lambda>taken.
     if taken then dfail (ConfigInvalid destination (lit ''snapshot destination already exists''))
     else
       let temp = with_extension destination (lit ''tmp-export'') in
       dthen (dread (\<lambda>d. tree_exists (dp_tree d) temp)) (\<lambda>stale.
       dthen (if stale then ignoring (remove_dir_all env temp) else dret ()) (\<lambda>_.
       dthen (create_dir_all env temp) (\<lambda>_.
       dthen (write_export env destination temp only) (\<lambda>(manifest, checksum).
       dthen (rename_node env temp destination) (\<lambda>_.
       dthen (restrict env destination) (\<lambda>_.
         dret \<lparr>xr_path = destination, xr_payload_checksum = checksum, xr_roots = length (mf_roots manifest),
           xr_segments = sn_segments (mf_counts manifest)\<rparr>)))))))"

subsection \<open>Import\<close>

record import_report =
  ir_snapshot_id :: ustring
  ir_mapped_roots :: "ustring list"
  ir_segments :: int

definition validate_entry :: "path \<Rightarrow> ustring \<times> node \<Rightarrow> config_error + unit" where
  "validate_entry dir entry = (case entry of (name, n) \<Rightarrow>
     let p = path_join dir name in
     (case n of
        LinkNode _ \<Rightarrow> Inl (ConfigInvalid p (lit ''snapshot must not contain symlinks''))
      | _ \<Rightarrow>
          if name \<notin> {lit ''MANIFEST.json'', lit ''payload.sqlite3''}
          then Inl (ConfigInvalid p (lit ''unexpected snapshot entry '' @ name))
          else case n of
              FileNode _ \<Rightarrow> Inr ()
            | _ \<Rightarrow> Inl (ConfigInvalid p (lit ''snapshot entry must be a regular file''))))"

definition validate_size :: "path \<Rightarrow> ustring \<times> node \<Rightarrow> config_error + unit" where
  "validate_size dir entry =
     (case snd entry of
        FileNode bs \<Rightarrow> if length bs > MAX_SNAPSHOT_BYTES
          then Inl (ConfigInvalid (path_join dir (fst entry)) (lit ''snapshot entry exceeds size limit'')) else Inr ()
      | _ \<Rightarrow> Inr ())"

text \<open>The next entry of the directory, its type and its metadata may each fail to be read.\<close>

fun validate_entries :: "snapshot_env \<Rightarrow> path \<Rightarrow> nat \<Rightarrow> (ustring \<times> node) list \<Rightarrow> unit dx" where
  "validate_entries env dir seen [] = dret ()"
| "validate_entries env dir seen (e # es) =
     dthen (probe env dir) (\<lambda>_.
     if Suc seen > 8 then dfail (ConfigInvalid dir (lit ''snapshot contains too many entries''))
     else dthen (probe env (path_join dir (fst e))) (\<lambda>_.
          dthen (dlift (validate_entry dir e)) (\<lambda>_.
          dthen (probe env (path_join dir (fst e))) (\<lambda>_.
          dthen (dlift (validate_size dir e)) (\<lambda>_. validate_entries env dir (Suc seen) es)))))"

definition validate_snapshot_tree :: "snapshot_env \<Rightarrow> path \<Rightarrow> unit dx" where
  "validate_snapshot_tree env dir =
     dthen (file_op env dir (\<lambda>t. case node_at t dir of None \<Rightarrow> Inl NOT_FOUND | Some n \<Rightarrow> Inr (t, n))) (\<lambda>n.
     if n \<noteq> DirNode then dfail (NotDirectory dir)
     else dthen (file_op env dir (\<lambda>t. Inr (t, dir_entries t dir))) (\<lambda>entries.
          dthen (validate_entries env dir 0 entries) (\<lambda>_.
          dthen (dread dp_tree) (\<lambda>t.
          if \<not> tree_is_file t (manifest_file dir) \<or> \<not> tree_is_file t (payload_file dir)
          then dfail (ConfigInvalid dir (lit ''snapshot missing MANIFEST.json or payload.sqlite3''))
          else dret ()))))"

definition read_manifest :: "snapshot_env \<Rightarrow> path \<Rightarrow> manifest dx" where
  "read_manifest env dir =
     (let p = manifest_file dir in
      dthen (read_file env p) (\<lambda>bytes.
      dthen (dlift (ok_or (ConfigIo p (lit ''stream did not contain valid UTF-8'')) (from_utf8 bytes))) (\<lambda>text.
        dlift (map_err (ConfigInvalid p) (sv_parse_json env text)))))"

text \<open>The loop over the mappings, with the two sets it fills.\<close>

fun validate_maps ::
    "snapshot_env \<Rightarrow> path \<Rightarrow> manifest \<Rightarrow> db \<Rightarrow> ustring set \<Rightarrow> ustring set \<Rightarrow> (ustring \<times> ustring) list \<Rightarrow> config_error + unit" where
  "validate_maps env dir m db snaps locals [] = Inr ()"
| "validate_maps env dir m db snaps locals ((snap_root, local_root) # maps) =
     (if snap_root \<in> snaps
      then Inl (ConfigInvalid dir (lit ''duplicate mapping for snapshot root '' @ snap_root))
      else if local_root \<in> locals
      then Inl (ConfigInvalid dir (lit ''duplicate local root mapping '' @ local_root))
      else if snap_root \<notin> set (map rd_snapshot_root_id (mf_roots m))
      then Inl (ConfigInvalid dir (lit ''unknown snapshot root id '' @ snap_root))
      else try_bind (ok_or (RootNotFound local_root) (sv_parse_id env local_root)) (\<lambda>local_id.
        case find (\<lambda>r. rt_id r = local_id) (db_roots db) of
          None \<Rightarrow> Inl (RootNotFound local_root)
        | Some r \<Rightarrow>
            if \<not> rt_enabled r then Inl (ConfigInvalid dir (lit ''local root is disabled: '' @ local_root))
            else validate_maps env dir m db (insert snap_root snaps) (insert local_root locals) maps))"

definition check_import :: "snapshot_env \<Rightarrow> path \<Rightarrow> (ustring \<times> ustring) list \<Rightarrow> manifest dx" where
  "check_import env dir maps =
     dthen (validate_snapshot_tree env dir) (\<lambda>_.
     dthen (read_manifest env dir) (\<lambda>m.
     dthen (dlift (validate_manifest_compatibility m dir)) (\<lambda>_.
     dthen (read_file env (payload_file dir)) (\<lambda>bytes.
     if blake3_hex (sv_blake3 env) bytes \<noteq> mf_payload_checksum m
     then dfail (ConfigInvalid (payload_file dir) (lit ''payload checksum mismatch''))
     else if maps = []
     then dfail (ConfigInvalid dir (lit ''snapshot import requires explicit --map SNAPSHOT_ROOT=LOCAL_ROOT''))
     else if length maps \<noteq> length (mf_roots m)
     then dfail (ConfigInvalid dir (lit ''every snapshot root must be mapped exactly once''))
     else dthen (dread dp_db) (\<lambda>db.
          dthen (dlift (validate_maps env dir m db {} {} maps)) (\<lambda>_.
          dthen (dread dp_tree) (\<lambda>t.
          dthen (dlift (validate_payload_database (open_payload env t) (payload_file dir) m)) (\<lambda>_.
            dret m))))))))"

definition insert_snapshot :: "snapshot_row \<Rightarrow> db \<Rightarrow> sql_error + db" where
  "insert_snapshot r db =
     (if sr_id r \<in> set (map sr_id (db_snapshots db)) then Inl (UniqueViolation (lit ''snapshots.id''))
      else if sr_payload_path r \<in> set (map sr_payload_path (db_snapshots db))
      then Inl (UniqueViolation (lit ''snapshots.payload_path''))
      else Inr (db\<lparr>db_snapshots := db_snapshots db @ [r]\<rparr>))"

text \<open>The local root is stored as its text: only the canonical one is the key of a root.\<close>

fun insert_maps :: "snapshot_env \<Rightarrow> ustring \<Rightarrow> (ustring \<times> ustring) list \<Rightarrow> db \<Rightarrow> sql_error + db" where
  "insert_maps env snapshot_id [] db = Inr db"
| "insert_maps env snapshot_id ((snap_root, local_root) # maps) db =
     (if (snapshot_id, snap_root) \<in> set (map (\<lambda>m. (sm_snapshot_id m, sm_snapshot_root_id m)) (db_snapshot_root_maps db))
      then Inl (UniqueViolation (lit ''snapshot_root_maps''))
      else if snapshot_id \<notin> set (map sr_id (db_snapshots db))
      then Inl (ForeignKeyViolation (lit ''snapshot_root_maps.snapshot_id''))
      else case find (\<lambda>r. sv_id_text env (rt_id r) = local_root) (db_roots db) of
          None \<Rightarrow> Inl (ForeignKeyViolation (lit ''snapshot_root_maps.local_root_id''))
        | Some r \<Rightarrow> insert_maps env snapshot_id maps (db\<lparr>db_snapshot_root_maps := db_snapshot_root_maps db @
            [\<lparr>sm_snapshot_id = snapshot_id, sm_snapshot_root_id = snap_root, sm_local_root_id = rt_id r\<rparr>]\<rparr>))"

definition delete_maps :: "ustring \<Rightarrow> db \<Rightarrow> db" where
  "delete_maps snapshot_id db = db\<lparr>db_snapshot_root_maps :=
     delete_where (\<lambda>m. sm_snapshot_id m = snapshot_id) (db_snapshot_root_maps db)\<rparr>"

text \<open>The deletion of a snapshot cascades to its mappings.\<close>

definition delete_snapshot :: "ustring \<Rightarrow> db \<Rightarrow> db" where
  "delete_snapshot snapshot_id db = delete_maps snapshot_id
     (db\<lparr>db_snapshots := delete_where (\<lambda>s. sr_id s = snapshot_id) (db_snapshots db)\<rparr>)"

text \<open>An update without a prior check: \<open>payload_path\<close> is unique.\<close>

definition update_payload_path :: "ustring \<Rightarrow> path \<Rightarrow> db \<Rightarrow> db" where
  "update_payload_path snapshot_id p db =
     (if p \<in> set (map sr_payload_path (filter (\<lambda>s. sr_id s \<noteq> snapshot_id) (db_snapshots db))) then db
      else db\<lparr>db_snapshots := update_where (\<lambda>s. sr_id s = snapshot_id) (\<lambda>s. s\<lparr>sr_payload_path := p\<rparr>) (db_snapshots db)\<rparr>)"

definition managed_dir :: "snapshot_env \<Rightarrow> path" where
  "managed_dir env = path_join (case path_parent (sv_main_path env) of None \<Rightarrow> lit ''.'' | Some p \<Rightarrow> p) (lit ''snapshots'')"

definition set_db :: "db \<Rightarrow> unit dx" where "set_db db d = (Inr (), d\<lparr>dp_db := db\<rparr>)"

text \<open>The transaction: it leaves the database as it was unless it commits.\<close>

definition register_snapshot ::
    "snapshot_env \<Rightarrow> path \<Rightarrow> manifest \<Rightarrow> (ustring \<times> ustring) list \<Rightarrow> ustring \<Rightarrow> path \<Rightarrow> unit dx" where
  "register_snapshot env dir m maps snapshot_id temp_payload =
     dthen (dlift (map_err (ConfigInvalid dir) (sv_json env m))) (\<lambda>json.
     dthen (now_or_zero env) (\<lambda>imported.
     dthen (dread dp_db) (\<lambda>db.
     dthen (dcatch
         (dthen (dlift (map_err (\<lambda>e. ConfigIo dir (sv_sql_text env e))
            (try_bind (insert_snapshot \<lparr>sr_id = snapshot_id, sr_logical_name = lit ''imported'',
               sr_format_version = int SNAPSHOT_FORMAT_VERSION, sr_imported_at_ms = imported,
               sr_payload_path = temp_payload, sr_manifest_json = json, sr_checksum = mf_payload_checksum m\<rparr> db)
              (insert_maps env snapshot_id maps)))) (\<lambda>db.
          dthen (probe env dir) (\<lambda>_. set_db db)))
         (ignoring (remove_file env temp_payload))) (\<lambda>_. dret ()))))"

definition import_snapshot :: "snapshot_env \<Rightarrow> path \<Rightarrow> (ustring \<times> ustring) list \<Rightarrow> import_report dx" where
  "import_snapshot env dir maps =
     dthen (check_import env dir maps) (\<lambda>m.
     dthen dtick (\<lambda>n.
     let snapshot_id = sv_new_id env n; store_parent = managed_dir env;
         stored_payload = path_join store_parent (snapshot_id @ lit ''.sqlite3'');
         temp_payload = path_join store_parent (lit ''.'' @ snapshot_id @ lit ''.tmp'') in
     dthen (probe env dir) (\<lambda>_.
     dthen (create_dir_all env store_parent) (\<lambda>_.
     dthen (dcatch
         (dthen (copy_file env (payload_file dir) temp_payload) (\<lambda>_.
          dthen (restrict env temp_payload) (\<lambda>_.
          dthen (dread dp_tree) (\<lambda>t.
            dlift (validate_payload_database (open_payload env t) temp_payload m)))))
         (ignoring (remove_file env temp_payload))) (\<lambda>_.
     dthen (register_snapshot env dir m maps snapshot_id temp_payload) (\<lambda>_.
     dthen (dcatch (rename_node env temp_payload stored_payload)
         (dthen (dread dp_db) (\<lambda>db. dthen (set_db (delete_snapshot snapshot_id (delete_maps snapshot_id db))) (\<lambda>_.
           ignoring (remove_file env temp_payload))))) (\<lambda>_.
     dthen (dread dp_db) (\<lambda>db.
     dthen (set_db (update_payload_path snapshot_id stored_payload db)) (\<lambda>_.
       dret \<lparr>ir_snapshot_id = snapshot_id,
         ir_mapped_roots = map (\<lambda>(snap, local_root). snap @ lit ''->'' @ local_root) maps,
         ir_segments = sn_segments (mf_counts m)\<rparr>)))))))))"

fun parse_root_maps :: "ustring list \<Rightarrow> config_error + (ustring \<times> ustring) list" where
  "parse_root_maps [] = Inr []"
| "parse_root_maps (v # vs) =
     (if 61 \<notin> set v
      then Inl (ConfigInvalid (lit ''cli'') (lit ''invalid snapshot map '' @ [39] @ v @ [39]
        @ lit '', expected SNAPSHOT_ROOT=LOCAL_ROOT''))
      else let left = takeWhile (\<lambda>c. c \<noteq> 61) v; right = tl (dropWhile (\<lambda>c. c \<noteq> 61) v) in
        if left = [] \<or> right = []
        then Inl (ConfigInvalid (lit ''cli'') (lit ''invalid snapshot map '' @ [39] @ v @ [39]))
        else try_bind (parse_root_maps vs) (\<lambda>rest. Inr ((left, right) # rest)))"

end
