(* ===== verification/Snapshot_Registry.thy ===== *)
theory Snapshot_Registry
  imports Snapshot_Store
begin

text \<open>
  The registered snapshots (\<open>snapshot.rs\<close>): listing, inspection and removal, and what the registry tables owe
  to their keys and references.
\<close>

record snapshot_list_item =
  li_snapshot_id :: ustring
  li_logical_name :: ustring
  li_imported_at_ms :: int
  li_format_version :: int
  li_checksum :: ustring
  li_payload_healthy :: bool
  li_total_roots :: nat
  li_mapped_roots :: nat
  li_segment_count :: int
  li_queryable :: bool

definition unreadable_manifest :: "ustring \<Rightarrow> manifest" where
  "unreadable_manifest checksum = \<lparr>mf_snapshot_format_version = 0, mf_omnisem_version = [],
     mf_schema_compatibility = \<lparr>cs_min = 0, cs_max = 0\<rparr>, mf_created_at_ms = 0, mf_payload_checksum = checksum,
     mf_roots = [], mf_counts = \<lparr>sn_sources = 0, sn_revisions = 0, sn_segments = 0, sn_fts_rows = 0\<rparr>,
     mf_embedding_spaces = [], mf_capabilities = [], mf_warning = []\<rparr>"

definition maps_of :: "db \<Rightarrow> ustring \<Rightarrow> snapshot_root_map list" where
  "maps_of db snapshot_id = filter (\<lambda>m. sm_snapshot_id m = snapshot_id) (db_snapshot_root_maps db)"

definition list_item :: "snapshot_env \<Rightarrow> tree \<Rightarrow> db \<Rightarrow> snapshot_row \<Rightarrow> snapshot_list_item" where
  "list_item env t db s =
     (let m = (case sv_parse_json env (sr_manifest_json s) of Inr m \<Rightarrow> m | Inl _ \<Rightarrow> unreadable_manifest (sr_checksum s));
          mapped = length (maps_of db (sr_id s));
          healthy = tree_is_file t (sr_payload_path s);
          total = length (mf_roots m)
      in \<lparr>li_snapshot_id = sr_id s, li_logical_name = sr_logical_name s, li_imported_at_ms = sr_imported_at_ms s,
          li_format_version = sr_format_version s, li_checksum = sr_checksum s, li_payload_healthy = healthy,
          li_total_roots = total, li_mapped_roots = mapped, li_segment_count = sn_segments (mf_counts m),
          li_queryable = healthy \<and> mapped = total \<and> total > 0\<rparr>)"

definition list_snapshots :: "snapshot_env \<Rightarrow> tree \<Rightarrow> db \<Rightarrow> snapshot_list_item list" where
  "list_snapshots env t db = map (list_item env t db)
     (sort_by (\<lambda>a b. then_with (cmp (sr_imported_at_ms a) (sr_imported_at_ms b)) (cmp (sr_id a) (sr_id b))) (db_snapshots db))"

record snapshot_inspect =
  in_snapshot_id :: ustring
  in_logical_name :: ustring
  in_format_version :: int
  in_checksum :: ustring
  in_payload_healthy :: bool
  in_queryable :: bool
  in_roots :: "root_descriptor list"
  in_mappings :: "ustring list"
  in_counts :: snapshot_counts
  in_warning :: ustring

definition snapshot_not_found :: "ustring \<Rightarrow> config_error" where
  "snapshot_not_found i = ConfigInvalid (lit ''snapshot'') (lit ''snapshot not found: '' @ i)"

definition inspect_snapshot :: "snapshot_env \<Rightarrow> tree \<Rightarrow> db \<Rightarrow> ustring \<Rightarrow> config_error + snapshot_inspect" where
  "inspect_snapshot env t db i =
     try_bind (ok_or (snapshot_not_found i) (find (\<lambda>s. sr_id s = i) (db_snapshots db))) (\<lambda>s.
     try_bind (map_err (ConfigInvalid (lit ''snapshot'')) (sv_parse_json env (sr_manifest_json s))) (\<lambda>m.
       let maps = sort_by (\<lambda>a b. cmp (sm_snapshot_root_id a) (sm_snapshot_root_id b)) (maps_of db i);
           healthy = tree_is_file t (sr_payload_path s)
       in Inr \<lparr>in_snapshot_id = i, in_logical_name = sr_logical_name s, in_format_version = sr_format_version s,
            in_checksum = sr_checksum s, in_payload_healthy = healthy,
            in_queryable = healthy \<and> length maps = length (mf_roots m) \<and> mf_roots m \<noteq> [],
            in_roots = mf_roots m,
            in_mappings = map (\<lambda>m. sm_snapshot_root_id m @ lit ''='' @ sv_id_text env (sm_local_root_id m)) maps,
            in_counts = mf_counts m, in_warning = mf_warning m\<rparr>))"

text \<open>The error of the clean-up says that the registration is gone.\<close>

definition cleanup_payload :: "snapshot_env \<Rightarrow> path \<Rightarrow> unit dx" where
  "cleanup_payload env p d = (case remove_file env p d of
     (Inl (ConfigIo q m), d') \<Rightarrow> (Inl (ConfigIo q (lit ''registration removed but payload cleanup failed: '' @ m)), d')
   | r \<Rightarrow> r)"

definition remove_snapshot :: "snapshot_env \<Rightarrow> ustring \<Rightarrow> import_report dx" where
  "remove_snapshot env i =
     dthen (dread dp_db) (\<lambda>db.
     case find (\<lambda>s. sr_id s = i) (db_snapshots db) of
       None \<Rightarrow> dfail (snapshot_not_found i)
     | Some s \<Rightarrow>
         (case sv_json_segments env (sr_manifest_json s) of
            None \<Rightarrow> dfail (snapshot_not_found i)
          | Some segments \<Rightarrow>
              (let payload = sr_payload_path s in
               if \<not> path_starts_with payload (managed_dir env)
               then dfail (ConfigInvalid payload (lit ''refusing to delete payload outside managed snapshot directory''))
               else dthen (probe env (lit ''db'')) (\<lambda>_.
                    dthen (probe env (lit ''db'')) (\<lambda>_.
                    dthen (set_db (delete_snapshot i (delete_maps i db))) (\<lambda>_.
                    dthen (dread (\<lambda>d. tree_exists (dp_tree d) payload)) (\<lambda>present.
                    dthen (if present then cleanup_payload env payload else dret ()) (\<lambda>_.
                      dret \<lparr>ir_snapshot_id = i,
                        ir_mapped_roots = map (\<lambda>m. sm_snapshot_root_id m @ lit ''->'' @ sv_id_text env (sm_local_root_id m))
                          (maps_of db i),
                        ir_segments = unwrap_or 0 segments\<rparr>))))))))"

end
