(* ===== verification/Snapshot_Properties.thy ===== *)
theory Snapshot_Properties
  imports Snapshot_Registry Storage_Invariants
begin

text \<open>
  What snapshots promise: an export is a picture of the selected roots that an import accepts, an import
  registers everything or nothing, and the registry keeps its keys and references.
\<close>

subsection \<open>The exported tables\<close>

lemma distinct_concat_keys:
  "distinct is \<Longrightarrow> (\<And>i. i \<in> set is \<Longrightarrow> distinct (map k (F i))) \<Longrightarrow>
   (\<And>i j x y. i \<in> set is \<Longrightarrow> j \<in> set is \<Longrightarrow> x \<in> set (F i) \<Longrightarrow> y \<in> set (F j) \<Longrightarrow> k x = k y \<Longrightarrow> i = j) \<Longrightarrow>
   distinct (map k (concat (map F is)))"
proof (induction "is")
  case (Cons i "is")
  have "distinct (map k (concat (map F is)))"
    by (rule Cons.IH; use Cons.prems in simp; blast?)
  moreover have "k ` set (F i) \<inter> k ` (\<Union>j \<in> set is. set (F j)) = {}"
  proof -
    have "k x \<noteq> k y" if "x \<in> set (F i)" "j \<in> set is" "y \<in> set (F j)" for x y j
      using Cons.prems(3) [of i j x y] Cons.prems(1) that by auto
    then show ?thesis by fastforce
  qed
  ultimately show ?case using Cons.prems(2) by auto
qed simp

lemma distinct_concat_singles:
  assumes "distinct (map k' xs)" "\<And>x. x \<in> set xs \<Longrightarrow> length (f x) \<le> 1" "\<And>x y. x \<in> set xs \<Longrightarrow> y \<in> set (f x) \<Longrightarrow> k y = k' x"
  shows "distinct (map k (concat (map f xs)))"
proof (rule distinct_concat_keys)
  show "distinct xs" using assms(1) by (simp add: distinct_map)
  show "distinct (map k (f x))" if "x \<in> set xs" for x
    using assms(2) [OF that] by (cases "f x" rule: remdups_adj.cases) auto
  show "i = j" if "i \<in> set xs" "j \<in> set xs" "x \<in> set (f i)" "y \<in> set (f j)" "k x = k y" for i j x y
    using that assms(1,3) by (metis distinct_key)
qed

lemma length_filter_le_1:
  assumes "\<And>x y. x \<in> set xs \<Longrightarrow> y \<in> set xs \<Longrightarrow> P x \<Longrightarrow> P y \<Longrightarrow> x = y" and "distinct xs"
  shows "length (filter P xs) \<le> 1"
proof -
  have "length (filter P xs) = card (set (filter P xs))" using assms(2) by (simp add: distinct_card del: set_filter)
  also have "\<dots> \<le> Suc 0" using assms(1) by (subst card_le_Suc0_iff_eq) auto
  finally show ?thesis by simp
qed

text \<open>Rows with new keys are appended.\<close>

lemma insert_roots_Inr:
  "distinct (map pr_id (pd_roots p @ rs)) \<Longrightarrow> insert_rows insert_payload_root rs p = Inr (p\<lparr>pd_roots := pd_roots p @ rs\<rparr>)"
  by (induction rs arbitrary: p) (simp_all add: insert_payload_root_def)

lemma insert_sources_Inr:
  "distinct (map ps_id (pd_source_files p @ rs)) \<Longrightarrow>
     insert_rows insert_payload_source rs p = Inr (p\<lparr>pd_source_files := pd_source_files p @ rs\<rparr>)"
  by (induction rs arbitrary: p) (simp_all add: insert_payload_source_def)

lemma insert_revisions_Inr:
  "distinct (map pv_id (pd_revisions p @ rs)) \<Longrightarrow>
     insert_rows insert_payload_revision rs p = Inr (p\<lparr>pd_revisions := pd_revisions p @ rs\<rparr>)"
  by (induction rs arbitrary: p) (simp_all add: insert_payload_revision_def)

lemma insert_payload_segments_Inr:
  "distinct (map pg_id (pd_segments p @ map fst rs)) \<Longrightarrow>
     insert_rows insert_payload_segment rs p = Inr (p\<lparr>pd_segments := pd_segments p @ map fst rs,
       pd_segments_fts := pd_segments_fts p @ map snd rs\<rparr>)"
  by (induction rs arbitrary: p) (auto simp: insert_payload_segment_def split: prod.split)

definition source_rows :: "(uuid \<Rightarrow> ustring) \<Rightarrow> db \<Rightarrow> uuid list \<Rightarrow> payload_source list" where
  "source_rows ids db is = map (payload_source_of ids) (concat (map (exported_sources db) is))"

definition revision_rows :: "(uuid \<Rightarrow> ustring) \<Rightarrow> db \<Rightarrow> uuid list \<Rightarrow> payload_revision list" where
  "revision_rows ids db is = map (payload_revision_of ids) (concat (map (exported_revisions db) is))"

definition segment_rows :: "(uuid \<Rightarrow> ustring) \<Rightarrow> db \<Rightarrow> uuid list \<Rightarrow> (payload_segment \<times> payload_fts) list" where
  "segment_rows ids db is = map (payload_segment_of ids) (concat (map (exported_segments db) is))"

lemmas export_rows_defs = source_rows_def revision_rows_def segment_rows_def

lemma export_roots_Inr:
  assumes "distinct (map ps_id (pd_source_files p @ source_rows ids db is))"
    and "distinct (map pv_id (pd_revisions p @ revision_rows ids db is))"
    and "distinct (map pg_id (pd_segments p @ map fst (segment_rows ids db is)))"
  shows "insert_rows (export_root ids db) is p = Inr (p\<lparr>
     pd_source_files := pd_source_files p @ source_rows ids db is,
     pd_revisions := pd_revisions p @ revision_rows ids db is,
     pd_segments := pd_segments p @ map fst (segment_rows ids db is),
     pd_segments_fts := pd_segments_fts p @ map snd (segment_rows ids db is)\<rparr>)"
  using assms
proof (induction "is" arbitrary: p)
  case (Cons i "is")
  let ?s = "source_rows ids db [i]" and ?r = "revision_rows ids db [i]" and ?g = "segment_rows ids db [i]"
  let ?q = "p\<lparr>pd_source_files := pd_source_files p @ ?s, pd_revisions := pd_revisions p @ ?r,
     pd_segments := pd_segments p @ map fst ?g, pd_segments_fts := pd_segments_fts p @ map snd ?g\<rparr>"
  have split: "source_rows ids db (i # is) = ?s @ source_rows ids db is"
    "revision_rows ids db (i # is) = ?r @ revision_rows ids db is"
    "segment_rows ids db (i # is) = ?g @ segment_rows ids db is" by (simp_all add: export_rows_defs)
  have d: "distinct (map ps_id (pd_source_files p @ ?s))" "distinct (map pv_id (pd_revisions p @ ?r))"
    "distinct (map pg_id (pd_segments p @ map fst ?g))"
    using Cons.prems unfolding split by auto
  have "export_root ids db i p = Inr ?q"
    using d by (simp add: export_root_def export_rows_defs insert_sources_Inr insert_revisions_Inr insert_payload_segments_Inr del: map_map)
  moreover have "insert_rows (export_root ids db) is ?q = Inr (?q\<lparr>
     pd_source_files := pd_source_files ?q @ source_rows ids db is,
     pd_revisions := pd_revisions ?q @ revision_rows ids db is,
     pd_segments := pd_segments ?q @ map fst (segment_rows ids db is),
     pd_segments_fts := pd_segments_fts ?q @ map snd (segment_rows ids db is)\<rparr>)"
    by (rule Cons.IH) (use Cons.prems in \<open>simp_all add: split\<close>)
  ultimately show ?case by (simp add: split)
qed (simp add: export_rows_defs)

lemma concat_if_single: "concat (map (\<lambda>x. if P x then [f x] else []) xs) = map f (filter P xs)"
  by (induction xs) auto

lemma concat_key: "distinct (map f xs) \<Longrightarrow> x \<in> set xs \<Longrightarrow> concat (map (\<lambda>y. if f y = f x then F y else []) xs) = F x"
proof (induction xs)
  case (Cons y ys)
  show ?case
  proof (cases "y = x")
    case True
    with Cons.prems(1) have "\<forall>z \<in> set ys. f z \<noteq> f x" by (metis distinct.simps(2) image_eqI list.set_map list.simps(9))
    then have "concat (map (\<lambda>y. if f y = f x then F y else []) ys) = []" by auto
    with True show ?thesis by simp
  next
    case False
    with Cons show ?thesis by auto
  qed
qed simp

lemma exported_segments_eq:
  assumes "keys_ok db" "refs_ok db"
  shows "exported_segments db i = concat (map (\<lambda>g. map (Pair g)
     (filter (\<lambda>s. sf_current_revision_id s = Some (sg_revision_id g)) (exported_sources db i))) (db_segments db))"
proof -
  have "concat (map (\<lambda>r. if rv_id r = sg_revision_id g
        then concat (map (\<lambda>s. if sf_current_revision_id s = Some (rv_id r) then [(g, s)] else []) (exported_sources db i))
        else []) (db_revisions db))
      = map (Pair g) (filter (\<lambda>s. sf_current_revision_id s = Some (sg_revision_id g)) (exported_sources db i))"
    if "g \<in> set (db_segments db)" for g
  proof -
    from assms(2) that obtain r where r: "r \<in> set (db_revisions db)" "rv_id r = sg_revision_id g"
      by (force simp: refs_ok_def)
    have "concat (map (\<lambda>y. if rv_id y = rv_id r then F y else []) (db_revisions db)) = F r" for F :: "revision \<Rightarrow> (segment \<times> source_file) list"
      by (rule concat_key [OF keys_okD(5) [OF assms(1)] r(1)])
    then show ?thesis by (simp only: r(2) [symmetric]) (simp add: concat_if_single)
  qed
  then show ?thesis unfolding exported_segments_def by (intro arg_cong [of _ _ concat] map_cong refl) simp
qed

lemma exported_sources_iff:
  "s \<in> set (exported_sources db i) \<longleftrightarrow> s \<in> set (db_source_files db) \<and> sf_root_id s = i \<and> sf_state s = Active"
  by (auto simp: exported_sources_def)

lemma exported_source_set:
  "set (concat (map (exported_sources db) is)) = {s \<in> set (db_source_files db). sf_state s = Active \<and> sf_root_id s \<in> set is}"
  by (auto simp: exported_sources_iff)

lemma current_exported:
  assumes "keys_ok db" "current_ok db" "s \<in> set (exported_sources db i)" "s' \<in> set (exported_sources db j)"
    and "sf_current_revision_id s = Some r" "sf_current_revision_id s' = Some r"
  shows "s = s'" "i = j"
proof -
  show "s = s'" by (rule current_source_unique [OF assms(1,2)]) (use assms in \<open>auto simp: exported_sources_iff\<close>)
  with assms show "i = j" by (simp add: exported_sources_iff)
qed

lemma distinct_exported_sources: "keys_ok db \<Longrightarrow> distinct (exported_sources db i)"
  using keys_okD(3) by (auto simp: exported_sources_def distinct_map)

lemma current_filter_le_1:
  assumes "keys_ok db" "current_ok db"
  shows "length (filter (\<lambda>s. sf_current_revision_id s = Some r) (exported_sources db i)) \<le> 1"
  by (rule length_filter_le_1) (use assms current_exported distinct_exported_sources in blast)+

lemma exported_distinct:
  assumes "db_ok db" "distinct is"
  shows "distinct (map sf_id (concat (map (exported_sources db) is)))"
    and "distinct (map rv_id (concat (map (exported_revisions db) is)))"
    and "distinct (map (\<lambda>gs. sg_id (fst gs)) (concat (map (exported_segments db) is)))"
proof -
  have k: "keys_ok db" "refs_ok db" "current_ok db" using assms(1) by (simp_all add: db_ok_def)
  show "distinct (map sf_id (concat (map (exported_sources db) is)))"
  proof (rule distinct_concat_keys [OF assms(2)])
    show "distinct (map sf_id (exported_sources db i))" for i
      using keys_okD(3) [OF k(1)] by (simp add: exported_sources_def distinct_map_filter)
    show "i = j" if "s \<in> set (exported_sources db i)" "s' \<in> set (exported_sources db j)" "sf_id s = sf_id s'" for i j s s'
      using that source_eqI [OF k(1)] by (metis exported_sources_iff)
  qed
  show "distinct (map rv_id (concat (map (exported_revisions db) is)))"
  proof (rule distinct_concat_keys [OF assms(2)])
    show "distinct (map rv_id (exported_revisions db i))" for i
      unfolding exported_revisions_def concat_if_single
      by (rule distinct_concat_singles [OF keys_okD(5) [OF k(1)]]) (use current_filter_le_1 [OF k(1,3)] in auto)
    show "i = j" if "r \<in> set (exported_revisions db i)" "r' \<in> set (exported_revisions db j)" "rv_id r = rv_id r'" for i j r r'
      using that current_exported(2) [OF k(1,3)] by (auto simp: exported_revisions_def)
  qed
  show "distinct (map (\<lambda>gs. sg_id (fst gs)) (concat (map (exported_segments db) is)))"
  proof (rule distinct_concat_keys [OF assms(2)])
    show "distinct (map (\<lambda>gs. sg_id (fst gs)) (exported_segments db i))" for i
      unfolding exported_segments_eq [OF k(1,2)]
      by (rule distinct_concat_singles [OF keys_okD(7) [OF k(1)]]) (use current_filter_le_1 [OF k(1,3)] in auto)
    show "i = j" if gs: "x \<in> set (exported_segments db i)" "y \<in> set (exported_segments db j)" "sg_id (fst x) = sg_id (fst y)" for i j x y
    proof -
      from gs(1,2) have "fst x \<in> set (db_segments db)" "fst y \<in> set (db_segments db)"
        by (auto simp: exported_segments_eq [OF k(1,2)])
      then have "fst x = fst y" using segment_eqI [OF k(1)] gs(3) by blast
      with gs(1,2) current_exported(2) [OF k(1,3)] show ?thesis
        by (auto simp: exported_segments_eq [OF k(1,2)])
    qed
  qed
qed

abbreviation exported_ids :: "db \<Rightarrow> uuid option \<Rightarrow> uuid list" where
  "exported_ids db only \<equiv> map rt_id (exported_roots db only)"

lemma distinct_map_inj: "inj ids \<Longrightarrow> distinct (map k xs) \<Longrightarrow> distinct (map (\<lambda>x. ids (k x)) xs)"
  by (auto simp: distinct_map inj_on_def)

lemma build_payload_Inr:
  assumes "db_ok db" "inj ids"
  shows "build_payload ids db only = Inr \<lparr>
     pd_roots = map (\<lambda>r. \<lparr>pr_id = ids (rt_id r), pr_display_name = rt_display_name r\<rparr>) (exported_roots db only),
     pd_source_files = source_rows ids db (exported_ids db only), pd_revisions = revision_rows ids db (exported_ids db only),
     pd_segments = map fst (segment_rows ids db (exported_ids db only)), pd_segments_fts = map snd (segment_rows ids db (exported_ids db only))\<rparr>"
proof -
  note inj = distinct_map_inj [OF assms(2)]
  have "distinct (map rt_id (db_roots db))" using assms(1) by (simp add: db_ok_def keys_ok_def)
  then have d: "distinct (exported_ids db only)" by (simp add: exported_roots_def distinct_map_filter)
  note ds = exported_distinct [OF assms(1) d]
  have "distinct (map (\<lambda>r. ids (rt_id r)) (exported_roots db only))" by (rule inj [OF d])
  then have roots: "insert_rows insert_payload_root
      (map (\<lambda>r. \<lparr>pr_id = ids (rt_id r), pr_display_name = rt_display_name r\<rparr>) (exported_roots db only)) empty_payload
    = Inr (empty_payload\<lparr>pd_roots := map (\<lambda>r. \<lparr>pr_id = ids (rt_id r), pr_display_name = rt_display_name r\<rparr>) (exported_roots db only)\<rparr>)"
    by (subst insert_roots_Inr) (simp_all add: empty_payload_def o_def)
  let ?p = "empty_payload\<lparr>pd_roots := map (\<lambda>r. \<lparr>pr_id = ids (rt_id r), pr_display_name = rt_display_name r\<rparr>) (exported_roots db only)\<rparr>"
  have "insert_rows (export_root ids db) (exported_ids db only) ?p = Inr (?p\<lparr>
     pd_source_files := pd_source_files ?p @ source_rows ids db (exported_ids db only),
     pd_revisions := pd_revisions ?p @ revision_rows ids db (exported_ids db only),
     pd_segments := pd_segments ?p @ map fst (segment_rows ids db (exported_ids db only)),
     pd_segments_fts := pd_segments_fts ?p @ map snd (segment_rows ids db (exported_ids db only))\<rparr>)"
  proof (rule export_roots_Inr)
    show "distinct (map ps_id (pd_source_files ?p @ source_rows ids db (exported_ids db only)))"
      using inj [OF ds(1)] by (simp add: empty_payload_def source_rows_def payload_source_of_def o_def)
    show "distinct (map pv_id (pd_revisions ?p @ revision_rows ids db (exported_ids db only)))"
      using inj [OF ds(2)] by (simp add: empty_payload_def revision_rows_def payload_revision_of_def o_def)
    show "distinct (map pg_id (pd_segments ?p @ map fst (segment_rows ids db (exported_ids db only))))"
      using inj [OF ds(3)] by (simp add: empty_payload_def segment_rows_def payload_segment_of_def o_def split_def)
  qed
  then show ?thesis unfolding build_payload_def Let_def roots try_bind_simps by (simp add: empty_payload_def)
qed

subsection \<open>An export is a picture of the index\<close>

definition payload_fts_of :: "(uuid \<Rightarrow> ustring) \<Rightarrow> fts_row \<Rightarrow> payload_fts" where
  "payload_fts_of ids f = \<lparr>pf_text = fr_text f, pf_segment_id = ids (fr_segment_id f), pf_revision_id = ids (fr_revision_id f),
     pf_source_file_id = ids (fr_source_file_id f), pf_root_id = ids (fr_root_id f),
     pf_relative_path = fr_relative_path f, pf_anchor = fr_anchor f\<rparr>"

lemma in_exported_segments:
  assumes "db_ok db"
  shows "(g, s) \<in> set (exported_segments db i) \<longleftrightarrow> g \<in> set (db_segments db) \<and> s \<in> set (db_source_files db)
    \<and> sf_root_id s = i \<and> sf_current_revision_id s = Some (sg_revision_id g)"
proof -
  have k: "keys_ok db" "refs_ok db" "current_ok db" using assms by (simp_all add: db_ok_def)
  show ?thesis unfolding exported_segments_eq [OF k(1,2)]
    using k(3) by (auto simp: exported_sources_iff current_ok_def)
qed

lemma in_exported_revisions:
  "r \<in> set (exported_revisions db i) \<longleftrightarrow> r \<in> set (db_revisions db) \<and> (\<exists>s \<in> set (exported_sources db i).
     sf_current_revision_id s = Some (rv_id r))"
  by (auto simp: exported_revisions_def)

text \<open>
  C30. An export is a picture of the selected roots: on a well-formed database it always succeeds, its
  full-text rows are exactly those of the index that belong to an enabled, selected root, each segment once,
  its source files are the active ones of those roots, and of a root it tells the identifier and the display
  name only, never the absolute path.
\<close>
theorem export_is_index_picture:
  assumes "db_ok db" "inj ids"
  shows "\<exists>p. build_payload ids db only = Inr p
    \<and> pd_roots p = map (\<lambda>r. \<lparr>pr_id = ids (rt_id r), pr_display_name = rt_display_name r\<rparr>) (exported_roots db only)
    \<and> set (pd_segments_fts p) = payload_fts_of ids ` {f \<in> set (db_segments_fts db). fr_root_id f \<in> set (exported_ids db only)}
    \<and> distinct (map pf_segment_id (pd_segments_fts p))
    \<and> set (pd_source_files p) = payload_source_of ids ` {s \<in> set (db_source_files db). sf_state s = Active
         \<and> sf_root_id s \<in> set (exported_ids db only)}"
proof (intro exI conjI)
  let ?is = "exported_ids db only"
  show "build_payload ids db only = Inr \<lparr>
     pd_roots = map (\<lambda>r. \<lparr>pr_id = ids (rt_id r), pr_display_name = rt_display_name r\<rparr>) (exported_roots db only),
     pd_source_files = source_rows ids db ?is, pd_revisions = revision_rows ids db ?is,
     pd_segments = map fst (segment_rows ids db ?is), pd_segments_fts = map snd (segment_rows ids db ?is)\<rparr>"
    by (rule build_payload_Inr [OF assms])
  have fts: "set (db_segments_fts db) = set (current_rows db)" using assms(1) by (simp add: db_ok_def fts_ok_def)
  have row: "snd (payload_segment_of ids (g, s)) = payload_fts_of ids (fts_row_of s g)" for g s
    by (simp add: payload_segment_of_def payload_fts_of_def fts_row_of_def)
  have "snd \<circ> payload_segment_of ids = payload_fts_of ids \<circ> (\<lambda>(g, s). fts_row_of s g)" by (auto simp: row fun_eq_iff)
  then have "set (map snd (segment_rows ids db ?is))
      = payload_fts_of ids ` (\<lambda>(g, s). fts_row_of s g) ` (\<Union>i \<in> set ?is. set (exported_segments db i))"
    by (simp add: segment_rows_def image_comp image_UN)
  also have "(\<lambda>(g, s). fts_row_of s g) ` (\<Union>i \<in> set ?is. set (exported_segments db i))
      = {f \<in> set (db_segments_fts db). fr_root_id f \<in> set ?is}" (is "?A = ?B")
  proof
    show "?A \<subseteq> ?B" unfolding fts by (auto simp: in_exported_segments [OF assms(1)] in_current_rows) blast
    show "?B \<subseteq> ?A"
    proof
      fix f assume f: "f \<in> ?B"
      then obtain s g where sg: "s \<in> set (db_source_files db)" "g \<in> set (db_segments db)"
        "sf_current_revision_id s = Some (sg_revision_id g)" "f = fts_row_of s g" by (auto simp: fts in_current_rows)
      with f have "(g, s) \<in> (\<Union>i \<in> set ?is. set (exported_segments db i))"
        by (auto simp: in_exported_segments [OF assms(1)])
      then show "f \<in> ?A" using sg(4) by force
    qed
  qed
  finally show "set (pd_segments_fts \<lparr>
     pd_roots = map (\<lambda>r. \<lparr>pr_id = ids (rt_id r), pr_display_name = rt_display_name r\<rparr>) (exported_roots db only),
     pd_source_files = source_rows ids db ?is, pd_revisions = revision_rows ids db ?is,
     pd_segments = map fst (segment_rows ids db ?is), pd_segments_fts = map snd (segment_rows ids db ?is)\<rparr>)
    = payload_fts_of ids ` {f \<in> set (db_segments_fts db). fr_root_id f \<in> set ?is}" by simp
  have d: "distinct ?is" using assms(1) by (simp add: db_ok_def keys_ok_def exported_roots_def distinct_map_filter)
  show "distinct (map pf_segment_id (pd_segments_fts \<lparr>
     pd_roots = map (\<lambda>r. \<lparr>pr_id = ids (rt_id r), pr_display_name = rt_display_name r\<rparr>) (exported_roots db only),
     pd_source_files = source_rows ids db ?is, pd_revisions = revision_rows ids db ?is,
     pd_segments = map fst (segment_rows ids db ?is), pd_segments_fts = map snd (segment_rows ids db ?is)\<rparr>))"
    using distinct_map_inj [OF assms(2) exported_distinct(3) [OF assms(1) d]]
    by (simp add: segment_rows_def payload_segment_of_def o_def split_def)
  show "set (pd_source_files \<lparr>
     pd_roots = map (\<lambda>r. \<lparr>pr_id = ids (rt_id r), pr_display_name = rt_display_name r\<rparr>) (exported_roots db only),
     pd_source_files = source_rows ids db ?is, pd_revisions = revision_rows ids db ?is,
     pd_segments = map fst (segment_rows ids db ?is), pd_segments_fts = map snd (segment_rows ids db ?is)\<rparr>)
    = payload_source_of ids ` {s \<in> set (db_source_files db). sf_state s = Active \<and> sf_root_id s \<in> set ?is}"
    by (simp only: payload.select_convs source_rows_def list.set_map [of "payload_source_of ids"] exported_source_set)
qed simp

subsection \<open>An import accepts an export\<close>

lemma validate_source_rows_ok:
  "validate_source_rows p declared (map Inr rows) = Inr () \<longleftrightarrow> (\<forall>(root_id, relative, file_type) \<in> set rows.
     root_id \<in> declared \<and> \<not> unsafe_relative relative \<and> file_type \<in> {lit ''markdown'', lit ''plain_text''})"
  by (induction rows) (auto split: if_splits)

lemma payload_counts:
  "payload_count p (lit ''segments'') = Some (int (length (pd_segments p)))"
  "payload_count p (lit ''segments_fts'') = Some (int (length (pd_segments_fts p)))"
  "payload_count p (lit ''source_files'') = Some (int (length (pd_source_files p)))"
  "payload_count p (lit ''revisions'') = Some (int (length (pd_revisions p)))"
  by (simp_all add: payload_count_def lit_eq)

text \<open>The payload is sound: what the three orphan queries count.\<close>

definition payload_sound :: "payload \<Rightarrow> bool" where
  "payload_sound p \<longleftrightarrow> (\<forall>s \<in> set (pd_source_files p). ps_state s = lit ''active'' \<longrightarrow>
       (\<exists>r. ps_current_revision_id s = Some r \<and> r \<in> pv_id ` set (pd_revisions p)))
     \<and> (\<forall>g \<in> set (pd_segments p). pg_revision_id g \<in> pv_id ` set (pd_revisions p))
     \<and> (\<forall>f \<in> set (pd_segments_fts p). pf_segment_id f \<in> pg_id ` set (pd_segments p))"

lemma validate_view:
  assumes "mf_counts m = count_payload p"
  shows "validate_payload_database (\<lambda>_. Inr (view_of p)) path m = Inr () \<longleftrightarrow> payload_sound p
     \<and> (\<forall>s \<in> set (pd_source_files p). ps_root_id s \<in> rd_snapshot_root_id ` set (mf_roots m)
          \<and> \<not> unsafe_relative (ps_relative_path s) \<and> ps_file_type s \<in> {lit ''markdown'', lit ''plain_text''})"
proof -
  have tables: "find (\<lambda>t. t \<notin> set PAYLOAD_TABLES) PAYLOAD_TABLES = None" by (simp add: find_None_iff)
  have rows: "map (\<lambda>s. Inr (ps_root_id s, ps_relative_path s, ps_file_type s)) (pd_source_files p)
      = map Inr (map (\<lambda>s. (ps_root_id s, ps_relative_path s, ps_file_type s)) (pd_source_files p))" by simp
  have broken: "filter (\<lambda>s. ps_state s = lit ''active'' \<and> (case ps_current_revision_id s of None \<Rightarrow> True
        | Some r \<Rightarrow> r \<notin> set (map pv_id (pd_revisions p)))) (pd_source_files p) = []
    \<longleftrightarrow> (\<forall>s \<in> set (pd_source_files p). ps_state s = lit ''active'' \<longrightarrow>
       (\<exists>r. ps_current_revision_id s = Some r \<and> r \<in> pv_id ` set (pd_revisions p)))"
    unfolding filter_empty_conv by (intro ball_cong refl) (simp split: option.split)
  have orphans: "filter (\<lambda>g. pg_revision_id g \<notin> pv_id ` set (pd_revisions p)) (pd_segments p) = []
      \<longleftrightarrow> (\<forall>g \<in> set (pd_segments p). pg_revision_id g \<in> pv_id ` set (pd_revisions p))"
    "filter (\<lambda>f. pf_segment_id f \<notin> pg_id ` set (pd_segments p)) (pd_segments_fts p) = []
      \<longleftrightarrow> (\<forall>f \<in> set (pd_segments_fts p). pf_segment_id f \<in> pg_id ` set (pd_segments p))"
    by (simp_all add: filter_empty_conv)
  show ?thesis
    unfolding validate_payload_database_def open_snapshot_readonly_def view_of_def Let_def
    by (simp add: tables payload_counts assms count_payload_def rows validate_source_rows_ok
        payload_sound_def broken orphans del: map_map)
qed

lemma validate_descriptors_ok:
  "validate_descriptors dir seen rs = Inr () \<longleftrightarrow> distinct (map rd_snapshot_root_id rs)
     \<and> set (map rd_snapshot_root_id rs) \<inter> set seen = {}
     \<and> (\<forall>r \<in> set rs. rd_snapshot_root_id r \<noteq> [] \<and> 0 \<le> rd_source_count r \<and> 0 \<le> rd_segment_count r)"
  by (induction rs arbitrary: seen) (auto split: if_splits)

lemma exported_manifest_compatible:
  assumes "distinct (map pr_id (pd_roots p))" "[] \<notin> set (map pr_id (pd_roots p))"
  shows "validate_manifest_compatibility (manifest_of env created checksum (list_payload_roots p) (count_payload p)) dir = Inr ()
    \<longleftrightarrow> length (pd_segments p) \<le> 1000000 \<and> length (pd_segments_fts p) \<le> 1000000"
proof -
  have "find (\<lambda>c. c \<notin> set SNAPSHOT_CAPABILITIES) (map lit [''lexical_fts5'', ''read_only_retrieval'']) = None"
    by (simp add: SNAPSHOT_CAPABILITIES_def)
  moreover have "validate_descriptors dir [] (list_payload_roots p) = Inr ()"
    unfolding validate_descriptors_ok using assms by (simp add: list_payload_roots_def o_def) (metis image_eqI)
  ultimately show ?thesis
    by (auto simp: validate_manifest_compatibility_def manifest_of_def SNAPSHOT_FORMAT_VERSION_def Let_def count_payload_def)
qed

lemma source_state_as_str_active [simp]: "source_state_as_str s = lit ''active'' \<longleftrightarrow> s = Active"
  by (cases s) (simp_all add: lit_eq)

text \<open>
  What an export writes an import accepts: for a payload built from a well-formed index and the manifest
  the export writes for it, the checks of the payload database succeed exactly when every exported file has a
  current revision and a safe relative path, and the checks of the manifest exactly when there are at
  most a million segments.
\<close>
lemma export_is_importable:
  assumes "db_ok db" "inj ids" "\<forall>i. ids i \<noteq> []" "build_payload ids db only = Inr p"
    and "m = manifest_of env created checksum (list_payload_roots p) (count_payload p)"
  shows "(validate_payload_database (\<lambda>_. Inr (view_of p)) path m = Inr () \<longleftrightarrow>
       (\<forall>s \<in> set (db_source_files db). sf_state s = Active \<and> sf_root_id s \<in> set (exported_ids db only) \<longrightarrow>
          sf_current_revision_id s \<noteq> None \<and> \<not> unsafe_relative (sf_relative_path s)))
    \<and> (validate_manifest_compatibility m dir = Inr () \<longleftrightarrow> length (pd_segments p) \<le> 1000000)"
proof
  let ?is = "exported_ids db only"
  let ?src = "{s \<in> set (db_source_files db). sf_state s = Active \<and> sf_root_id s \<in> set ?is}"
  have ids: "ids a = ids b \<longleftrightarrow> a = b" for a b using assms(2) by (meson injD)
  have k: "current_ok db" using assms(1) by (simp add: db_ok_def)
  from assms(4) build_payload_Inr [OF assms(1,2)] have p:
    "pd_roots p = map (\<lambda>r. \<lparr>pr_id = ids (rt_id r), pr_display_name = rt_display_name r\<rparr>) (exported_roots db only)"
    "pd_source_files p = source_rows ids db ?is" "pd_revisions p = revision_rows ids db ?is"
    "pd_segments p = map fst (segment_rows ids db ?is)" "pd_segments_fts p = map snd (segment_rows ids db ?is)" by auto
  have srcs: "set (pd_source_files p) = payload_source_of ids ` ?src"
    by (simp only: p source_rows_def list.set_map [of "payload_source_of ids"] exported_source_set)
  have revs: "ids r \<in> pv_id ` set (pd_revisions p)" if "s \<in> ?src" "sf_current_revision_id s = Some r" for s r
  proof -
    from k that obtain v where v: "v \<in> set (db_revisions db)" "rv_id v = r" by (auto simp: current_ok_def)
    moreover from that have "s \<in> set (exported_sources db (sf_root_id s))" "sf_root_id s \<in> set ?is"
      by (simp_all add: exported_sources_iff)
    ultimately have "v \<in> set (exported_revisions db (sf_root_id s))" "sf_root_id s \<in> set ?is"
      using that(2) by (auto simp: in_exported_revisions)
    then have "v \<in> (\<Union>i \<in> set ?is. set (exported_revisions db i))" by blast
    then have "payload_revision_of ids v \<in> set (pd_revisions p)" by (simp add: p revision_rows_def)
    with v(2) show ?thesis by (force simp: payload_revision_of_def)
  qed
  have segs: "\<exists>s \<in> ?src. sf_current_revision_id s = Some (sg_revision_id g)" if "(g, s) \<in> (\<Union>i \<in> set ?is. set (exported_segments db i))" for g s
    using that k by (auto simp: in_exported_segments [OF assms(1)] current_ok_def)
  have "payload_sound p \<longleftrightarrow> (\<forall>s \<in> ?src. sf_current_revision_id s \<noteq> None)"
  proof -
    have "\<forall>g \<in> set (pd_segments p). pg_revision_id g \<in> pv_id ` set (pd_revisions p)"
      using segs revs by (auto simp: p(4) segment_rows_def payload_segment_of_def) blast
    moreover have "\<forall>f \<in> set (pd_segments_fts p). pf_segment_id f \<in> pg_id ` set (pd_segments p)"
      by (force simp: p segment_rows_def payload_segment_of_def)
    moreover have "(\<forall>s \<in> set (pd_source_files p). ps_state s = lit ''active'' \<longrightarrow>
        (\<exists>r. ps_current_revision_id s = Some r \<and> r \<in> pv_id ` set (pd_revisions p))) \<longleftrightarrow> (\<forall>s \<in> ?src. sf_current_revision_id s \<noteq> None)"
      unfolding srcs using revs by (fastforce simp: payload_source_of_def)
    ultimately show ?thesis unfolding payload_sound_def by blast
  qed
  moreover have "(\<forall>s \<in> set (pd_source_files p). ps_root_id s \<in> rd_snapshot_root_id ` set (mf_roots m)
      \<and> \<not> unsafe_relative (ps_relative_path s) \<and> ps_file_type s \<in> {lit ''markdown'', lit ''plain_text''})
    \<longleftrightarrow> (\<forall>s \<in> ?src. \<not> unsafe_relative (sf_relative_path s))"
  proof -
    have "rd_snapshot_root_id ` set (mf_roots m) = ids ` set ?is"
      by (simp add: assms(5) manifest_of_def list_payload_roots_def p image_image)
    moreover have "file_type_as_str t \<in> {lit ''markdown'', lit ''plain_text''}" for t by (cases t) simp_all
    ultimately show ?thesis unfolding srcs by (auto simp: payload_source_of_def)
  qed
  ultimately show "validate_payload_database (\<lambda>_. Inr (view_of p)) path m = Inr () \<longleftrightarrow>
       (\<forall>s \<in> set (db_source_files db). sf_state s = Active \<and> sf_root_id s \<in> set ?is \<longrightarrow>
          sf_current_revision_id s \<noteq> None \<and> \<not> unsafe_relative (sf_relative_path s))"
    using validate_view [of m p path] by (auto simp: assms(5) manifest_of_def)
  have "distinct (map pr_id (pd_roots p))" "[] \<notin> set (map pr_id (pd_roots p))"
  proof -
    have "distinct ?is" using assms(1) by (simp add: db_ok_def keys_ok_def exported_roots_def distinct_map_filter)
    from distinct_map_inj [OF assms(2) this] show "distinct (map pr_id (pd_roots p))" by (simp add: p o_def)
    show "[] \<notin> set (map pr_id (pd_roots p))" using assms(3) by (simp add: p image_iff) (metis assms(3))
  qed
  from exported_manifest_compatible [OF this] show "validate_manifest_compatibility m dir = Inr () \<longleftrightarrow> length (pd_segments p) \<le> 1000000"
    by (simp add: assms(5) p)
qed

end
