(* ===== verification/Snapshot_Guarantees.thy ===== *)
theory Snapshot_Guarantees
  imports Snapshot_Properties
begin

text \<open>
  What the operations on snapshots leave alone, and what they promise of the registry: an import registers a
  verified payload with all its mappings or nothing, a removal takes exactly one snapshot, and every file they
  touch lies in the managed directory or in the destination of an export.
\<close>

subsection \<open>Frames\<close>

text \<open>A frame is what an operation on the depot may change; operations built from others keep a frame that
  all their parts keep.\<close>

definition keeps :: "(depot \<Rightarrow> depot \<Rightarrow> bool) \<Rightarrow> 'a dx \<Rightarrow> bool" where
  "keeps R m \<longleftrightarrow> (\<forall>d. R d (snd (m d)))"

lemma keepsI: "(\<And>d. R d (snd (m d))) \<Longrightarrow> keeps R m"
  by (simp add: keeps_def)

lemma keepsD: "keeps R m \<Longrightarrow> m d = (r, d') \<Longrightarrow> R d d'"
  unfolding keeps_def by (metis snd_conv)

locale frame =
  fixes R :: "depot \<Rightarrow> depot \<Rightarrow> bool"
  assumes frame_refl: "R d d"
    and frame_trans: "R a b \<Longrightarrow> R b c \<Longrightarrow> R a c"
begin

lemma keeps_dthen: "keeps R m \<Longrightarrow> (\<And>a. keeps R (f a)) \<Longrightarrow> keeps R (dthen m f)"
  unfolding keeps_def dthen_def by (auto split: prod.split sum.split) (metis frame_trans snd_conv)+

lemma keeps_unchanged: "(\<And>d. snd (m d) = d) \<Longrightarrow> keeps R m"
  by (simp add: keeps_def frame_refl)

lemma keeps_pure: "keeps R (dret a)" "keeps R (dfail e)" "keeps R (dlift r)" "keeps R (dread g)"
  by (rule keeps_unchanged; simp add: dret_def dfail_def dlift_def dread_def)+

lemma keeps_ignoring: "keeps R m \<Longrightarrow> keeps R (ignoring m)"
  by (simp add: keeps_def ignoring_def)

lemma keeps_dcatch: "keeps R m \<Longrightarrow> keeps R c \<Longrightarrow> keeps R (dcatch m c)"
  unfolding keeps_def dcatch_def by (auto split: prod.split sum.split) (metis frame_trans snd_conv)+

lemma keeps_case_option: "(x = None \<Longrightarrow> keeps R m) \<Longrightarrow> (\<And>a. x = Some a \<Longrightarrow> keeps R (f a)) \<Longrightarrow> keeps R (case x of None \<Rightarrow> m | Some a \<Rightarrow> f a)"
  by (cases x) auto

lemma keeps_if: "(b \<Longrightarrow> keeps R m) \<Longrightarrow> (\<not> b \<Longrightarrow> keeps R m') \<Longrightarrow> keeps R (if b then m else m')"
  by simp

lemma keeps_Let: "keeps R (f a) \<Longrightarrow> keeps R (Let a f)"
  by simp

lemma keeps_prod: "(\<And>a b. keeps R (f a b)) \<Longrightarrow> keeps R (case p of (a, b) \<Rightarrow> f a b)"
  by (cases p) simp

lemmas keeps_intros = keeps_pure keeps_dthen keeps_ignoring keeps_dcatch keeps_case_option keeps_if keeps_Let keeps_prod

end

text \<open>The database is left alone.\<close>

definition same_db :: "depot \<Rightarrow> depot \<Rightarrow> bool" where
  "same_db d d' \<longleftrightarrow> dp_db d' = dp_db d"

text \<open>Only the clock moves.\<close>

definition only_time :: "depot \<Rightarrow> depot \<Rightarrow> bool" where
  "only_time d d' \<longleftrightarrow> dp_db d' = dp_db d \<and> dp_tree d' = dp_tree d"

text \<open>Files outside \<open>K\<close> are left alone, except that missing directories of \<open>A\<close> may be created.\<close>

definition touches :: "(component list \<Rightarrow> bool) \<Rightarrow> (component list \<Rightarrow> bool) \<Rightarrow> depot \<Rightarrow> depot \<Rightarrow> bool" where
  "touches K A d d' \<longleftrightarrow> (\<forall>k. K k \<or> map_of (dp_tree d') k = map_of (dp_tree d) k
     \<or> A k \<and> map_of (dp_tree d) k = None \<and> map_of (dp_tree d') k = Some DirNode)"

interpretation database: frame same_db
  by unfold_locales (simp_all add: same_db_def)

interpretation clock: frame only_time
  by unfold_locales (simp_all add: only_time_def)

interpretation files: frame "touches K A" for K A
proof unfold_locales
  show "touches K A a c" if "touches K A a b" "touches K A b c" for a b c
    using that unfolding touches_def by (metis option.distinct(1))
qed (simp add: touches_def)

subsection \<open>The file operations\<close>

lemma file_op_same_db: "keeps same_db (file_op env p f)"
  by (rule keepsI) (simp add: same_db_def file_op_def Let_def split: option.split sum.split prod.split)

lemma file_op_only_time: "(\<And>t t' a. f t = Inr (t', a) \<Longrightarrow> t' = t) \<Longrightarrow> keeps only_time (file_op env p f)"
  by (rule keepsI) (auto simp: only_time_def file_op_def Let_def split: option.split sum.split prod.split)

lemma file_op_touches:
  "(\<And>t t' a k. f t = Inr (t', a) \<Longrightarrow> \<not> K k \<Longrightarrow>
     map_of t' k = map_of t k \<or> A k \<and> map_of t k = None \<and> map_of t' k = Some DirNode) \<Longrightarrow> keeps (touches K A) (file_op env p f)"
  by (rule keepsI) (auto simp: touches_def file_op_def Let_def split: option.split sum.split prod.split)

lemma only_time_same_db: "keeps only_time m \<Longrightarrow> keeps same_db m"
  by (simp add: keeps_def only_time_def same_db_def)

lemma only_time_touches: "keeps only_time m \<Longrightarrow> keeps (touches K A) m"
  by (simp add: keeps_def only_time_def touches_def)

lemma dtick_only_time: "keeps only_time dtick"
  by (rule keepsI) (simp add: dtick_def only_time_def)

lemma reading_ops: "keeps only_time (probe env p)" "keeps only_time (read_file env p)" "keeps only_time (restrict env p)"
  "keeps only_time (now_or_zero env)"
  by (simp_all add: probe_def read_file_def restrict_def now_or_zero_def
      clock.keeps_dthen dtick_only_time clock.keeps_pure)
    (rule file_op_only_time; auto split: option.splits node.splits if_splits)+

lemma map_of_without: "map_of (without k t) q = (if prefix k q then None else map_of t q)"
  by (induction t) (auto simp: without_def)

lemma map_of_filter_key: "map_of (filter (\<lambda>(q, _). q \<noteq> k) t) q = (if q = k then None else map_of t q)"
  by (induction t) auto

lemma map_of_put_node: "map_of (put_node k n t) q = (if q = k then Some n else map_of t q)"
  by (simp add: put_node_def map_of_filter_key)

lemma map_of_move_below:
  "\<not> prefix a k \<Longrightarrow> \<not> prefix b k \<Longrightarrow> map_of (move_below a b t) k = map_of t k"
  by (induction t) (auto simp: move_below_def)

lemma move_below_Cons: "move_below a b ((a, n) # t) = (b, n) # move_below a b t"
  by (simp add: move_below_def)

lemma make_dirs_Inr:
  "make_dirs k cs t = Inr t' \<Longrightarrow> map_of t' q = map_of t q
     \<or> (\<exists>n \<le> length cs. q = k @ take n cs) \<and> map_of t q = None \<and> map_of t' q = Some DirNode"
proof (induction cs arbitrary: k t)
  case (Cons c cs)
  let ?k = "k @ [c]"
  let ?new = "\<lambda>t. map_of t' q = map_of t q
     \<or> (\<exists>n \<le> length cs. q = ?k @ take n cs) \<and> map_of t q = None \<and> map_of t' q = Some DirNode"
  have shift: "\<exists>n \<le> length (c # cs). q = k @ take n (c # cs)" if "\<exists>n \<le> length cs. q = ?k @ take n cs"
    using that by (metis append.assoc append_Cons append_Nil length_Cons not_less_eq_eq take_Suc_Cons)
  consider "make_dirs ?k cs t = Inr t'"
    | "map_of t ?k = None" "make_dirs ?k cs (put_node ?k DirNode t) = Inr t'"
    using Cons.prems by (auto simp: Let_def split: option.splits node.splits if_splits)
  then show ?case
  proof cases
    case 1
    from Cons.IH [OF 1] shift show ?thesis by blast
  next
    case 2
    note new = Cons.IH [OF 2(2), unfolded map_of_put_node]
    show ?thesis
    proof (cases "q = ?k")
      case True
      with new have "map_of t' q = Some DirNode" by presburger
      moreover have "q = k @ take 1 (c # cs)" "1 \<le> length (c # cs)" unfolding True by simp_all
      ultimately show ?thesis using 2(1) True by metis
    next
      case False
      with new shift show ?thesis by presburger
    qed
  qed
qed simp

text \<open>What each writing operation may touch.\<close>

lemma write_file_touches: "K (components p) \<Longrightarrow> keeps (touches K A) (write_file env p bs)"
  unfolding write_file_def
  by (rule file_op_touches) (auto simp: map_of_put_node split: option.splits node.splits if_splits)

lemma copy_file_touches: "K (components b) \<Longrightarrow> keeps (touches K A) (copy_file env a b)"
  unfolding copy_file_def
  by (rule file_op_touches) (auto simp: map_of_put_node split: option.splits node.splits if_splits)

lemma removal_touches:
  assumes "\<And>q. prefix (components p) q \<Longrightarrow> K q"
  shows "keeps (touches K A) (remove_file env p)" "keeps (touches K A) (remove_dir_all env p)"
  unfolding remove_file_def remove_dir_all_def
  by (rule file_op_touches; use assms in \<open>auto simp: map_of_without split: option.splits node.splits if_splits\<close>)+

lemma create_dir_all_touches:
  assumes "\<And>q. prefix q (components p) \<Longrightarrow> A q"
  shows "keeps (touches K A) (create_dir_all env p)"
  unfolding create_dir_all_def
proof (rule file_op_touches)
  fix t t' a k
  assume "map_sum id (\<lambda>t. (t, ())) (make_dirs [] (components p) t) = Inr (t', a)"
  then have "make_dirs [] (components p) t = Inr t'" by (cases "make_dirs [] (components p) t") auto
  from make_dirs_Inr [OF this, of k] assms [of k] take_is_prefix
  show "map_of t' k = map_of t k \<or> A k \<and> map_of t k = None \<and> map_of t' k = Some DirNode" by auto
qed

lemma rename_touches:
  assumes "\<And>q. prefix (components a) q \<Longrightarrow> K q" "\<And>q. prefix (components b) q \<Longrightarrow> K q"
  shows "keeps (touches K A) (rename_node env a b)"
  unfolding rename_node_def Let_def
proof (rule file_op_touches)
  fix t t' u k
  assume k: "\<not> K k" and *: "(case node_at t a of None \<Rightarrow> Inl NOT_FOUND
     | Some n \<Rightarrow> if components a = components b then Inr (t, ()) else if \<not> has_parent t b then Inl NOT_FOUND
         else case node_at t b of None \<Rightarrow> Inr (move_below (components a) (components b) t, ())
           | Some DirNode \<Rightarrow> Inl FILE_EXISTS
           | Some _ \<Rightarrow> if n = DirNode then Inl FILE_EXISTS
               else Inr (move_below (components a) (components b) (without (components b) t), ())) = Inr (t', u)"
  from k assms have out: "\<not> prefix (components a) k" "\<not> prefix (components b) k" by blast+
  from * consider "t' = t" | "t' = move_below (components a) (components b) t"
    | "t' = move_below (components a) (components b) (without (components b) t)"
    by (auto split: option.splits node.splits if_splits)
  then show "map_of t' k = map_of t k \<or> A k \<and> map_of t k = None \<and> map_of t' k = Some DirNode"
    by cases (simp_all add: map_of_move_below [OF out] map_of_without out)
qed

lemma writing_ops_same_db: "keeps same_db (write_file env p bs)" "keeps same_db (copy_file env a b)"
  "keeps same_db (remove_file env p)" "keeps same_db (remove_dir_all env p)" "keeps same_db (create_dir_all env p)"
  "keeps same_db (rename_node env a b)"
  by (simp_all add: write_file_def copy_file_def remove_file_def remove_dir_all_def create_dir_all_def
      rename_node_def Let_def file_op_same_db)

lemmas reading_same_db = reading_ops [THEN only_time_same_db] dtick_only_time [THEN only_time_same_db]
lemmas reading_touches = reading_ops [THEN only_time_touches] dtick_only_time [THEN only_time_touches]

lemma dthen_Inr: "dthen m f d = (Inr b, d') \<longleftrightarrow> (\<exists>a d1. m d = (Inr a, d1) \<and> f a d1 = (Inr b, d'))"
  by (auto simp: dthen_def split: prod.split sum.split)

lemma dthen_Inl:
  "dthen m f d = (Inl e, d') \<longleftrightarrow> m d = (Inl e, d') \<or> (\<exists>a d1. m d = (Inr a, d1) \<and> f a d1 = (Inl e, d'))"
  by (auto simp: dthen_def split: prod.split sum.split)

lemma dthen_assoc: "dthen (dthen m f) g = dthen m (\<lambda>a. dthen (f a) g)"
  by (rule ext) (simp add: dthen_def split: prod.split sum.split)

lemma dthen_read: "dthen (dread g) f d = f (g d) d"
  by (simp add: dthen_def dread_def)

lemma pure_Inr [simp]: "dret a d = (Inr b, d') \<longleftrightarrow> b = a \<and> d' = d" "dlift r d = (Inr b, d') \<longleftrightarrow> r = Inr b \<and> d' = d"
  "dread g d = (Inr b, d') \<longleftrightarrow> b = g d \<and> d' = d" "\<not> dfail e d = (Inr b, d')"
  "set_db x d = (Inr u, d') \<longleftrightarrow> d' = d\<lparr>dp_db := x\<rparr>"
  by (auto simp: dret_def dlift_def dread_def dfail_def set_db_def)

lemma pure_Inl [simp]: "\<not> dret a d = (Inl e, d')" "dlift r d = (Inl e, d') \<longleftrightarrow> r = Inl e \<and> d' = d"
  "\<not> dread g d = (Inl e, d')" "dfail f d = (Inl e, d') \<longleftrightarrow> f = e \<and> d' = d" "\<not> set_db x d = (Inl e, d')"
  by (auto simp: dret_def dlift_def dread_def dfail_def set_db_def)

lemma dcatch_Inr: "dcatch m c d = (Inr b, d') \<longleftrightarrow> m d = (Inr b, d')"
  by (auto simp: dcatch_def split: prod.split sum.split)

lemma dcatch_Inl: "dcatch m c d = (Inl e, d') \<longleftrightarrow> (\<exists>d1. m d = (Inl e, d1) \<and> d' = snd (c d1))"
  by (auto simp: dcatch_def split: prod.split sum.split)

lemmas steps = dthen_Inr dthen_Inl dcatch_Inr dcatch_Inl

subsection \<open>The checks before an import\<close>

lemma validate_entries_only_time: "keeps only_time (validate_entries env dir n es)"
  by (induction es arbitrary: n) (auto intro!: clock.keeps_intros reading_ops)

lemma validate_snapshot_tree_only_time: "keeps only_time (validate_snapshot_tree env dir)"
  unfolding validate_snapshot_tree_def
  by (intro clock.keeps_intros validate_entries_only_time file_op_only_time) (auto split: option.splits)

lemma check_import_only_time: "keeps only_time (check_import env dir maps)"
  unfolding check_import_def read_manifest_def Let_def
  by (intro clock.keeps_intros validate_snapshot_tree_only_time reading_ops)

lemma read_file_Inr: "read_file env p d = (Inr bs, d') \<Longrightarrow> opened (dp_tree d) p = Some (FileNode bs)"
  by (auto simp: read_file_def file_op_def Let_def split: option.splits node.splits sum.splits prod.splits)

lemma validate_maps_Inr:
  "validate_maps env dir m db S L maps = Inr () \<longleftrightarrow>
     distinct (map fst maps) \<and> set (map fst maps) \<inter> S = {} \<and> distinct (map snd maps) \<and> set (map snd maps) \<inter> L = {}
     \<and> set (map fst maps) \<subseteq> set (map rd_snapshot_root_id (mf_roots m))
     \<and> (\<forall>l \<in> set (map snd maps). \<exists>i r. sv_parse_id env l = Some i \<and> find (\<lambda>r. rt_id r = i) (db_roots db) = Some r \<and> rt_enabled r)"
proof (induction maps arbitrary: S L)
  case (Cons x maps)
  obtain a l where x: "x = (a, l)" by fastforce
  show ?case
  proof (cases "sv_parse_id env l")
    case None
    then show ?thesis unfolding x by (auto split: if_splits)
  next
    case (Some i)
    then show ?thesis unfolding x using Cons.IH [of "insert a S" "insert l L"]
      by (cases "find (\<lambda>r. rt_id r = i) (db_roots db)") auto
  qed
qed simp

text \<open>An import that passes its checks has a complete mapping and a payload with the announced checksum.\<close>

definition complete_mapping :: "snapshot_env \<Rightarrow> manifest \<Rightarrow> db \<Rightarrow> (ustring \<times> ustring) list \<Rightarrow> bool" where
  "complete_mapping env m db maps \<longleftrightarrow> maps \<noteq> []
     \<and> distinct (map fst maps) \<and> set (map fst maps) = set (map rd_snapshot_root_id (mf_roots m)) \<and> distinct (map snd maps)
     \<and> (\<forall>l \<in> set (map snd maps). \<exists>i r. sv_parse_id env l = Some i \<and> find (\<lambda>r. rt_id r = i) (db_roots db) = Some r \<and> rt_enabled r)"

lemma validate_manifest_distinct:
  assumes "validate_manifest_compatibility m dir = Inr ()"
  shows "distinct (map rd_snapshot_root_id (mf_roots m))"
proof -
  from assms obtain seen where "validate_descriptors dir seen (mf_roots m) = Inr ()"
    by (auto simp: validate_manifest_compatibility_def Let_def try_bind_def split: if_splits option.splits sum.splits)
  then show ?thesis by (simp add: validate_descriptors_ok)
qed

lemma complete_if_counted:
  assumes "distinct xs" "set xs \<subseteq> set ys" "length xs = length ys"
  shows "set xs = set ys"
proof -
  have "card (set xs) = length ys" using assms(1,3) by (simp add: distinct_card)
  moreover have "card (set ys) \<le> length ys" by (rule card_length)
  ultimately show ?thesis using assms(2) by (metis List.finite_set card_seteq)
qed

lemma check_import_Inr:
  assumes "check_import env dir maps d = (Inr m, d')"
  shows "only_time d d' \<and> complete_mapping env m (dp_db d) maps
    \<and> (\<exists>bs. opened (dp_tree d) (payload_file dir) = Some (FileNode bs) \<and> blake3_hex (sv_blake3 env) bs = mf_payload_checksum m)
    \<and> validate_manifest_compatibility m dir = Inr ()
    \<and> validate_payload_database (open_payload env (dp_tree d)) (payload_file dir) m = Inr ()"
proof -
  from assms obtain d1 d2 d3 bs where s: "validate_snapshot_tree env dir d = (Inr (), d1)"
    "read_manifest env dir d1 = (Inr m, d2)" "validate_manifest_compatibility m dir = Inr ()"
    "read_file env (payload_file dir) d2 = (Inr bs, d3)" "blake3_hex (sv_blake3 env) bs = mf_payload_checksum m"
    "maps \<noteq> []" "length maps = length (mf_roots m)" "validate_maps env dir m (dp_db d3) {} {} maps = Inr ()"
    "validate_payload_database (open_payload env (dp_tree d3)) (payload_file dir) m = Inr ()"
    unfolding check_import_def by (auto simp: dthen_Inr split: if_splits)
  have "keeps only_time (read_manifest env dir)" unfolding read_manifest_def Let_def
    by (intro clock.keeps_intros reading_ops)
  then have t: "only_time d d1" "only_time d1 d2" "only_time d2 d3"
    using s validate_snapshot_tree_only_time reading_ops(2) by (meson keepsD)+
  moreover have "set (map fst maps) = set (map rd_snapshot_root_id (mf_roots m))"
    by (rule complete_if_counted) (use s(7,8) in \<open>simp_all add: validate_maps_Inr\<close>)
  then have "complete_mapping env m (dp_db d3) maps"
    using s(6,8) by (simp add: complete_mapping_def validate_maps_Inr)
  moreover have "only_time d d'" using keepsD [OF check_import_only_time assms] .
  ultimately show ?thesis using read_file_Inr [OF s(4)] s(3,5,9) by (auto simp: only_time_def)
qed

subsection \<open>Managed names\<close>

definition stored_path :: "snapshot_env \<Rightarrow> ustring \<Rightarrow> path" where
  "stored_path env i = path_join (managed_dir env) (i @ lit ''.sqlite3'')"

definition temp_path :: "snapshot_env \<Rightarrow> ustring \<Rightarrow> path" where
  "temp_path env i = path_join (managed_dir env) (lit ''.'' @ i @ lit ''.tmp'')"

lemma components_name:
  assumes "slash \<notin> set x" "length x > 2"
  shows "components (path_join base x) = components base @ [Normal x]"
proof -
  have "split_on (\<lambda>c. c = slash) x = [x]" using assms(1) by (induction x) auto
  moreover have "x \<noteq> []" "x \<noteq> [46]" "x \<noteq> [46, 46]" using assms(2) by auto
  moreover have "\<not> is_absolute x" using assms(1) \<open>x \<noteq> []\<close> unfolding is_absolute_def by (metis hd_in_set)
  ultimately have "components x = [Normal x]" by (simp add: components_def)
  with components_join [of x base] \<open>\<not> is_absolute x\<close> show ?thesis by simp
qed

lemma managed_components:
  assumes "slash \<notin> set i"
  shows "components (stored_path env i) = components (managed_dir env) @ [Normal (i @ lit ''.sqlite3'')]"
    and "components (temp_path env i) = components (managed_dir env) @ [Normal (lit ''.'' @ i @ lit ''.tmp'')]"
  unfolding stored_path_def temp_path_def
  by (rule components_name; use assms in \<open>simp add: lit_def slash_def\<close>)+

lemma managed_names_differ:
  assumes "slash \<notin> set i"
  shows "components (temp_path env i) \<noteq> components (stored_path env i)"
proof -
  have "last (i @ lit ''.sqlite3'') \<noteq> last (lit ''.'' @ i @ lit ''.tmp'')" by (simp add: lit_def)
  then show ?thesis unfolding managed_components [OF assms] by (metis component.inject last_snoc)
qed

lemma stored_path_inj: "slash \<notin> set i \<Longrightarrow> slash \<notin> set j \<Longrightarrow> stored_path env i = stored_path env j \<Longrightarrow> i = j"
  by (drule arg_cong [of _ _ components]) (simp add: managed_components)

subsection \<open>The registry\<close>

definition registry_ok :: "snapshot_env \<Rightarrow> db \<Rightarrow> bool" where
  "registry_ok env db \<longleftrightarrow> distinct (map sr_id (db_snapshots db))
     \<and> distinct (map (\<lambda>m. (sm_snapshot_id m, sm_snapshot_root_id m)) (db_snapshot_root_maps db))
     \<and> (\<forall>m \<in> set (db_snapshot_root_maps db). sm_snapshot_id m \<in> sr_id ` set (db_snapshots db)
          \<and> sm_local_root_id m \<in> rt_id ` set (db_roots db))
     \<and> (\<forall>s \<in> set (db_snapshots db). slash \<notin> set (sr_id s) \<and> sr_payload_path s = stored_path env (sr_id s))"

lemma insert_maps_Inr:
  assumes "insert_maps env i maps db = Inr db'"
  shows "\<exists>ms. db' = db\<lparr>db_snapshot_root_maps := db_snapshot_root_maps db @ ms\<rparr>
    \<and> map (\<lambda>x. (sm_snapshot_id x, sm_snapshot_root_id x, sv_id_text env (sm_local_root_id x))) ms = map (\<lambda>(a, l). (i, a, l)) maps
    \<and> (\<forall>x \<in> set ms. sm_local_root_id x \<in> rt_id ` set (db_roots db))
    \<and> (distinct (map (\<lambda>m. (sm_snapshot_id m, sm_snapshot_root_id m)) (db_snapshot_root_maps db)) \<longrightarrow>
       distinct (map (\<lambda>m. (sm_snapshot_id m, sm_snapshot_root_id m)) (db_snapshot_root_maps db @ ms)))"
  using assms
proof (induction maps arbitrary: db)
  case Nil
  then show ?case by (intro exI [of _ "[]"]) simp
next
  case (Cons x maps)
  obtain a l where x: "x = (a, l)" by fastforce
  from Cons.prems x obtain r where new: "(i, a) \<notin> set (map (\<lambda>m. (sm_snapshot_id m, sm_snapshot_root_id m)) (db_snapshot_root_maps db))"
    and r: "find (\<lambda>r. sv_id_text env (rt_id r) = l) (db_roots db) = Some r"
    and rest: "insert_maps env i maps (db\<lparr>db_snapshot_root_maps := db_snapshot_root_maps db @
       [\<lparr>sm_snapshot_id = i, sm_snapshot_root_id = a, sm_local_root_id = rt_id r\<rparr>]\<rparr>) = Inr db'"
    by (auto split: if_splits option.splits)
  let ?m = "\<lparr>sm_snapshot_id = i, sm_snapshot_root_id = a, sm_local_root_id = rt_id r\<rparr>"
  from r have "r \<in> set (db_roots db)" "sv_id_text env (rt_id r) = l" by (auto simp: find_Some_iff)
  moreover from Cons.IH [OF rest] obtain ms where
    "db' = db\<lparr>db_snapshot_root_maps := db_snapshot_root_maps db @ ?m # ms\<rparr>"
    "map (\<lambda>x. (sm_snapshot_id x, sm_snapshot_root_id x, sv_id_text env (sm_local_root_id x))) ms = map (\<lambda>(a, l). (i, a, l)) maps"
    "\<forall>x \<in> set ms. sm_local_root_id x \<in> rt_id ` set (db_roots db)"
    "distinct (map (\<lambda>m. (sm_snapshot_id m, sm_snapshot_root_id m)) (db_snapshot_root_maps db @ [?m])) \<longrightarrow>
       distinct (map (\<lambda>m. (sm_snapshot_id m, sm_snapshot_root_id m)) (db_snapshot_root_maps db @ ?m # ms))" by auto
  ultimately show ?case using new by (intro exI [of _ "?m # ms"]) (simp add: x)
qed

text \<open>What an import adds to the registry.\<close>

definition registers ::
    "snapshot_env \<Rightarrow> manifest \<Rightarrow> (ustring \<times> ustring) list \<Rightarrow> ustring \<Rightarrow> path \<Rightarrow> db \<Rightarrow> db \<Rightarrow> bool" where
  "registers env m maps i p db db' \<longleftrightarrow> (\<exists>s ms.
     db' = db\<lparr>db_snapshots := db_snapshots db @ [s], db_snapshot_root_maps := db_snapshot_root_maps db @ ms\<rparr>
     \<and> sr_id s = i \<and> i \<notin> set (map sr_id (db_snapshots db)) \<and> sr_payload_path s = p \<and> sr_checksum s = mf_payload_checksum m
     \<and> map (\<lambda>x. (sm_snapshot_id x, sm_snapshot_root_id x, sv_id_text env (sm_local_root_id x))) ms = map (\<lambda>(a, l). (i, a, l)) maps
     \<and> (\<forall>x \<in> set ms. sm_local_root_id x \<in> rt_id ` set (db_roots db))
     \<and> (distinct (map (\<lambda>m. (sm_snapshot_id m, sm_snapshot_root_id m)) (db_snapshot_root_maps db)) \<longrightarrow>
       distinct (map (\<lambda>m. (sm_snapshot_id m, sm_snapshot_root_id m)) (db_snapshot_root_maps db @ ms))))"

lemma register_snapshot_Inr:
  assumes "register_snapshot env dir m maps i p d = (Inr (), d')"
  shows "dp_tree d' = dp_tree d \<and> registers env m maps i p (dp_db d) (dp_db d')"
proof -
  let ?row = "\<lambda>json imported. \<lparr>sr_id = i, sr_logical_name = lit ''imported'', sr_format_version = int SNAPSHOT_FORMAT_VERSION,
     sr_imported_at_ms = imported, sr_payload_path = p, sr_manifest_json = json, sr_checksum = mf_payload_checksum m\<rparr>"
  from assms obtain json imported db1 d1 d3 where ins: "insert_snapshot (?row json imported) (dp_db d1) = Inr db1"
    and maps: "insert_maps env i maps db1 = Inr (dp_db d')"
    and t: "now_or_zero env d = (Inr imported, d1)" "probe env dir d1 = (Inr (), d3)" "dp_tree d' = dp_tree d3"
    unfolding register_snapshot_def by (auto simp: steps split: sum.splits)
  define s where "s = ?row json imported"
  have s: "sr_id s = i" "sr_payload_path s = p" "sr_checksum s = mf_payload_checksum m" by (simp_all add: s_def)
  have "only_time d d1" "only_time d1 d3" using t reading_ops by (meson keepsD)+
  then have same: "dp_db d1 = dp_db d" "dp_tree d' = dp_tree d" using t by (auto simp: only_time_def)
  from ins have db1: "db1 = (dp_db d)\<lparr>db_snapshots := db_snapshots (dp_db d) @ [s]\<rparr>" and new: "i \<notin> set (map sr_id (db_snapshots (dp_db d)))"
    using s same by (auto simp: insert_snapshot_def s_def [symmetric] split: if_splits)
  show ?thesis unfolding registers_def using insert_maps_Inr [OF maps] s new same(2) by (auto simp: db1)
qed

lemma register_snapshot_Inl:
  assumes "register_snapshot env dir m maps i p d = (Inl e, d')"
  shows "dp_db d' = dp_db d"
proof -
  have r: "keeps same_db (now_or_zero env)" "keeps same_db (probe env dir)" by (intro reading_same_db)+
  have [simp]: "dp_db (snd (ignoring (remove_file env p) d)) = dp_db d" for d
    using database.keeps_ignoring [OF writing_ops_same_db(3)] by (simp add: keeps_def same_db_def)
  show ?thesis using assms unfolding register_snapshot_def
    by (auto simp: steps same_db_def split: sum.splits dest!: keepsD [OF r(1)] keepsD [OF r(2)])
qed

subsection \<open>Import\<close>

text \<open>The payload is copied below a temporary name, checked again, and moved to its own.\<close>

definition stage_payload :: "snapshot_env \<Rightarrow> path \<Rightarrow> manifest \<Rightarrow> path \<Rightarrow> unit dx" where
  "stage_payload env dir m temp_payload = dcatch
     (dthen (copy_file env (payload_file dir) temp_payload) (\<lambda>_.
      dthen (restrict env temp_payload) (\<lambda>_.
      dthen (dread dp_tree) (\<lambda>t.
        dlift (validate_payload_database (open_payload env t) temp_payload m)))))
     (ignoring (remove_file env temp_payload))"

lemma stage_payload_same_db: "keeps same_db (stage_payload env dir m p)"
  unfolding stage_payload_def by (intro database.keeps_intros writing_ops_same_db reading_same_db)

lemma stage_payload_Inr:
  assumes "stage_payload env dir m p d = (Inr (), d')" "opened (dp_tree d) (payload_file dir) = Some (FileNode bs)"
  shows "\<exists>t. dp_tree d' = (components p, FileNode bs) # t"
proof -
  from assms(1) obtain d1 where c: "copy_file env (payload_file dir) p d = (Inr (), d1)" "restrict env p d1 = (Inr (), d')"
    unfolding stage_payload_def by (auto simp: steps)
  from c(1) assms(2) have "\<exists>t. dp_tree d1 = (components p, FileNode bs) # t"
    by (auto simp: copy_file_def file_op_def Let_def put_node_def split: option.splits if_splits)
  with keepsD [OF reading_ops(3) c(2)] show ?thesis by (simp add: only_time_def)
qed

lemma rename_node_Inr:
  assumes "rename_node env a b d = (Inr (), d')" "dp_tree d = (components a, FileNode bs) # t"
    and "\<not> prefix (components b) (components a)"
  shows "node_at (dp_tree d') b = Some (FileNode bs)"
  using assms
  by (auto simp: rename_node_def file_op_def Let_def node_at_def without_def move_below_Cons
      split: option.splits if_splits node.splits)

lemma created_keeps_nodes:
  assumes "create_dir_all env p d = (Inr (), d')" "opened (dp_tree d) q = Some n"
  shows "opened (dp_tree d') q = Some n"
proof -
  have "touches (\<lambda>_. False) (\<lambda>_. True) d d'" by (rule keepsD [OF create_dir_all_touches assms(1)]) simp
  moreover from assms(2) obtain n' where "node_at (dp_tree d) q = Some n'" by (cases "node_at (dp_tree d) q") (auto simp: opened_def)
  ultimately have "node_at (dp_tree d') q = node_at (dp_tree d) q" by (simp add: touches_def node_at_def) (metis option.distinct(1))
  with assms(2) show ?thesis by (simp add: opened_def)
qed

lemma delete_registered:
  assumes "registry_ok env db" "registers env m maps i p db db'"
  shows "delete_snapshot i (delete_maps i db') = db"
proof -
  from assms(2) obtain s ms where s: "db' = db\<lparr>db_snapshots := db_snapshots db @ [s], db_snapshot_root_maps := db_snapshot_root_maps db @ ms\<rparr>"
    "sr_id s = i" "i \<notin> set (map sr_id (db_snapshots db))"
    and ms: "map (\<lambda>x. (sm_snapshot_id x, sm_snapshot_root_id x, sv_id_text env (sm_local_root_id x))) ms = map (\<lambda>(a, l). (i, a, l)) maps"
    unfolding registers_def by blast
  have "sm_snapshot_id x = i" if "x \<in> set ms" for x
  proof -
    from that have "(sm_snapshot_id x, sm_snapshot_root_id x, sv_id_text env (sm_local_root_id x)) \<in> set (map (\<lambda>(a, l). (i, a, l)) maps)"
      unfolding ms [symmetric] by force
    then show ?thesis by auto
  qed
  then have "filter (\<lambda>x. sm_snapshot_id x \<noteq> i) ms = []" by (simp add: filter_empty_conv)
  moreover have "filter (\<lambda>s. sr_id s \<noteq> i) (db_snapshots db) = db_snapshots db"
    using s(3) by (auto simp: filter_id_conv)
  moreover have "filter (\<lambda>x. sm_snapshot_id x \<noteq> i) (db_snapshot_root_maps db) = db_snapshot_root_maps db"
    using assms(1) s(3) by (auto simp: filter_id_conv registry_ok_def)
  ultimately show ?thesis by (simp add: delete_snapshot_def delete_maps_def delete_where_def s(1,2))
qed

lemma update_registered:
  assumes "registry_ok env db" "registers env m maps i p db db'" "slash \<notin> set i"
  shows "registers env m maps i (stored_path env i) db (update_payload_path i (stored_path env i) db')"
proof -
  from assms(2) obtain s ms where s: "db' = db\<lparr>db_snapshots := db_snapshots db @ [s], db_snapshot_root_maps := db_snapshot_root_maps db @ ms\<rparr>"
    "sr_id s = i" "i \<notin> set (map sr_id (db_snapshots db))" "sr_checksum s = mf_payload_checksum m"
    and rest: "map (\<lambda>x. (sm_snapshot_id x, sm_snapshot_root_id x, sv_id_text env (sm_local_root_id x))) ms = map (\<lambda>(a, l). (i, a, l)) maps"
      "\<forall>x \<in> set ms. sm_local_root_id x \<in> rt_id ` set (db_roots db)"
      "distinct (map (\<lambda>m. (sm_snapshot_id m, sm_snapshot_root_id m)) (db_snapshot_root_maps db)) \<longrightarrow>
       distinct (map (\<lambda>m. (sm_snapshot_id m, sm_snapshot_root_id m)) (db_snapshot_root_maps db @ ms))"
    unfolding registers_def by blast
  have old: "sr_payload_path s' \<noteq> stored_path env i" if "s' \<in> set (db_snapshots db)" for s'
    using assms(1,3) that s(3) stored_path_inj unfolding registry_ok_def by (metis image_eqI list.set_map)
  then have "stored_path env i \<notin> set (map sr_payload_path (filter (\<lambda>s. sr_id s \<noteq> i) (db_snapshots db')))"
    using old s(2) unfolding s(1) by simp (metis (no_types, lifting) image_iff mem_Collect_eq)
  moreover have "map (\<lambda>x. if sr_id x = i then x\<lparr>sr_payload_path := stored_path env i\<rparr> else x) (db_snapshots db) = db_snapshots db"
    using s(3) by (intro map_idI) auto
  ultimately have "update_payload_path i (stored_path env i) db' = db\<lparr>
      db_snapshots := db_snapshots db @ [s\<lparr>sr_payload_path := stored_path env i\<rparr>], db_snapshot_root_maps := db_snapshot_root_maps db @ ms\<rparr>"
    using s(2) by (simp add: update_payload_path_def update_where_def s(1))
  then show ?thesis unfolding registers_def using s rest
    by (intro exI [of _ "s\<lparr>sr_payload_path := stored_path env i\<rparr>"] exI [of _ ms]) simp
qed

text \<open>\<open>import_snapshot\<close>, cut at its stages.\<close>

lemma import_snapshot_stages:
  "import_snapshot env dir maps =
     dthen (check_import env dir maps) (\<lambda>m.
     dthen dtick (\<lambda>n.
     let i = sv_new_id env n in
     dthen (probe env dir) (\<lambda>_.
     dthen (create_dir_all env (managed_dir env)) (\<lambda>_.
     dthen (stage_payload env dir m (temp_path env i)) (\<lambda>_.
     dthen (register_snapshot env dir m maps i (temp_path env i)) (\<lambda>_.
     dthen (dcatch (rename_node env (temp_path env i) (stored_path env i))
         (dthen (dread dp_db) (\<lambda>db. dthen (set_db (delete_snapshot i (delete_maps i db))) (\<lambda>_.
           ignoring (remove_file env (temp_path env i)))))) (\<lambda>_.
     dthen (dread dp_db) (\<lambda>db.
     dthen (set_db (update_payload_path i (stored_path env i) db)) (\<lambda>_.
       dret \<lparr>ir_snapshot_id = i, ir_mapped_roots = map (\<lambda>(snap, local_root). snap @ lit ''->'' @ local_root) maps,
         ir_segments = sn_segments (mf_counts m)\<rparr>)))))))))"
  unfolding import_snapshot_def stage_payload_def temp_path_def stored_path_def Let_def by (rule refl)

lemma import_Inr:
  assumes "import_snapshot env dir maps d = (Inr r, d')" "registry_ok env (dp_db d)" "\<forall>n. slash \<notin> set (sv_new_id env n)"
  shows "\<exists>m i bs. ir_snapshot_id r = i \<and> slash \<notin> set i \<and> registers env m maps i (stored_path env i) (dp_db d) (dp_db d')
    \<and> complete_mapping env m (dp_db d) maps \<and> node_at (dp_tree d') (stored_path env i) = Some (FileNode bs)
    \<and> blake3_hex (sv_blake3 env) bs = mf_payload_checksum m"
proof -
  from assms(1) obtain m n d1 d2 d3 d4 d5 d6 d7 where s: "check_import env dir maps d = (Inr m, d1)"
    "dtick d1 = (Inr n, d2)" "probe env dir d2 = (Inr (), d3)" "create_dir_all env (managed_dir env) d3 = (Inr (), d4)"
    "stage_payload env dir m (temp_path env (sv_new_id env n)) d4 = (Inr (), d5)"
    "register_snapshot env dir m maps (sv_new_id env n) (temp_path env (sv_new_id env n)) d5 = (Inr (), d6)"
    "rename_node env (temp_path env (sv_new_id env n)) (stored_path env (sv_new_id env n)) d6 = (Inr (), d7)"
    "d' = d7\<lparr>dp_db := update_payload_path (sv_new_id env n) (stored_path env (sv_new_id env n)) (dp_db d7)\<rparr>"
    "ir_snapshot_id r = sv_new_id env n"
    unfolding import_snapshot_stages Let_def by (auto simp: steps)
  let ?i = "sv_new_id env n"
  have i: "slash \<notin> set ?i" using assms(3) by simp
  note c = check_import_Inr [OF s(1)]
  then obtain bs where bs: "opened (dp_tree d) (payload_file dir) = Some (FileNode bs)"
    "blake3_hex (sv_blake3 env) bs = mf_payload_checksum m" by blast
  have before: "only_time d d3"
    using c keepsD [OF dtick_only_time s(2)] keepsD [OF reading_ops(1) s(3)] by (auto simp: only_time_def)
  then have "opened (dp_tree d4) (payload_file dir) = Some (FileNode bs)"
    using created_keeps_nodes [OF s(4)] bs(1) by (simp add: only_time_def)
  from stage_payload_Inr [OF s(5) this] obtain t where "dp_tree d5 = (components (temp_path env ?i), FileNode bs) # t" by blast
  with register_snapshot_Inr [OF s(6)] have "dp_tree d6 = (components (temp_path env ?i), FileNode bs) # t" by simp
  moreover have "\<not> prefix (components (stored_path env ?i)) (components (temp_path env ?i))"
    using managed_names_differ [OF i, of env] by (simp add: managed_components [OF i] prefix_def)
  ultimately have "node_at (dp_tree d') (stored_path env ?i) = Some (FileNode bs)"
    using rename_node_Inr [OF s(7)] by (simp add: s(8))
  moreover have same: "dp_db d5 = dp_db d" "dp_db d7 = dp_db d6"
    using before keepsD [OF writing_ops_same_db(5) s(4)] keepsD [OF stage_payload_same_db s(5)]
      keepsD [OF writing_ops_same_db(6) s(7)] by (auto simp: only_time_def same_db_def)
  have "registers env m maps ?i (temp_path env ?i) (dp_db d) (dp_db d6)"
    using register_snapshot_Inr [OF s(6)] same by simp
  from update_registered [OF assms(2) this i] have "registers env m maps ?i (stored_path env ?i) (dp_db d) (dp_db d')"
    by (simp add: s(8) same)
  ultimately show ?thesis using c bs(2) i s(9) by blast
qed

lemma import_Inl:
  assumes "import_snapshot env dir maps d = (Inl e, d')" "registry_ok env (dp_db d)"
  shows "dp_db d' = dp_db d"
proof -
  have r: "keeps same_db (check_import env dir maps)" "keeps same_db dtick" "keeps same_db (probe env dir)"
    "keeps same_db (create_dir_all env p)" "keeps same_db (stage_payload env dir m p)" "keeps same_db (rename_node env p q)" for m p q
    by (intro check_import_only_time [THEN only_time_same_db] reading_same_db writing_ops_same_db stage_payload_same_db)+
  have [simp]: "dp_db (snd (ignoring (remove_file env p) d)) = dp_db d" for d p
    using database.keeps_ignoring [OF writing_ops_same_db(3)] by (simp add: keeps_def same_db_def)
  have [simp]: "dp_db (snd (dthen (dread dp_db) (\<lambda>db. dthen (set_db (f db)) (\<lambda>_. ignoring (remove_file env p))) d)) = f (dp_db d)" for d f p
    by (simp add: dthen_def dread_def set_db_def)
  note D = keepsD [OF r(1)] keepsD [OF r(2)] keepsD [OF r(3)] keepsD [OF r(4)] keepsD [OF r(5)] keepsD [OF r(6)]
  from assms(1) show ?thesis unfolding import_snapshot_stages Let_def
    by (auto simp: steps same_db_def
        dest!: D register_snapshot_Inl register_snapshot_Inr delete_registered [OF assms(2)])
qed

subsection \<open>Removal and the other operations on the registry\<close>

definition without_snapshot :: "ustring \<Rightarrow> db \<Rightarrow> db" where
  "without_snapshot i db = db\<lparr>db_snapshots := filter (\<lambda>s. sr_id s \<noteq> i) (db_snapshots db),
     db_snapshot_root_maps := filter (\<lambda>m. sm_snapshot_id m \<noteq> i) (db_snapshot_root_maps db)\<rparr>"

lemma delete_snapshot_eq: "delete_snapshot i (delete_maps i db) = without_snapshot i db"
  by (simp add: delete_snapshot_def delete_maps_def delete_where_def without_snapshot_def conj_commute)

lemma stored_below_managed: "slash \<notin> set i \<Longrightarrow> path_starts_with (stored_path env i) (managed_dir env)"
  by (simp add: path_starts_with_def managed_components)

lemma cleanup_payload_touches: "keeps (touches (prefix (components p)) A) (cleanup_payload env p)"
  using removal_touches(1) [of p "prefix (components p)" A env]
  by (auto simp: keeps_def cleanup_payload_def split: prod.split sum.split config_error.split) (metis snd_conv)+

lemma cleanup_payload_same_db: "keeps same_db (cleanup_payload env p)"
  using writing_ops_same_db(3) [of env p]
  by (auto simp: keeps_def cleanup_payload_def split: prod.split sum.split config_error.split) (metis snd_conv)+

lemma cleanup_payload_Inr: "cleanup_payload env p d = (Inr u, d') \<Longrightarrow> \<not> tree_exists (dp_tree d') p"
  by (auto simp: cleanup_payload_def remove_file_def file_op_def Let_def tree_exists_def opened_def node_at_def map_of_without
      split: option.splits node.splits sum.splits prod.splits config_error.splits if_splits)


lemma registers_ok:
  assumes "registry_ok env db" "registers env m maps i (stored_path env i) db db'" "slash \<notin> set i"
  shows "registry_ok env db'"
proof -
  from assms(2) obtain s ms where s: "db' = db\<lparr>db_snapshots := db_snapshots db @ [s], db_snapshot_root_maps := db_snapshot_root_maps db @ ms\<rparr>"
    "sr_id s = i" "i \<notin> set (map sr_id (db_snapshots db))" "sr_payload_path s = stored_path env i"
    and ms: "map (\<lambda>x. (sm_snapshot_id x, sm_snapshot_root_id x, sv_id_text env (sm_local_root_id x))) ms = map (\<lambda>(a, l). (i, a, l)) maps"
    and l: "\<forall>x \<in> set ms. sm_local_root_id x \<in> rt_id ` set (db_roots db)"
    and k: "distinct (map (\<lambda>m. (sm_snapshot_id m, sm_snapshot_root_id m)) (db_snapshot_root_maps db)) \<longrightarrow>
       distinct (map (\<lambda>m. (sm_snapshot_id m, sm_snapshot_root_id m)) (db_snapshot_root_maps db @ ms))"
    unfolding registers_def by blast
  from arg_cong [OF ms, of "map fst"] have "map sm_snapshot_id ms = map (\<lambda>_. i) maps" by (simp add: o_def case_prod_beta')
  then have "sm_snapshot_id x = i" if "x \<in> set ms" for x
    using that by (metis (mono_tags, lifting) image_eqI image_iff list.set_map)
  then show ?thesis using assms(1,3) s(2,3,4) l k by (auto simp: registry_ok_def s(1))
qed

lemma without_snapshot_ok: "registry_ok env db \<Longrightarrow> registry_ok env (without_snapshot i db)"
  by (auto simp: registry_ok_def without_snapshot_def distinct_map_filter)

lemma remove_snapshot_db: "remove_snapshot env i d = (r, d') \<Longrightarrow> dp_db d' = dp_db d \<or> dp_db d' = without_snapshot i (dp_db d)"
proof -
  have r: "keeps same_db (probe env p)" "keeps same_db (cleanup_payload env p)" for p
    by (intro reading_same_db cleanup_payload_same_db)+
  assume "remove_snapshot env i d = (r, d')"
  then show ?thesis unfolding remove_snapshot_def Let_def
    by (cases r) (auto simp: steps same_db_def delete_snapshot_eq split: option.splits if_splits
        dest!: keepsD [OF r(1)] keepsD [OF r(2)])
qed

lemma upsert_root_keeps_ids:
  assumes "upsert_root db root = Inr db'"
  shows "db_snapshots db' = db_snapshots db \<and> db_snapshot_root_maps db' = db_snapshot_root_maps db
    \<and> rt_id ` set (db_roots db) \<subseteq> rt_id ` set (db_roots db')"
proof -
  have "map rt_id (update_where (\<lambda>r. rt_id r = rt_id root) (\<lambda>r. root\<lparr>rt_created_at := rt_created_at r\<rparr>) xs) = map rt_id xs" for xs
    by (simp add: update_where_def)
  from arg_cong [OF this, of set]
  have "rt_id ` set (update_where (\<lambda>r. rt_id r = rt_id root) (\<lambda>r. root\<lparr>rt_created_at := rt_created_at r\<rparr>) xs) = rt_id ` set xs" for xs
    by (simp only: list.set_map)
  with assms show ?thesis by (auto simp: upsert_root_def split: if_splits)
qed

lemma delete_root_derived_registry_ok:
  assumes "registry_ok env db" "db_ok db" "delete_root_derived db root_id = Inr (counts, db')"
  shows "registry_ok env db'"
proof -
  have "db' = without_root db root_id" using assms(2,3) by (simp add: delete_root_derived_eq db_ok_def)
  with assms(1) show ?thesis by (auto simp: registry_ok_def without_root_def distinct_map_filter)
qed

lemma import_registry_ok:
  assumes "registry_ok env (dp_db d)" "\<forall>n. slash \<notin> set (sv_new_id env n)" "import_snapshot env dir maps d = (r, d')"
  shows "registry_ok env (dp_db d')"
proof (cases r)
  case (Inl e)
  with import_Inl [of env dir maps d e d'] assms show ?thesis by simp
next
  case (Inr report)
  with import_Inr [of env dir maps d report d'] assms registers_ok show ?thesis by metis
qed


lemma io_errors:
  "probe env p d = (Inl e, d') \<Longrightarrow> \<exists>m. e = ConfigIo p m"
  "cleanup_payload env p d = (Inl e, d') \<Longrightarrow> \<exists>m. e = ConfigIo p m"
  by (auto simp: probe_def cleanup_payload_def remove_file_def file_op_def Let_def
      split: option.splits sum.splits prod.splits config_error.splits)

text \<open>A registered snapshot whose manifest can be read: the deletion, then the clean-up.\<close>

lemma remove_registered:
  assumes "find (\<lambda>s. sr_id s = i) (db_snapshots (dp_db d)) = Some s" "sv_json_segments env (sr_manifest_json s) = Some segments"
    and "path_starts_with (sr_payload_path s) (managed_dir env)" "remove_snapshot env i d = (r, d')"
  obtains (Failed) m where "r = Inl (ConfigIo (lit ''db'') m)" "only_time d d'"
    | (Left) m where "r = Inl (ConfigIo (sr_payload_path s) m)" "dp_db d' = without_snapshot i (dp_db d)"
        "touches (prefix (components (sr_payload_path s))) (\<lambda>_. False) d d'"
    | (Removed) report where "r = Inr report" "ir_snapshot_id report = i" "dp_db d' = without_snapshot i (dp_db d)"
        "touches (prefix (components (sr_payload_path s))) (\<lambda>_. False) d d'" "\<not> tree_exists (dp_tree d') (sr_payload_path s)"
proof -
  let ?p = "sr_payload_path s"
  let ?touches = "touches (prefix (components ?p)) (\<lambda>_. False)"
  define delete where "delete = dthen (probe env (lit ''db'')) (\<lambda>_. dthen (probe env (lit ''db'')) (\<lambda>_.
     set_db (without_snapshot i (dp_db d))))"
  define clean where "clean = dthen (dread (\<lambda>d. tree_exists (dp_tree d) ?p)) (\<lambda>present. if present then cleanup_payload env ?p else dret ())"
  have run: "\<exists>report. ir_snapshot_id report = i \<and> remove_snapshot env i d = dthen delete (\<lambda>_. dthen clean (\<lambda>_. dret report)) d"
  proof (intro exI conjI)
    let ?report = "\<lparr>ir_snapshot_id = i, ir_mapped_roots = map (\<lambda>m. sm_snapshot_root_id m @ lit ''->'' @ sv_id_text env (sm_local_root_id m))
       (maps_of (dp_db d) i), ir_segments = unwrap_or 0 segments\<rparr>"
    show "ir_snapshot_id ?report = i" by simp
    show "remove_snapshot env i d = dthen delete (\<lambda>_. dthen clean (\<lambda>_. dret ?report)) d"
      using assms(1,2,3) unfolding remove_snapshot_def delete_def clean_def Let_def dthen_assoc
      by (simp add: dthen_read delete_snapshot_eq)
  qed
  have time: "only_time d d1" if "probe env q d = (Inr x, d1)" for d d1 x q using keepsD [OF reading_ops(1) that] .
  have fails: "only_time d d1 \<and> (\<exists>m. e = ConfigIo q m)" if "probe env q d = (Inl e, d1)" for d d1 e q
    using keepsD [OF reading_ops(1) that] io_errors(1) [OF that] by simp
  have del: "(\<exists>m. x = Inl (ConfigIo (lit ''db'') m)) \<and> only_time d d1
      \<or> x = Inr () \<and> dp_db d1 = without_snapshot i (dp_db d) \<and> dp_tree d1 = dp_tree d" if "delete d = (x, d1)" for x d1
    using that unfolding delete_def
    by (cases x) (auto simp: steps only_time_def dest!: time fails)
  have touch: "?touches d1 d2" "dp_db d2 = dp_db d1" if "clean d1 = (x, d2)" for d1 d2 x
  proof -
    have "keeps ?touches clean" "keeps same_db clean" unfolding clean_def
      by (intro files.keeps_intros database.keeps_intros cleanup_payload_touches cleanup_payload_same_db)+
    from keepsD [OF this(1) that] keepsD [OF this(2) that] show "?touches d1 d2" "dp_db d2 = dp_db d1" by (simp_all add: same_db_def)
  qed
  have gone: "\<not> tree_exists (dp_tree d2) ?p" if "clean d1 = (Inr u, d2)" for d1 d2 u
    using that unfolding clean_def by (auto simp: steps dest: cleanup_payload_Inr split: if_splits)
  have err: "\<exists>m. e = ConfigIo ?p m" if "clean d1 = (Inl e, d2)" for d1 d2 e
    using that unfolding clean_def by (auto simp: steps dest: io_errors split: if_splits)
  have same: "?touches d d2 \<longleftrightarrow> ?touches d1 d2" if "dp_tree d1 = dp_tree d" for d1 d2 using that by (simp add: touches_def)
  obtain x d1 where x: "delete d = (x, d1)" by fastforce
  obtain y d2 where y: "clean d1 = (y, d2)" by fastforce
  from run obtain report where "ir_snapshot_id report = i"
    and eq: "remove_snapshot env i d = dthen delete (\<lambda>_. dthen clean (\<lambda>_. dret report)) d" by blast
  have out: "(r, d') = (case x of Inl e \<Rightarrow> (Inl e, d1) | Inr _ \<Rightarrow> (case y of Inl e \<Rightarrow> (Inl e, d2) | Inr _ \<Rightarrow> (Inr report, d2)))"
    unfolding assms(4) [symmetric] eq using x y by (cases x; cases y) (simp_all add: dthen_def dret_def)
  from del [OF x] show thesis
  proof (elim disjE conjE exE)
    show thesis if "x = Inl (ConfigIo (lit ''db'') m)" "only_time d d1" for m
      using that out Failed by simp
    assume *: "x = Inr ()" "dp_db d1 = without_snapshot i (dp_db d)" "dp_tree d1 = dp_tree d"
    from touch [OF y] same [OF *(3)] *(2) have t: "?touches d d2" "dp_db d2 = without_snapshot i (dp_db d)" by (simp_all only:)
    show thesis
    proof (cases y)
      case (Inl e)
      with err y obtain m where "e = ConfigIo ?p m" by blast
      with Inl *(1) out have "r = Inl (ConfigIo ?p m)" "d' = d2" by simp_all
      with t Left show thesis by blast
    next
      case (Inr u)
      with *(1) out have "r = Inr report" "d' = d2" by simp_all
      with t Removed gone y Inr \<open>ir_snapshot_id report = i\<close> show thesis by blast
    qed
  qed
qed

definition REFUSED :: ustring where "REFUSED = lit ''refusing to delete payload outside managed snapshot directory''"

text \<open>
  C28. Removing a snapshot removes that snapshot and nothing else: an unknown identifier is reported and
  changes nothing, a failure leaves either everything or only the payload file to clean up, success
  leaves neither rows nor payload, no file but the managed payload is touched, and a registered snapshot is
  never refused for lying outside the managed directory.
\<close>
theorem remove_snapshot_exact:
  assumes "registry_ok env (dp_db d)" "remove_snapshot env i d = (r, d')"
  shows "(i \<notin> set (map sr_id (db_snapshots (dp_db d))) \<longrightarrow> r = Inl (snapshot_not_found i) \<and> d' = d)
    \<and> (dp_db d' = dp_db d \<and> dp_tree d' = dp_tree d \<and> (\<exists>e. r = Inl e)
       \<or> dp_db d' = without_snapshot i (dp_db d) \<and> touches (prefix (components (stored_path env i))) (\<lambda>_. False) d d')
    \<and> (\<forall>report. r = Inr report \<longrightarrow> ir_snapshot_id report = i \<and> dp_db d' = without_snapshot i (dp_db d)
         \<and> \<not> tree_exists (dp_tree d') (stored_path env i))
    \<and> (\<forall>p. r \<noteq> Inl (ConfigInvalid p REFUSED))"
proof (cases "find (\<lambda>s. sr_id s = i) (db_snapshots (dp_db d))")
  case None
  then show ?thesis using assms(2)
    by (auto simp: remove_snapshot_def dthen_def dread_def dfail_def snapshot_not_found_def REFUSED_def lit_def)
next
  case (Some s)
  then have s: "s \<in> set (db_snapshots (dp_db d))" "sr_id s = i" by (auto simp: find_Some_iff)
  with assms(1) have p: "sr_payload_path s = stored_path env i" "path_starts_with (stored_path env i) (managed_dir env)"
    using stored_below_managed by (auto simp: registry_ok_def)
  have i: "i \<in> set (map sr_id (db_snapshots (dp_db d)))" using s by auto
  show ?thesis
  proof (cases "sv_json_segments env (sr_manifest_json s)")
    case None
    with Some i assms(2) show ?thesis
      by (auto simp: remove_snapshot_def dthen_def dread_def dfail_def snapshot_not_found_def REFUSED_def lit_def)
  next
    case seg: (Some segments)
    show ?thesis
      by (rule remove_registered [OF Some seg _ assms(2)]) (use p i in \<open>simp_all add: only_time_def\<close>)
  qed
qed

end
