(* ===== verification/Snapshot_Roundtrip.thy ===== *)
theory Snapshot_Roundtrip
  imports Snapshot_Guarantees
begin

text \<open>
  Export seen from outside: the files it may touch, and that what it leaves at its destination passes every
  check of an import.
\<close>

subsection \<open>What an export touches\<close>

abbreviation export_temp :: "path \<Rightarrow> path" where
  "export_temp destination \<equiv> with_extension destination (lit ''tmp-export'')"

lemma snapshot_file_components:
  "components (payload_file p) = components p @ [Normal (lit ''payload.sqlite3'')]"
  "components (manifest_file p) = components p @ [Normal (lit ''MANIFEST.json'')]"
  unfolding payload_file_def manifest_file_def by (rule components_name; simp add: lit_def slash_def)+

lemma export_touches:
  assumes "\<And>q. prefix (components (export_temp dest)) q \<Longrightarrow> K q" "\<And>q. prefix (components dest) q \<Longrightarrow> K q"
    and "\<And>q. prefix q (components (export_temp dest)) \<Longrightarrow> A q"
  shows "keeps (touches K A) (export_snapshot env dest only)"
proof -
  have names: "K (components (payload_file (export_temp dest)))" "K (components (manifest_file (export_temp dest)))"
    by (intro assms(1); simp add: snapshot_file_components)+
  have quiet: "keeps (touches K A) (file_op env p (\<lambda>t. Inr (t, g)))" for p and g :: 'b
    by (intro only_time_touches file_op_only_time) simp
  have "keeps (touches K A) (create_payload env (payload_file (export_temp dest)))"
    unfolding create_payload_def
    by (intro files.keeps_intros) (auto split: option.split node.split intro!: files.keeps_intros write_file_touches names)
  then have "keeps (touches K A) (write_export env dest (export_temp dest) only)"
    unfolding write_export_def Let_def
    by (intro files.keeps_intros write_file_touches removal_touches reading_touches quiet names assms(1))
  then show ?thesis
    unfolding export_snapshot_def Let_def
    by (intro files.keeps_intros removal_touches reading_touches create_dir_all_touches rename_touches assms)
qed

lemma export_same_db: "keeps same_db (export_snapshot env dest only)"
proof -
  have "keeps same_db (create_payload env p)" for p
    unfolding create_payload_def
    by (intro database.keeps_intros) (auto split: option.split node.split intro!: database.keeps_intros writing_ops_same_db)
  then have "keeps same_db (write_export env dest t only)" for t
    unfolding write_export_def Let_def
    by (intro database.keeps_intros writing_ops_same_db reading_same_db file_op_same_db)
  then show ?thesis
    unfolding export_snapshot_def Let_def
    by (intro database.keeps_intros writing_ops_same_db reading_same_db)
qed

text \<open>
  C29. An export never overwrites and never writes elsewhere: an existing destination is refused before anything
  is touched, the database is only read, and apart from missing parent directories of the temporary name no
  file outside the destination and the temporary directory changes, whatever fails.
\<close>
theorem export_confined:
  assumes "export_snapshot env dest only d = (r, d')"
  shows "dp_db d' = dp_db d
    \<and> touches (\<lambda>k. prefix (components dest) k \<or> prefix (components (export_temp dest)) k)
        (\<lambda>k. prefix k (components (export_temp dest))) d d'
    \<and> (tree_exists (dp_tree d) dest \<longrightarrow>
        r = Inl (ConfigInvalid dest (lit ''snapshot destination already exists'')) \<and> d' = d)"
proof (intro conjI impI)
  show "dp_db d' = dp_db d" using keepsD [OF export_same_db assms] by (simp add: same_db_def)
  show "touches (\<lambda>k. prefix (components dest) k \<or> prefix (components (export_temp dest)) k)
        (\<lambda>k. prefix k (components (export_temp dest))) d d'"
    by (rule keepsD [OF export_touches assms]) simp_all
  assume "tree_exists (dp_tree d) dest"
  then show "r = Inl (ConfigInvalid dest (lit ''snapshot destination already exists''))" "d' = d"
    using assms by (simp_all add: export_snapshot_def dthen_read dfail_def)
qed

subsection \<open>Running without failures\<close>

text \<open>\<open>gives m d a db t\<close>: the operation succeeds with this value and leaves this database and tree.\<close>

definition gives :: "'a dx \<Rightarrow> depot \<Rightarrow> 'a \<Rightarrow> db \<Rightarrow> tree \<Rightarrow> bool" where
  "gives m d a db t \<longleftrightarrow> (\<exists>k. m d = (Inr a, \<lparr>dp_db = db, dp_tree = t, dp_tick = k\<rparr>))"

lemma gives_dthen:
  "gives m d a db t \<Longrightarrow> (\<And>k. gives (f a) \<lparr>dp_db = db, dp_tree = t, dp_tick = k\<rparr> b db' t') \<Longrightarrow> gives (dthen m f) d b db' t'"
  by (auto simp: gives_def dthen_def)

lemma gives_pure: "gives (dret a) \<lparr>dp_db = db, dp_tree = t, dp_tick = k\<rparr> a db t"
  by (simp add: gives_def dret_def)

lemma gives_dread: "gives (f (g \<lparr>dp_db = db, dp_tree = t, dp_tick = k\<rparr>)) \<lparr>dp_db = db, dp_tree = t, dp_tick = k\<rparr> b db' t' \<Longrightarrow>
   gives (dthen (dread g) f) \<lparr>dp_db = db, dp_tree = t, dp_tick = k\<rparr> b db' t'"
  by (simp add: gives_def dthen_read)

lemma gives_dlift: "r = Inr a \<Longrightarrow> gives (f a) d b db t \<Longrightarrow> gives (dthen (dlift r) f) d b db t"
  by (simp add: gives_def dthen_def dlift_def)

definition reliable :: "snapshot_env \<Rightarrow> bool" where
  "reliable env \<longleftrightarrow> (\<forall>n. sv_io_error env n = None)"

lemma gives_file_op:
  "reliable env \<Longrightarrow> f t = Inr (t', a) \<Longrightarrow> gives (file_op env p f) \<lparr>dp_db = db, dp_tree = t, dp_tick = k\<rparr> a db t'"
  by (simp add: gives_def file_op_def reliable_def)

text \<open>The tree while an export runs: what was there before, below it the files already written.\<close>

definition dir_at :: "tree \<Rightarrow> component list \<Rightarrow> bool" where
  "dir_at t k \<longleftrightarrow> (\<forall>q. q \<noteq> [] \<and> prefix q k \<longrightarrow> map_of t q = Some DirNode)"

lemma make_dirs_new:
  assumes "\<forall>q. k \<noteq> q \<and> prefix k q \<and> strict_prefix q (k @ cs @ [c]) \<longrightarrow> map_of t q = Some DirNode" "map_of t (k @ cs @ [c]) = None"
  shows "make_dirs k (cs @ [c]) t = Inr (put_node (k @ cs @ [c]) DirNode t)"
  using assms
proof (induction cs arbitrary: k)
  case (Cons x cs)
  have "map_of t (k @ [x]) = Some DirNode" using Cons.prems(1) by (auto simp: strict_prefix_def prefix_def)
  moreover have "make_dirs (k @ [x]) (cs @ [c]) t = Inr (put_node ((k @ [x]) @ cs @ [c]) DirNode t)"
    by (rule Cons.IH; use Cons.prems in \<open>auto simp: strict_prefix_def prefix_def\<close>)
  ultimately show ?case by (simp add: Let_def)
qed (simp add: Let_def)

lemma create_dir_new:
  assumes "reliable env" "components p \<noteq> []" "dir_at t (butlast (components p))" "map_of t (components p) = None"
  shows "gives (create_dir_all env p) \<lparr>dp_db = db, dp_tree = t, dp_tick = k\<rparr> () db (put_node (components p) DirNode t)"
proof -
  obtain cs c where p: "components p = cs @ [c]" using assms(2) by (metis append_butlast_last_id)
  have "make_dirs [] (cs @ [c]) t = Inr (put_node ([] @ cs @ [c]) DirNode t)"
  proof (rule make_dirs_new)
    have "prefix q cs" if "strict_prefix q (cs @ [c])" for q
      using that by (metis prefix_snoc strict_prefix_def)
    then show "\<forall>q. [] \<noteq> q \<and> prefix [] q \<and> strict_prefix q ([] @ cs @ [c]) \<longrightarrow> map_of t q = Some DirNode"
      using assms(3) by (auto simp: dir_at_def p)
  qed (use assms(4) in \<open>simp add: p\<close>)
  then show ?thesis unfolding create_dir_all_def by (intro gives_file_op assms(1)) (simp add: p)
qed

lemma write_new:
  assumes "reliable env" "map_of t (butlast (components p)) = Some DirNode"
    and "map_of t (components p) = None \<or> (\<exists>old. map_of t (components p) = Some (FileNode old))"
  shows "gives (write_file env p bs) \<lparr>dp_db = db, dp_tree = t, dp_tick = k\<rparr> () db (put_node (components p) (FileNode bs) t)"
  unfolding write_file_def
  by (rule gives_file_op [OF assms(1)]) (use assms(2,3) in \<open>auto simp: has_parent_def opened_def node_at_def\<close>)

lemma read_back:
  assumes "reliable env" "map_of t (components p) = Some (FileNode bs)"
  shows "gives (read_file env p) \<lparr>dp_db = db, dp_tree = t, dp_tick = k\<rparr> bs db t"
  unfolding read_file_def
  by (rule gives_file_op [OF assms(1)]) (use assms(2) in \<open>simp add: opened_def node_at_def\<close>)

lemma restrict_present:
  assumes "reliable env" "map_of t (components p) = Some n" "resolved n \<noteq> None"
  shows "gives (restrict env p) \<lparr>dp_db = db, dp_tree = t, dp_tick = k\<rparr> () db t"
  unfolding restrict_def
  by (rule gives_file_op [OF assms(1)]) (use assms(2,3) in \<open>simp add: tree_exists_def opened_def node_at_def\<close>)

text \<open>\<open>yields m d Q\<close>: the operation succeeds and its outcome satisfies \<open>Q\<close>.\<close>

definition yields :: "'a dx \<Rightarrow> depot \<Rightarrow> ('a \<Rightarrow> depot \<Rightarrow> bool) \<Rightarrow> bool" where
  "yields m d Q \<longleftrightarrow> (\<exists>a d'. m d = (Inr a, d') \<and> Q a d')"

lemma yields_dthen: "yields m d Q \<Longrightarrow> (\<And>a d'. Q a d' \<Longrightarrow> yields (f a) d' R) \<Longrightarrow> yields (dthen m f) d R"
  by (fastforce simp: yields_def dthen_def)

lemma yields_gives: "gives m d a db t \<Longrightarrow> (\<And>k. yields (f a) \<lparr>dp_db = db, dp_tree = t, dp_tick = k\<rparr> R) \<Longrightarrow> yields (dthen m f) d R"
  by (auto simp: yields_def gives_def dthen_def)

lemma yields_dread: "yields (f (g d)) d R \<Longrightarrow> yields (dthen (dread g) f) d R"
  by (simp add: yields_def dthen_read)

lemma yields_dlift: "r = Inr a \<Longrightarrow> yields (f a) d R \<Longrightarrow> yields (dthen (dlift r) f) d R"
  by (simp add: yields_def dthen_def dlift_def)

lemma yields_dret: "Q a d \<Longrightarrow> yields (dret a) d Q"
  by (simp add: yields_def dret_def)

lemma yields_mono: "yields m d Q \<Longrightarrow> (\<And>a d'. Q a d' \<Longrightarrow> R a d') \<Longrightarrow> yields m d R"
  by (auto simp: yields_def)

definition stamp :: "snapshot_env \<Rightarrow> nat \<Rightarrow> int" where
  "stamp env n = (case try_from_system_time (sv_clock env n) of Inr t \<Rightarrow> t | Inl _ \<Rightarrow> 0)"

lemma now_or_zero_gives: "gives (now_or_zero env) \<lparr>dp_db = db, dp_tree = t, dp_tick = k\<rparr> (stamp env k) db t"
  by (simp add: gives_def now_or_zero_def dthen_def dtick_def dret_def stamp_def)

subsection \<open>An export that succeeds\<close>

definition manifest_at :: "snapshot_env \<Rightarrow> payload \<Rightarrow> nat \<Rightarrow> manifest" where
  "manifest_at env p n = manifest_of env (stamp env n) (blake3_hex (sv_blake3 env) (sv_write_payload env p))
     (list_payload_roots p) (count_payload p)"

text \<open>What the libraries owe to the files of an export: the texts and tables read back as they were written.\<close>

definition faithful_files :: "snapshot_env \<Rightarrow> payload \<Rightarrow> bool" where
  "faithful_files env p \<longleftrightarrow> length (sv_write_payload env p) \<le> MAX_SNAPSHOT_BYTES
     \<and> sv_read_payload env (sv_write_payload env p) = view_of p
     \<and> (\<forall>n. \<exists>json. sv_pretty_json env (manifest_at env p n) = Inr json \<and> length (as_bytes json) \<le> MAX_SNAPSHOT_BYTES
          \<and> from_utf8 (as_bytes json) = Some json \<and> sv_parse_json env json = Inr (manifest_at env p n))"

definition exported_tree :: "component list \<Rightarrow> bytes \<Rightarrow> bytes \<Rightarrow> tree \<Rightarrow> tree" where
  "exported_tree k payload manifest t = (k @ [Normal (lit ''MANIFEST.json'')], FileNode manifest)
     # (k @ [Normal (lit ''payload.sqlite3'')], FileNode payload) # (k, DirNode) # t"

definition clear_of :: "tree \<Rightarrow> component list \<Rightarrow> bool" where
  "clear_of t k \<longleftrightarrow> (\<forall>q \<in> fst ` set t. \<not> prefix k q)"

lemma clear_map_of: "clear_of t k \<Longrightarrow> prefix k q \<Longrightarrow> map_of t q = None"
  by (metis clear_of_def map_of_eq_None_iff)

lemma clear_filter: "clear_of t k \<Longrightarrow> filter (\<lambda>(q, _). q \<noteq> k @ r) t = t"
  by (auto simp: filter_id_conv clear_of_def)

lemma create_payload_new:
  assumes "reliable env" "map_of t (components temp) = Some DirNode" "map_of t (components (payload_file temp)) = None"
  shows "gives (create_payload env (payload_file temp)) \<lparr>dp_db = db, dp_tree = t, dp_tick = k\<rparr> () db
     (put_node (components (payload_file temp)) (FileNode (sv_partial_payload env)) t)"
  unfolding create_payload_def
proof (rule gives_dread)
  note assms(3)
  moreover have "map_of t (butlast (components (payload_file temp))) = Some DirNode" using assms(2) by (simp add: snapshot_file_components)
  ultimately show "gives (case opened (dp_tree \<lparr>dp_db = db, dp_tree = t, dp_tick = k\<rparr>) (payload_file temp) of
      Some (FileNode bs) \<Rightarrow> (case sv_create_tables env bs of Some e \<Rightarrow> dfail (ConfigIo (payload_file temp) (lit ''database error: '' @ e)) | None \<Rightarrow> dret ())
    | _ \<Rightarrow> write_file env (payload_file temp) (sv_partial_payload env)) \<lparr>dp_db = db, dp_tree = t, dp_tick = k\<rparr> () db
     (put_node (components (payload_file temp)) (FileNode (sv_partial_payload env)) t)"
    by (simp add: opened_def node_at_def write_new assms(1))
qed

lemma names_differ: "lit ''payload.sqlite3'' \<noteq> lit ''MANIFEST.json''"
  by (simp add: lit_def)

lemma write_export_yields:
  assumes "reliable env" "clear_of t (components temp)" "build_payload (sv_id_text env) db only = Inr p" "faithful_files env p"
  shows "yields (write_export env dest temp only) \<lparr>dp_db = db, dp_tree = (components temp, DirNode) # t, dp_tick = k\<rparr>
     (\<lambda>(m, checksum) d'. \<exists>n json. m = manifest_at env p n \<and> checksum = blake3_hex (sv_blake3 env) (sv_write_payload env p)
        \<and> sv_pretty_json env m = Inr json \<and> dp_db d' = db
        \<and> dp_tree d' = exported_tree (components temp) (sv_write_payload env p) (as_bytes json) t)"
proof -
  let ?kt = "components temp" and ?bs = "sv_write_payload env p"
  let ?kp = "components (payload_file temp)" and ?km = "components (manifest_file temp)"
  let ?t1 = "(?kt, DirNode) # t" and ?t2 = "(?kp, FileNode ?bs) # (?kt, DirNode) # t"
  note k = snapshot_file_components names_differ
  have free: "map_of t ?kp = None" "map_of t ?km = None" "?kp \<noteq> ?kt" "?km \<noteq> ?kt" "?kp \<noteq> ?km"
    "butlast ?kp = ?kt" "butlast ?km = ?kt"
    using clear_map_of [OF assms(2)] by (simp_all add: k)
  have same: "filter (\<lambda>(q, _). q \<noteq> ?kp) t = t" "filter (\<lambda>(q, _). q \<noteq> ?km) t = t"
    using clear_filter [OF assms(2)] by (simp_all only: k)
  have put: "put_node ?kp (FileNode b) ?t1 = (?kp, FileNode b) # ?t1"
    "put_node ?kp (FileNode b) ((?kp, FileNode b') # ?t1) = (?kp, FileNode b) # ?t1"
    "put_node ?km (FileNode b) ?t2 = exported_tree ?kt ?bs b t" for b b'
    using free(3-5) by (simp_all add: put_node_def same exported_tree_def k(1,2) [symmetric])
  have neq: "?kt \<noteq> ?kp" "?kt \<noteq> ?km" using free by metis+
  have create: "gives (create_payload env (payload_file temp)) \<lparr>dp_db = db, dp_tree = ?t1, dp_tick = j\<rparr> () db
     ((?kp, FileNode (sv_partial_payload env)) # ?t1)" for j
    using create_payload_new [OF assms(1), of ?t1 temp db j] free neq by (simp add: put(1))
  have payload: "gives (write_file env (payload_file temp) ?bs)
     \<lparr>dp_db = db, dp_tree = (?kp, FileNode b) # ?t1, dp_tick = j\<rparr> () db ?t2" for b j
    using write_new [OF assms(1), of "(?kp, FileNode b) # ?t1" "payload_file temp" ?bs db j] free neq by (simp add: put(2))
  have manifest: "gives (write_file env (manifest_file temp) b) \<lparr>dp_db = db, dp_tree = ?t2, dp_tick = j\<rparr> () db (exported_tree ?kt ?bs b t)" for b j
    using write_new [OF assms(1), of ?t2 "manifest_file temp" b db j] free neq by (simp add: put(3))
  have restricted: "gives (restrict env (payload_file temp)) \<lparr>dp_db = db, dp_tree = exported_tree ?kt ?bs b t, dp_tick = j\<rparr> () db (exported_tree ?kt ?bs b t)"
    "gives (restrict env (manifest_file temp)) \<lparr>dp_db = db, dp_tree = exported_tree ?kt ?bs b t, dp_tick = j\<rparr> () db (exported_tree ?kt ?bs b t)" for b j
    by (rule restrict_present [OF assms(1), where n = "FileNode ?bs"] restrict_present [OF assms(1), where n = "FileNode b"];
      simp add: exported_tree_def k)+
  have size: "\<not> length ?bs > MAX_SNAPSHOT_BYTES" using assms(4) by (simp add: faithful_files_def)
  let ?Q = "\<lambda>c (m, checksum) d'. \<exists>n json. m = manifest_at env p n \<and> checksum = c \<and> sv_pretty_json env m = Inr json \<and> dp_db d' = db
     \<and> dp_tree d' = exported_tree ?kt ?bs (as_bytes json) t"
  have fin: "yields (dthen (dlift (map_err (ConfigInvalid (manifest_file temp)) (sv_pretty_json env (manifest_at env p n)))) (\<lambda>json.
        dthen (write_file env (manifest_file temp) (as_bytes json)) (\<lambda>_.
        dthen (restrict env (payload_file temp)) (\<lambda>_. dthen (restrict env (manifest_file temp)) (\<lambda>_.
          dret (manifest_at env p n, c)))))) \<lparr>dp_db = db, dp_tree = ?t2, dp_tick = j\<rparr> (?Q c)" for n c j
  proof -
    obtain json where json: "sv_pretty_json env (manifest_at env p n) = Inr json" using assms(4) by (auto simp: faithful_files_def)
    then have "map_err (ConfigInvalid (manifest_file temp)) (sv_pretty_json env (manifest_at env p n)) = Inr json" by simp
    then show ?thesis
      by (rule yields_dlift, intro yields_gives [OF manifest] yields_gives [OF restricted(1)] yields_gives [OF restricted(2)] yields_dret)
        (use json in auto)
  qed
  have look: "gives (file_op env q (\<lambda>t. Inr (t, g))) \<lparr>dp_db = db, dp_tree = ?t2, dp_tick = j\<rparr> g db ?t2" for q j and g :: 'b
    by (rule gives_file_op [OF assms(1)]) (rule refl)
  have bytes: "gives (read_file env (payload_file temp)) \<lparr>dp_db = db, dp_tree = ?t2, dp_tick = j\<rparr> ?bs db ?t2" for j
    by (rule read_back [OF assms(1)]) simp
  show ?thesis
    unfolding write_export_def Let_def
    apply (rule yields_gives [OF create], rule yields_dread, simp only: depot.select_convs)
    apply (rule yields_dlift [where a = p], simp add: assms(3))
    apply (rule yields_gives [OF payload], rule yields_gives [OF bytes], simp only: size if_False)
    apply (rule yields_gives [OF look], rule yields_gives [OF look], rule yields_gives [OF now_or_zero_gives])
    apply (simp only: manifest_at_def [symmetric], rule fin)
    done
qed


text \<open>The moved directory.\<close>

lemma move_below_clear: "clear_of t a \<Longrightarrow> move_below a b t = t"
  by (force simp: move_below_def clear_of_def intro!: map_idI split: prod.split)

lemma move_below_any:
  "move_below a b ((q, n) # t) = (if prefix a q then b @ drop (length a) q else q, n) # move_below a b t"
  by (simp add: move_below_def)

lemma move_exported: "clear_of t a \<Longrightarrow> move_below a b (exported_tree a payload manifest t) = exported_tree b payload manifest t"
  by (simp add: exported_tree_def move_below_any move_below_clear)

lemma exported_tree_outside: "\<not> prefix k q \<Longrightarrow> map_of (exported_tree k payload manifest t) q = map_of t q"
  by (auto simp: exported_tree_def)

lemma rename_exported:
  assumes "reliable env" "components a \<parallel> components b" "clear_of t (components a)" "clear_of t (components b)"
    and "length (components b) \<le> 1 \<or> map_of t (butlast (components b)) = Some DirNode"
  shows "gives (rename_node env a b) \<lparr>dp_db = db, dp_tree = exported_tree (components a) payload manifest t, dp_tick = k\<rparr> () db
     (exported_tree (components b) payload manifest t)"
proof -
  let ?t = "exported_tree (components a) payload manifest t"
  have np: "\<not> prefix (components a) (components b)" "components a \<noteq> components b" using assms(2) by auto
  then have "\<not> prefix (components a) (butlast (components b))"
    using prefixeq_butlast prefix_order.trans by blast
  then have "has_parent ?t b" using assms(5) by (auto simp: has_parent_def exported_tree_outside)
  moreover have "node_at ?t b = None" using np(1) clear_map_of [OF assms(4)] by (simp add: node_at_def exported_tree_outside)
  moreover have "node_at ?t a = Some DirNode" by (simp add: node_at_def exported_tree_def)
  ultimately show ?thesis unfolding rename_node_def Let_def
    by (intro gives_file_op [OF assms(1)]) (simp add: np move_exported [OF assms(3)])
qed

text \<open>A place where an export can go: nothing is there or at the temporary name, and the directories above exist.\<close>

definition free_place :: "tree \<Rightarrow> path \<Rightarrow> bool" where
  "free_place t dest \<longleftrightarrow> components dest \<noteq> [] \<and> components (export_temp dest) \<noteq> []
     \<and> components (export_temp dest) \<parallel> components dest \<and> clear_of t (components dest) \<and> clear_of t (components (export_temp dest))
     \<and> dir_at t (butlast (components dest)) \<and> dir_at t (butlast (components (export_temp dest)))"

lemma export_yields:
  assumes "reliable env" "free_place t dest" "build_payload (sv_id_text env) db only = Inr p" "faithful_files env p"
  shows "yields (export_snapshot env dest only) \<lparr>dp_db = db, dp_tree = t, dp_tick = k\<rparr>
     (\<lambda>report d'. \<exists>n json. sv_pretty_json env (manifest_at env p n) = Inr json \<and> dp_db d' = db
        \<and> dp_tree d' = exported_tree (components dest) (sv_write_payload env p) (as_bytes json) t
        \<and> report = \<lparr>xr_path = dest, xr_payload_checksum = mf_payload_checksum (manifest_at env p n),
             xr_roots = length (pd_roots p), xr_segments = int (length (pd_segments p))\<rparr>)"
proof -
  let ?temp = "export_temp dest"
  let ?kt = "components ?temp" and ?kd = "components dest"
  from assms(2) have c: "clear_of t ?kt" "clear_of t ?kd" and par: "?kt \<parallel> ?kd" and ne: "?kt \<noteq> []" "?kd \<noteq> []"
    and dirs: "dir_at t (butlast ?kt)" "dir_at t (butlast ?kd)" by (simp_all add: free_place_def)
  have none: "map_of t ?kt = None" "map_of t ?kd = None" using clear_map_of c by blast+
  then have absent: "\<not> tree_exists t dest" "\<not> tree_exists t ?temp" by (simp_all add: tree_exists_def opened_def node_at_def)
  have mk: "gives (create_dir_all env ?temp) \<lparr>dp_db = db, dp_tree = t, dp_tick = j\<rparr> () db ((?kt, DirNode) # t)" for j
    using create_dir_new [OF assms(1) ne(1) dirs(1) none(1)] clear_filter [OF c(1), of "[]"] by (simp add: put_node_def)
  have above: "length ?kd \<le> 1 \<or> map_of t (butlast ?kd) = Some DirNode"
    using dirs(2) by (cases "butlast ?kd = []") (auto simp: dir_at_def butlast_conv_take)
  have res: "gives (restrict env dest) \<lparr>dp_db = db, dp_tree = exported_tree ?kd b j t, dp_tick = i\<rparr> () db (exported_tree ?kd b j t)" for b j i
    by (rule restrict_present [OF assms(1), where n = DirNode]) (simp_all add: exported_tree_def)
  note move = rename_exported [OF assms(1) par c above]
  let ?Q = "\<lambda>report d'. \<exists>n json. sv_pretty_json env (manifest_at env p n) = Inr json \<and> dp_db d' = db
     \<and> dp_tree d' = exported_tree ?kd (sv_write_payload env p) (as_bytes json) t
     \<and> report = \<lparr>xr_path = dest, xr_payload_checksum = mf_payload_checksum (manifest_at env p n),
          xr_roots = length (pd_roots p), xr_segments = int (length (pd_segments p))\<rparr>"
  have fin: "yields (dthen (rename_node env ?temp dest) (\<lambda>_. dthen (restrict env dest) (\<lambda>_.
         dret \<lparr>xr_path = dest, xr_payload_checksum = checksum, xr_roots = length (mf_roots m), xr_segments = sn_segments (mf_counts m)\<rparr>))) d' ?Q"
    if "m = manifest_at env p n" "checksum = blake3_hex (sv_blake3 env) (sv_write_payload env p)" "sv_pretty_json env m = Inr json"
      "dp_db d' = db" "dp_tree d' = exported_tree ?kt (sv_write_payload env p) (as_bytes json) t" for m checksum n json d'
  proof -
    from that(4,5) obtain j where d': "d' = \<lparr>dp_db = db, dp_tree = exported_tree ?kt (sv_write_payload env p) (as_bytes json) t, dp_tick = j\<rparr>"
      by (cases d') simp
    show ?thesis unfolding d'
      by (intro yields_gives [OF move] yields_gives [OF res] yields_dret)
        (use that(1-3) in \<open>auto simp: manifest_at_def manifest_of_def list_payload_roots_def count_payload_def\<close>)
  qed
  show ?thesis
    unfolding export_snapshot_def Let_def
    apply (rule yields_dread, simp only: depot.select_convs absent if_False)
    apply (rule yields_dread, simp only: depot.select_convs absent if_False)
    apply (rule yields_gives [OF gives_pure], rule yields_gives [OF mk])
    apply (rule yields_dthen [OF write_export_yields [OF assms(1) c(1) assms(3,4)]])
    apply (simp only: split_paired_all case_prod_conv, elim exE conjE, rule fin, assumption+)
    done
qed

subsection \<open>The checks of an import\<close>

lemma dir_entries_exported:
  assumes "clear_of t (components dest)" "components dest \<noteq> []"
  shows "dir_entries (exported_tree (components dest) b j t) dest
    = [(lit ''MANIFEST.json'', FileNode j), (lit ''payload.sqlite3'', FileNode b)]"
proof -
  have "\<not> (q \<noteq> [] \<and> butlast q = components dest)" if "(q, n) \<in> set t" for q n
    using assms(1) that unfolding clear_of_def by (metis fst_conv image_eqI prefixeq_butlast)
  then have "concat (map (\<lambda>(q, n). if q \<noteq> [] \<and> butlast q = components dest then [(as_os_str (last q), n)] else []) t) = []"
    by (auto split: prod.splits)
  moreover have "butlast (components dest) \<noteq> components dest" using assms(2) by (metis append_butlast_last_id append_self_conv list.distinct(1))
  ultimately show ?thesis by (simp add: dir_entries_def exported_tree_def)
qed

lemma validate_payload_database_cong:
  "opens path = opens' path \<Longrightarrow> validate_payload_database opens path m = validate_payload_database opens' path m"
  by (simp add: validate_payload_database_def open_snapshot_readonly_def)

lemma complete_mapping_validates:
  assumes "complete_mapping env m db maps" "distinct (map rd_snapshot_root_id (mf_roots m))"
  shows "validate_maps env dir m db {} {} maps = Inr ()" "maps \<noteq> []" "length maps = length (mf_roots m)"
proof -
  show "validate_maps env dir m db {} {} maps = Inr ()" "maps \<noteq> []"
    using assms(1) by (auto simp: complete_mapping_def validate_maps_Inr)
  have "card (set (map fst maps)) = card (set (map rd_snapshot_root_id (mf_roots m)))"
    "distinct (map fst maps)" using assms(1) by (simp_all only: complete_mapping_def)
  then show "length maps = length (mf_roots m)" using assms(2) by (metis distinct_card length_map)
qed

lemma validate_exported:
  assumes "reliable env" "clear_of t (components dest)" "components dest \<noteq> []"
    and "length b \<le> MAX_SNAPSHOT_BYTES" "length j \<le> MAX_SNAPSHOT_BYTES"
  shows "gives (validate_snapshot_tree env dest) \<lparr>dp_db = db, dp_tree = exported_tree (components dest) b j t, dp_tick = k\<rparr> () db
     (exported_tree (components dest) b j t)"
proof -
  let ?t = "exported_tree (components dest) b j t"
  have look: "gives (file_op env q (\<lambda>t. Inr (t, g t))) \<lparr>dp_db = db, dp_tree = ?t, dp_tick = i\<rparr> (g ?t) db ?t"
    for q i and g :: "tree \<Rightarrow> 'b"
    by (rule gives_file_op [OF assms(1)]) (rule refl)
  have probe: "gives (probe env q) \<lparr>dp_db = db, dp_tree = ?t, dp_tick = i\<rparr> () db ?t" for q i
    unfolding probe_def by (rule gives_file_op [OF assms(1)]) (rule refl)
  have here: "gives (file_op env dest (\<lambda>t. case node_at t dest of None \<Rightarrow> Inl NOT_FOUND | Some n \<Rightarrow> Inr (t, n)))
     \<lparr>dp_db = db, dp_tree = ?t, dp_tick = i\<rparr> DirNode db ?t" for i
    by (rule gives_file_op [OF assms(1)]) (simp add: node_at_def exported_tree_def)
  have files: "tree_is_file ?t (manifest_file dest)" "tree_is_file ?t (payload_file dest)"
    by (simp_all add: tree_is_file_def opened_def node_at_def exported_tree_def snapshot_file_components names_differ)
  have entry: "gives (validate_entries env dest n (e # es)) \<lparr>dp_db = db, dp_tree = ?t, dp_tick = i\<rparr> () db ?t"
    if "n < 8" "validate_entry dest e = Inr ()" "validate_size dest e = Inr ()"
      "\<And>i. gives (validate_entries env dest (Suc n) es) \<lparr>dp_db = db, dp_tree = ?t, dp_tick = i\<rparr> () db ?t" for n e es i
  proof -
    have few: "\<not> Suc n > 8" using that(1) by simp
    show ?thesis
      by (simp only: validate_entries.simps few if_False)
        (intro gives_dthen [OF probe] gives_dlift [OF that(2)] gives_dlift [OF that(3)] that(4))
  qed
  have ok: "validate_entry dest (lit ''MANIFEST.json'', FileNode j) = Inr ()" "validate_entry dest (lit ''payload.sqlite3'', FileNode b) = Inr ()"
    "validate_size dest (lit ''MANIFEST.json'', FileNode j) = Inr ()" "validate_size dest (lit ''payload.sqlite3'', FileNode b) = Inr ()"
    using assms(4,5) by (simp_all add: validate_entry_def validate_size_def)
  have "gives (validate_entries env dest 0 (dir_entries ?t dest)) \<lparr>dp_db = db, dp_tree = ?t, dp_tick = i\<rparr> () db ?t" for i
    unfolding dir_entries_exported [OF assms(2,3)]
    by (intro entry ok) (simp_all add: gives_pure)
  note entries = this
  show ?thesis
    unfolding validate_snapshot_tree_def
    apply (rule gives_dthen [OF here], simp only: simp_thms if_False)
    apply (rule gives_dthen [OF look], rule gives_dthen [OF entries], rule gives_dread)
    apply (simp only: depot.select_convs files simp_thms if_False, rule gives_pure)
    done
qed

lemma check_exported:
  assumes "reliable env" "clear_of t (components dest)" "components dest \<noteq> []" "faithful_files env p" "m = manifest_at env p n"
    and "sv_pretty_json env m = Inr json" "sv_uri_path env (payload_file dest) = payload_file dest"
    and "validate_manifest_compatibility m dest = Inr ()" "complete_mapping env m db maps"
    and "validate_payload_database (\<lambda>_. Inr (view_of p)) (payload_file dest) m = Inr ()"
  shows "gives (check_import env dest maps)
     \<lparr>dp_db = db, dp_tree = exported_tree (components dest) (sv_write_payload env p) (as_bytes json) t, dp_tick = k\<rparr> m db
     (exported_tree (components dest) (sv_write_payload env p) (as_bytes json) t)"
proof -
  let ?b = "sv_write_payload env p" and ?j = "as_bytes json"
  let ?t = "exported_tree (components dest) ?b ?j t"
  have f: "length ?b \<le> MAX_SNAPSHOT_BYTES" "sv_read_payload env ?b = view_of p" "length ?j \<le> MAX_SNAPSHOT_BYTES"
    "from_utf8 ?j = Some json" "sv_parse_json env json = Inr m"
    using assms(4-6) by (auto simp: faithful_files_def) (metis sum.inject(2))+
  have at: "map_of ?t (components (manifest_file dest)) = Some (FileNode ?j)" "map_of ?t (components (payload_file dest)) = Some (FileNode ?b)"
    by (simp_all add: exported_tree_def snapshot_file_components names_differ)
  have manifest: "gives (read_manifest env dest) \<lparr>dp_db = db, dp_tree = ?t, dp_tick = i\<rparr> m db ?t" for i
    unfolding read_manifest_def Let_def
    apply (rule gives_dthen [OF read_back [OF assms(1) at(1)]], rule gives_dlift [where a = json])
     apply (simp add: f(4))
    apply (simp add: f(5) gives_def dlift_def)
    done
  have "open_payload env ?t (payload_file dest) = Inr (view_of p)"
    by (simp add: open_payload_def assms(7) opened_def node_at_def at(2) f(2))
  then have payload: "validate_payload_database (open_payload env ?t) (payload_file dest) m = Inr ()"
    using assms(10) validate_payload_database_cong [of "open_payload env ?t" "payload_file dest" "\<lambda>_. Inr (view_of p)" m] by simp
  have sum: "blake3_hex (sv_blake3 env) ?b = mf_payload_checksum m" by (simp add: assms(5) manifest_at_def manifest_of_def)
  note maps = complete_mapping_validates [OF assms(9) validate_manifest_distinct [OF assms(8)]]
  show ?thesis
    unfolding check_import_def
    apply (rule gives_dthen [OF validate_exported [OF assms(1-3) f(1,3)]], rule gives_dthen [OF manifest], rule gives_dlift [OF assms(8)])
    apply (rule gives_dthen [OF read_back [OF assms(1) at(2)]], simp only: sum maps(2,3) simp_thms if_False)
    apply (rule gives_dread, simp only: depot.select_convs, rule gives_dlift [OF maps(1)])
    apply (rule gives_dread, simp only: depot.select_convs, rule gives_dlift [OF payload], rule gives_pure)
    done
qed


end
