(* ===== verification/Snapshot_Witnesses.thy ===== *)
theory Snapshot_Witnesses
  imports Snapshot_Roundtrip Storage_Properties
begin

text \<open>
  The guarantees of snapshots at a small index: one root with one file of one segment, exported to an empty
  tree.
\<close>

definition tally :: "uuid \<Rightarrow> ustring" where "tally i = replicate (Suc i) 65"

lemma tally_inj: "inj tally"
  unfolding tally_def inj_def by (metis length_replicate nat.inject)

lemma tally_not_nil: "tally i \<noteq> []"
  by (simp add: tally_def)

definition note_payload :: payload where
  "note_payload = \<lparr>
     pd_roots = map (\<lambda>r. \<lparr>pr_id = tally (rt_id r), pr_display_name = rt_display_name r\<rparr>) (exported_roots note_db None),
     pd_source_files = source_rows tally note_db (exported_ids note_db None),
     pd_revisions = revision_rows tally note_db (exported_ids note_db None),
     pd_segments = map fst (segment_rows tally note_db (exported_ids note_db None)),
     pd_segments_fts = map snd (segment_rows tally note_db (exported_ids note_db None))\<rparr>"

lemma note_payload: "build_payload tally note_db None = Inr note_payload"
  unfolding note_payload_def by (rule build_payload_Inr [OF note_db_ok tally_inj])

lemma note_exported: "exported_roots note_db None = [note_root]"
  by (simp add: exported_roots_def note_defs)

definition note_env :: snapshot_env where
  "note_env = \<lparr>sv_io_error = \<lambda>_. None, sv_id_text = tally,
     sv_parse_id = \<lambda>s. if s \<noteq> [] \<and> set s = {65} then Some (length s - 1) else None,
     sv_new_id = \<lambda>_. lit ''n'', sv_clock = \<lambda>_. 0, sv_blake3 = \<lambda>_. [], sv_version = [],
     sv_write_payload = \<lambda>_. [], sv_partial_payload = [], sv_create_tables = \<lambda>_. None,
     sv_read_payload = \<lambda>_. view_of note_payload, sv_uri_path = id, sv_pretty_json = \<lambda>_. Inr [], sv_json = \<lambda>_. Inr [],
     sv_parse_json = \<lambda>_. Inr (manifest_of \<lparr>sv_io_error = \<lambda>_. None, sv_id_text = tally, sv_parse_id = \<lambda>_. None,
       sv_new_id = \<lambda>_. [], sv_clock = \<lambda>_. 0, sv_blake3 = \<lambda>_. [], sv_version = [],
       sv_write_payload = \<lambda>_. [], sv_partial_payload = [], sv_create_tables = \<lambda>_. None,
       sv_read_payload = \<lambda>_. view_of note_payload, sv_uri_path = id, sv_pretty_json = \<lambda>_. Inr [], sv_json = \<lambda>_. Inr [],
       sv_parse_json = \<lambda>_. Inl [], sv_json_segments = \<lambda>_. None, sv_main_path = [], sv_sql_text = \<lambda>_. []\<rparr>
       0 (blake3_hex (\<lambda>_. []) []) (list_payload_roots note_payload) (count_payload note_payload)),
     sv_json_segments = \<lambda>_. Some (Some 1), sv_main_path = lit ''i'', sv_sql_text = \<lambda>_. []\<rparr>"

lemma note_env_reliable: "reliable note_env"
  by (simp add: reliable_def note_env_def)

lemma note_env_simps:
  "sv_id_text note_env = tally" "sv_write_payload note_env = (\<lambda>_. [])" "sv_read_payload note_env = (\<lambda>_. view_of note_payload)"
  "sv_pretty_json note_env = (\<lambda>_. Inr [])" "sv_json note_env = (\<lambda>_. Inr [])" "sv_uri_path note_env = id" "stamp note_env n = 0"
  "sv_new_id note_env n = lit ''n''" "sv_parse_json note_env j = Inr (manifest_at note_env note_payload 0)"
  "sv_main_path note_env = lit ''i''" "sv_parse_id note_env (tally i) = Some i" "sv_json_segments note_env = (\<lambda>_. Some (Some 1))"
  by (simp_all add: note_env_def stamp_def manifest_at_def manifest_of_def tally_def try_from_system_time_def set_replicate_conv_if)

lemma note_faithful: "faithful_files note_env note_payload"
  by (simp add: faithful_files_def note_env_simps as_bytes_def manifest_at_def MAX_SNAPSHOT_BYTES_def from_utf8.simps)

lemma note_free: "free_place [] (lit ''s'')"
  unfolding free_place_def clear_of_def dir_at_def
  by (simp add: with_extension_def lit_def components_def is_absolute_def slash_def file_name_def extension_def path_parent_def
      path_of_components_def path_join_def Let_def parallel_def)

lemma note_segments: "length (pd_segments note_payload) = 1"
  unfolding note_payload_def note_exported
  by (simp add: segment_rows_def exported_segments_def exported_sources_def note_defs)

lemma note_sources: "\<forall>s \<in> set (db_source_files note_db). sf_state s = Active \<and> sf_root_id s \<in> set (exported_ids note_db None) \<longrightarrow>
    sf_current_revision_id s \<noteq> None \<and> \<not> unsafe_relative (sf_relative_path s)"
  unfolding note_exported
  by (simp add: note_defs unsafe_relative_def is_parent_or_root_def lit_def components_def is_absolute_def slash_def)


lemma note_components: "components (lit ''s'') = [Normal (lit ''s'')]" "lit ''s'' = [115]"
  by (simp_all add: lit_def components_def is_absolute_def slash_def)

definition note_depot :: depot where
  "note_depot = \<lparr>dp_db = note_db, dp_tree = exported_tree [Normal (lit ''s'')] [] [] [], dp_tick = 0\<rparr>"

lemma note_registry: "registry_ok note_env note_db"
  by (simp add: registry_ok_def note_defs)

lemma note_mapping: "complete_mapping note_env (manifest_at note_env note_payload 0) note_db [(tally 1, tally 1)]"
  unfolding complete_mapping_def manifest_at_def manifest_of_def note_payload_def note_exported
  by (simp add: list_payload_roots_def note_env_simps note_root_def note_db_def)

lemma note_new_ids: "\<forall>n. slash \<notin> set (sv_new_id note_env n)"
  by (simp add: note_env_simps lit_def slash_def)

lemma note_clock: "sv_clock note_env n = 0"
  by (simp add: note_env_def)

lemma note_env_quiet: "sv_io_error note_env n = None"
  by (simp add: note_env_def)

lemma note_valid:
  "validate_payload_database (\<lambda>_. Inr (view_of note_payload)) path (manifest_at note_env note_payload 0) = Inr ()"
  "validate_manifest_compatibility (manifest_at note_env note_payload 0) dir = Inr ()"
  using export_is_importable [OF note_db_ok tally_inj _ note_payload manifest_at_def [of note_env note_payload 0, unfolded note_env_simps]]
    note_sources note_segments by (simp_all add: tally_not_nil manifest_at_def note_env_simps)

lemma note_checked:
  "gives (check_import note_env (lit ''s'') [(tally 1, tally 1)]) note_depot (manifest_at note_env note_payload 0) note_db (dp_tree note_depot)"
proof -
  have "gives (check_import note_env (lit ''s'') [(tally 1, tally 1)])
     \<lparr>dp_db = note_db, dp_tree = exported_tree (components (lit ''s'')) (sv_write_payload note_env note_payload) (as_bytes []) [], dp_tick = 0\<rparr>
     (manifest_at note_env note_payload 0) note_db (exported_tree (components (lit ''s'')) (sv_write_payload note_env note_payload) (as_bytes []) [])"
    by (rule check_exported [OF note_env_reliable _ _ note_faithful refl _ _ note_valid(2) note_mapping note_valid(1)])
      (simp_all add: clear_of_def note_components(1) note_env_simps)
  then show ?thesis by (simp add: note_depot_def note_components(1) note_env_simps as_bytes_def)
qed

lemma note_managed: "components (managed_dir note_env) = [Normal (lit ''snapshots'')]"
  by (simp add: managed_dir_def note_env_simps path_parent_def path_join_def components_def is_absolute_def lit_def slash_def
      path_of_components_def)

lemma note_paths: "components (temp_path note_env (lit ''n'')) = [Normal (lit ''snapshots''), Normal (lit ''.n.tmp'')]"
  "components (stored_path note_env (lit ''n'')) = [Normal (lit ''snapshots''), Normal (lit ''n.sqlite3'')]"
  using managed_components [of "lit ''n''" note_env] by (simp_all add: note_managed) (simp_all add: lit_def slash_def)

lemma note_staged:
  "opens p = Inr (view_of note_payload) \<Longrightarrow> validate_payload_database opens p (manifest_at note_env note_payload 0) = Inr ()"
  using note_valid(1) [of p] validate_payload_database_cong [of opens p "\<lambda>_. Inr (view_of note_payload)"] by simp

definition note_row :: snapshot_row where
  "note_row = \<lparr>sr_id = lit ''n'', sr_logical_name = lit ''imported'', sr_format_version = 1, sr_imported_at_ms = 0,
     sr_payload_path = temp_path note_env (lit ''n''), sr_manifest_json = [],
     sr_checksum = mf_payload_checksum (manifest_at note_env note_payload 0)\<rparr>"

definition note_map :: snapshot_root_map where
  "note_map = \<lparr>sm_snapshot_id = lit ''n'', sm_snapshot_root_id = tally 1, sm_local_root_id = 1\<rparr>"

definition note_imported :: db where
  "note_imported = note_db\<lparr>db_snapshots := [note_row], db_snapshot_root_maps := [note_map]\<rparr>"

lemma note_import:
  "\<exists>r d'. import_snapshot note_env (lit ''s'') [(tally 1, tally 1)] note_depot = (Inr r, d') \<and> ir_snapshot_id r = lit ''n''"
proof -
  let ?i = "lit ''n''" and ?m = "manifest_at note_env note_payload 0"
  let ?t0 = "dp_tree note_depot"
  let ?t1 = "([Normal (lit ''snapshots'')], DirNode) # ?t0"
  let ?t2 = "(components (temp_path note_env ?i), FileNode []) # ?t1"
  have t0: "?t0 = [([Normal (lit ''s''), Normal (lit ''MANIFEST.json'')], FileNode []),
      ([Normal (lit ''s''), Normal (lit ''payload.sqlite3'')], FileNode []), ([Normal (lit ''s'')], DirNode)]"
    by (simp add: note_depot_def exported_tree_def)
  have names: "lit ''s'' \<noteq> lit ''snapshots''" "lit ''.n.tmp'' \<noteq> lit ''n.sqlite3''" "lit ''snapshots'' \<noteq> lit ''s''"
    "lit ''n.sqlite3'' \<noteq> lit ''.n.tmp''" by (simp_all add: lit_def)
  have tick: "gives dtick \<lparr>dp_db = note_db, dp_tree = ?t0, dp_tick = k\<rparr> k note_db ?t0" for k
    by (simp add: gives_def dtick_def)
  have probe: "gives (probe note_env p) \<lparr>dp_db = note_db, dp_tree = t, dp_tick = k\<rparr> () note_db t" for p t k
    unfolding probe_def by (rule gives_file_op [OF note_env_reliable]) (rule refl)
  have mk: "gives (create_dir_all note_env (managed_dir note_env)) \<lparr>dp_db = note_db, dp_tree = ?t0, dp_tick = k\<rparr> () note_db ?t1" for k
    using create_dir_new [OF note_env_reliable, of "managed_dir note_env" ?t0 note_db k] names
    by (simp add: note_managed dir_at_def t0 put_node_def)
  have stage: "gives (stage_payload note_env (lit ''s'') ?m (temp_path note_env ?i)) \<lparr>dp_db = note_db, dp_tree = ?t1, dp_tick = k\<rparr> () note_db ?t2" for k
    by (simp add: gives_def stage_payload_def dcatch_def dthen_def copy_file_def restrict_def file_op_def note_env_quiet t0
        opened_def node_at_def snapshot_file_components note_components(1) names_differ has_parent_def note_paths put_node_def
        tree_exists_def dread_def dlift_def note_staged open_payload_def note_env_simps names)
  have reg: "gives (register_snapshot note_env (lit ''s'') ?m [(tally 1, tally 1)] ?i (temp_path note_env ?i))
     \<lparr>dp_db = note_db, dp_tree = t, dp_tick = k\<rparr> () note_imported t" for t k
    by (simp add: gives_def register_snapshot_def dcatch_def dthen_def dread_def dlift_def dret_def set_db_def probe_def file_op_def
        note_env_quiet note_env_simps now_or_zero_def dtick_def try_from_system_time_def insert_snapshot_def note_imported_def
        note_row_def note_map_def note_clock SNAPSHOT_FORMAT_VERSION_def note_db_def note_root_def empty_db_def)
  have move: "gives (dcatch (rename_node note_env (temp_path note_env ?i) (stored_path note_env ?i)) c)
     \<lparr>dp_db = note_imported, dp_tree = ?t2, dp_tick = k\<rparr> () note_imported
     (move_below (components (temp_path note_env ?i)) (components (stored_path note_env ?i)) ?t2)" for c k
    by (simp add: gives_def dcatch_def rename_node_def file_op_def note_env_quiet node_at_def note_paths t0 has_parent_def Let_def names)
  have "yields (import_snapshot note_env (lit ''s'') [(tally 1, tally 1)]) note_depot (\<lambda>r _. ir_snapshot_id r = ?i)"
    unfolding import_snapshot_stages Let_def note_env_simps(8)
    by (rule yields_gives [OF note_checked], rule yields_gives [OF tick])
     (intro yields_gives [OF probe] yields_gives [OF mk] yields_gives [OF stage] yields_gives [OF reg] yields_gives [OF move],
       simp add: yields_def dthen_def dread_def set_db_def dret_def)
  then show ?thesis by (auto simp: yields_def)
qed


theorem export_confined_witness:
  "\<exists>r d'. export_snapshot note_env (lit ''s'') None note_depot = (r, d') \<and> dp_db d' = note_db
    \<and> touches (\<lambda>k. prefix (components (lit ''s'')) k \<or> prefix (components (export_temp (lit ''s''))) k)
        (\<lambda>k. prefix k (components (export_temp (lit ''s'')))) note_depot d'
    \<and> r = Inl (ConfigInvalid (lit ''s'') (lit ''snapshot destination already exists''))"
proof -
  obtain r d' where run: "export_snapshot note_env (lit ''s'') None note_depot = (r, d')" by fastforce
  have "tree_exists (dp_tree note_depot) (lit ''s'')"
    by (simp add: note_depot_def tree_exists_def opened_def node_at_def exported_tree_def note_components(1))
  with export_confined [OF run] run show ?thesis by (auto simp: note_depot_def)
qed

lemma note_imported_ok: "registry_ok note_env (note_imported\<lparr>db_snapshots := [note_row\<lparr>sr_payload_path := stored_path note_env (lit ''n'')\<rparr>]\<rparr>)"
  by (simp add: registry_ok_def note_imported_def note_row_def note_map_def note_db_def note_root_def) (simp add: lit_def slash_def)

definition note_full :: depot where
  "note_full = note_depot\<lparr>dp_db := note_imported\<lparr>db_snapshots := [note_row\<lparr>sr_payload_path := stored_path note_env (lit ''n'')\<rparr>]\<rparr>\<rparr>"

theorem remove_snapshot_exact_witness:
  "\<exists>report d'. remove_snapshot note_env (lit ''n'') note_full = (Inr report, d') \<and> ir_snapshot_id report = lit ''n''
    \<and> dp_db d' = without_snapshot (lit ''n'') (dp_db note_full) \<and> \<not> tree_exists (dp_tree d') (stored_path note_env (lit ''n''))"
proof -
  have ok: "registry_ok note_env (dp_db note_full)" using note_imported_ok by (simp add: note_full_def)
  have "slash \<notin> set (lit ''n'')" by (simp add: lit_def slash_def)
  note below = stored_below_managed [OF this, of note_env]
  have "\<exists>report d'. remove_snapshot note_env (lit ''n'') note_full = (Inr report, d')"
    by (simp add: remove_snapshot_def note_full_def note_imported_def note_row_def note_env_simps below
        Let_def dthen_def dread_def probe_def file_op_def note_env_quiet set_db_def note_depot_def exported_tree_def tree_exists_def
        opened_def node_at_def note_paths dret_def)
  then obtain report d' where run: "remove_snapshot note_env (lit ''n'') note_full = (Inr report, d')" by blast
  from remove_snapshot_exact [OF ok run] run show ?thesis by auto
qed


theorem export_is_index_picture_witness:
  "\<exists>p. build_payload tally note_db None = Inr p \<and> pd_roots p = [\<lparr>pr_id = tally 1, pr_display_name = lit ''r''\<rparr>]
    \<and> set (pd_segments_fts p) = payload_fts_of tally ` {f \<in> set (db_segments_fts note_db). fr_root_id f \<in> {1}}
    \<and> distinct (map pf_segment_id (pd_segments_fts p))
    \<and> set (pd_source_files p) = payload_source_of tally ` {s \<in> set (db_source_files note_db). sf_state s = Active \<and> sf_root_id s \<in> {1}}"
  using export_is_index_picture [OF note_db_ok tally_inj, of None] unfolding note_exported by (simp add: note_root_def)

end
