(* ===== verification/Status_Server.thy ===== *)
theory Status_Server
  imports Snapshot_Registry
begin

text \<open>
  The local status page (\<open>status_server.rs\<close>): how a request is read and answered, what the answers hold, and the
  accept loop with its shutdown. The database, the JSON writer and the outcome of each read and write
  are parameters.
\<close>

subsection \<open>Text of a request\<close>

text \<open>\<open>String::from_utf8_lossy\<close>: each maximal prefix of a character that stays incomplete becomes one
  replacement character.\<close>

definition bad_prefix :: "bytes \<Rightarrow> nat" where
  "bad_prefix bs = (case bs of
       b0 # b1 # r \<Rightarrow>
         (let second = (if b0 = 224 then 160 \<le> b1 \<and> b1 < 192 else if b0 = 237 then 128 \<le> b1 \<and> b1 < 160
            else if b0 = 240 then 144 \<le> b1 \<and> b1 < 192 else if b0 = 244 then 128 \<le> b1 \<and> b1 < 144 else is_cont b1) in
          if 224 \<le> b0 \<and> b0 < 240 \<and> second then 2
          else if 240 \<le> b0 \<and> b0 < 245 \<and> second
          then (case r of b2 # _ \<Rightarrow> if is_cont b2 then 3 else 2 | [] \<Rightarrow> 2)
          else 1)
     | _ \<Rightarrow> 1)"

lemma bad_prefix_pos: "0 < bad_prefix bs"
  by (simp add: bad_prefix_def Let_def split: list.split)

function from_utf8_lossy :: "bytes \<Rightarrow> ustring" where
  "from_utf8_lossy bs =
     (if bs = [] then []
      else case utf8_decode_char bs of
          Some (c, r) \<Rightarrow> c # from_utf8_lossy r
        | None \<Rightarrow> 65533 # from_utf8_lossy (drop (bad_prefix bs) bs))"
  by pat_completeness auto
termination
  by (relation "measure length") (auto dest: utf8_decode_char_length simp: bad_prefix_pos)

declare from_utf8_lossy.simps [simp del]

definition eq_ignore_ascii_case :: "ustring \<Rightarrow> ustring \<Rightarrow> bool" where
  "eq_ignore_ascii_case a b \<longleftrightarrow> map to_ascii_lowercase a = map to_ascii_lowercase b"

definition normalize_path :: "ustring \<Rightarrow> ustring" where
  "normalize_path p = takeWhile (\<lambda>c. c \<noteq> 63) p"

subsection \<open>Answers\<close>

definition MAX_REQUEST_LINE :: nat where "MAX_REQUEST_LINE = 2048"
definition MAX_HEADER_BYTES :: nat where "MAX_HEADER_BYTES = 8192"

record response =
  rp_code :: nat
  rp_body :: bytes
  rp_content_type :: ustring
  rp_head_only :: bool
  rp_allow :: "ustring option"

definition crlf :: ustring where "crlf = [13, 10]"

definition reason :: "nat \<Rightarrow> ustring" where
  "reason code = (if code = 400 then lit ''Bad Request'' else if code = 404 then lit ''Not Found''
     else if code = 405 then lit ''Method Not Allowed'' else if code = 431 then lit ''Request Header Fields Too Large''
     else if code = 500 then lit ''Internal Server Error'' else lit ''OK'')"

definition security_headers :: "ustring option \<Rightarrow> ustring" where
  \<open>security_headers allow =
     lit ''X-Content-Type-Options: nosniff'' @ crlf
     @ lit ''X-Frame-Options: DENY'' @ crlf
     @ lit ''Referrer-Policy: no-referrer'' @ crlf
     @ lit ''Content-Security-Policy: default-src '' @ [39] @ lit ''none'' @ [39] @ lit ''; style-src ''
       @ [39] @ lit ''unsafe-inline'' @ [39] @ crlf
     @ lit ''Cache-Control: no-store'' @ crlf
     @ lit ''Connection: close'' @ crlf
     @ (case allow of None \<Rightarrow> [] | Some a \<Rightarrow> lit ''Allow: '' @ a @ crlf)\<close>

definition header_of :: "response \<Rightarrow> ustring" where
  "header_of r = lit ''HTTP/1.1 '' @ show_nat (rp_code r) @ [32] @ reason (rp_code r) @ crlf
     @ lit ''Content-Type: '' @ rp_content_type r @ crlf
     @ lit ''Content-Length: '' @ show_nat (if rp_head_only r then 0 else length (rp_body r)) @ crlf
     @ security_headers (rp_allow r) @ crlf"

text \<open>\<open>write_all\<close>: the n-th call writes everything or fails after some bytes.\<close>

fun write_all :: "(nat \<Rightarrow> nat option) \<Rightarrow> nat \<Rightarrow> bytes list \<Rightarrow> (unit + unit) \<times> bytes" where
  "write_all fails n [] = (Inr (), [])"
| "write_all fails n (b # bs) =
     (case fails n of
        Some k \<Rightarrow> (Inl (), take k b)
      | None \<Rightarrow> (case write_all fails (Suc n) bs of (r, out) \<Rightarrow> (r, b @ out)))"

definition write_bytes :: "(nat \<Rightarrow> nat option) \<Rightarrow> response \<Rightarrow> (unit + unit) \<times> bytes" where
  "write_bytes fails r = write_all fails 0 (as_bytes (header_of r) # (if rp_head_only r then [] else [rp_body r]))"

definition TEXT_PLAIN :: ustring where "TEXT_PLAIN = lit ''text/plain; charset=utf-8''"
definition TEXT_HTML :: ustring where "TEXT_HTML = lit ''text/html; charset=utf-8''"
definition APPLICATION_JSON :: ustring where "APPLICATION_JSON = lit ''application/json; charset=utf-8''"

definition write_raw_response :: "nat \<Rightarrow> ustring \<Rightarrow> ustring option \<Rightarrow> response" where
  "write_raw_response code message allow = \<lparr>rp_code = code, rp_body = as_bytes (message @ [10]),
     rp_content_type = TEXT_PLAIN, rp_head_only = False, rp_allow = allow\<rparr>"

definition bad_request :: response where
  "bad_request = write_raw_response 400 (lit ''bad request'') None"

definition html_home :: ustring where
  \<open>html_home = join [10]
     [lit ''<!doctype html>'',
      lit ''<html><head><meta charset="utf-8"><title>Omni-Sem Status</title></head>'',
      lit ''<body>'',
      lit ''<h1>Omni-Sem local status</h1>'',
      lit ''<p>Read-only loopback view. Source text and query strings are not exposed.</p>'',
      lit ''<ul>'',
      lit ''<li><a href="/healthz">/healthz</a></li>'',
      lit ''<li><a href="/status.json">/status.json</a></li>'',
      lit ''<li><a href="/api/roots">/api/roots</a></li>'',
      lit ''<li><a href="/api/activity">/api/activity</a></li>'',
      lit ''</ul>'',
      lit ''</body></html>'']\<close>

subsection \<open>What the pages hold\<close>

record embedding_compat =
  cm_configured_enabled :: bool
  cm_configured_provider :: ustring
  cm_configured_model :: "ustring option"
  cm_configured_dimensions :: "nat option"
  cm_state :: ustring

definition embedding_compatibility :: "embedding_config \<Rightarrow> embedding_status \<Rightarrow> embedding_compat" where
  "embedding_compatibility config status =
     (let provider = (case ec_provider config of ProviderNone \<Rightarrow> lit ''none'' | ProviderOllama \<Rightarrow> lit ''ollama'');
          configured_model = (if ec_model config \<noteq> [] then Some (ec_model config) else None);
          configured_dimensions = (if ec_dimensions config \<noteq> 0 then Some (ec_dimensions config) else None);
          canonical_candidate = (if 58 \<in> set (ec_model config) then ec_model config else ec_model config @ lit '':latest'');
          state = (if \<not> ec_enabled config then lit ''disabled''
            else if \<not> et_space_exists status then lit ''missing_active_space''
            else if et_provider status \<noteq> Some provider \<or> et_canonical_model status \<noteq> Some canonical_candidate
              \<or> (case configured_dimensions of None \<Rightarrow> False | Some d \<Rightarrow> et_dimensions status \<noteq> Some d)
            then lit ''incompatible'' else lit ''compatible_requires_digest_resolution'')
      in \<lparr>cm_configured_enabled = ec_enabled config, cm_configured_provider = provider,
          cm_configured_model = configured_model, cm_configured_dimensions = configured_dimensions, cm_state = state\<rparr>)"

record snapshot_summary =
  sm_registered :: nat
  sm_queryable :: nat
  sm_unhealthy :: nat
  sm_mapped_roots :: nat
  sm_unmapped_roots :: nat

record status_payload =
  sp_snapshot :: status_snapshot
  sp_embedding_compatibility :: embedding_compat
  sp_snapshots :: snapshot_summary
  sp_warning :: ustring

record root_entry =
  re_id :: ustring
  re_display_name :: ustring
  re_enabled :: bool

record status_env =
  st_open :: "path \<Rightarrow> ustring + db" \<comment> \<open>the database behind the \<open>file:\<close> URI of this path, read-only\<close>
  st_query_fails :: "nat \<Rightarrow> bool" \<comment> \<open>the n-th group of queries of a page\<close>
  st_database_size :: "path \<Rightarrow> nat option"
  st_tree :: tree
  st_snapshot_env :: snapshot_env
  st_id_text :: "uuid \<Rightarrow> ustring"
  st_json_status :: "status_payload \<Rightarrow> ustring + bytes"
  st_json_roots :: "root_entry list \<Rightarrow> ustring + bytes"
  st_json_activity :: "query_activity list \<Rightarrow> ustring + bytes"

definition open_readonly :: "status_env \<Rightarrow> path \<Rightarrow> ustring + db" where
  "open_readonly env p = map_err (\<lambda>_. lit ''database unavailable'') (st_open env p)"

definition checked :: "bool \<Rightarrow> ustring \<Rightarrow> 'a \<Rightarrow> ustring + 'a" where
  "checked failed message a = (if failed then Inl message else Inr a)"

type_synonym page = "nat \<times> bytes \<times> ustring"

definition page_of :: "ustring + bytes \<Rightarrow> page" where
  "page_of r = (case r of Inr body \<Rightarrow> (200, body, APPLICATION_JSON) | Inl _ \<Rightarrow> (500, as_bytes (lit ''internal error'' @ [10]), TEXT_PLAIN))"

definition summarize :: "snapshot_list_item list \<Rightarrow> snapshot_summary" where
  "summarize listed = \<lparr>sm_registered = length listed, sm_queryable = length (filter li_queryable listed),
     sm_unhealthy = length (filter (\<lambda>i. \<not> li_payload_healthy i) listed),
     sm_mapped_roots = sum_list (map li_mapped_roots listed),
     sm_unmapped_roots = sum_list (map (\<lambda>i. li_total_roots i - li_mapped_roots i) listed)\<rparr>"

definition json_status :: "status_env \<Rightarrow> path \<Rightarrow> embedding_config \<Rightarrow> page" where
  "json_status env p embeddings = page_of
     (try_bind (open_readonly env p) (\<lambda>db.
      try_bind (checked (st_query_fails env 0) (lit ''status unavailable'')
        (status_snapshot_of db (unwrap_or 0 (st_database_size env p)))) (\<lambda>snapshot.
      try_bind (checked (st_query_fails env 1) (lit ''status unavailable'')
        (list_snapshots (st_snapshot_env env) (st_tree env) db)) (\<lambda>listed.
      map_err (\<lambda>_. lit ''status unavailable'') (st_json_status env
        \<lparr>sp_snapshot = snapshot, sp_embedding_compatibility = embedding_compatibility embeddings (ss_embedding snapshot),
         sp_snapshots = summarize listed,
         sp_warning = lit ''Local read-only status. No source text or query text is served.''\<rparr>)))))"

definition json_roots :: "status_env \<Rightarrow> path \<Rightarrow> page" where
  "json_roots env p = page_of
     (try_bind (open_readonly env p) (\<lambda>db.
      try_bind (checked (st_query_fails env 0) (lit ''roots unavailable'')
        (map (\<lambda>r. \<lparr>re_id = st_id_text env (rt_id r), re_display_name = rt_display_name r, re_enabled = rt_enabled r\<rparr>)
          (sort_by (\<lambda>a b. cmp (rt_display_name a) (rt_display_name b)) (db_roots db)))) (\<lambda>rows.
      map_err (\<lambda>_. lit ''roots unavailable'') (st_json_roots env rows))))"

definition json_activity :: "status_env \<Rightarrow> path \<Rightarrow> page" where
  "json_activity env p = page_of
     (try_bind (open_readonly env p) (\<lambda>db.
      try_bind (checked (st_query_fails env 0) (lit ''activity unavailable'') (list_query_activity db 20)) (\<lambda>rows.
      map_err (\<lambda>_. lit ''activity unavailable'') (st_json_activity env rows))))"

subsection \<open>One client\<close>

definition page_for :: "status_env \<Rightarrow> path \<Rightarrow> embedding_config \<Rightarrow> ustring \<Rightarrow> page" where
  "page_for env p embeddings target =
     (if target = lit ''/'' then (200, as_bytes html_home, TEXT_HTML)
      else if target \<in> {lit ''/health'', lit ''/healthz''} then (200, as_bytes (lit ''ok'' @ [10]), TEXT_PLAIN)
      else if target \<in> {lit ''/status.json'', lit ''/api/status''} then json_status env p embeddings
      else if target = lit ''/api/roots'' then json_roots env p
      else if target = lit ''/api/activity'' then json_activity env p
      else (404, as_bytes (lit ''not found'' @ [10]), TEXT_PLAIN))"

definition respond :: "status_env \<Rightarrow> path \<Rightarrow> embedding_config \<Rightarrow> bytes \<Rightarrow> response" where
  "respond env p embeddings bs =
     (if length bs > MAX_HEADER_BYTES then write_raw_response 431 (lit ''request header fields too large'') None
      else case str_lines (from_utf8_lossy bs) of
        [] \<Rightarrow> bad_request
      | line # _ \<Rightarrow>
          if str_len line > MAX_REQUEST_LINE then bad_request
          else case split_whitespace line of
              verb # target # _ # _ \<Rightarrow>
                (let head_only = eq_ignore_ascii_case verb (lit ''HEAD'');
                     get_like = eq_ignore_ascii_case verb (lit ''GET'') \<or> head_only
                 in if \<not> get_like then write_raw_response 405 (lit ''method not allowed'') (Some (lit ''GET, HEAD''))
                    else case page_for env p embeddings (normalize_path target) of
                      (code, body, content_type) \<Rightarrow> \<lparr>rp_code = code, rp_body = body, rp_content_type = content_type,
                         rp_head_only = head_only, rp_allow = None\<rparr>)
            | _ \<Rightarrow> bad_request)"

text \<open>A single \<open>read\<close> into a buffer of one byte more than allowed, then the answer.\<close>

definition handle_client ::
    "status_env \<Rightarrow> path \<Rightarrow> embedding_config \<Rightarrow> unit + bytes \<Rightarrow> (nat \<Rightarrow> nat option) \<Rightarrow> (unit + unit) \<times> bytes" where
  "handle_client env p embeddings received fails =
     (case received of
        Inl _ \<Rightarrow> (Inl (), [])
      | Inr sent \<Rightarrow>
          (let bs = take (MAX_HEADER_BYTES + 1) sent in
           if bs = [] then (Inr (), []) else write_bytes fails (respond env p embeddings bs)))"

subsection \<open>The accept loop\<close>

text \<open>What \<open>accept\<close> returns: an error, or a connection with the outcome of its read and its writes.\<close>

type_synonym client = "(unit + bytes) \<times> (nat \<Rightarrow> nat option)"

datatype phase = Checking | Accepting | Holding client | Stopped

record server =
  sv_flag :: bool \<comment> \<open>the shared shutdown flag\<close>
  sv_phase :: phase
  sv_backlog :: "(unit + client) list"
  sv_answered :: "(client \<times> bytes) list"

definition started :: server where
  "started = \<lparr>sv_flag = False, sv_phase = Checking, sv_backlog = [], sv_answered = []\<rparr>"

text \<open>One step of the thread; \<open>None\<close> while it waits in \<open>accept\<close> and after it has ended.\<close>

definition loop_step :: "status_env \<Rightarrow> path \<Rightarrow> embedding_config \<Rightarrow> server \<Rightarrow> server option" where
  "loop_step env p embeddings s =
     (case sv_phase s of
        Checking \<Rightarrow> Some (s\<lparr>sv_phase := if sv_flag s then Stopped else Accepting\<rparr>)
      | Accepting \<Rightarrow>
          (case sv_backlog s of
             [] \<Rightarrow> None
           | Inl _ # rest \<Rightarrow> Some (s\<lparr>sv_phase := Stopped, sv_backlog := rest\<rparr>)
           | Inr c # rest \<Rightarrow> Some (s\<lparr>sv_phase := Holding c, sv_backlog := rest\<rparr>))
      | Holding c \<Rightarrow>
          (if sv_flag s then Some (s\<lparr>sv_phase := Stopped\<rparr>)
           else Some (s\<lparr>sv_phase := Checking,
             sv_answered := sv_answered s @ [(c, snd (handle_client env p embeddings (fst c) (snd c)))]\<rparr>))
      | Stopped \<Rightarrow> None)"

text \<open>\<open>StatusServer::shutdown\<close> sets the flag, then connects once to wake the loop; other clients connect at any time.\<close>

inductive server_step :: "status_env \<Rightarrow> path \<Rightarrow> embedding_config \<Rightarrow> server \<Rightarrow> server \<Rightarrow> bool"
  for env p embeddings where
  own: "loop_step env p embeddings s = Some s' \<Longrightarrow> server_step env p embeddings s s'"
| request_shutdown: "server_step env p embeddings s (s\<lparr>sv_flag := True\<rparr>)"
| arrives: "server_step env p embeddings s (s\<lparr>sv_backlog := sv_backlog s @ [c]\<rparr>)"

inductive_cases server_stepE: "server_step env p embeddings s s'"

end
