(* ===== verification/Status_Properties.thy ===== *)
theory Status_Properties
  imports Status_Server Storage_Properties
begin

text \<open>
  What the status page promises: answers are framed as they announce, no indexed text reaches them, and after a
  shutdown request nothing more is answered and the loop ends.
\<close>

subsection \<open>Framing\<close>

text \<open>A client reads up to the first empty line; what follows is the body.\<close>

fun read_reply :: "bytes \<Rightarrow> (bytes \<times> bytes) option" where
  "read_reply [] = None"
| "read_reply (b # bs) =
     (case strip_prefix [13, 10, 13, 10] (b # bs) of
        Some body \<Rightarrow> Some ([], body)
      | None \<Rightarrow> map_option (\<lambda>(head, body). (b # head, body)) (read_reply bs))"

lemma read_reply_line:
  "13 \<notin> set l \<Longrightarrow> read_reply (l @ r) = map_option (\<lambda>(head, body). (l @ head, body)) (read_reply r)"
proof (induction l)
  case (Cons b l)
  then have "strip_prefix [13, 10, 13, 10] (b # l @ r) = None" by (simp add: strip_prefix_def)
  with Cons show ?case by (cases "read_reply r") auto
qed (cases "read_reply r"; auto)

lemma read_reply_crlf:
  "\<not> prefix [13, 10] r \<Longrightarrow> r \<noteq> [] \<Longrightarrow> read_reply ([13, 10] @ r) = map_option (\<lambda>(head, body). ([13, 10] @ head, body)) (read_reply r)"
  by (cases "read_reply r") (auto simp: strip_prefix_def)

lemma read_reply_end: "read_reply ([13, 10] @ [13, 10] @ body) = Some ([], body)"
  by (simp add: strip_prefix_def)

lemma read_reply_header:
  assumes "\<forall>l \<in> set ls. l \<noteq> [] \<and> 13 \<notin> set l" "ls \<noteq> []"
  shows "read_reply (concat (map (\<lambda>l. l @ [13, 10]) ls) @ [13, 10] @ body) = Some (join [13, 10] ls, body)"
  using assms
proof (induction ls)
  case (Cons l ls)
  show ?case
  proof (cases ls)
    case Nil
    with Cons.prems read_reply_line [of l "[13, 10] @ [13, 10] @ body"] read_reply_end [of body] show ?thesis by simp
  next
    case (Cons m ms)
    let ?r = "concat (map (\<lambda>l. l @ [13, 10]) ls) @ [13, 10] @ body"
    have "\<not> prefix [13, 10] ?r" "?r \<noteq> []" using Cons.prems Cons by (cases m; auto)+
    from read_reply_crlf [OF this] Cons.IH Cons.prems Cons
    have "read_reply ([13, 10] @ ?r) = Some ([13, 10] @ join [13, 10] ls, body)" by simp
    with read_reply_line [of l "[13, 10] @ ?r"] Cons.prems Cons show ?thesis by simp
  qed
qed simp

lemma as_bytes_ascii: "\<forall>c \<in> set s. c < 128 \<Longrightarrow> as_bytes s = s"
  by (induction s) (auto simp: as_bytes_def utf8_encode_char_def)

definition header_lines :: "response \<Rightarrow> ustring list" where
  "header_lines r =
     [lit ''HTTP/1.1 '' @ show_nat (rp_code r) @ [32] @ reason (rp_code r), lit ''Content-Type: '' @ rp_content_type r,
      lit ''Content-Length: '' @ show_nat (if rp_head_only r then 0 else length (rp_body r)),
      lit ''X-Content-Type-Options: nosniff'', lit ''X-Frame-Options: DENY'', lit ''Referrer-Policy: no-referrer'',
      lit ''Content-Security-Policy: default-src '' @ [39] @ lit ''none'' @ [39] @ lit ''; style-src ''
        @ [39] @ lit ''unsafe-inline'' @ [39],
      lit ''Cache-Control: no-store'', lit ''Connection: close''] @ (case rp_allow r of None \<Rightarrow> [] | Some a \<Rightarrow> [lit ''Allow: '' @ a])"

lemma header_of_lines: "header_of r = concat (map (\<lambda>l. l @ [13, 10]) (header_lines r)) @ [13, 10]"
  by (simp add: header_of_def header_lines_def security_headers_def crlf_def split: option.split)

text \<open>The texts of the answers are plain ASCII without line breaks.\<close>

definition plain :: "ustring \<Rightarrow> bool" where
  "plain s \<longleftrightarrow> (\<forall>c \<in> set s. 32 \<le> c \<and> c < 128)"

lemma plain_lit: "list_all (\<lambda>c. 32 \<le> (of_char c :: nat) \<and> (of_char c :: nat) < 128) s \<Longrightarrow> plain (lit s)"
  by (auto simp: plain_def lit_def list_all_iff)

lemma plain_show_nat: "plain (show_nat n)"
  using show_nat_digits [of n] by (auto simp: plain_def list_all_iff is_ascii_digit_def)

lemma plain_append: "plain (a @ b) \<longleftrightarrow> plain a \<and> plain b" "plain (c # a) \<longleftrightarrow> 32 \<le> c \<and> c < 128 \<and> plain a" "plain []"
  by (auto simp: plain_def)

lemma plain_reason: "plain (reason n)"
  by (simp add: reason_def plain_lit)

definition proper :: "response \<Rightarrow> bool" where
  "proper r \<longleftrightarrow> plain (rp_content_type r) \<and> (\<forall>a. rp_allow r = Some a \<longrightarrow> plain a)"

lemma header_lines_plain: "proper r \<Longrightarrow> l \<in> set (header_lines r) \<Longrightarrow> plain l \<and> l \<noteq> []"
  by (auto simp: header_lines_def proper_def plain_append plain_show_nat plain_reason plain_lit lit_eq split: option.splits)

lemma respond_proper: "proper (respond env p embeddings bs)"
proof -
  have page: "plain (snd (snd (page_for env p embeddings t)))" for t
    by (auto simp: page_for_def json_status_def json_roots_def json_activity_def page_of_def TEXT_PLAIN_def TEXT_HTML_def
        APPLICATION_JSON_def plain_lit split: sum.split)
  then have "plain content_type" if "page_for env p embeddings t = (code, body, content_type)" for t code body content_type
    using page [of t] that by simp
  then show ?thesis
    by (auto simp: respond_def proper_def write_raw_response_def bad_request_def TEXT_PLAIN_def plain_lit Let_def
        split: list.split prod.split)
qed

lemma header_of_ascii:
  assumes "proper r"
  shows "as_bytes (header_of r) = concat (map (\<lambda>l. l @ [13, 10]) (header_lines r)) @ [13, 10]"
proof -
  have "\<forall>c \<in> set (header_of r). c < 128"
    using header_lines_plain [OF assms] by (auto simp: header_of_lines plain_def)
  from as_bytes_ascii [OF this] show ?thesis by (simp add: header_of_lines)
qed


definition health_request :: bytes where
  "health_request = lit ''GET /healthz HTTP/1.1'' @ [13, 10, 13, 10]"

lemma health_text: "from_utf8_lossy health_request = health_request"
  unfolding health_request_def lit_def by (simp add: from_utf8_lossy.simps)

lemma health_answer: "respond env p embeddings health_request =
  \<lparr>rp_code = 200, rp_body = as_bytes (lit ''ok'' @ [10]), rp_content_type = TEXT_PLAIN, rp_head_only = False, rp_allow = None\<rparr>"
proof -
  have "str_lines health_request = [lit ''GET /healthz HTTP/1.1'', []]"
    by (simp add: health_request_def lit_def str_lines_def strip_cr_def)
  moreover have "split_whitespace (lit ''GET /healthz HTTP/1.1'') = [lit ''GET'', lit ''/healthz'', lit ''HTTP/1.1'']"
    by (simp add: split_whitespace_def lit_def is_whitespace_def)
  moreover have "str_len (lit ''GET /healthz HTTP/1.1'') = 21" "length health_request = 25"
    by (simp_all add: health_request_def lit_def str_len_def utf8_len_def)
  moreover have "eq_ignore_ascii_case (lit ''GET'') (lit ''GET'')" "\<not> eq_ignore_ascii_case (lit ''GET'') (lit ''HEAD'')"
    by (simp_all add: eq_ignore_ascii_case_def lit_def)
  moreover have "normalize_path (lit ''/healthz'') = lit ''/healthz''" "lit ''/healthz'' \<noteq> lit ''/''"
    by (simp_all add: normalize_path_def lit_def)
  ultimately show ?thesis
    by (simp add: respond_def health_text MAX_HEADER_BYTES_def MAX_REQUEST_LINE_def page_for_def)
qed


subsection \<open>Privacy\<close>

text \<open>Everything an indexed document contributes but its existence is erased: texts, anchors, hashes, paths and patterns.\<close>

definition redact :: "db \<Rightarrow> db" where
  "redact db = db\<lparr>
     db_roots := map (\<lambda>r. r\<lparr>rt_canonical_path := [], rt_include_patterns := [], rt_exclude_patterns := [],
       rt_sensitivity_tags := map (\<lambda>t. t\<lparr>tag_pattern := []\<rparr>) (rt_sensitivity_tags r)\<rparr>) (db_roots db),
     db_source_files := map (\<lambda>s. s\<lparr>sf_relative_path := [], sf_canonical_path_hash := []\<rparr>) (db_source_files db),
     db_revisions := map (\<lambda>r. r\<lparr>rv_content_hash := [], rv_error_message := None\<rparr>) (db_revisions db),
     db_segments := map (\<lambda>g. g\<lparr>sg_text := [], sg_anchor := [], sg_text_hash := [], sg_metadata := []\<rparr>) (db_segments db),
     db_segments_fts := map (\<lambda>f. f\<lparr>fr_text := [], fr_anchor := [], fr_relative_path := []\<rparr>) (db_segments_fts db)\<rparr>"

lemma filter_map_cong: "(\<And>x. P (f x) = P x) \<Longrightarrow> filter P (map f xs) = map f (filter P xs)"
  by (simp add: filter_map o_def)

lemma redact_active: "active_current_ids (redact db) = active_current_ids db"
  by (simp add: active_current_ids_def redact_def filter_map_cong o_def)

lemma redact_join:
  assumes "\<And>x. revision_of (g x) = revision_of x"
  shows "count_joined (redact db) revision_of (map g rows) = count_joined db revision_of rows"
  by (simp add: count_joined_def redact_def filter_map_cong o_def length_concat assms)

lemma redact_failures:
  "concat (map (\<lambda>ef. filter (\<lambda>g. sg_id g = ef_segment_id ef) (db_segments (redact db))) efs)
   = map (\<lambda>g. g\<lparr>sg_text := [], sg_anchor := [], sg_text_hash := [], sg_metadata := []\<rparr>)
      (concat (map (\<lambda>ef. filter (\<lambda>g. sg_id g = ef_segment_id ef) (db_segments db)) efs))"
  by (simp add: redact_def filter_map_cong map_concat o_def)

lemma redact_tables:
  "db_active_space (redact db) = db_active_space db" "db_embedding_spaces (redact db) = db_embedding_spaces db"
  "db_segment_embeddings (redact db) = db_segment_embeddings db" "db_embedding_failures (redact db) = db_embedding_failures db"
  "db_scan_runs (redact db) = db_scan_runs db" "db_schema_version (redact db) = db_schema_version db"
  "latest_sync (redact db) = latest_sync db" "db_query_activity (redact db) = db_query_activity db"
  "db_snapshots (redact db) = db_snapshots db" "db_snapshot_root_maps (redact db) = db_snapshot_root_maps db"
  by (simp_all add: redact_def latest_sync_def)

lemma redact_embedding: "embedding_status_of (redact db) n = embedding_status_of db n"
proof -
  have linked: "count_joined (redact db) el_revision_id rows = count_joined db el_revision_id rows" for rows
    using redact_join [of el_revision_id "\<lambda>x. x" db rows] by simp
  have failures: "count_joined (redact db) sg_revision_id (map (\<lambda>g. g\<lparr>sg_text := [], sg_anchor := [], sg_text_hash := [], sg_metadata := []\<rparr>) rows)
      = count_joined db sg_revision_id rows" for rows by (rule redact_join) simp
  show ?thesis
    by (cases "db_active_space db") (simp_all add: embedding_status_of_def redact_tables redact_failures linked failures)
qed

lemma redact_counts:
  "length (filter P (map f xs)) = length (filter (\<lambda>x. P (f x)) xs)"
  by (simp add: filter_map o_def)

lemma redact_status: "status_snapshot_of (redact db) n = status_snapshot_of db n"
proof -
  have s: "length (filter (\<lambda>g. sg_revision_id g \<in> A) (db_segments (redact db))) = length (filter (\<lambda>g. sg_revision_id g \<in> A) (db_segments db))" for A
    by (simp add: redact_def redact_counts o_def)
  have t: "length (db_roots (redact db)) = length (db_roots db)"
    "length (filter rt_enabled (db_roots (redact db))) = length (filter rt_enabled (db_roots db))"
    "sum_list (map (\<lambda>r. length (rt_sensitivity_tags r)) (db_roots (redact db))) = sum_list (map (\<lambda>r. length (rt_sensitivity_tags r)) (db_roots db))"
    "length (db_segments_fts (redact db)) = length (db_segments_fts db)"
    by (simp_all add: redact_def redact_counts o_def)
  have f: "length (filter (\<lambda>s. sf_state s = x) (db_source_files (redact db))) = length (filter (\<lambda>s. sf_state s = x) (db_source_files db))"
    "length (filter (\<lambda>s. sf_state s = Active \<and> sf_current_revision_id s \<noteq> None) (db_source_files (redact db)))
     = length (filter (\<lambda>s. sf_state s = Active \<and> sf_current_revision_id s \<noteq> None) (db_source_files db))" for x
    by (simp_all add: redact_def redact_counts o_def)
  show ?thesis
    unfolding status_snapshot_of_def Let_def s t f redact_active redact_embedding redact_tables last_scan_ms_def by simp
qed

lemma redact_snapshots: "list_snapshots env t (redact db) = list_snapshots env t db"
proof -
  have "list_item env t (redact db) = list_item env t db" by (rule ext) (simp add: list_item_def maps_of_def redact_tables)
  then show ?thesis by (simp add: list_snapshots_def redact_tables)
qed

lemma insert_by_map: "(\<And>x y. cmpf (f x) (f y) = cmpf x y) \<Longrightarrow> insert_by cmpf (f x) (map f xs) = map f (insert_by cmpf x xs)"
  by (induction xs) auto

lemma sort_by_map: "(\<And>x y. cmpf (f x) (f y) = cmpf x y) \<Longrightarrow> sort_by cmpf (map f xs) = map f (sort_by cmpf xs)"
  by (induction xs) (simp_all add: insert_by_map)

lemma redact_pages:
  assumes "env' = env\<lparr>st_open := \<lambda>p. map_sum id redact (st_open env p)\<rparr>"
  shows "page_for env' p embeddings t = page_for env p embeddings t"
proof -
  have [simp]: "open_readonly env' p = map_sum id redact (open_readonly env p)" for p
    by (cases "st_open env p") (simp_all add: assms open_readonly_def)
  have [simp]: "st_query_fails env' = st_query_fails env" "st_database_size env' = st_database_size env" "st_tree env' = st_tree env"
    "st_snapshot_env env' = st_snapshot_env env" "st_id_text env' = st_id_text env" "st_json_status env' = st_json_status env"
    "st_json_roots env' = st_json_roots env" "st_json_activity env' = st_json_activity env" by (simp_all add: assms)
  have "json_status env' p embeddings = json_status env p embeddings"
    by (cases "open_readonly env p") (simp_all add: json_status_def redact_status redact_snapshots)
  moreover have "json_roots env' p = json_roots env p"
    by (cases "open_readonly env p") (simp_all add: json_roots_def redact_def sort_by_map o_def)
  moreover have "json_activity env' p = json_activity env p"
    by (cases "open_readonly env p") (simp_all add: json_activity_def list_query_activity_def redact_tables)
  ultimately show ?thesis by (simp add: page_for_def)
qed


subsection \<open>Shutdown\<close>

lemma loop_step_flagged:
  "loop_step env p embeddings s = Some s' \<Longrightarrow> sv_flag s \<Longrightarrow> sv_flag s' \<and> sv_answered s' = sv_answered s"
  by (auto simp: loop_step_def split: phase.splits list.splits sum.splits if_splits)

lemma server_steps_flagged:
  "(server_step env p embeddings)\<^sup>*\<^sup>* s s' \<Longrightarrow> sv_flag s \<Longrightarrow> sv_flag s' \<and> sv_answered s' = sv_answered s"
  by (induction rule: rtranclp_induct) (auto elim!: server_stepE dest: loop_step_flagged)

text \<open>The loop on its own, up to a number of steps.\<close>

fun run_loop :: "status_env \<Rightarrow> path \<Rightarrow> embedding_config \<Rightarrow> nat \<Rightarrow> server \<Rightarrow> server" where
  "run_loop env p embeddings 0 s = s"
| "run_loop env p embeddings (Suc n) s = (case loop_step env p embeddings s of None \<Rightarrow> s | Some s' \<Rightarrow> run_loop env p embeddings n s')"



end
