(* ===== verification/Suggest.thy ===== *)
theory Suggest
  imports Discovery Errors Config
begin

text \<open>
  Root suggestions (\<open>suggest.rs\<close>): a bounded walk over a few directories that counts supported files. The
  directory listings and the elapsed time are parameters; every look at the clock takes a tick.
\<close>

definition MAX_CANDIDATE_ROOTS :: nat where "MAX_CANDIDATE_ROOTS = 16"
definition MAX_DEPTH :: nat where "MAX_DEPTH = 3"
definition MAX_ENTRIES :: nat where "MAX_ENTRIES = 4000"
definition MAX_DURATION_MS :: nat where "MAX_DURATION_MS = 1500"

record root_suggestion =
  su_path :: path
  su_supported_files :: nat
  su_total_size_bytes :: nat

record suggest_report =
  sr_suggestions :: "root_suggestion list"
  sr_entries_visited :: nat
  sr_truncated :: bool

record dir_item =
  di_name :: ustring
  di_type :: "ustring + file_kind"
  di_len :: "ustring + nat" \<comment> \<open>\<open>metadata()\<close>\<close>

record suggest_env =
  sg_fs :: fs
  sg_read_dir :: "path \<Rightarrow> ustring + dir_item list" \<comment> \<open>the entries that can be read\<close>
  sg_elapsed_ms :: "nat \<Rightarrow> nat"

record walk_state =
  wk_visited :: nat
  wk_truncated :: bool
  wk_files :: nat
  wk_size :: nat
  wk_tick :: nat

type_synonym walk_result = "(config_error + unit) \<times> walk_state"

text \<open>The budget test reads the clock only when the entries are within their bound.\<close>

definition over_time :: "suggest_env \<Rightarrow> walk_state \<Rightarrow> bool \<times> walk_state" where
  "over_time env st =
     (if wk_visited st \<ge> MAX_ENTRIES then (True, st)
      else (sg_elapsed_ms env (wk_tick st) > MAX_DURATION_MS, st\<lparr>wk_tick := wk_tick st + 1\<rparr>))"

definition skipped_directory :: "ustring \<Rightarrow> bool" where
  "skipped_directory name \<longleftrightarrow> (name \<noteq> [] \<and> hd name = 46) \<or> name \<in> {lit ''node_modules'', lit ''target'', lit ''.git''}"

fun walk_entries ::
    "suggest_env \<Rightarrow> (path \<Rightarrow> walk_state \<Rightarrow> walk_result) \<Rightarrow> path \<Rightarrow> dir_item list \<Rightarrow> walk_state \<Rightarrow> walk_result" where
  "walk_entries env deeper current [] st = (Inr (), st)"
| "walk_entries env deeper current (entry # entries) st =
     (case over_time env (st\<lparr>wk_visited := wk_visited st + 1\<rparr>) of
        (True, st) \<Rightarrow> (Inr (), st\<lparr>wk_truncated := True\<rparr>)
      | (False, st) \<Rightarrow>
          (let p = path_join current (di_name entry) in
           case di_type entry of
             Inl m \<Rightarrow> (Inl (ConfigIo p m), st)
           | Inr Symlink \<Rightarrow> walk_entries env deeper current entries st
           | Inr Directory \<Rightarrow>
               if skipped_directory (di_name entry) then walk_entries env deeper current entries st
               else (case deeper p st of
                   (Inl e, st) \<Rightarrow> (Inl e, st)
                 | (Inr _, st) \<Rightarrow> walk_entries env deeper current entries st)
           | Inr kind \<Rightarrow>
               if kind = RegularFile \<and> classify_supported_file p \<noteq> None
               then (case di_len entry of
                   Inl m \<Rightarrow> (Inl (ConfigIo p m), st)
                 | Inr n \<Rightarrow> walk_entries env deeper current entries
                     (st\<lparr>wk_files := wk_files st + 1, wk_size := u64_sat (wk_size st + n)\<rparr>))
               else walk_entries env deeper current entries st))"

text \<open>\<open>walk\<close> with the number of levels left: none are left when the depth exceeds its maximum.\<close>

fun walk :: "suggest_env \<Rightarrow> nat \<Rightarrow> path \<Rightarrow> walk_state \<Rightarrow> walk_result" where
  "walk env 0 current st = (Inr (), st\<lparr>wk_truncated := True\<rparr>)"
| "walk env (Suc left) current st =
     (if wk_truncated st then (Inr (), st)
      else case over_time env st of
          (True, st) \<Rightarrow> (Inr (), st\<lparr>wk_truncated := True\<rparr>)
        | (False, st) \<Rightarrow>
            (case sg_read_dir env current of
               Inl m \<Rightarrow> (Inl (ConfigIo current m), st)
             | Inr entries \<Rightarrow> walk_entries env (walk env left) current
                 (sort_by (\<lambda>a b. cmp (di_name a) (di_name b)) entries) st))"

definition summarize_candidate :: "suggest_env \<Rightarrow> path \<Rightarrow> walk_state \<Rightarrow> (config_error + root_suggestion option) \<times> walk_state" where
  "summarize_candidate env dir st =
     (case walk env (MAX_DEPTH + 1) dir (st\<lparr>wk_files := 0, wk_size := 0\<rparr>) of
        (Inl e, st) \<Rightarrow> (Inl e, st)
      | (Inr _, st) \<Rightarrow>
          (Inr (if wk_files st = 0 then None
             else Some \<lparr>su_path = (case fs_canonicalize (sg_fs env) dir of Inr p \<Rightarrow> p | Inl _ \<Rightarrow> dir),
               su_supported_files = wk_files st, su_total_size_bytes = wk_size st\<rparr>), st))"

text \<open>The start, its parent and the usual names beside it.\<close>

definition seeds_of :: "suggest_env \<Rightarrow> path \<Rightarrow> path list" where
  "seeds_of env start = start # (case path_parent start of
       None \<Rightarrow> []
     | Some parent \<Rightarrow> parent # filter (fs_is_dir (sg_fs env)) (map (\<lambda>name. path_join parent (lit name))
         [''Documents'', ''notes'', ''Notes'', ''projects'', ''Projects'', ''src'']))"

fun summarize_seeds ::
    "suggest_env \<Rightarrow> path list \<Rightarrow> path list \<Rightarrow> root_suggestion list \<Rightarrow> walk_state \<Rightarrow> root_suggestion list \<times> walk_state" where
  "summarize_seeds env [] seen suggestions st = (suggestions, st)"
| "summarize_seeds env (seed # seeds) seen suggestions st =
     (if \<not> fs_is_dir (sg_fs env) seed \<or> (\<exists>p \<in> set seen. components p = components seed)
      then summarize_seeds env seeds seen suggestions st
      else case summarize_candidate env seed st of (r, st) \<Rightarrow>
        (let suggestions = (case r of Inr (Some s) \<Rightarrow> suggestions @ [s] | _ \<Rightarrow> suggestions);
             st = (case r of Inl _ \<Rightarrow> st\<lparr>wk_truncated := True\<rparr> | Inr _ \<Rightarrow> st)
         in if length suggestions \<ge> MAX_CANDIDATE_ROOTS \<or> wk_truncated st then (suggestions, st)
            else summarize_seeds env seeds (seen @ [seed]) suggestions st))"

definition suggestion_order :: "root_suggestion \<Rightarrow> root_suggestion \<Rightarrow> ordering" where
  "suggestion_order left right =
     then_with (cmp (su_supported_files right) (su_supported_files left)) (path_cmp (su_path left) (su_path right))"

definition suggest_roots :: "suggest_env \<Rightarrow> path \<Rightarrow> suggest_report" where
  "suggest_roots env start =
     (case summarize_seeds env (seeds_of env start) [] []
         \<lparr>wk_visited = 0, wk_truncated = False, wk_files = 0, wk_size = 0, wk_tick = 0\<rparr> of
        (suggestions, st) \<Rightarrow>
          \<lparr>sr_suggestions = take MAX_CANDIDATE_ROOTS (sort_by suggestion_order suggestions),
           sr_entries_visited = wk_visited st, sr_truncated = wk_truncated st\<rparr>)"

subsection \<open>Bounds\<close>

lemma over_time_simps:
  "over_time env st = (b, st') \<Longrightarrow> wk_visited st' = wk_visited st \<and> (\<not> b \<longrightarrow> wk_visited st < MAX_ENTRIES)"
  by (auto simp: over_time_def split: if_splits)

lemma walk_entries_visited:
  assumes "walk_entries env deeper current entries st = (r, st')" "wk_visited st \<le> MAX_ENTRIES + left - 1"
    and "\<And>p st r st'. deeper p st = (r, st') \<Longrightarrow> wk_visited st < MAX_ENTRIES \<Longrightarrow> wk_visited st' \<le> MAX_ENTRIES + left - 1"
  shows "wk_visited st' \<le> MAX_ENTRIES + left"
  using assms(1,2)
proof (induction entries arbitrary: st)
  case (Cons e entries)
  obtain b st1 where t: "over_time env (st\<lparr>wk_visited := wk_visited st + 1\<rparr>) = (b, st1)" by fastforce
  note v = over_time_simps [OF t]
  have pos: "0 < MAX_ENTRIES" by (simp add: MAX_ENTRIES_def)
  show ?case
  proof (cases b)
    case True
    then show ?thesis using Cons.prems t v pos by auto
  next
    case False
    with v have small: "wk_visited st1 < MAX_ENTRIES" by simp
    then have le: "wk_visited st1 \<le> MAX_ENTRIES + left - 1" by simp
    consider (stop) "st' = st1" | (skip) "walk_entries env deeper current entries st1 = (r, st')"
      | (down) p r1 st2 where "deeper p st1 = (r1, st2)" "st' = st2 \<or> walk_entries env deeper current entries st2 = (r, st')"
      | (counted) n where "walk_entries env deeper current entries (st1\<lparr>wk_files := wk_files st1 + 1, wk_size := u64_sat (wk_size st1 + n)\<rparr>) = (r, st')"
      using Cons.prems(1) t False by (auto simp: Let_def split: sum.splits file_kind.splits if_splits prod.splits)
    then show ?thesis
    proof cases
      case stop
      with le show ?thesis by simp
    next
      case skip
      from Cons.IH [OF skip le] show ?thesis .
    next
      case (down p r1 st2)
      from assms(3) [OF down(1) small] have le2: "wk_visited st2 \<le> MAX_ENTRIES + left - 1" .
      with down(2) Cons.IH [OF _ le2] show ?thesis by auto
    next
      case (counted n)
      from Cons.IH [OF counted] le show ?thesis by simp
    qed
  qed
qed simp

lemma walk_visited:
  "walk env left p st = (r, st') \<Longrightarrow> wk_visited st' \<le> max (wk_visited st) (MAX_ENTRIES + left - 1)"
proof (induction left arbitrary: p st r st')
  case (Suc left)
  have pos: "0 < MAX_ENTRIES" by (simp add: MAX_ENTRIES_def)
  have deeper: "wk_visited st' \<le> MAX_ENTRIES + left - 1" if "walk env left p st = (r, st')" "wk_visited st < MAX_ENTRIES" for p st r st'
    using Suc.IH [OF that(1)] that(2) by linarith
  obtain b st1 where t: "over_time env st = (b, st1)" by fastforce
  show ?case
  proof (cases "wk_truncated st \<or> b \<or> (\<exists>m. sg_read_dir env p = Inl m)")
    case True
    then show ?thesis using Suc.prems t over_time_simps [OF t] by (cases b) (auto split: sum.splits if_splits)
  next
    case False
    then obtain entries where "walk_entries env (walk env left) p entries st1 = (r, st')"
      using Suc.prems t by (auto split: sum.splits)
    from walk_entries_visited [OF this _ deeper] over_time_simps [OF t] False pos show ?thesis by auto
  qed
qed (simp add: max_def)

lemma summarize_visited:
  "summarize_candidate env dir st = (r, st') \<Longrightarrow> wk_visited st' \<le> max (wk_visited st) (MAX_ENTRIES + MAX_DEPTH)"
  using walk_visited [of env "MAX_DEPTH + 1" dir "st\<lparr>wk_files := 0, wk_size := 0\<rparr>"]
  by (auto simp: summarize_candidate_def split: prod.splits sum.splits)

lemma summarize_supported:
  "summarize_candidate env dir st = (Inr (Some s), st') \<Longrightarrow> 0 < su_supported_files s"
  by (auto simp: summarize_candidate_def split: prod.splits sum.splits if_splits)

lemma summarize_seeds_bounds:
  "summarize_seeds env seeds seen suggestions st = (out, st') \<Longrightarrow> wk_visited st \<le> MAX_ENTRIES + MAX_DEPTH \<Longrightarrow>
   \<forall>s \<in> set suggestions. 0 < su_supported_files s \<Longrightarrow>
   wk_visited st' \<le> MAX_ENTRIES + MAX_DEPTH \<and> (\<forall>s \<in> set out. 0 < su_supported_files s)
     \<and> length out \<le> length suggestions + length seeds"
proof (induction seeds arbitrary: seen suggestions st)
  case (Cons seed seeds)
  show ?case
  proof (cases "\<not> fs_is_dir (sg_fs env) seed \<or> (\<exists>p \<in> set seen. components p = components seed)")
    case True
    with Cons.IH [of seen suggestions st] Cons.prems show ?thesis by auto
  next
    case False
    obtain r st1 where c: "summarize_candidate env seed st = (r, st1)" by fastforce
    define more where "more = (case r of Inr (Some s) \<Rightarrow> suggestions @ [s] | _ \<Rightarrow> suggestions)"
    define st2 where "st2 = (case r of Inl _ \<Rightarrow> st1\<lparr>wk_truncated := True\<rparr> | Inr _ \<Rightarrow> st1)"
    have v: "wk_visited st2 \<le> MAX_ENTRIES + MAX_DEPTH"
      using summarize_visited [OF c] Cons.prems(2) by (auto simp: st2_def split: sum.split)
    have m: "\<forall>s \<in> set more. 0 < su_supported_files s" "length more \<le> length suggestions + 1"
      using Cons.prems(3) summarize_supported c by (auto simp: more_def split: sum.split option.split)
    from False Cons.prems(1) c have "(out, st') = (more, st2) \<or> summarize_seeds env seeds (seen @ [seed]) more st2 = (out, st')"
      by (auto simp: more_def st2_def Let_def split: if_splits)
    then show ?thesis using Cons.IH [of "seen @ [seed]" more st2] v m by auto
  qed
qed auto

lemma seeds_of_length: "length (seeds_of env start) \<le> 8"
proof -
  have "length (filter P [a, b, c, d, e, f]) \<le> 6" for P :: "path \<Rightarrow> bool" and a b c d e f
    using length_filter_le [of P "[a, b, c, d, e, f]"] by simp
  then show ?thesis by (simp add: seeds_of_def split: option.split del: filter.simps)
qed

interpretation ordered: comparator suggestion_order UNIV
  unfolding suggestion_order_def path_cmp_def
  by (intro comparator_then comparator_rev [of "\<lambda>a b. cmp (su_supported_files a) (su_supported_files b)"] comparator_key)


end
