(* ===== verification/End_To_End.thy ===== *)
theory End_To_End
  imports Index_Properties Retrieval_Properties
begin

text \<open>
  From indexing to search: the row of the root that a full scan leaves, and what a search finds of a file that is in
  the index.
\<close>

subsection \<open>The root after a scan\<close>

definition root_row :: "root \<Rightarrow> db \<Rightarrow> bool" where
  "root_row approved db \<longleftrightarrow> (\<exists>r \<in> set (db_roots db). rt_id r = rt_id approved \<and> rt_enabled r = rt_enabled approved)"

lemma preserves_roots: "preserves roots_and_runs m \<Longrightarrow> preserves db_roots m"
  by (auto simp: preserves_def)

lemma preserves_root_row: "preserves db_roots m \<Longrightarrow> triple (root_row approved) m (\<lambda>_. root_row approved)"
  by (auto simp: preserves_def triple_def root_row_def)

lemma preserves_index_documents: "preserves db_roots (index_documents env approved registry documents c)"
  by (induction documents arbitrary: c)
    (auto intro!: preserves_intros preserves_roots [OF preserves_process_document])

lemma preserves_scan_stores:
  "preserves db_roots (store (\<lambda>db. insert_scan_run db run))"
  "preserves db_roots (store (\<lambda>db. Inr (delete_unseen documents t sources db)))"
  using delete_unseen_roots_and_runs
  by (auto intro!: preserves_store simp: insert_scan_run_def split: if_splits)

lemma upsert_root_row: "upsert_root db approved = Inr db' \<Longrightarrow> root_row approved db'"
  by (auto simp: upsert_root_def root_row_def update_where_def split: if_splits) (auto simp: bex_Un)

lemma full_scan_root_row:
  assumes "index_one_root_full env approved registry requested resolved head reason w = (Inr report, w')"
  shows "root_row approved (wd_db w')"
proof -
  have "triple (\<lambda>_. True) (index_one_root_full env approved registry requested resolved head reason)
      (\<lambda>r db. \<forall>x. r = Inr x \<longrightarrow> root_row approved db)"
    unfolding index_one_root_full_def Let_def
    apply (rule triple_quiet_then [OF quiet_now])
     apply (rule triple_andthen [where R = "\<lambda>r db. r = Inr () \<longrightarrow> root_row approved db"])
       apply (rule triple_store; simp add: upsert_root_row)
      apply (rule triple_weaken [OF preserves_root_row])
        apply (auto intro!: preserves_intros preserves_quiet [OF quiet_basic(4)] preserves_scan_stores preserves_index_documents split: sum.split)
    done
  from triple_use [OF this _ assms] show ?thesis by simp
qed

subsection \<open>What a search finds of an indexed file\<close>

lemma indexed_is_searchable:
  assumes ok: "db_ok db" and row: "root_row approved db" and enabled: "rt_enabled approved"
    and view: "index_view db (rt_id approved, p) = Some (v, gs)" and g: "g \<in> set gs"
    and all: "\<And>t. request_allows request (rt_id approved) t"
  shows "\<exists>sf r. searchable db request sf g r"
proof -
  have keys: "keys_ok db" using ok by (simp add: db_ok_def)
  from view obtain sf where sf: "sf \<in> set (db_source_files db)" "sf_root_id sf = rt_id approved" "sf_relative_path sf = p"
    unfolding index_view_Some [OF keys] by blast
  from row obtain r where "r \<in> set (db_roots db)" "rt_id r = rt_id approved" "rt_enabled r"
    using enabled by (auto simp: root_row_def)
  with sf view g all show ?thesis unfolding searchable_def by metis
qed

text \<open>A search that returns fewer rows than its limit has returned every matching segment it may see.\<close>

lemma search_complete:
  assumes "db_ok db" "search_fts env db request parsed limit = Inr cs" "length cs < limit"
    and "searchable db request sf s r" "fx_match (re_fts env) (pq_fts_match parsed) (sg_text s)"
  shows "\<exists>c \<in> set cs. cd_segment_id c = sg_id s"
  using search_fts_result [OF assms(1,2)] assms(3-5) by (metis nat_neq_iff)

lemma search_sound:
  assumes "db_ok db" "search_fts env db request parsed limit = Inr cs" "c \<in> set cs"
  shows "request_allows request (cd_root_id c) (cd_file_type c)
    \<and> index_view db (cd_root_id c, cd_relative_path c) \<noteq> None"
  using search_fts_result [OF assms(1,2)] assms(3)
  by (fastforce simp: searchable_def candidate_of_def fts_row_of_def)

subsection \<open>A small index\<close>

lemma hello_process:
  "\<exists>x w'. process_document hello_env sample_root sample_document hello_registry \<lparr>wd_db = hello_db, wd_tick = n\<rparr> = (Inr x, w')"
  using process_new_content [of "\<lparr>wd_db = hello_db, wd_tick = n\<rparr>" sample_root hello_env 9 sample_document hello_stable hello hello_registry]
    hello_db_ok hello_clock hello_fresh hello_readable hello_utf8 hello_registry hello_find
  by (simp add: hello_stable_def hello_db_def) blast

lemma hello_scan:
  "\<exists>report w'. index_one_root_full hello_env sample_root hello_registry None None None None
      \<lparr>wd_db = hello_db, wd_tick = 0\<rparr> = (Inr report, w') \<and> \<not> ir_failed report \<and> ir_failures report = 0"
proof -
  let ?w = "\<lparr>wd_db = hello_db, wd_tick = 0\<rparr>"
  have "\<exists>report w'. index_one_root_full hello_env sample_root hello_registry None None None None ?w = (Inr report, w')
    \<and> (ir_failed report \<longleftrightarrow> (\<exists>e. discover_root (ie_discovery hello_env (wd_tick ?w + 1)) sample_root default_discovery_options = Inl e))"
    by (rule index_one_root_full_completes)
      (use hello_upsert hello_runs hello_clock in simp_all)
  then obtain report w' where
    run: "index_one_root_full hello_env sample_root hello_registry None None None None ?w = (Inr report, w')"
    "\<not> ir_failed report" using hello_discovery by auto
  obtain x w1 where x: "process_document hello_env sample_root sample_document hello_registry \<lparr>wd_db = hello_db, wd_tick = 1\<rparr> = (Inr x, w1)"
    using hello_process by blast
  have "ct_failures (count_outcome (Inr x) no_counts) = 0" by (cases x) (simp_all add: no_counts_def)
  then have "ir_failures report = 0"
    using run(1) x hello_clock
    by (auto simp: index_one_root_full_def Let_def andthen_def now_def store_def hello_upsert hello_discovery attempt_def ret_def
        full_report_def reading_def new_uuid_def split: prod.splits sum.splits)
  with run show ?thesis by blast
qed

lemma plain_search:
  "\<exists>cs. search_fts plain_env db request parsed (Suc (length (fts_join db))) = Inr cs \<and> length cs \<le> length (fts_join db)"
proof -
  let ?rows = "map (\<lambda>row. (row, Finite (-1))) (filter (\<lambda>(f, sf, r, s). 111 \<in> set (fr_text f)
      \<and> request_allows request (fr_root_id f) (sf_file_type sf)) (fts_join db))"
  have "length (sort_by c ?rows) \<le> length (fts_join db)" for c
    using size_mset [of "sort_by c ?rows"] by (simp add: mset_sort_by)
  then show ?thesis
    by (auto simp: search_fts_def plain_env_def ranked_rows_def Let_def min_def intro!: le_SucI [OF length_filter_le])
qed

end
