(* ===== verification/Evaluation_Metrics.thy ===== *)
theory Evaluation_Metrics
  imports Retrieval
begin

text \<open>
  The metrics of the evaluation (\<open>eval.rs\<close>): relevance judgments, recall, reciprocal rank, nDCG, the aggregation
  over the queries and the percentiles, in \<open>f64\<close>. \<open>None\<close> is a panic (an index out of range, a missing key).
  The mathematical library (\<open>powf\<close>, \<open>log2\<close>) is a parameter.
\<close>

subsection \<open>Records\<close>

record corpus_segment =
  cs_anchor :: ustring
  cs_text :: ustring

record corpus_record =
  cr_document_id :: ustring
  cr_path :: path
  cr_revision :: ustring
  cr_segments :: "corpus_segment list"

record query_record =
  qr_query_id :: ustring
  qr_query :: ustring
  qr_relationship_should_help :: bool
  qr_newest_revision_matters :: bool

record judgment_record =
  jr_query_id :: ustring
  jr_required :: "ustring list"
  jr_acceptable :: "ustring list"
  jr_misleading :: "ustring list"
  jr_expected_source_diversity :: "nat option"

record eval_hit =
  eh_segment_ref :: ustring
  eh_rank :: nat
  eh_score :: float
  eh_freshness :: freshness_status

record per_query_result =
  pq_query_id :: ustring
  pq_latency_ms :: float
  pq_returned_tokens :: nat
  pq_recall_at_5 :: float
  pq_recall_at_10 :: float
  pq_reciprocal_rank :: float
  pq_ndcg :: float
  pq_hits :: "eval_hit list"
  pq_telemetry :: retrieval_telemetry

record eval_metrics =
  em_recall_at_5 :: float
  em_recall_at_10 :: float
  em_mrr :: float
  em_ndcg :: float
  em_duplicate_result_rate :: float
  em_stale_result_rate :: float
  em_misleading_result_rate :: float
  em_source_diversity :: float
  em_returned_tokens :: float
  em_p50_latency_ms :: float
  em_p95_latency_ms :: float
  em_p50_query_embedding_ms :: float
  em_p95_query_embedding_ms :: float
  em_p50_vector_scan_ms :: float
  em_p95_vector_scan_ms :: float
  em_active_vectors_examined :: nat
  em_corrupt_vectors_excluded :: nat
  em_local_lexical_candidates :: nat
  em_snapshot_lexical_candidates :: nat
  em_semantic_candidates :: nat
  em_candidates_admitted_to_fusion :: nat
  em_unique_fused_candidates :: nat
  em_fusion_duplicates_suppressed :: nat

record libm =
  lm_powf :: "float \<Rightarrow> float \<Rightarrow> float"
  lm_log2 :: "float \<Rightarrow> float"

abbreviation f64_of :: "nat \<Rightarrow> float" where "f64_of n \<equiv> of_int_float F64 (int n)"

definition fsub :: "float \<Rightarrow> float \<Rightarrow> float" where
  "fsub a b = fadd F64 a (fneg b)"

subsection \<open>One query\<close>

text \<open>A \<open>HashMap\<close> from labels to grades: the stronger label of a reference stays.\<close>

type_synonym grades = "(ustring \<times> float) list"

definition or_insert :: "float \<Rightarrow> grades \<Rightarrow> ustring \<Rightarrow> grades" where
  "or_insert g m k = (if map_of m k = None then m @ [(k, g)] else m)"

definition relevance_grades :: "judgment_record \<Rightarrow> grades" where
  "relevance_grades j =
     (let m = foldl (\<lambda>m k. AList.update k (Finite 2) m) [] (jr_required j);
          m = foldl (or_insert (Finite 1)) m (jr_acceptable j)
      in foldl (or_insert (Finite 0)) m (jr_misleading j))"

definition recall_at :: "ustring list \<Rightarrow> judgment_record \<Rightarrow> nat \<Rightarrow> float" where
  "recall_at refs j k =
     (let required = remdups (jr_required j) in
      if required = [] then Finite 1
      else fdiv F64 (f64_of (length (filter (\<lambda>r. r \<in> set required) (take k refs)))) (f64_of (length required)))"

fun reciprocal :: "nat \<Rightarrow> ustring list \<Rightarrow> ustring set \<Rightarrow> float" where
  "reciprocal i [] positive = Finite 0"
| "reciprocal i (r # refs) positive =
     (if r \<in> positive then fdiv F64 (Finite 1) (fadd F64 (f64_of i) (Finite 1)) else reciprocal (Suc i) refs positive)"

definition mrr_one :: "ustring list \<Rightarrow> judgment_record \<Rightarrow> float" where
  "mrr_one refs j = reciprocal 0 refs (set (jr_required j @ jr_acceptable j))"

text \<open>The discounted sum of gains in their order.\<close>

definition gain_term :: "libm \<Rightarrow> nat \<Rightarrow> float \<Rightarrow> float" where
  "gain_term m i g = fdiv F64 (fsub (lm_powf m (Finite 2) g) (Finite 1)) (lm_log2 m (fadd F64 (f64_of i) (Finite 2)))"

definition discounted :: "libm \<Rightarrow> float list \<Rightarrow> float" where
  "discounted m gains = foldl (\<lambda>acc (i, g). fadd F64 acc (gain_term m i g)) (Finite 0) (enumerate 0 gains)"

definition ndcg_at :: "libm \<Rightarrow> ustring list \<Rightarrow> grades \<Rightarrow> nat \<Rightarrow> float" where
  "ndcg_at m refs grades k =
     (let dcg = discounted m (map (\<lambda>r. case map_of grades r of Some g \<Rightarrow> g | None \<Rightarrow> Finite 0) (take k refs));
          ideal = sort_by (\<lambda>l r. float_cmp r l) (filter (\<lambda>v. flt (Finite 0) v) (map snd grades));
          idcg = discounted m (take k ideal)
      in if idcg = Finite 0 then Finite 0 else fdiv F64 dcg idcg)"

subsection \<open>All queries\<close>

record tallies =
  ta_duplicate_num :: float
  ta_duplicate_den :: float
  ta_stale_num :: float
  ta_stale_den :: float
  ta_misleading_num :: float
  ta_misleading_den :: float

definition no_tallies :: tallies where
  "no_tallies = \<lparr>ta_duplicate_num = Finite 0, ta_duplicate_den = Finite 0, ta_stale_num = Finite 0,
     ta_stale_den = Finite 0, ta_misleading_num = Finite 0, ta_misleading_den = Finite 0\<rparr>"

definition one_more :: "float \<Rightarrow> float" where
  "one_more a = fadd F64 a (Finite 1)"

definition tally_hit :: "judgment_record \<Rightarrow> bool \<Rightarrow> eval_hit \<Rightarrow> tallies \<Rightarrow> tallies" where
  "tally_hit j seen hit t =
     (let t = t\<lparr>ta_duplicate_den := one_more (ta_duplicate_den t), ta_misleading_den := one_more (ta_misleading_den t)\<rparr>;
          t = (if seen then t\<lparr>ta_duplicate_num := one_more (ta_duplicate_num t)\<rparr> else t);
          t = (case eh_freshness hit of
              PendingReindex \<Rightarrow> t\<lparr>ta_stale_num := one_more (ta_stale_num t), ta_stale_den := one_more (ta_stale_den t)\<rparr>
            | Current \<Rightarrow> t\<lparr>ta_stale_den := one_more (ta_stale_den t)\<rparr>
            | Unknown \<Rightarrow> t)
      in if eh_segment_ref hit \<in> set (jr_misleading j) then t\<lparr>ta_misleading_num := one_more (ta_misleading_num t)\<rparr> else t)"

fun tally_hits :: "judgment_record \<Rightarrow> ustring list \<Rightarrow> eval_hit list \<Rightarrow> tallies \<Rightarrow> tallies" where
  "tally_hits j seen [] t = t"
| "tally_hits j seen (hit # hits) t =
     tally_hits j (List.insert (eh_segment_ref hit) seen) hits (tally_hit j (eh_segment_ref hit \<in> set seen) hit t)"

text \<open>The documents of the hits: what stands before the first \<open>#\<close> of a reference.\<close>

definition sources_of :: "eval_hit list \<Rightarrow> ustring list" where
  "sources_of hits = remdups (map (takeWhile (\<lambda>c. c \<noteq> 35)) (filter (\<lambda>r. 35 \<in> set r) (map eh_segment_ref hits)))"

fun tally_queries ::
    "(ustring \<Rightarrow> judgment_record option) \<Rightarrow> per_query_result list \<Rightarrow> tallies \<Rightarrow> float \<Rightarrow> (tallies \<times> float) option" where
  "tally_queries judgments [] t diversity = Some (t, diversity)"
| "tally_queries judgments (item # items) t diversity =
     (case judgments (pq_query_id item) of
        None \<Rightarrow> None
      | Some j \<Rightarrow> tally_queries judgments items (tally_hits j [] (pq_hits item) t)
          (fadd F64 diversity (f64_of (length (sources_of (pq_hits item))))))"

subsection \<open>Percentiles\<close>

fun ffloor :: "float \<Rightarrow> float" where
  "ffloor (Finite x) = Finite (of_int \<lfloor>x\<rfloor>)" | "ffloor a = a"

fun fceil :: "float \<Rightarrow> float" where
  "fceil (Finite x) = Finite (of_int \<lceil>x\<rceil>)" | "fceil a = a"

text \<open>\<open>as usize\<close> truncates and saturates.\<close>

fun as_usize :: "float \<Rightarrow> nat" where
  "as_usize (Finite x) = min usize_max (nat \<lfloor>x\<rfloor>)"
| "as_usize (Infinite negative) = (if negative then 0 else usize_max)"
| "as_usize NaN = 0"

definition nth_checked :: "'a list \<Rightarrow> nat \<Rightarrow> 'a option" where
  "nth_checked xs i = (if i < length xs then Some (xs ! i) else None)"

definition percentile :: "float list \<Rightarrow> float \<Rightarrow> float option" where
  "percentile vs p =
     (if vs = [] then Some (Finite 0)
      else let sorted = sort_by float_cmp vs in
        if length sorted = 1 then nth_checked sorted 0
        else let rank = fmul F64 p (fsub (f64_of (length sorted)) (Finite 1));
                 low = as_usize (ffloor rank); high = as_usize (fceil rank)
             in if low = high then nth_checked sorted low
                else let weight = fsub rank (f64_of low)
                     in Option.bind (nth_checked sorted low) (\<lambda>a.
                        Option.bind (nth_checked sorted high) (\<lambda>b.
                        Some (fadd F64 (fmul F64 a (fsub (Finite 1) weight)) (fmul F64 b weight)))))"

definition P50 :: float where "P50 = Finite (1 / 2)"
definition P95 :: float where "P95 = round_to F64 (95 / 100)"

definition rate :: "float \<Rightarrow> float \<Rightarrow> float" where
  "rate num den = (if den = Finite 0 then Finite 0 else fdiv F64 num den)"

definition mean :: "(per_query_result \<Rightarrow> float) \<Rightarrow> per_query_result list \<Rightarrow> float" where
  "mean f per_query = fdiv F64 (fsum F64 (map f per_query)) (f64_of (max 1 (length per_query)))"

definition aggregate_metrics ::
    "per_query_result list \<Rightarrow> (ustring \<Rightarrow> judgment_record option) \<Rightarrow> float list \<Rightarrow> eval_metrics option" where
  "aggregate_metrics per_query judgments latencies =
     Option.bind (tally_queries judgments per_query no_tallies (Finite 0)) (\<lambda>(t, diversity).
     Option.bind (percentile latencies P50) (\<lambda>l50.
     Option.bind (percentile latencies P95) (\<lambda>l95.
     Option.bind (percentile (map (te_query_embedding_ms \<circ> pq_telemetry) per_query) P50) (\<lambda>e50.
     Option.bind (percentile (map (te_query_embedding_ms \<circ> pq_telemetry) per_query) P95) (\<lambda>e95.
     Option.bind (percentile (map (te_vector_scan_ms \<circ> pq_telemetry) per_query) P50) (\<lambda>s50.
     Option.bind (percentile (map (te_vector_scan_ms \<circ> pq_telemetry) per_query) P95) (\<lambda>s95.
     Some \<lparr>em_recall_at_5 = mean pq_recall_at_5 per_query, em_recall_at_10 = mean pq_recall_at_10 per_query,
       em_mrr = mean pq_reciprocal_rank per_query, em_ndcg = mean pq_ndcg per_query,
       em_duplicate_result_rate = rate (ta_duplicate_num t) (ta_duplicate_den t),
       em_stale_result_rate = rate (ta_stale_num t) (ta_stale_den t),
       em_misleading_result_rate = rate (ta_misleading_num t) (ta_misleading_den t),
       em_source_diversity = fdiv F64 diversity (f64_of (max 1 (length per_query))),
       em_returned_tokens = mean (\<lambda>q. f64_of (pq_returned_tokens q)) per_query,
       em_p50_latency_ms = l50, em_p95_latency_ms = l95, em_p50_query_embedding_ms = e50,
       em_p95_query_embedding_ms = e95, em_p50_vector_scan_ms = s50, em_p95_vector_scan_ms = s95,
       em_active_vectors_examined = sum_list (map (te_active_vectors_examined \<circ> pq_telemetry) per_query),
       em_corrupt_vectors_excluded = sum_list (map (te_corrupt_vectors_excluded \<circ> pq_telemetry) per_query),
       em_local_lexical_candidates = sum_list (map (te_local_lexical_candidates \<circ> pq_telemetry) per_query),
       em_snapshot_lexical_candidates = sum_list (map (te_snapshot_lexical_candidates \<circ> pq_telemetry) per_query),
       em_semantic_candidates = sum_list (map (te_semantic_candidates \<circ> pq_telemetry) per_query),
       em_candidates_admitted_to_fusion = sum_list (map (te_candidates_admitted_to_fusion \<circ> pq_telemetry) per_query),
       em_unique_fused_candidates = sum_list (map (te_unique_fused_candidates \<circ> pq_telemetry) per_query),
       em_fusion_duplicates_suppressed = sum_list (map (te_fusion_duplicates_suppressed \<circ> pq_telemetry) per_query)\<rparr>)))))))"

end
