(* ===== verification/Evaluation.thy ===== *)
theory Evaluation
  imports Evaluation_Metrics Semantic Embedding_Sync Index
begin

text \<open>
  The evaluation runner (\<open>eval.rs\<close>): reading and validating a bundle, writing its corpus into a temporary
  directory, indexing it, running the queries, fingerprints, the pinned provider and the comparison of the three
  modes. What the outer world answers after the writes so far is a parameter.
\<close>

subsection \<open>Outcomes\<close>

text \<open>\<open>None\<close> is a panic.\<close>

definition obind :: "('e + 'a) option \<Rightarrow> ('a \<Rightarrow> ('e + 'b) option) \<Rightarrow> ('e + 'b) option" where
  "obind r f = (case r of None \<Rightarrow> None | Some (Inl e) \<Rightarrow> Some (Inl e) | Some (Inr a) \<Rightarrow> f a)"

lemma obind_simps [simp]:
  "obind None f = None" "obind (Some (Inl e)) f = Some (Inl e)" "obind (Some (Inr a)) f = f a"
  by (simp_all add: obind_def)

fun read_error_display :: "read_error \<Rightarrow> ustring" where
  "read_error_display ChangedDuringRead = lit ''FILE_CHANGED_DURING_READ''"
| "read_error_display (ReadOversized n) = lit ''file exceeds configured size limit ('' @ show_nat n @ lit '' bytes)''"
| "read_error_display (NotRegularFile p) = lit ''path is not a regular file: '' @ p"
| "read_error_display (ReadIo p m) = lit ''I/O error for '' @ p @ lit '': '' @ m"

fun index_error_display :: "(sql_error \<Rightarrow> ustring) \<Rightarrow> index_error \<Rightarrow> ustring" where
  "index_error_display sql (IndexConfig e) = config_error_display e"
| "index_error_display sql (IndexStorage e) = storage_error_display sql e"
| "index_error_display sql (IndexDomain e) = domain_error_display e"
| "index_error_display sql (IndexRead e) = read_error_display e"
| "index_error_display sql (IndexDiscovery i m) = lit ''discovery failed for root '' @ i @ lit '': '' @ m"
| "index_error_display sql NoRoots = lit ''no enabled roots are configured''"
| "index_error_display sql (IndexInternal m) = lit ''internal indexing error: '' @ m"

fun index_to_retrieval :: "(sql_error \<Rightarrow> ustring) \<Rightarrow> index_error \<Rightarrow> retrieval_error" where
  "index_to_retrieval sql (IndexConfig e) = RetrievalConfig e"
| "index_to_retrieval sql (IndexStorage e) = RetrievalStorage e"
| "index_to_retrieval sql (IndexDomain e) = RetrievalDomain e"
| "index_to_retrieval sql e = Evaluation (index_error_display sql e)"

subsection \<open>The bundle\<close>

text \<open>One record per line; blank lines are passed over, and a bad line is named by its number.\<close>

fun parse_lines :: "(ustring \<Rightarrow> ustring + 'a) \<Rightarrow> path \<Rightarrow> nat \<Rightarrow> ustring list \<Rightarrow> retrieval_error + 'a list" where
  "parse_lines parse path i [] = Inr []"
| "parse_lines parse path i (line # lines) =
     (if trim line = [] then parse_lines parse path (Suc i) lines
      else case parse (trim line) of
          Inl m \<Rightarrow> Inl (Evaluation (lit ''invalid JSONL in '' @ path @ lit '' line '' @ show_nat (i + 1) @ lit '': '' @ m))
        | Inr v \<Rightarrow> map_sum id (Cons v) (parse_lines parse path (Suc i) lines))"

definition read_jsonl :: "(path \<Rightarrow> ustring + ustring) \<Rightarrow> (ustring \<Rightarrow> ustring + 'a) \<Rightarrow> path \<Rightarrow> retrieval_error + 'a list" where
  "read_jsonl read parse path =
     (case read path of
        Inl m \<Rightarrow> Inl (Evaluation (lit ''failed to read '' @ path @ lit '': '' @ m))
      | Inr text \<Rightarrow> parse_lines parse path 0 (str_lines text))"

fun collect_query_ids :: "query_record list \<Rightarrow> ustring set \<Rightarrow> retrieval_error + ustring set" where
  "collect_query_ids [] ids = Inr ids"
| "collect_query_ids (q # qs) ids =
     (if qr_query_id q \<in> ids then Inl (Evaluation (lit ''duplicate query_id '' @ qr_query_id q))
      else collect_query_ids qs (insert (qr_query_id q) ids))"

fun check_judgments :: "judgment_record list \<Rightarrow> ustring set \<Rightarrow> retrieval_error + unit" where
  "check_judgments [] ids = Inr ()"
| "check_judgments (j # js) ids =
     (if jr_query_id j \<notin> ids then Inl (Evaluation (lit ''judgment for unknown query_id '' @ jr_query_id j))
      else if jr_required j = [] \<and> jr_acceptable j = []
      then Inl (Evaluation (lit ''judgment '' @ jr_query_id j @ lit '' has no positive labels''))
      else check_judgments js ids)"

definition validate_bundle ::
    "corpus_record list \<Rightarrow> query_record list \<Rightarrow> judgment_record list \<Rightarrow> retrieval_error + unit" where
  "validate_bundle corpus queries judgments =
     (if corpus = [] then Inl (Evaluation (lit ''corpus is empty''))
      else if queries = [] then Inl (Evaluation (lit ''queries are empty''))
      else if judgments = [] then Inl (Evaluation (lit ''judgments are empty''))
      else try_bind (collect_query_ids queries {}) (check_judgments judgments))"

subsection \<open>The corpus on disk\<close>

text \<open>Every path handed to the file system, in order.\<close>

record written =
  wr_dirs :: "path list"
  wr_files :: "(path \<times> ustring) list"

definition nothing_written :: written where
  "nothing_written = \<lparr>wr_dirs = [], wr_files = []\<rparr>"

definition segment_text :: "corpus_segment \<Rightarrow> ustring" where
  "segment_text s =
     (case strip_prefix (lit ''heading:'') (cs_anchor s) of
        Some title \<Rightarrow> lit ''# '' @ concat (map (\<lambda>c. if c = 47 then lit '' / '' else [c]) title) @ [10, 10]
      | None \<Rightarrow> [])
     @ cs_text s @ [10, 10]"

definition corpus_failed :: "ustring \<Rightarrow> retrieval_error" where
  "corpus_failed m = Evaluation (lit ''corpus write failed: '' @ m)"

fun materialize_corpus ::
    "config_env \<Rightarrow> path \<Rightarrow> corpus_record list \<Rightarrow> written \<Rightarrow> (retrieval_error + unit) \<times> written" where
  "materialize_corpus env dir [] w = (Inr (), w)"
| "materialize_corpus env dir (document # corpus) w =
     (let path = path_join dir (cr_path document);
          (made, w) = (case path_parent path of
              None \<Rightarrow> (None, w)
            | Some parent \<Rightarrow> (ce_create_dir_all env parent, w\<lparr>wr_dirs := wr_dirs w @ [parent]\<rparr>));
          body = concat (map segment_text (cr_segments document))
      in case made of
           Some m \<Rightarrow> (Inl (corpus_failed m), w)
         | None \<Rightarrow>
             (let w = w\<lparr>wr_files := wr_files w @ [(path, body)]\<rparr> in
              case ce_write env path of
                Some m \<Rightarrow> (Inl (corpus_failed m), w)
              | None \<Rightarrow> materialize_corpus env dir corpus w))"

subsection \<open>Fingerprints\<close>

record fingerprint_row =
  fg_relative_path :: path
  fg_anchor :: ustring
  fg_ordinal :: nat
  fg_text_hash :: content_hash
  fg_content_hash :: content_hash
  fg_parser_id :: ustring
  fg_parser_version :: ustring

definition fingerprint_order :: "fingerprint_row \<Rightarrow> fingerprint_row \<Rightarrow> ordering" where
  "fingerprint_order a b = then_with (cmp (fg_relative_path a) (fg_relative_path b))
     (then_with (cmp (fg_ordinal a) (fg_ordinal b)) (then_with (cmp (fg_anchor a) (fg_anchor b))
       (cmp (fg_text_hash a) (fg_text_hash b))))"

definition fingerprint_projection :: "db \<Rightarrow> fingerprint_row list" where
  "fingerprint_projection db =
     [\<lparr>fg_relative_path = sf_relative_path sf, fg_anchor = sg_anchor s, fg_ordinal = sg_ordinal s,
       fg_text_hash = sg_text_hash s, fg_content_hash = rv_content_hash v, fg_parser_id = rv_parser_id v,
       fg_parser_version = rv_parser_version v\<rparr>.
      f \<leftarrow> db_segments_fts db, sf \<leftarrow> db_source_files db,
      sf_id sf = fr_source_file_id f \<and> sf_state sf = Active \<and> sf_current_revision_id sf = Some (fr_revision_id f),
      s \<leftarrow> db_segments db, sg_id s = fr_segment_id f, v \<leftarrow> db_revisions db, rv_id v = fr_revision_id f]"

definition fingerprint_rows :: "db \<Rightarrow> fingerprint_row list" where
  "fingerprint_rows db = sort_by fingerprint_order (fingerprint_projection db)"

text \<open>\<open>to_le_bytes\<close> of a 64-bit integer.\<close>

fun le_bytes :: "nat \<Rightarrow> nat \<Rightarrow> bytes" where
  "le_bytes 0 n = []"
| "le_bytes (Suc k) n = n mod 256 # le_bytes k (n div 256)"

definition row_bytes :: "fingerprint_row \<Rightarrow> bytes" where
  "row_bytes r = as_bytes (fg_relative_path r) @ [0] @ as_bytes (fg_anchor r) @ [0] @ le_bytes 8 (fg_ordinal r) @ [0]
     @ as_bytes (fg_text_hash r) @ [0] @ as_bytes (fg_content_hash r) @ [0] @ as_bytes (fg_parser_id r) @ [0]
     @ as_bytes (fg_parser_version r) @ [255]"

definition fingerprint_stream :: "fingerprint_row list \<Rightarrow> bytes" where
  "fingerprint_stream rows = concat (map row_bytes rows) @ le_bytes 8 (u64_sat (length rows))"

definition index_fingerprint :: "(bytes \<Rightarrow> ustring) \<Rightarrow> db \<Rightarrow> ustring" where
  "index_fingerprint blake3 db = lit ''blake3:'' @ blake3 (fingerprint_stream (fingerprint_rows db))"

subsection \<open>The pinned provider\<close>

definition validate_current :: "provider \<Rightarrow> resolved_model \<Rightarrow> nat \<Rightarrow> embedding_error + unit" where
  "validate_current inner model n =
     try_bind (pv_resolve_model inner n) (\<lambda>current.
       if pv_kind inner \<noteq> rm_provider model \<or> rm_provider current \<noteq> rm_provider model
         \<or> rm_canonical_name current \<noteq> rm_canonical_name model
         \<or> rm_model_digest current \<noteq> rm_model_digest model \<or> rm_dimensions current \<noteq> rm_dimensions model
       then Inl ModelChanged else Inr ())"

definition pinned_provider :: "provider \<Rightarrow> resolved_model \<Rightarrow> provider" where
  "pinned_provider inner model =
     \<lparr>pv_kind = rm_provider model,
      pv_resolve_model = (\<lambda>n. try_bind (validate_current inner model n) (\<lambda>_. Inr model)),
      pv_embed = (\<lambda>n inputs m.
        if m \<noteq> model then Inl ModelChanged
        else try_bind (validate_current inner model n) (\<lambda>_. pv_embed inner n inputs m))\<rparr>"

subsection \<open>Reports\<close>

record eval_embedding =
  ee_provider :: ustring
  ee_canonical_model :: ustring
  ee_model_digest :: ustring
  ee_dimensions :: nat
  ee_normalization :: ustring
  ee_input_contract_version :: ustring
  ee_embedding_space_id :: ustring
  ee_corpus_embedding_ms :: nat
  ee_active_vector_coverage :: float

record eval_report =
  er_run_id :: ustring
  er_mode :: ustring
  er_corpus_size :: nat
  er_query_count :: nat
  er_config_fingerprint :: ustring
  er_index_fingerprint :: ustring
  er_metrics :: eval_metrics
  er_per_query :: "per_query_result list"
  er_embedding :: "eval_embedding option"

record eval_metric_deltas =
  dl_recall_at_5 :: float
  dl_recall_at_10 :: float
  dl_mrr :: float
  dl_ndcg :: float

record eval_comparison =
  cp_lexical :: eval_report
  cp_semantic :: eval_report
  cp_hybrid :: eval_report
  cp_semantic_minus_lexical :: eval_metric_deltas
  cp_hybrid_minus_lexical :: eval_metric_deltas
  cp_embedding_sync_runs :: nat
  cp_embedding_sync_status :: ustring

record 'g eval_env =
  ev_read :: "path \<Rightarrow> ustring + ustring"
  ev_parse_corpus :: "ustring \<Rightarrow> ustring + corpus_record" \<comment> \<open>\<open>serde_json\<close>\<close>
  ev_parse_query :: "ustring \<Rightarrow> ustring + query_record"
  ev_parse_judgment :: "ustring \<Rightarrow> ustring + judgment_record"
  ev_temp_dir :: "ustring + path"
  ev_config :: "written \<Rightarrow> config_env" \<comment> \<open>the file system after these writes\<close>
  ev_index :: "written \<Rightarrow> 'g index_env"
  ev_retrieval :: "written \<Rightarrow> retrieval_mode \<Rightarrow> nat \<Rightarrow> 'g retrieval_env"
  ev_open_database :: "written \<Rightarrow> path \<Rightarrow> storage_error + db"
  ev_sync :: sync_env
  ev_feature :: "ollama_env option"
  ev_new_root :: uuid
  ev_index_ms :: nat
  ev_corpus_ms :: nat
  ev_latency_seconds :: "retrieval_mode \<Rightarrow> nat \<Rightarrow> float"
  ev_calls :: "retrieval_mode \<Rightarrow> nat \<Rightarrow> nat" \<comment> \<open>calls of the provider before this query\<close>
  ev_config_json :: "retrieval_config \<times> embedding_config \<Rightarrow> ustring option"
  ev_blake3 :: "bytes \<Rightarrow> ustring"
  ev_run_id :: "retrieval_mode \<Rightarrow> ustring"
  ev_libm :: libm
  ev_sql_text :: "sql_error \<Rightarrow> ustring"

subsection \<open>Running the queries\<close>

definition path_to_doc :: "corpus_record list \<Rightarrow> ustring \<Rightarrow> ustring option" where
  "path_to_doc corpus = map_of (rev (map (\<lambda>d. (cr_path d, cr_document_id d)) corpus))"

definition judgment_map :: "judgment_record list \<Rightarrow> ustring \<Rightarrow> judgment_record option" where
  "judgment_map judgments = map_of (rev (map (\<lambda>j. (jr_query_id j, j)) judgments))"

text \<open>The reference of a hit; \<open>to_string_lossy\<close> is the identity on paths of Unicode text.\<close>

definition hit_ref :: "(ustring \<Rightarrow> ustring option) \<Rightarrow> retrieval_hit \<Rightarrow> ustring" where
  "hit_ref docs hit =
     (let path = map (\<lambda>c. if c = 92 then 47 else c) (rh_relative_path hit)
      in (case docs path of Some d \<Rightarrow> d | None \<Rightarrow> path) @ lit ''#'' @ rh_anchor hit)"

definition eval_request :: "retrieval_mode \<Rightarrow> query_record \<Rightarrow> retrieval_error + retrieval_query" where
  "eval_request mode q =
     try_bind (map_err RetrievalDomain (retrieval_limit_new 10)) (\<lambda>limit.
     try_bind (map_err RetrievalDomain (token_budget_new 4000)) (\<lambda>budget.
     Inr \<lparr>rq_query = qr_query q, rq_root_ids = [], rq_file_types = [], rq_mode = mode, rq_limit = limit,
       rq_token_budget = budget, rq_include_sensitive = True, rq_budget_preset = None\<rparr>))"

definition later_calls :: "nat \<Rightarrow> provider \<Rightarrow> provider" where
  "later_calls k p = p\<lparr>pv_resolve_model := (\<lambda>n. pv_resolve_model p (k + n)), pv_embed := (\<lambda>n. pv_embed p (k + n))\<rparr>"

definition query_response ::
    "'g eval_env \<Rightarrow> written \<Rightarrow> db \<Rightarrow> app_config \<Rightarrow> retrieval_mode \<Rightarrow> provider option \<Rightarrow> nat \<Rightarrow> query_record
      \<Rightarrow> retrieval_error + retrieval_response" where
  "query_response env w db config mode provider i q =
     try_bind (eval_request mode q) (\<lambda>request.
       if mode = Lexical then retrieve (ev_retrieval env w mode i) (ev_feature env) db config request
       else retrieve_with_runtime (ev_retrieval env w mode i) db config request
         \<lparr>rn_provider = map_option (later_calls (ev_calls env mode i)) provider,
          rn_search = sqlite_exact_search (ev_retrieval env w mode i)\<rparr>)"

definition query_result ::
    "'g eval_env \<Rightarrow> (ustring \<Rightarrow> ustring option) \<Rightarrow> retrieval_mode \<Rightarrow> nat \<Rightarrow> query_record \<Rightarrow> judgment_record
      \<Rightarrow> retrieval_response \<Rightarrow> per_query_result" where
  "query_result env docs mode i q j response =
     (let refs = map (hit_ref docs) (rp_results response);
          grades = relevance_grades j
      in \<lparr>pq_query_id = qr_query_id q, pq_latency_ms = fmul F64 (ev_latency_seconds env mode i) (Finite 1000),
          pq_returned_tokens = rp_token_estimate response,
          pq_recall_at_5 = recall_at refs j 5, pq_recall_at_10 = recall_at refs j 10,
          pq_reciprocal_rank = mrr_one refs j, pq_ndcg = ndcg_at (ev_libm env) refs grades 10,
          pq_hits = map (\<lambda>(n, hit). \<lparr>eh_segment_ref = refs ! n, eh_rank = u32_sat (n + 1), eh_score = rh_score hit,
            eh_freshness = rh_freshness hit\<rparr>) (enumerate 0 (rp_results response)),
          pq_telemetry = rp_telemetry response\<rparr>)"

fun evaluate_queries ::
    "'g eval_env \<Rightarrow> written \<Rightarrow> db \<Rightarrow> app_config \<Rightarrow> (ustring \<Rightarrow> ustring option) \<Rightarrow> (ustring \<Rightarrow> judgment_record option)
      \<Rightarrow> retrieval_mode \<Rightarrow> provider option \<Rightarrow> nat \<Rightarrow> query_record list \<Rightarrow> retrieval_error + per_query_result list" where
  "evaluate_queries env w db config docs judgments mode provider i [] = Inr []"
| "evaluate_queries env w db config docs judgments mode provider i (q # qs) =
     try_bind (ok_or (Evaluation (lit ''missing judgment '' @ qr_query_id q)) (judgments (qr_query_id q))) (\<lambda>j.
     try_bind (query_response env w db config mode provider i q) (\<lambda>response.
     try_bind (evaluate_queries env w db config docs judgments mode provider (Suc i) qs) (\<lambda>rest.
       Inr (query_result env docs mode i q j response # rest))))"

definition evaluate_existing ::
    "'g eval_env \<Rightarrow> written \<Rightarrow> db \<Rightarrow> app_config \<Rightarrow> corpus_record list \<Rightarrow> query_record list \<Rightarrow> judgment_record list
      \<Rightarrow> retrieval_mode \<Rightarrow> provider option \<Rightarrow> eval_embedding option \<Rightarrow> (retrieval_error + eval_report) option" where
  "evaluate_existing env w db config corpus queries judgments mode provider embedding =
     obind (Some (evaluate_queries env w db config (path_to_doc corpus) (judgment_map judgments) mode provider 0 queries))
       (\<lambda>per_query.
     (case aggregate_metrics per_query (judgment_map judgments) (map pq_latency_ms per_query) of
        None \<Rightarrow> None
      | Some metrics \<Rightarrow> Some (Inr
          \<lparr>er_run_id = ev_run_id env mode, er_mode = retrieval_mode_as_str mode, er_corpus_size = length corpus,
           er_query_count = length queries,
           er_config_fingerprint = blake3_hex (ev_blake3 env)
             (as_bytes (case ev_config_json env (ac_retrieval config, ac_embeddings config) of Some s \<Rightarrow> s | None \<Rightarrow> [])),
           er_index_fingerprint = index_fingerprint (ev_blake3 env) db,
           er_metrics = metrics, er_per_query = per_query, er_embedding = embedding\<rparr>)))"

subsection \<open>A run\<close>

text \<open>What both entry points do first: read the bundle, install, write the corpus, add the root and index it.\<close>

record prepared =
  pd_corpus :: "corpus_record list"
  pd_queries :: "query_record list"
  pd_judgments :: "judgment_record list"
  pd_config :: app_config
  pd_config_file :: path
  pd_written :: written
  pd_disk :: disk
  pd_world :: world

definition saved :: "config_env \<Rightarrow> app_config \<Rightarrow> path \<Rightarrow> disk \<Rightarrow> retrieval_error + disk" where
  "saved env config path disk =
     (case save_config env config path disk of (Inl e, _) \<Rightarrow> Inl (RetrievalConfig e) | (Inr _, disk) \<Rightarrow> Inr disk)"

definition install_bundle :: "'g eval_env \<Rightarrow> path \<Rightarrow> corpus_record list \<Rightarrow> retrieval_error + app_config \<times> path \<times> written \<times> disk" where
  "install_bundle env temp corpus =
     (let paths = for_base (path_join temp (lit ''app'')) in
      case init_installation (ev_config env nothing_written) paths (\<lambda>_. None) of
        (Inl e, _) \<Rightarrow> Inl (RetrievalConfig e)
      | (Inr (config, _), disk) \<Rightarrow>
          (let root_dir = path_join temp (lit ''corpus'') in
           case materialize_corpus (ev_config env nothing_written) root_dir corpus nothing_written of
             (Inl e, _) \<Rightarrow> Inl e
           | (Inr _, w) \<Rightarrow>
               (case add_root (ev_config env w) (ev_new_root env) config root_dir (Some (lit ''eval'')) of
                  (Inl e, _) \<Rightarrow> Inl (RetrievalConfig e)
                | (Inr _, config) \<Rightarrow>
                    map_sum id (\<lambda>disk. (config, ap_config_file paths, w, disk))
                      (saved (ev_config env w) config (ap_config_file paths) disk))))"

definition prepare :: "'g eval_env \<Rightarrow> path \<Rightarrow> retrieval_error + prepared" where
  "prepare env bundle =
     try_bind (read_jsonl (ev_read env) (ev_parse_corpus env) (path_join bundle (lit ''corpus.jsonl''))) (\<lambda>corpus.
     try_bind (read_jsonl (ev_read env) (ev_parse_query env) (path_join bundle (lit ''queries.jsonl''))) (\<lambda>queries.
     try_bind (read_jsonl (ev_read env) (ev_parse_judgment env) (path_join bundle (lit ''judgments.jsonl''))) (\<lambda>judgments.
     try_bind (validate_bundle corpus queries judgments) (\<lambda>_.
     try_bind (map_err (\<lambda>m. Evaluation (lit ''temp dir failed: '' @ m)) (ev_temp_dir env)) (\<lambda>temp.
     try_bind (install_bundle env temp corpus) (\<lambda>(config, config_file, w, disk).
     try_bind (map_err RetrievalConfig (database_path (ev_config env w) config)) (\<lambda>db_path.
     try_bind (map_err RetrievalStorage (ev_open_database env w db_path)) (\<lambda>db.
     case index_roots (ev_index env w) (domain_roots (ev_config env w) config) None
         (synchronize_embeddings (ev_sync env) (ev_feature env) (ac_embeddings config)) (ev_index_ms env)
         \<lparr>wd_db = db, wd_tick = 0\<rparr> of
       (Inl e, _) \<Rightarrow> Inl (index_to_retrieval (ev_sql_text env) e)
     | (Inr _, world) \<Rightarrow>
         Inr \<lparr>pd_corpus = corpus, pd_queries = queries, pd_judgments = judgments, pd_config = config,
           pd_config_file = config_file, pd_written = w, pd_disk = disk, pd_world = world\<rparr>))))))))"

definition eval_embedding_of :: "'g eval_env \<Rightarrow> resolved_model \<Rightarrow> sync_report \<Rightarrow> eval_embedding" where
  "eval_embedding_of env model sync =
     \<lparr>ee_provider = provider_kind_display (rm_provider model), ee_canonical_model = rm_canonical_name model,
      ee_model_digest = rm_model_digest model, ee_dimensions = (case yr_dimensions sync of Some d \<Rightarrow> d | None \<Rightarrow> 0),
      ee_normalization = lit ''l2'', ee_input_contract_version = EMBEDDING_INPUT_CONTRACT_VERSION,
      ee_embedding_space_id = (case yr_embedding_space sync of Some i \<Rightarrow> i | None \<Rightarrow> []),
      ee_corpus_embedding_ms = u64_sat (ev_corpus_ms env),
      ee_active_vector_coverage = (if yr_active_segments sync = 0 then Finite 0
        else fdiv F64 (f64_of (yr_linked_segments sync)) (f64_of (yr_active_segments sync)))\<rparr>"

definition in_evaluation :: "'g eval_env \<Rightarrow> (index_error \<Rightarrow> ustring) \<Rightarrow> 'a ix \<Rightarrow> world \<Rightarrow> retrieval_error + 'a \<times> world" where
  "in_evaluation env display m world =
     (case m world of (Inl e, _) \<Rightarrow> Inl (Evaluation (display e)) | (Inr a, world) \<Rightarrow> Inr (a, world))"

definition run_evaluation_inner ::
    "'g eval_env \<Rightarrow> path \<Rightarrow> retrieval_mode \<Rightarrow> embedding_config option \<Rightarrow> provider option
      \<Rightarrow> (retrieval_error + eval_report) option" where
  "run_evaluation_inner env bundle mode embedding provider =
     (let effective = (case mode of Lexical \<Rightarrow> Lexical | Auto \<Rightarrow> Lexical | other \<Rightarrow> other) in
      obind (Some (prepare env bundle)) (\<lambda>pd.
      obind (Some
        (if effective = Lexical then Inr (pd_config pd, pd_world pd, None)
         else try_bind (ok_or (Evaluation (lit ''semantic evaluation requires embedding configuration'')) embedding) (\<lambda>embedding.
           try_bind (ok_or (Evaluation (lit ''semantic evaluation requires an embedding provider'')) provider) (\<lambda>provider.
           try_bind (in_evaluation env (index_error_display (ev_sql_text env))
             (synchronize_with_provider (ev_sync env) embedding provider) (pd_world pd)) (\<lambda>(report, world).
           try_bind (map_err (\<lambda>e. Evaluation (embedding_error_display e)) (pv_resolve_model provider (wd_tick world))) (\<lambda>model.
             Inr ((pd_config pd)\<lparr>ac_embeddings := embedding\<rparr>, world, Some (eval_embedding_of env model report))))))))
        (\<lambda>(config, world, report).
      evaluate_existing env (pd_written pd) (wd_db world) config (pd_corpus pd) (pd_queries pd) (pd_judgments pd)
        effective provider report)))"

definition run_evaluation :: "'g eval_env \<Rightarrow> path \<Rightarrow> retrieval_mode \<Rightarrow> (retrieval_error + eval_report) option" where
  "run_evaluation env bundle mode = run_evaluation_inner env bundle mode None None"

definition run_evaluation_with_provider ::
    "'g eval_env \<Rightarrow> path \<Rightarrow> retrieval_mode \<Rightarrow> embedding_config \<Rightarrow> provider \<Rightarrow> (retrieval_error + eval_report) option" where
  "run_evaluation_with_provider env bundle mode embedding provider =
     run_evaluation_inner env bundle mode (Some embedding) (Some provider)"

subsection \<open>The comparison\<close>

definition deltas :: "eval_report \<Rightarrow> eval_report \<Rightarrow> eval_metric_deltas" where
  "deltas lexical candidate =
     (let c = er_metrics candidate; l = er_metrics lexical
      in \<lparr>dl_recall_at_5 = fsub (em_recall_at_5 c) (em_recall_at_5 l), dl_recall_at_10 = fsub (em_recall_at_10 c) (em_recall_at_10 l),
          dl_mrr = fsub (em_mrr c) (em_mrr l), dl_ndcg = fsub (em_ndcg c) (em_ndcg l)\<rparr>)"

text \<open>\<open>count(*)\<close> with the sum of the completed runs, NULL over no rows.\<close>

definition completed_runs :: "db \<Rightarrow> retrieval_error + nat \<times> nat" where
  "completed_runs db =
     (if db_sync_runs db = []
      then Inl (RetrievalStorage (Database (EngineError (lit ''Invalid column type Null at index: 1, name: ''
        @ lit ''sum(CASE WHEN status='' @ [39] @ lit ''completed'' @ [39] @ lit '' THEN 1 ELSE 0 END)''))))
      else Inr (length (db_sync_runs db), length (filter (\<lambda>r. sy_status r = lit ''completed'') (db_sync_runs db))))"

definition shared_index ::
    "'g eval_env \<Rightarrow> embedding_config \<Rightarrow> provider \<Rightarrow> prepared \<Rightarrow>
     retrieval_error + app_config \<times> world \<times> provider \<times> eval_embedding \<times> nat \<times> ustring" where
  "shared_index env embedding provider pd =
     (if db_sync_runs (wd_db (pd_world pd)) \<noteq> []
      then Inl (Evaluation (lit ''provider-inert comparison setup recorded an embedding sync''))
      else let config = (pd_config pd)\<lparr>ac_embeddings := embedding\<rparr> in
      try_bind (saved (ev_config env (pd_written pd)) config (pd_config_file pd) (pd_disk pd)) (\<lambda>_.
      try_bind (map_err (\<lambda>e. Evaluation (embedding_error_display e))
        (pv_resolve_model provider (wd_tick (pd_world pd)))) (\<lambda>model.
      let pinned = pinned_provider provider model in
      try_bind (in_evaluation env (index_error_display (ev_sql_text env))
        (synchronize_with_provider (ev_sync env) embedding pinned)
        ((pd_world pd)\<lparr>wd_tick := wd_tick (pd_world pd) + 1\<rparr>)) (\<lambda>(sync, world).
      if yr_status sync \<noteq> lit ''completed'' \<or> yr_missing_segments sync \<noteq> 0
      then Inl (Evaluation (lit ''shared comparison embedding synchronization was incomplete''))
      else try_bind (completed_runs (wd_db world)) (\<lambda>(runs, done_runs).
      if runs \<noteq> 1 \<or> done_runs \<noteq> 1
      then Inl (Evaluation (lit ''comparison expected exactly one completed embedding synchronization''))
      else Inr (config, world, pinned, eval_embedding_of env model sync, runs, yr_status sync))))))"

definition compare_evaluation_with_provider ::
    "'g eval_env \<Rightarrow> path \<Rightarrow> embedding_config \<Rightarrow> provider \<Rightarrow> (retrieval_error + eval_comparison) option" where
  "compare_evaluation_with_provider env bundle embedding provider =
     obind (Some (prepare env bundle)) (\<lambda>pd.
     obind (Some (shared_index env embedding provider pd)) (\<lambda>(config, world, pinned, shared, runs, status).
     let evaluate = evaluate_existing env (pd_written pd) (wd_db world) config (pd_corpus pd) (pd_queries pd) (pd_judgments pd)
     in obind (evaluate Lexical None (Some shared)) (\<lambda>lexical.
        obind (evaluate Semantic (Some pinned) (Some shared)) (\<lambda>semantic.
        obind (evaluate Hybrid (Some pinned) (Some shared)) (\<lambda>hybrid.
        if er_index_fingerprint lexical \<noteq> er_index_fingerprint semantic
          \<or> er_index_fingerprint semantic \<noteq> er_index_fingerprint hybrid
          \<or> er_config_fingerprint lexical \<noteq> er_config_fingerprint semantic
          \<or> er_config_fingerprint semantic \<noteq> er_config_fingerprint hybrid
        then Some (Inl (Evaluation (lit ''shared comparison fingerprints diverged'')))
        else Some (Inr \<lparr>cp_lexical = lexical, cp_semantic = semantic, cp_hybrid = hybrid,
          cp_semantic_minus_lexical = deltas lexical semantic, cp_hybrid_minus_lexical = deltas lexical hybrid,
          cp_embedding_sync_runs = runs, cp_embedding_sync_status = status\<rparr>))))))"

end
