(* ===== verification/Evaluation_Bounds.thy ===== *)
theory Evaluation_Bounds
  imports Evaluation
begin

text \<open>
  Metrics stay in their range and no evaluation panics: whole numbers up to 2 ^ 53 are exact in \<open>f64\<close>, rounding
  never passes them, and the ranks of the percentiles stay within the sorted values.
\<close>

subsection \<open>Whole numbers\<close>

lemma rounded_exact: "x = of_int k * ulp fm x \<Longrightarrow> rounded fm x = x"
proof -
  assume x: "x = of_int k * ulp fm x"
  have "ulp fm x \<noteq> 0" by (metis less_irrefl ulp_pos)
  with x have "x / ulp fm x = of_int k" by (metis nonzero_mult_div_cancel_right)
  then show ?thesis using x by (simp add: rounded_def)
qed

lemma rounded_of_nat: assumes "n \<le> 2 ^ 53" shows "rounded F64 (of_nat n) = of_nat n"
proof (cases "n = 0")
  case True
  then show ?thesis by (simp add: rounded_def)
next
  case False
  define e where "e = exponent (of_nat n)"
  have e: "pow2 e \<le> of_nat n" "of_nat n < pow2 (e + 1)" using exponent_bounds [of "of_nat n"] False by (simp_all add: e_def)
  have "0 \<le> e"
  proof (rule ccontr)
    assume "\<not> 0 \<le> e"
    then have "pow2 (e + 1) \<le> pow2 0" by (intro power_int_increasing) auto
    with e(2) False show False by simp
  qed
  have ulp: "ulp F64 (of_nat n) = pow2 (e - 52)" using \<open>0 \<le> e\<close> by (simp add: ulp_def F64_def e_def)
  have "e \<le> 53"
  proof (rule ccontr)
    assume "\<not> e \<le> 53"
    then have "pow2 54 \<le> pow2 e" by (intro power_int_increasing) auto
    also have "\<dots> \<le> of_nat (2 ^ 53)" using e(1) assms by (meson of_nat_mono order_trans)
    finally show False by simp
  qed
  show ?thesis
  proof (cases "e = 53")
    case True
    then have "of_nat (2 ^ 53) \<le> (of_nat n :: rat)" using e(1) by simp
    then have "n = 2 ^ 53" using assms of_nat_le_iff [of "2 ^ 53" n, where 'a = rat] by linarith
    then show ?thesis using ulp True by (intro rounded_exact [of _ "2 ^ 52"]) simp
  next
    case False
    with \<open>e \<le> 53\<close> have "e \<le> 52" by simp
    then have "pow2 (e - 52) * 2 ^ nat (52 - e) = 1"
      by (simp add: power_int_def power_divide field_simps nat_diff_distrib split: if_splits)
    then show ?thesis using ulp by (intro rounded_exact [of _ "int n * 2 ^ nat (52 - e)"]) (simp add: mult.assoc mult.commute)
  qed
qed

lemma small_representable: "n \<le> 2 ^ 53 \<Longrightarrow> (of_nat n :: rat) < pow2 (fm_emax F64 + 1)"
proof -
  assume "n \<le> 2 ^ 53"
  then have "(of_nat n :: rat) \<le> of_nat (2 ^ 53)" by (rule of_nat_mono)
  also have "\<dots> = pow2 53" by simp
  also have "\<dots> < pow2 (fm_emax F64 + 1)" by (rule power_int_strict_increasing) (simp_all add: F64_def)
  finally show ?thesis .
qed

definition ranged :: "rat \<Rightarrow> float \<Rightarrow> bool" where
  "ranged hi a \<longleftrightarrow> (\<exists>x. a = Finite x \<and> 0 \<le> x \<and> x \<le> hi)"

lemma round_within: assumes "0 \<le> x" "x \<le> of_nat n" "n \<le> 2 ^ 53" shows "ranged (of_nat n) (round_to F64 x)"
proof -
  have "rounded F64 x \<le> of_nat n" using rounded_mono [of F64 x "of_nat n"] assms by (simp add: rounded_of_nat)
  moreover have "0 \<le> rounded F64 x" using assms(1) by (rule rounded_nonneg)
  ultimately show ?thesis using small_representable [OF assms(3)] by (auto simp: ranged_def round_to_def)
qed

lemma round_of_nat: "n \<le> 2 ^ 53 \<Longrightarrow> round_to F64 (of_nat n) = Finite (of_nat n)"
  using small_representable [of n] by (simp add: round_to_def rounded_of_nat)

lemma f64_of_small: "n \<le> 2 ^ 53 \<Longrightarrow> f64_of n = Finite (of_nat n)"
  by (simp add: of_int_float_def round_of_nat)

lemma one_more_small: "n < 2 ^ 53 \<Longrightarrow> one_more (Finite (of_nat n)) = Finite (of_nat (Suc n))"
  using round_of_nat [of "Suc n"] by (simp add: one_more_def add.commute)

lemma ratio_within: assumes "0 \<le> a" "a \<le> b" "0 < b" shows "ranged 1 (fdiv F64 (Finite a) (Finite b))"
  using round_within [of "a / b" 1] assms by simp

subsection \<open>One query\<close>

lemma recall_within: assumes "distinct refs" "length (jr_required j) \<le> 2 ^ 53" shows "ranged 1 (recall_at refs j k)"
proof (cases "jr_required j = []")
  case True
  then show ?thesis by (simp add: recall_at_def ranged_def)
next
  case False
  let ?req = "remdups (jr_required j)" and ?found = "filter (\<lambda>r. r \<in> set (jr_required j)) (take k refs)"
  have "length ?found = card (set ?found)" using distinct_card [of ?found] assms(1) by simp
  also have "\<dots> \<le> card (set ?req)" by (intro card_mono) auto
  also have "\<dots> = length ?req" by (simp add: length_remdups_card_conv)
  finally have le: "length ?found \<le> length ?req" .
  have small: "length ?req \<le> 2 ^ 53" using length_remdups_leq assms(2) by (rule le_trans)
  have "0 < length ?req" using False by simp
  with le have "ranged 1 (fdiv F64 (Finite (of_nat (length ?found))) (Finite (of_nat (length ?req))))"
    by (intro ratio_within) (simp_all only: of_nat_le_iff of_nat_0_le_iff of_nat_0_less_iff)
  with False le small show ?thesis by (simp add: recall_at_def f64_of_small Let_def)
qed

lemma reciprocal_within: "i + length refs \<le> 2 ^ 53 \<Longrightarrow> ranged 1 (reciprocal i refs positive)"
proof (induction refs arbitrary: i)
  case Nil
  then show ?case by (simp add: ranged_def)
next
  case (Cons r refs)
  then have "fadd F64 (f64_of i) (Finite 1) = Finite (of_nat (Suc i))"
    using round_of_nat [of "Suc i"] by (simp add: f64_of_small add.commute)
  with Cons show ?case using ratio_within [of 1 "of_nat (Suc i)"] by simp
qed

subsection \<open>Means\<close>

lemma sum_within:
  "ranged (of_nat k) a \<Longrightarrow> \<forall>x \<in> set xs. ranged 1 x \<Longrightarrow> k + length xs \<le> 2 ^ 53 \<Longrightarrow>
   ranged (of_nat (k + length xs)) (foldl (fadd F64) a xs)"
proof (induction xs arbitrary: a k)
  case (Cons x xs)
  then obtain u v where "a = Finite u" "x = Finite v" "0 \<le> u + v" "u + v \<le> of_nat (Suc k)" by (fastforce simp: ranged_def)
  with round_within [of "u + v" "Suc k"] Cons.prems(3) have "ranged (of_nat (Suc k)) (fadd F64 a x)" by simp
  from Cons.IH [OF this] Cons.prems show ?case by simp
qed simp

lemma mean_within:
  assumes "\<forall>q \<in> set qs. ranged 1 (f q)" "length qs \<le> 2 ^ 53" shows "ranged 1 (mean f qs)"
proof -
  have "ranged (of_nat (0 + length (map f qs))) (fsum F64 (map f qs))"
    unfolding fsum_def using assms by (intro sum_within) (simp_all add: ranged_def)
  then obtain s where s: "fsum F64 (map f qs) = Finite s" "0 \<le> s" "s \<le> of_nat (length qs)" by (auto simp: ranged_def)
  have "s \<le> of_nat (max 1 (length qs))" using s(3) by (rule order_trans) simp
  then have "ranged 1 (fdiv F64 (Finite s) (Finite (of_nat (max 1 (length qs)))))"
    using s(2) by (intro ratio_within) simp_all
  then show ?thesis using s(1) assms(2) by (simp add: mean_def f64_of_small)
qed

subsection \<open>Rates\<close>

definition tallied :: "nat \<Rightarrow> tallies \<Rightarrow> bool" where
  "tallied k t \<longleftrightarrow> (\<exists>dup stale current mis. dup \<le> k \<and> stale \<le> current \<and> current \<le> k \<and> mis \<le> k
     \<and> t = \<lparr>ta_duplicate_num = Finite (of_nat dup), ta_duplicate_den = Finite (of_nat k), ta_stale_num = Finite (of_nat stale),
         ta_stale_den = Finite (of_nat current), ta_misleading_num = Finite (of_nat mis), ta_misleading_den = Finite (of_nat k)\<rparr>)"

lemma tally_hit_tallied:
  assumes "tallied k t" "k < 2 ^ 53" shows "tallied (Suc k) (tally_hit j seen hit t)"
proof -
  obtain dup stale current mis where b: "dup \<le> k" "stale \<le> current" "current \<le> k" "mis \<le> k"
    and t: "t = \<lparr>ta_duplicate_num = Finite (of_nat dup), ta_duplicate_den = Finite (of_nat k), ta_stale_num = Finite (of_nat stale),
         ta_stale_den = Finite (of_nat current), ta_misleading_num = Finite (of_nat mis), ta_misleading_den = Finite (of_nat k)\<rparr>"
    using assms(1) unfolding tallied_def by blast
  note m = one_more_small [of dup] one_more_small [of k] one_more_small [of stale] one_more_small [of current] one_more_small [of mis]
  show ?thesis unfolding tallied_def
    by (rule exI [of _ "if seen then Suc dup else dup"],
        rule exI [of _ "if eh_freshness hit = PendingReindex then Suc stale else stale"],
        rule exI [of _ "if eh_freshness hit = Unknown then current else Suc current"],
        rule exI [of _ "if eh_segment_ref hit \<in> set (jr_misleading j) then Suc mis else mis"])
      (use b assms(2) m in \<open>auto simp: t tally_hit_def Let_def simp del: of_nat_Suc split: freshness_status.split\<close>)
qed

lemma tally_hits_tallied:
  "tallied k t \<Longrightarrow> k + length hits \<le> 2 ^ 53 \<Longrightarrow> tallied (k + length hits) (tally_hits j seen hits t)"
proof (induction hits arbitrary: k seen t)
  case (Cons hit hits)
  from Cons.prems tally_hit_tallied have "tallied (Suc k) (tally_hit j (eh_segment_ref hit \<in> set seen) hit t)" by simp
  from Cons.IH [OF this] Cons.prems(2) show ?case by simp
qed simp

lemma tally_queries_tallied:
  "tallied k t \<Longrightarrow> k + sum_list (map (length \<circ> pq_hits) items) \<le> 2 ^ 53 \<Longrightarrow>
   tally_queries judgments items t diversity = Some (t', d) \<Longrightarrow>
   tallied (k + sum_list (map (length \<circ> pq_hits) items)) t'"
proof (induction items arbitrary: k t diversity)
  case (Cons item items)
  from Cons.prems(3) obtain j where rest: "tally_queries judgments items (tally_hits j [] (pq_hits item) t)
      (fadd F64 diversity (f64_of (length (sources_of (pq_hits item))))) = Some (t', d)" by (auto split: option.splits)
  have "tallied (k + length (pq_hits item)) (tally_hits j [] (pq_hits item) t)"
    using Cons.prems(1,2) by (intro tally_hits_tallied) simp_all
  from Cons.IH [OF this _ rest] Cons.prems(2) show ?case by (simp add: add.assoc)
qed simp

lemma rate_within: "n \<le> d \<Longrightarrow> ranged 1 (rate (Finite (of_nat n)) (Finite (of_nat d)))"
  using ratio_within [of "of_nat n" "of_nat d"] by (auto simp: rate_def) (simp add: ranged_def)

subsection \<open>Percentiles\<close>

lemma percentile_total:
  assumes "0 \<le> q" "q \<le> 1" "length vs \<le> 2 ^ 53" shows "percentile vs (Finite q) \<noteq> None"
proof (cases "length vs \<le> 1")
  case True
  then show ?thesis by (cases vs) (auto simp: percentile_def nth_checked_def)
next
  case False
  let ?n = "length vs - 1"
  have n: "length vs = Suc ?n" "?n \<le> 2 ^ 53" using False assms(3) by simp_all
  have minus: "of_nat (length vs) + - 1 = (of_nat ?n :: rat)" by (subst n(1)) simp
  have last: "fsub (f64_of (length vs)) (Finite 1) = Finite (of_nat ?n)"
    unfolding fsub_def f64_of_small [OF assms(3)] fneg.simps fadd.simps minus using n(2) by (rule round_of_nat)
  have "q * of_nat ?n \<le> of_nat ?n" using assms(1,2) by (simp add: mult_left_le_one_le)
  with round_within [of "q * of_nat ?n" ?n] assms(1) n(2) obtain r where r: "round_to F64 (q * of_nat ?n) = Finite r" "0 \<le> r" "r \<le> of_nat ?n"
    by (auto simp: ranged_def)
  have "\<lceil>r\<rceil> \<le> int ?n" using r(3) by (simp add: ceiling_le_iff)
  moreover have "\<lfloor>r\<rfloor> \<le> \<lceil>r\<rceil>" by (simp add: floor_le_ceiling)
  ultimately have "nat \<lfloor>r\<rfloor> \<le> ?n" "nat \<lceil>r\<rceil> \<le> ?n" by linarith+
  then have "as_usize (ffloor (Finite r)) < length vs" "as_usize (fceil (Finite r)) < length vs" using False by auto
  moreover have "fmul F64 (Finite q) (Finite (of_nat ?n)) = Finite r" using r(1) by simp
  ultimately show ?thesis using False by (auto simp: percentile_def last nth_checked_def Let_def simp del: fmul.simps of_nat_diff)
qed

subsection \<open>A run\<close>

lemma P95_range: obtains q where "P95 = Finite q" "0 \<le> q" "q \<le> 1"
  using round_within [of "95 / 100" 1] that by (auto simp: P95_def ranged_def)

lemma percentiles_total:
  assumes "length vs \<le> 2 ^ 53" shows "\<exists>a. percentile vs P50 = Some a" "\<exists>b. percentile vs P95 = Some b"
  using percentile_total [of "1 / 2" vs] percentile_total [of _ vs] assms P95_range by (auto simp: P50_def) (metis not_Some_eq)+

lemma tally_queries_total:
  "\<forall>item \<in> set items. judgments (pq_query_id item) \<noteq> None \<Longrightarrow> tally_queries judgments items t d \<noteq> None"
  by (induction items arbitrary: t d) auto

lemma aggregate_total:
  assumes "\<forall>item \<in> set items. judgments (pq_query_id item) \<noteq> None" "length items \<le> 2 ^ 53" "length latencies \<le> 2 ^ 53"
  shows "aggregate_metrics items judgments latencies \<noteq> None"
  using tally_queries_total [OF assms(1), of no_tallies "Finite 0"] percentiles_total [of latencies] assms(3)
    percentiles_total [of "map (te_query_embedding_ms \<circ> pq_telemetry) items"]
    percentiles_total [of "map (te_vector_scan_ms \<circ> pq_telemetry) items"] assms(2)
  by (force simp: aggregate_metrics_def)

lemma evaluate_queries_results:
  "evaluate_queries env w db config docs judgments mode provider i qs = Inr per_query \<Longrightarrow>
   length per_query = length qs \<and> (\<forall>item \<in> set per_query. \<exists>i q j response. judgments (qr_query_id q) = Some j \<and> q \<in> set qs
     \<and> item = query_result env docs mode i q j response)"
proof (induction qs arbitrary: i per_query)
  case (Cons q qs)
  from Cons.prems obtain j response rest where j: "judgments (qr_query_id q) = Some j"
    and rest: "evaluate_queries env w db config docs judgments mode provider (Suc i) qs = Inr rest"
    and per: "per_query = query_result env docs mode i q j response # rest"
    by (auto simp: try_bind_def ok_or_def split: sum.splits option.splits)
  with Cons.IH [OF rest] show ?case by fastforce
qed simp

text \<open>What a query owes to its judgment.\<close>

lemma query_result_within:
  assumes "distinct (map eh_segment_ref (pq_hits (query_result env docs mode i q j response)))"
    "length (pq_hits (query_result env docs mode i q j response)) \<le> 2 ^ 53" "length (jr_required j) \<le> 2 ^ 53"
  defines "item \<equiv> query_result env docs mode i q j response"
  shows "ranged 1 (pq_recall_at_5 item)" "ranged 1 (pq_recall_at_10 item)" "ranged 1 (pq_reciprocal_rank item)"
proof -
  have "map eh_segment_ref (pq_hits item) = map (hit_ref docs) (rp_results response)"
    by (rule nth_equalityI) (simp_all add: item_def query_result_def Let_def nth_enumerate_eq)
  moreover have "length (pq_hits item) = length (rp_results response)" by (simp add: item_def query_result_def Let_def)
  ultimately have "distinct (map (hit_ref docs) (rp_results response))" "length (rp_results response) \<le> 2 ^ 53"
    using assms by simp_all
  with recall_within [OF _ assms(3)] reciprocal_within [of 0 "map (hit_ref docs) (rp_results response)"]
  show "ranged 1 (pq_recall_at_5 item)" "ranged 1 (pq_recall_at_10 item)" "ranged 1 (pq_reciprocal_rank item)"
    by (simp_all add: item_def query_result_def Let_def mrr_one_def)
qed

definition in_range :: "eval_metrics \<Rightarrow> bool" where
  "in_range m \<longleftrightarrow> list_all (ranged 1) [em_recall_at_5 m, em_recall_at_10 m, em_mrr m, em_duplicate_result_rate m,
     em_stale_result_rate m, em_misleading_result_rate m]"

end
