(* ===== verification/Evaluation_Properties.thy ===== *)
theory Evaluation_Properties
  imports Evaluation_Bounds Retrieval_Properties
begin

text \<open>
  What the evaluation guarantees: fingerprints tell indexes apart by their content alone, the corpus stays in its
  directory, metrics stay in their range and no run panics, and a comparison uses one index for all modes.
\<close>

subsection \<open>The stream of a fingerprint\<close>

lemma le_bytes_inj: "le_bytes k m @ x = le_bytes k n @ y \<Longrightarrow> m mod 256 ^ k = n mod 256 ^ k \<and> x = y"
proof (induction k arbitrary: m n)
  case (Suc k)
  then have "m mod 256 = n mod 256" "m div 256 mod 256 ^ k = n div 256 mod 256 ^ k" "x = y" by auto
  then show ?case by (simp add: mod_mult2_eq)
qed simp

lemma length_le_bytes [simp]: "length (le_bytes k n) = k"
  by (induction k arbitrary: n) auto

lemma until_mark_inj:
  assumes "u \<notin> set a" "u \<notin> set b" "a @ u # x = b @ u # y" shows "a = b \<and> x = y"
proof -
  have "takeWhile (\<lambda>c. c \<noteq> u) (a @ u # x) = a" "takeWhile (\<lambda>c. c \<noteq> u) (b @ u # y) = b"
    using assms(1,2) by (auto simp: takeWhile_tail takeWhile_append2 simp del: takeWhile_append)
  with assms(3) show ?thesis by auto
qed

definition proper_text :: "ustring \<Rightarrow> bool" where
  "proper_text s \<longleftrightarrow> list_all is_scalar s \<and> 0 \<notin> set s"

lemma as_bytes_inj: "list_all is_scalar s \<Longrightarrow> list_all is_scalar t \<Longrightarrow> as_bytes s = as_bytes t \<Longrightarrow> s = t"
  by (metis from_utf8_as_bytes option.inject)

lemma utf8_below: assumes "is_scalar c" "b \<in> set (utf8_encode_char c)" shows "b < 255"
proof -
  have m: "128 + x mod 64 < (255 :: nat)" for x by (rule le_less_trans [of _ "128 + 63"]) (simp_all add: less_Suc_eq_le [symmetric])
  have "c div 262144 < 5" using assms(1) by (simp add: is_scalar_def div_less_iff_less_mult) linarith
  moreover have "c div 64 < 32" if "c < 2048" using that by (simp add: div_less_iff_less_mult)
  moreover have "c div 4096 < 16" if "c < 65536" using that by (simp add: div_less_iff_less_mult)
  ultimately show ?thesis using assms(2) m by (auto simp: utf8_encode_char_def split: if_splits)
qed

lemma as_bytes_below: "list_all is_scalar s \<Longrightarrow> 255 \<notin> set (as_bytes s)"
  using utf8_below by (fastforce simp: as_bytes_def list_all_iff)

lemma as_bytes_nul_inj:
  assumes "proper_text s" "proper_text t" "as_bytes s @ 0 # x = as_bytes t @ 0 # y" shows "s = t \<and> x = y"
  using until_mark_inj [OF _ _ assms(3)] assms(1,2)
  by (auto simp: proper_text_def as_bytes_no_nul dest: as_bytes_inj)

lemma as_bytes_end_inj:
  assumes "proper_text s" "proper_text t" "as_bytes s @ 255 # x = as_bytes t @ 255 # y" shows "s = t \<and> x = y"
  using until_mark_inj [OF _ _ assms(3)] assms(1,2)
  by (auto simp: proper_text_def as_bytes_below dest: as_bytes_inj)

definition proper_row :: "fingerprint_row \<Rightarrow> bool" where
  "proper_row r \<longleftrightarrow> list_all proper_text [fg_relative_path r, fg_anchor r, fg_text_hash r, fg_content_hash r,
     fg_parser_id r, fg_parser_version r] \<and> fg_ordinal r < 2 ^ 63"

lemma row_bytes_inj:
  assumes "proper_row r" "proper_row r'" "row_bytes r @ x = row_bytes r' @ y" shows "r = r' \<and> x = y"
proof -
  note p = assms(1,2) [unfolded proper_row_def list.pred_inject]
  from assms(3) have 1: "fg_relative_path r = fg_relative_path r'
     \<and> as_bytes (fg_anchor r) @ 0 # le_bytes 8 (fg_ordinal r) @ 0 # as_bytes (fg_text_hash r) @ 0 # as_bytes (fg_content_hash r)
         @ 0 # as_bytes (fg_parser_id r) @ 0 # as_bytes (fg_parser_version r) @ 255 # x
     = as_bytes (fg_anchor r') @ 0 # le_bytes 8 (fg_ordinal r') @ 0 # as_bytes (fg_text_hash r') @ 0 # as_bytes (fg_content_hash r')
         @ 0 # as_bytes (fg_parser_id r') @ 0 # as_bytes (fg_parser_version r') @ 255 # y"
    using p by (intro as_bytes_nul_inj) (simp_all add: row_bytes_def)
  note 2 = as_bytes_nul_inj [OF _ _ conjunct2 [OF 1]]
  have a: "fg_anchor r = fg_anchor r'" and o: "le_bytes 8 (fg_ordinal r) @ 0 # as_bytes (fg_text_hash r) @ 0 # as_bytes (fg_content_hash r)
         @ 0 # as_bytes (fg_parser_id r) @ 0 # as_bytes (fg_parser_version r) @ 255 # x
     = le_bytes 8 (fg_ordinal r') @ 0 # as_bytes (fg_text_hash r') @ 0 # as_bytes (fg_content_hash r')
         @ 0 # as_bytes (fg_parser_id r') @ 0 # as_bytes (fg_parser_version r') @ 255 # y"
    using 2 p by blast+
  from le_bytes_inj [OF o] p have ord: "fg_ordinal r = fg_ordinal r'"
    and t: "as_bytes (fg_text_hash r) @ 0 # as_bytes (fg_content_hash r)
         @ 0 # as_bytes (fg_parser_id r) @ 0 # as_bytes (fg_parser_version r) @ 255 # x
     = as_bytes (fg_text_hash r') @ 0 # as_bytes (fg_content_hash r')
         @ 0 # as_bytes (fg_parser_id r') @ 0 # as_bytes (fg_parser_version r') @ 255 # y"
    by simp_all
  note 3 = as_bytes_nul_inj [OF _ _ t]
  note 4 = as_bytes_nul_inj [OF _ _ conjunct2 [OF 3]]
  note 5 = as_bytes_nul_inj [OF _ _ conjunct2 [OF 4]]
  note 6 = as_bytes_end_inj [OF _ _ conjunct2 [OF 5]]
  show ?thesis using 1 a ord 3 4 5 6 p by simp
qed

lemma row_bytes_stream_inj:
  "\<forall>r \<in> set rs. proper_row r \<Longrightarrow> \<forall>r \<in> set rs'. proper_row r \<Longrightarrow>
   concat (map row_bytes rs) = concat (map row_bytes rs') \<Longrightarrow> rs = rs'"
proof (induction rs arbitrary: rs')
  case Nil
  then show ?case by (cases rs') (simp_all add: row_bytes_def)
next
  case (Cons r rs)
  show ?case
  proof (cases rs')
    case Nil
    with Cons.prems(3) show ?thesis by (simp add: row_bytes_def)
  next
    case (Cons r' rest)
    with Cons.prems row_bytes_inj [of r r' "concat (map row_bytes rs)" "concat (map row_bytes rest)"]
    have "r = r'" "concat (map row_bytes rs) = concat (map row_bytes rest)" by auto
    with Cons.IH [of rest] Cons.prems Cons show ?thesis by simp
  qed
qed

lemma fingerprint_stream_inj:
  assumes "\<forall>r \<in> set rs. proper_row r" "\<forall>r \<in> set rs'. proper_row r" "fingerprint_stream rs = fingerprint_stream rs'"
  shows "rs = rs'"
proof -
  have "concat (map row_bytes rs) = concat (map row_bytes rs')"
    using assms(3) by (simp add: fingerprint_stream_def append_eq_append_conv)
  with row_bytes_stream_inj assms(1,2) show ?thesis by blast
qed

interpretation fingerprints: comparator fingerprint_order UNIV
  unfolding fingerprint_order_def by (intro comparator_then comparator_key)


subsection \<open>The corpus stays in its directory\<close>

lemma components_rooted:
  assumes "\<forall>c \<in> set cs. \<exists>s. c = Normal s \<and> s \<noteq> [] \<and> s \<noteq> [46] \<and> s \<noteq> [46, 46] \<and> slash \<notin> set s"
  shows "components (slash # path_of_components cs) = RootDir # cs"
proof -
  have c: "components (path_of_components cs) = cs" using assms by (rule components_path_of_normal)
  have "RootDir \<notin> set cs" "CurDir \<notin> set cs" using assms by blast+
  then have "RootDir \<notin> set (components (path_of_components cs))" "CurDir \<notin> set (components (path_of_components cs))"
    using c by simp_all
  then have "\<not> is_absolute (path_of_components cs)" "hd (split_on (\<lambda>c. c = slash) (path_of_components cs)) \<noteq> [46]"
    by (simp_all add: components_def Let_def split: if_splits)
  then have "components (path_of_components cs)
      = map piece_component (filter (\<lambda>s. s \<noteq> [] \<and> s \<noteq> [46]) (split_on (\<lambda>c. c = slash) (path_of_components cs)))"
    by (simp add: components_def Let_def)
  with c show ?thesis by (simp add: components_def Let_def is_absolute_def)
qed

lemma absolute_components:
  "is_absolute p \<Longrightarrow> ParentDir \<notin> set (components p) \<Longrightarrow> \<exists>cs. components p = RootDir # cs \<and> list_all is_normal cs"
proof -
  assume a: "is_absolute p" and n: "ParentDir \<notin> set (components p)"
  then obtain ss where c: "components p = RootDir # map piece_component ss" by (simp add: components_def Let_def)
  have "is_normal (piece_component s)" if "s \<in> set ss" for s
    using n c that by (cases "s = [46, 46]") (force simp: is_normal_def)+
  then have "list_all (\<lambda>s. is_normal (piece_component s)) ss" by (simp only: list_all_iff) blast
  then have "list_all is_normal (map piece_component ss)" by (simp only: list.pred_map comp_def)
  with c show ?thesis by blast
qed

lemma normal_texts:
  "list_all is_normal cs \<Longrightarrow> set cs \<subseteq> set (components p) \<Longrightarrow>
   \<forall>c \<in> set cs. \<exists>s. c = Normal s \<and> s \<noteq> [] \<and> s \<noteq> [46] \<and> s \<noteq> [46, 46] \<and> slash \<notin> set s"
proof
  fix c assume n: "list_all is_normal cs" and sub: "set cs \<subseteq> set (components p)" and c: "c \<in> set cs"
  then obtain s where s: "c = Normal s" by (cases c) (auto simp: list_all_iff is_normal_def)
  with sub c have "Normal s \<in> set (components p)" by blast
  from components_Normal [OF this] s
  show "\<exists>s. c = Normal s \<and> s \<noteq> [] \<and> s \<noteq> [46] \<and> s \<noteq> [46, 46] \<and> slash \<notin> set s" by blast
qed

lemma path_parent_rooted:
  assumes "components p = RootDir # cs" "list_all is_normal cs" "path_parent p = Some q"
  shows "components q = RootDir # butlast cs"
proof -
  have ne: "cs \<noteq> []" using assms by (auto simp: path_parent_def)
  have "set (butlast cs) \<subseteq> set (components p)" using assms(1) in_set_butlastD by fastforce
  moreover have "list_all is_normal (butlast cs)" using assms(2) by (auto simp: list_all_iff dest: in_set_butlastD)
  ultimately have "components (slash # path_of_components (butlast cs)) = RootDir # butlast cs"
    by (intro components_rooted normal_texts)
  with assms ne show ?thesis by (auto simp: path_parent_def)
qed

definition inside :: "path \<Rightarrow> path \<Rightarrow> bool" where
  "inside dir p \<longleftrightarrow> (\<exists>cs. components p = components dir @ cs \<and> list_all is_normal cs)"

lemma materialize_inside:
  assumes "is_absolute dir" "ParentDir \<notin> set (components dir)"
  shows "\<forall>d \<in> set corpus. is_safe_relative_path (cr_path d) \<Longrightarrow>
    \<forall>p \<in> fst ` set (wr_files w) \<union> set (wr_dirs w). inside dir p \<Longrightarrow>
    \<forall>p \<in> fst ` set (wr_files (snd (materialize_corpus env dir corpus w)))
      \<union> set (wr_dirs (snd (materialize_corpus env dir corpus w))). inside dir p"
proof (induction corpus arbitrary: w)
  case (Cons d corpus)
  let ?p = "path_join dir (cr_path d)"
  obtain base where base: "components dir = RootDir # base" "list_all is_normal base"
    using absolute_components [OF assms] by blast
  have safe: "is_safe_relative_path (cr_path d)" using Cons.prems(1) by simp
  then have p: "components ?p = components dir @ components (cr_path d)" by (rule components_join_safe)
  have n: "list_all is_normal (components (cr_path d))" "components (cr_path d) \<noteq> []"
    using safe safe_components(3) [OF safe] by (simp_all add: is_safe_relative_path_def list_all_iff)
  with p have in_p: "inside dir ?p" by (auto simp: inside_def)
  have in_q: "inside dir q" if "path_parent ?p = Some q" for q
  proof -
    have "components q = RootDir # butlast (base @ components (cr_path d))"
      by (rule path_parent_rooted [OF _ _ that]) (use p base n in auto)
    then have "components q = components dir @ butlast (components (cr_path d))" using base n by (simp add: butlast_append)
    moreover have "list_all is_normal (butlast (components (cr_path d)))"
      using n by (auto simp: list_all_iff dest: in_set_butlastD)
    ultimately show ?thesis by (auto simp: inside_def)
  qed
  define u where "u = (case path_parent ?p of None \<Rightarrow> w | Some q \<Rightarrow> w\<lparr>wr_dirs := wr_dirs w @ [q]\<rparr>)"
  define v where "v = u\<lparr>wr_files := wr_files u @ [(?p, concat (map segment_text (cr_segments d)))]\<rparr>"
  have u: "\<forall>p \<in> fst ` set (wr_files u) \<union> set (wr_dirs u). inside dir p"
    using Cons.prems(2) in_q by (auto simp: u_def split: option.split)
  then have v: "\<forall>p \<in> fst ` set (wr_files v) \<union> set (wr_dirs v). inside dir p" using in_p by (auto simp: v_def)
  have cases3: "snd (materialize_corpus env dir (d # corpus) w) \<in> {u, v, snd (materialize_corpus env dir corpus v)}"
    by (simp add: u_def v_def Let_def split: option.split)
  have "\<forall>d \<in> set corpus. is_safe_relative_path (cr_path d)" using Cons.prems(1) by simp
  from Cons.IH [OF this v] u v cases3 show ?case
    by (cases "snd (materialize_corpus env dir (d # corpus) w) = u"; cases "snd (materialize_corpus env dir (d # corpus) w) = v")
      (simp_all only: insert_iff empty_iff simp_thms)
qed simp

text \<open>
  C37. The evaluation writes its corpus where the bundle says: when the documents have safe relative paths every file
  and directory it makes lies in its temporary directory. Nothing checks that they have: a document with an
  absolute path is written to that path, over whatever is there.
\<close>
theorem corpus_stays_in_directory:
  assumes "is_absolute dir" "ParentDir \<notin> set (components dir)"
  shows "((\<forall>d \<in> set corpus. is_safe_relative_path (cr_path d)) \<longrightarrow>
      (\<forall>p \<in> fst ` set (wr_files (snd (materialize_corpus env dir corpus nothing_written)))
        \<union> set (wr_dirs (snd (materialize_corpus env dir corpus nothing_written))). inside dir p))
    \<and> (is_absolute (cr_path d) \<longrightarrow> ce_create_dir_all env = (\<lambda>_. None) \<longrightarrow>
      map fst (wr_files (snd (materialize_corpus env dir [d] nothing_written))) = [cr_path d])"
  using materialize_inside [OF assms, of corpus nothing_written env]
  by (auto simp: nothing_written_def Let_def path_join_def split: option.split)

subsection \<open>Metrics\<close>

lemma small_parts:
  fixes xs :: "nat list" shows "x \<in> set xs \<Longrightarrow> sum_list xs \<le> b \<Longrightarrow> x \<le> b"
  using member_le_sum_list [of x xs] by simp

lemma metrics_in_range:
  assumes agg: "aggregate_metrics items judgments latencies = Some m"
    and items: "\<forall>item \<in> set items. ranged 1 (pq_recall_at_5 item) \<and> ranged 1 (pq_recall_at_10 item) \<and> ranged 1 (pq_reciprocal_rank item)"
    and small: "length items \<le> 2 ^ 53" "sum_list (map (length \<circ> pq_hits) items) \<le> 2 ^ 53"
  shows "in_range m"
proof -
  from agg obtain t d where t: "tally_queries judgments items no_tallies (Finite 0) = Some (t, d)"
    and m: "em_recall_at_5 m = mean pq_recall_at_5 items" "em_recall_at_10 m = mean pq_recall_at_10 items"
      "em_mrr m = mean pq_reciprocal_rank items" "em_duplicate_result_rate m = rate (ta_duplicate_num t) (ta_duplicate_den t)"
      "em_stale_result_rate m = rate (ta_stale_num t) (ta_stale_den t)"
      "em_misleading_result_rate m = rate (ta_misleading_num t) (ta_misleading_den t)"
    by (auto simp: aggregate_metrics_def bind_eq_Some_conv)
  have "tallied 0 no_tallies" by (simp add: tallied_def no_tallies_def)
  from tally_queries_tallied [OF this _ t] small(2) have "tallied (sum_list (map (length \<circ> pq_hits) items)) t" by simp
  then have "ranged 1 (rate (ta_duplicate_num t) (ta_duplicate_den t)) \<and> ranged 1 (rate (ta_stale_num t) (ta_stale_den t))
    \<and> ranged 1 (rate (ta_misleading_num t) (ta_misleading_den t))"
    by (auto simp: tallied_def intro!: rate_within)
  then show ?thesis using items small(1) by (simp add: in_range_def m mean_within)
qed


subsection \<open>One index for three modes\<close>

lemma evaluate_existing_fingerprints:
  "evaluate_existing env w db config corpus queries judgments mode provider embedding = Some (Inr report) \<Longrightarrow>
   er_index_fingerprint report = index_fingerprint (ev_blake3 env) db
   \<and> er_config_fingerprint report = blake3_hex (ev_blake3 env)
       (as_bytes (case ev_config_json env (ac_retrieval config, ac_embeddings config) of Some s \<Rightarrow> s | None \<Rightarrow> []))"
  by (auto simp: evaluate_existing_def obind_def split: option.splits sum.splits)

lemma obind_cong: "(\<And>a. r = Some (Inr a) \<Longrightarrow> f a = g a) \<Longrightarrow> obind r f = obind r g"
  by (auto simp: obind_def split: option.split sum.split)

text \<open>
  The comparison is three evaluations of one index: it prepares and embeds the corpus once, runs the three modes on
  the database that leaves, and its last check, that their fingerprints agree, never fails.
\<close>
theorem comparison_shares_index:
  "compare_evaluation_with_provider env bundle embedding provider =
     obind (Some (try_bind (prepare env bundle) (\<lambda>pd. map_sum id (Pair pd) (shared_index env embedding provider pd))))
       (\<lambda>(pd, config, world, pinned, shared, runs, status).
     let evaluate = (\<lambda>mode p. evaluate_existing env (pd_written pd) (wd_db world) config (pd_corpus pd) (pd_queries pd)
           (pd_judgments pd) mode p (Some shared))
     in obind (evaluate Lexical None) (\<lambda>lexical. obind (evaluate Semantic (Some pinned)) (\<lambda>semantic.
        obind (evaluate Hybrid (Some pinned)) (\<lambda>hybrid.
          Some (Inr \<lparr>cp_lexical = lexical, cp_semantic = semantic, cp_hybrid = hybrid,
            cp_semantic_minus_lexical = deltas lexical semantic, cp_hybrid_minus_lexical = deltas lexical hybrid,
            cp_embedding_sync_runs = runs, cp_embedding_sync_status = status\<rparr>)))))"
proof (cases "prepare env bundle")
  case (Inl e)
  then show ?thesis by (simp add: compare_evaluation_with_provider_def)
next
  case (Inr pd)
  show ?thesis
  proof (cases "shared_index env embedding provider pd")
    case (Inl e)
    with \<open>prepare env bundle = Inr pd\<close> show ?thesis by (simp add: compare_evaluation_with_provider_def)
  next
    case (Inr out)
    obtain config world pinned shared runs status where out: "out = (config, world, pinned, shared, runs, status)"
      by (cases out) auto
    from \<open>prepare env bundle = Inr pd\<close> Inr show ?thesis
      unfolding compare_evaluation_with_provider_def Let_def out
      by (auto intro!: obind_cong dest!: evaluate_existing_fingerprints)
  qed
qed

subsection \<open>Witnesses\<close>

text \<open>The two files of \<open>twin_db\<close> under other identifiers, in another order.\<close>

definition renamed_db :: db where
  "renamed_db = (let a = note_source\<lparr>sf_id := 42, sf_current_revision_id := Some 43\<rparr>;
       b = note_source\<lparr>sf_id := 22, sf_relative_path := lit ''b'', sf_current_revision_id := Some 23\<rparr>
     in note_db\<lparr>db_source_files := [b, a],
          db_revisions := [(note_revision 23 (lit ''h1''))\<lparr>rv_source_file_id := 22\<rparr>, (note_revision 43 (lit ''h1''))\<lparr>rv_source_file_id := 42\<rparr>],
          db_segments := [note_segment 24 23, note_segment 44 43],
          db_segments_fts := [fts_row_of b (note_segment 24 23), fts_row_of a (note_segment 44 43)]\<rparr>)"

definition twin_row :: "string \<Rightarrow> fingerprint_row" where
  "twin_row p = \<lparr>fg_relative_path = lit p, fg_anchor = lit ''0'', fg_ordinal = 0, fg_text_hash = [],
     fg_content_hash = lit ''h1'', fg_parser_id = lit ''p'', fg_parser_version = lit ''1''\<rparr>"

lemma twin_projections:
  "fingerprint_projection twin_db = [twin_row ''a'', twin_row ''b'']"
  "fingerprint_projection renamed_db = [twin_row ''b'', twin_row ''a'']"
  by (simp_all add: fingerprint_projection_def twin_db_def renamed_db_def Let_def note_defs fts_row_of_def twin_row_def)

lemma twin_rows: "fingerprint_rows twin_db = fingerprint_rows renamed_db"
  by (simp add: fingerprint_rows_def twin_projections fingerprint_order_def twin_row_def cmp_def lit_def)


definition one_document :: "string \<Rightarrow> corpus_record" where
  "one_document p = \<lparr>cr_document_id = lit ''d'', cr_path = lit p, cr_revision = [],
     cr_segments = [\<lparr>cs_anchor = lit ''heading:x/y'', cs_text = lit ''one''\<rparr>]\<rparr>"

theorem corpus_stays_in_directory_witness:
  "inside (lit ''/t'') (path_join (lit ''/t'') (lit ''a''))
   \<and> map fst (wr_files (snd (materialize_corpus plain_config_env (lit ''/t'') [one_document ''/x''] nothing_written))) = [lit ''/x'']"
proof -
  have c: "components (lit ''/t'') = [RootDir, Normal [116]]" "components (lit ''a'') = [Normal [97]]"
    by (simp_all add: components_def lit_def is_absolute_def slash_def)
  have dir: "is_absolute (lit ''/t'')" "ParentDir \<notin> set (components (lit ''/t''))"
    by (simp_all add: c, simp add: is_absolute_def lit_def slash_def)
  have safe: "is_safe_relative_path (lit ''a'')"
    unfolding is_safe_relative_path_def c(2) by (simp add: is_absolute_def lit_def slash_def is_normal_def)
  have abs: "is_absolute (cr_path (one_document ''/x''))" by (simp add: one_document_def is_absolute_def lit_def slash_def)
  have made: "ce_create_dir_all plain_config_env = (\<lambda>_. None)" by (simp add: plain_config_env_def)
  have "path_join (lit ''/t'') (lit ''a'') \<in> fst ` set (wr_files (snd (materialize_corpus plain_config_env (lit ''/t'')
      [one_document ''a''] nothing_written)))"
    by (simp add: one_document_def plain_config_env_def Let_def split: option.split)
  with corpus_stays_in_directory [OF dir, of "[one_document ''a'']" plain_config_env "one_document ''/x''"] abs made safe
  show ?thesis by (auto simp: one_document_def)
qed

definition one_query :: query_record where
  "one_query = \<lparr>qr_query_id = lit ''q'', qr_query = lit ''one'', qr_relationship_should_help = False, qr_newest_revision_matters = False\<rparr>"

definition one_judgment :: judgment_record where
  "one_judgment = \<lparr>jr_query_id = lit ''q'', jr_required = [lit ''d#0''], jr_acceptable = [], jr_misleading = [],
     jr_expected_source_diversity = None\<rparr>"

definition ten_request :: retrieval_query where
  "ten_request = plain_request\<lparr>rq_limit := 10, rq_token_budget := 4000, rq_include_sensitive := True\<rparr>"

lemma one_request: "eval_request Lexical one_query = Inr ten_request"
  by (simp add: eval_request_def retrieval_limit_new_def token_budget_new_def one_query_def ten_request_def plain_request_def)

lemma note_search: "search_fts plain_env note_db ten_request p 80 = Inr [twin_candidate 4 3 2 ''a'']"
  by (simp add: search_fts_def plain_defs ten_request_def note_defs fts_join_def lit_def fts_row_of_def
      request_allows_def ranked_rows_def rank_order_def float_cmp_def candidate_of_def twin_candidate_def cmp_def)

lemma note_answer:
  "\<exists>resp. retrieve plain_env None note_db (tagged_config ''2'') ten_request = Inr resp \<and> length (rp_results resp) \<le> 1"
proof -
  let ?s = "load_sensitivity_sets plain_env (tagged_config ''2'')"
  have lim: "candidate_limit ten_request = 80"
    by (simp add: candidate_limit_def ten_request_def plain_request_def MAX_CANDIDATES_def CANDIDATE_MULTIPLIER_def)
  have mode: "rq_mode ten_request = Lexical" "rq_query ten_request = rq_query plain_request"
    by (simp_all add: ten_request_def plain_request_def)
  have snap: "eligible_snapshot_sources (re_config plain_env) note_db (tagged_config ''2'') ten_request = Inr []"
    by (simp add: eligible_snapshot_sources_def mapped_rows_def note_defs)
  define hits where "hits = lexical_hits plain_env ?s \<lparr>pq_original = lit ''one'', pq_terms = [lit ''one''], pq_fts_match = [34, 111, 110, 101, 34]\<rparr>
    (filter_sensitivity plain_env ?s (rq_include_sensitive ten_request) (suppress_duplicates [twin_candidate 4 3 2 ''a'']))"
  have "length hits \<le> length (suppress_duplicates [twin_candidate 4 3 2 ''a''])"
    unfolding hits_def lexical_hits_def filter_sensitivity_def by simp
  then have "length hits \<le> 1" by (simp add: suppress_duplicates_def)
  then consider "hits = []" | h where "hits = [h]" by (cases hits; cases "tl hits") auto
  then have "\<exists>r tr ws. pack_results (rq_query plain_request) hits (rq_limit ten_request) (rq_token_budget ten_request) [] = (r, tr, ws) \<and> length r \<le> 1"
    by cases (auto simp: pack_results_def Let_def)
  then obtain r tr ws where "pack_results (rq_query plain_request) hits (rq_limit ten_request) (rq_token_budget ten_request) [] = (r, tr, ws)"
    "length r \<le> 1" by blast
  then show ?thesis
    by (simp add: retrieve_def retrieve_lexical_def mode plain_parse lim note_search federate_with_snapshots_def snap
       hits_def [symmetric] unfused_def)
qed


end
