(* ===== verification/Cli_Output.thy ===== *)
theory Cli_Output
  imports Evaluation Status_Server Suggest Snapshot_Store
begin

text \<open>
  What the command line prints (\<open>main.rs\<close> of \<open>omnisem-cli\<close>): its records and the lines of each report. Formatted
  floats (\<open>{:.3}\<close>) and the debug form of optional strings (\<open>{:?}\<close>) are parameters.
\<close>

subsection \<open>Records\<close>

record init_output =
  io_created :: bool
  io_config_path :: path
  io_database_path :: path
  io_roots :: nat

record root_list_item =
  rl_id :: ustring
  rl_name :: ustring
  rl_path :: path
  rl_enabled :: bool
  rl_include :: "ustring list"
  rl_exclude :: "ustring list"
  rl_follow_symlinks :: bool
  rl_sensitivity_tag_count :: nat
  rl_indexed_file_count :: nat

record root_remove_output =
  rr_root_id :: ustring
  rr_name :: ustring
  rr_path :: path
  rr_removed :: root_removal_counts

record status_output =
  so_config_path :: path
  so_database_path :: path
  so_snapshot :: status_snapshot
  so_compatibility :: embedding_compat

record doctor_check =
  dc_name :: ustring
  dc_status :: ustring
  dc_message :: ustring

record doctor_output =
  do_overall :: ustring
  do_checks :: "doctor_check list"

record query_envelope =
  qe_schema_version :: nat
  qe_response :: retrieval_response

datatype json_output =
  JsonInit init_output | JsonRoot root_config | JsonRoots "root_list_item list" | JsonSuggestions suggest_report
| JsonRootRemoved root_remove_output | JsonIndex "sync_report index_report" | JsonStatus status_output
| JsonDoctor doctor_output | JsonChanges "change_event list" | JsonQuery query_envelope | JsonEvaluation eval_report
| JsonComparison eval_comparison | JsonExport export_report | JsonImport import_report
| JsonSnapshots "snapshot_list_item list" | JsonInspect snapshot_inspect | JsonSnapshotRemoved import_report

text \<open>A line on the standard output or the standard error, or a value printed as JSON.\<close>

datatype printed = Out ustring | Err ustring | OutJson json_output

record formats =
  fo_fixed :: "nat \<Rightarrow> float \<Rightarrow> ustring" \<comment> \<open>number of decimals\<close>
  fo_debug :: "ustring option \<Rightarrow> ustring"
  fo_id :: "uuid \<Rightarrow> ustring"

definition check_pass :: "string \<Rightarrow> ustring \<Rightarrow> doctor_check" where
  "check_pass name message = \<lparr>dc_name = lit name, dc_status = lit ''pass'', dc_message = message\<rparr>"

definition check_failure :: "string \<Rightarrow> ustring \<Rightarrow> doctor_check" where
  "check_failure name message = \<lparr>dc_name = lit name, dc_status = lit ''failure'', dc_message = message\<rparr>"

definition check_disabled :: "string \<Rightarrow> ustring \<Rightarrow> doctor_check" where
  "check_disabled name message = \<lparr>dc_name = lit name, dc_status = lit ''disabled'', dc_message = message\<rparr>"

subsection \<open>Texts\<close>

definition show_int :: "int \<Rightarrow> ustring" where
  "show_int n = (if n < 0 then [45] else []) @ show_nat (nat \<bar>n\<bar>)"

definition show_bool :: "bool \<Rightarrow> ustring" where
  "show_bool b = (if b then lit ''true'' else lit ''false'')"

definition or_text :: "string \<Rightarrow> ustring option \<Rightarrow> ustring" where
  "or_text missing v = (case v of Some s \<Rightarrow> s | None \<Rightarrow> lit missing)"

definition one_line :: "ustring \<Rightarrow> ustring" where
  "one_line s = map (\<lambda>c. if c = 10 then 32 else c) s"

text \<open>\<open>&value[..value.len().min(12)]\<close>, bytes; \<open>None\<close> is the panic inside a character.\<close>

fun byte_prefix :: "nat \<Rightarrow> ustring \<Rightarrow> ustring option" where
  "byte_prefix 0 s = Some []"
| "byte_prefix n [] = None"
| "byte_prefix n (c # s) = (if utf8_len c \<le> n then map_option (Cons c) (byte_prefix (n - utf8_len c) s) else None)"

definition short_digest :: "ustring \<Rightarrow> ustring option" where
  "short_digest v = byte_prefix (min (str_len v) 12) v"

text \<open>A line with a label; several pieces on a line.\<close>

definition labelled :: "string \<Rightarrow> ustring \<Rightarrow> printed" where
  "labelled label s = Out (lit label @ lit '': '' @ s)"

definition init_lines :: "init_output \<Rightarrow> printed list" where
  "init_lines r =
     [Out (lit ''Omni-Sem '' @ lit (if io_created r then ''initialized'' else ''already initialized'') @ lit '' at '' @ io_config_path r),
      labelled ''database'' (io_database_path r), labelled ''roots'' (show_nat (io_roots r))]"

definition root_lines :: "root_config \<Rightarrow> printed list" where
  "root_lines r = [Out (lit ''approved root '' @ ro_id r), labelled ''name'' (ro_name r), labelled ''path'' (ro_path r),
     labelled ''follow_symlinks'' (show_bool (ro_follow_symlinks r))]"

definition root_list_lines :: "root_list_item list \<Rightarrow> printed list" where
  "root_list_lines rows =
     (if rows = [] then [Out (lit ''No approved roots.'')]
      else map (\<lambda>r. Out (rl_id r @ lit ''  '' @ rl_name r @ lit ''  '' @ rl_path r @ lit ''  enabled='' @ show_bool (rl_enabled r)
        @ lit ''  indexed='' @ show_nat (rl_indexed_file_count r)
        @ lit ''  sensitivity='' @ show_nat (rl_sensitivity_tag_count r))) rows)"

definition suggestion_lines :: "path \<Rightarrow> suggest_report \<Rightarrow> printed list" where
  "suggestion_lines cwd r =
     (if sr_suggestions r = [] then [Out (lit ''No candidate roots found near '' @ cwd @ lit ''.'')]
      else map (\<lambda>s. Out (su_path s @ lit ''  files='' @ show_nat (su_supported_files s)
             @ lit ''  bytes='' @ show_nat (su_total_size_bytes s))) (sr_suggestions r)
           @ (if sr_truncated r then [Out (lit ''suggestion scan truncated by safety bounds'')] else []))"

definition root_removed_lines :: "root_remove_output \<Rightarrow> printed list" where
  "root_removed_lines r = [Out (lit ''removed root '' @ rr_root_id r),
     Out (lit ''derived removed: sources='' @ show_nat (rc_source_files (rr_removed r)) @ lit '' revisions=''
       @ show_nat (rc_revisions (rr_removed r)) @ lit '' segments='' @ show_nat (rc_segments (rr_removed r)))]"

fun index_mode_debug :: "index_mode \<Rightarrow> ustring" where
  "index_mode_debug Full = lit ''Full''" | "index_mode_debug Incremental = lit ''Incremental''"

definition index_lines :: "formats \<Rightarrow> sync_report index_report \<Rightarrow> printed list" where
  "index_lines fo p =
     map (\<lambda>r. Out (lit ''root '' @ ir_root_name r @ lit '' mode='' @ index_mode_debug (ir_mode r)
       @ lit '' base='' @ fo_debug fo (ir_resolved_base r) @ lit '' head='' @ fo_debug fo (ir_current_head r)
       @ lit '' changed='' @ show_nat (ir_changed_paths r) @ lit '' fallback='' @ fo_debug fo (ir_fallback_reason r)))
       (ip_root_reports p)
     @ [labelled ''roots scanned'' (show_nat (ip_roots_scanned p)),
        labelled ''files discovered'' (show_nat (ip_files_discovered p)),
        labelled ''additions'' (show_nat (ip_additions p)), labelled ''modifications'' (show_nat (ip_modifications p)),
        labelled ''unchanged'' (show_nat (ip_unchanged p)), labelled ''deletions'' (show_nat (ip_deletions p)),
        labelled ''skipped'' (show_nat (ip_skipped p)), labelled ''failed'' (show_nat (ip_failures p)),
        labelled ''segments indexed'' (show_nat (ip_segments_indexed p)), labelled ''duration_ms'' (show_nat (ip_duration_ms p))]
     @ (case ip_embedding p of None \<Rightarrow> [] | Some y \<Rightarrow>
         [labelled ''embedding provider'' (yr_provider y), labelled ''embedding space'' (or_text ''none'' (yr_embedding_space y)),
          labelled ''embedding status'' (yr_status y), labelled ''embedding active segments'' (show_nat (yr_active_segments y)),
          labelled ''embedding cache hits'' (show_nat (yr_cache_hits y)),
          labelled ''embedding provider inputs'' (show_nat (yr_provider_inputs y)),
          labelled ''embedding linked segments'' (show_nat (yr_linked_segments y)),
          labelled ''embedding missing segments'' (show_nat (yr_missing_segments y)),
          labelled ''embedding failed segments'' (show_nat (yr_failed_segments y))])"

text \<open>The lines of the status up to the digest, the digest, and the rest.\<close>

definition status_lines :: "status_output \<Rightarrow> printed list \<times> printed option \<times> printed list" where
  "status_lines o' = (let s = so_snapshot o'; e = ss_embedding s; time = (\<lambda>t. case t of None \<Rightarrow> lit ''-'' | Some v \<Rightarrow> show_int v) in
     ([labelled ''config'' (so_config_path o'), labelled ''database'' (so_database_path o'),
       labelled ''schema_version'' (show_int (ss_schema_version s)),
       labelled ''roots'' (show_nat (ss_root_count s) @ lit '' (enabled '' @ show_nat (ss_enabled_root_count s) @ lit '')''),
       labelled ''active_source_files'' (show_nat (ss_active_source_files s)),
       labelled ''active_revisions'' (show_nat (ss_active_revisions s)), labelled ''active_segments'' (show_nat (ss_active_segments s)),
       labelled ''fts_rows'' (show_nat (ss_fts_rows s)), labelled ''failed_sources'' (show_nat (ss_failed_sources s)),
       labelled ''embedding_space'' (or_text ''none'' (et_active_space_id e)),
       labelled ''embedding_provider'' (or_text ''none'' (et_provider e)),
       labelled ''embedding_model'' (or_text ''none'' (et_canonical_model e))],
      map_option (labelled ''embedding_digest'')
        (case et_model_digest e of None \<Rightarrow> Some (lit ''none'') | Some d \<Rightarrow> short_digest d),
      [labelled ''embedding_coverage'' (show_nat (et_linked_active_segments e) @ lit ''/'' @ show_nat (et_active_segments e)),
       labelled ''embedding_compatibility'' (cm_state (so_compatibility o')),
       labelled ''last_successful_scan_ms'' (time (ss_last_successful_scan_ms s)),
       labelled ''last_failed_scan_ms'' (time (ss_last_failed_scan_ms s)),
       labelled ''database_size_bytes'' (show_nat (ss_database_size_bytes s)),
       labelled ''sensitivity_tag_count'' (show_nat (ss_sensitivity_tag_count s))]))"

definition doctor_lines :: "doctor_output \<Rightarrow> printed list" where
  "doctor_lines r = map (\<lambda>c. Out (dc_name c @ lit '': '' @ dc_status c @ lit '' - '' @ dc_message c)) (do_checks r)
     @ [labelled ''overall'' (do_overall r)]"

definition change_lines :: "formats \<Rightarrow> change_event list \<Rightarrow> printed list" where
  "change_lines fo events =
     (if events = [] then [Out (lit ''No changes.'')]
      else map (\<lambda>e. Out (ce_kind e @ lit ''  '' @ fo_id fo (ce_root_id e) @ lit ''  '' @ ce_relative_path e
        @ lit ''  prev='' @ or_text ''-'' (ce_previous_content_hash e)
        @ lit ''  curr='' @ or_text ''-'' (ce_current_content_hash e))) events)"

subsection \<open>Answers of a query\<close>

definition origin_text :: "evidence_origin \<Rightarrow> ustring" where
  "origin_text src = (case src of LocalIndex \<Rightarrow> lit ''local'' | FromSnapshot i _ \<Rightarrow> lit ''snapshot:'' @ i)"

definition optional_line :: "string \<Rightarrow> ustring option \<Rightarrow> printed list" where
  "optional_line label v = (case v of None \<Rightarrow> [] | Some s \<Rightarrow> [Out (lit ''   '' @ lit label @ lit ''='' @ s)])"

definition hit_lines :: "formats \<Rightarrow> retrieval_response \<Rightarrow> bool \<Rightarrow> nat \<Rightarrow> retrieval_hit \<Rightarrow> printed list" where
  "hit_lines fo response explain index hit =
     [Out (show_nat (index + 1) @ lit ''. '' @ rh_relative_path hit @ lit ''#'' @ rh_anchor hit
        @ lit ''  score='' @ fo_fixed fo 4 (rh_score hit) @ lit ''  freshness='' @ freshness_status_as_str (rh_freshness hit)
        @ lit ''  tokens='' @ show_nat (rh_token_estimate hit) @ lit ''  origin='' @ origin_text (rh_origin hit)),
      Out (lit ''   score_kind='' @ rp_score_kind response)]
     @ optional_line ''raw_bm25'' (map_option (fo_fixed fo 6) (si_raw_bm25 (rh_signals hit)))
     @ optional_line ''cosine_similarity'' (map_option (fo_fixed fo 6) (si_cosine_similarity (rh_signals hit)))
     @ optional_line ''fusion_score'' (map_option (fo_fixed fo 6) (si_fusion_score (rh_signals hit)))
     @ [Out (lit ''   revision='' @ fo_id fo (rh_revision_id hit))]
     @ optional_line ''sensitivity'' (map_option sensitivity_scope_as_str (rh_sensitivity_scope hit))
     @ [Out (lit ''   '' @ one_line (rh_text hit))]
     @ (if explain
        then Out (lit ''   matched_terms='' @ join (lit '', '') (mx_matched_terms (rh_explanation hit)))
          # optional_line ''excerpt'' (map_option one_line (mx_matched_excerpt (rh_explanation hit)))
        else [])"

definition summary_lines :: "formats \<Rightarrow> retrieval_response \<Rightarrow> printed list" where
  "summary_lines fo r = (let t = rp_telemetry r in
     [Out (lit ''requested_mode='' @ retrieval_mode_as_str (rp_requested_mode r) @ lit '' mode='' @ retrieval_mode_as_str (rp_mode r)
        @ lit '' results='' @ show_nat (length (rp_results r)) @ lit '' tokens='' @ show_nat (rp_token_estimate r)
        @ lit '' duplicates_suppressed='' @ show_nat (rp_duplicates_suppressed r) @ lit '' truncated='' @ show_bool (rp_truncated r)
        @ lit '' elapsed_ms='' @ show_nat (rp_elapsed_ms r)),
      Out (lit ''query_embedding_ms='' @ fo_fixed fo 3 (te_query_embedding_ms t) @ lit '' vector_scan_ms=''
        @ fo_fixed fo 3 (te_vector_scan_ms t) @ lit '' vectors_examined='' @ show_nat (te_active_vectors_examined t)
        @ lit '' corrupt_excluded='' @ show_nat (te_corrupt_vectors_excluded t)
        @ lit '' local_lexical='' @ show_nat (te_local_lexical_candidates t)
        @ lit '' snapshot_lexical='' @ show_nat (te_snapshot_lexical_candidates t)
        @ lit '' semantic='' @ show_nat (te_semantic_candidates t)
        @ lit '' fusion_admitted='' @ show_nat (te_candidates_admitted_to_fusion t)
        @ lit '' fusion_unique='' @ show_nat (te_unique_fused_candidates t)
        @ lit '' fusion_duplicates='' @ show_nat (te_fusion_duplicates_suppressed t))])"

definition query_lines :: "formats \<Rightarrow> bool \<Rightarrow> retrieval_response \<Rightarrow> printed list" where
  "query_lines fo explain r =
     (if rp_results r = []
      then [Out (lit ''No matches.''),
            Out (lit ''mode='' @ retrieval_mode_as_str (rp_mode r) @ lit '' limit='' @ show_nat (rp_applied_limit r)
              @ lit '' budget='' @ show_nat (rp_applied_token_budget r) @ lit '' elapsed_ms='' @ show_nat (rp_elapsed_ms r))]
      else concat (map (\<lambda>(i, h). hit_lines fo r explain i h) (enumerate 0 (rp_results r))) @ summary_lines fo r)"

definition eval_lines :: "formats \<Rightarrow> eval_report \<Rightarrow> printed list" where
  "eval_lines fo r = (let m = er_metrics r; f = fo_fixed fo in
     [Out (lit ''run_id='' @ er_run_id r),
      Out (lit ''mode='' @ er_mode r @ lit '' corpus='' @ show_nat (er_corpus_size r) @ lit '' queries='' @ show_nat (er_query_count r)),
      Out (lit ''recall@5='' @ f 3 (em_recall_at_5 m) @ lit '' recall@10='' @ f 3 (em_recall_at_10 m)
        @ lit '' mrr='' @ f 3 (em_mrr m) @ lit '' ndcg='' @ f 3 (em_ndcg m)),
      Out (lit ''dup='' @ f 3 (em_duplicate_result_rate m) @ lit '' stale='' @ f 3 (em_stale_result_rate m)
        @ lit '' misleading='' @ f 3 (em_misleading_result_rate m) @ lit '' diversity='' @ f 3 (em_source_diversity m)
        @ lit '' tokens='' @ f 1 (em_returned_tokens m)),
      Out (lit ''p50_ms='' @ f 2 (em_p50_latency_ms m) @ lit '' p95_ms='' @ f 2 (em_p95_latency_ms m)),
      Out (lit ''query_embedding_p50_ms='' @ f 2 (em_p50_query_embedding_ms m) @ lit '' query_embedding_p95_ms=''
        @ f 2 (em_p95_query_embedding_ms m) @ lit '' vector_scan_p50_ms='' @ f 2 (em_p50_vector_scan_ms m)
        @ lit '' vector_scan_p95_ms='' @ f 2 (em_p95_vector_scan_ms m))])"

subsection \<open>Snapshots\<close>

definition export_lines :: "export_report \<Rightarrow> printed list" where
  "export_lines r = [Out (lit ''exported snapshot to '' @ xr_path r),
     Out (lit ''segments='' @ show_int (xr_segments r) @ lit '' checksum='' @ xr_payload_checksum r)]"

definition import_lines :: "import_report \<Rightarrow> printed list" where
  "import_lines r = [Out (lit ''imported snapshot '' @ Snapshot_Store.ir_snapshot_id r),
     labelled ''maps'' (join (lit '', '') (Snapshot_Store.ir_mapped_roots r))]"

definition snapshot_list_lines :: "snapshot_list_item list \<Rightarrow> printed list" where
  "snapshot_list_lines items =
     (if items = [] then [Out (lit ''No snapshots registered.'')]
      else map (\<lambda>i. Out (li_snapshot_id i @ lit ''  '' @ li_logical_name i @ lit ''  queryable='' @ show_bool (li_queryable i)
        @ lit '' healthy='' @ show_bool (li_payload_healthy i) @ lit '' segments='' @ show_int (li_segment_count i)
        @ lit '' maps='' @ show_nat (li_mapped_roots i) @ lit ''/'' @ show_nat (li_total_roots i))) items)"

definition inspect_lines :: "snapshot_inspect \<Rightarrow> printed list" where
  "inspect_lines r = [Out (lit ''snapshot '' @ in_snapshot_id r),
     Out (lit ''queryable='' @ show_bool (in_queryable r) @ lit '' healthy='' @ show_bool (in_payload_healthy r)),
     Out (lit ''segments='' @ show_int (sn_segments (in_counts r))),
     labelled ''mappings'' (join (lit '', '') (in_mappings r)), Out (in_warning r)]"

definition snapshot_removed_lines :: "import_report \<Rightarrow> printed list" where
  "snapshot_removed_lines r = [Out (lit ''removed snapshot '' @ Snapshot_Store.ir_snapshot_id r),
     Out (lit ''segments_were='' @ show_int (Snapshot_Store.ir_segments r))]"

end
