(* ===== verification/Cli.thy ===== *)
theory Cli
  imports Cli_Output Fusion
begin

text \<open>
  The commands (\<open>main.rs\<close> of \<open>omnisem-cli\<close>): from parsed arguments to what is printed, what is changed and the exit
  code. A command runs on the configuration files, the index database and the files of the machine; it ends with
  a value, an error, a panic, or serves the status page until it is killed. Parsing the arguments is \<open>clap\<close>'s.
\<close>

subsection \<open>Arguments\<close>

datatype snapshot_command =
  SnapshotExport path "ustring option" bool | SnapshotImport path "ustring list" bool | SnapshotList bool
| SnapshotInspect ustring bool | SnapshotRemove ustring bool

datatype root_command = RootAdd path "ustring option" bool | RootList bool | RootSuggest bool | RootRemove ustring bool

record query_args =
  qg_query :: ustring
  qg_mode :: ustring
  qg_root :: "ustring option"
  qg_file_type :: "ustring option"
  qg_limit :: "nat option"
  qg_token_budget :: "nat option"
  qg_budget :: "ustring option"
  qg_include_sensitive :: bool
  qg_explain :: bool
  qg_json :: bool

datatype command =
  CmdInit bool | CmdRoot root_command | CmdIndex "ustring option" "ustring option" bool | CmdStatus bool bool nat
| CmdDoctor bool | CmdSnapshot snapshot_command | CmdChanges "ustring option" "ustring option" bool | CmdQuery query_args
| CmdEval "path option" ustring bool bool

record cli_args =
  ci_data_root :: "path option"
  ci_command :: "command option"

subsection \<open>Effects\<close>

record cli_state =
  cs_disk :: disk
  cs_db :: db
  cs_tree :: tree
  cs_tick :: nat
  cs_printed :: "printed list"

datatype ('e, 'a) ending = Value 'a | Failed 'e | Panicked | Serving

type_synonym ('e, 'a) cx = "cli_state \<Rightarrow> ('e, 'a) ending \<times> cli_state"

definition cret :: "'a \<Rightarrow> ('e, 'a) cx" where "cret a s = (Value a, s)"
definition cfail :: "'e \<Rightarrow> ('e, 'a) cx" where "cfail e s = (Failed e, s)"

definition cthen :: "('e, 'a) cx \<Rightarrow> ('a \<Rightarrow> ('e, 'b) cx) \<Rightarrow> ('e, 'b) cx" where
  "cthen m f s = (case m s of (Value a, s') \<Rightarrow> f a s' | (Failed e, s') \<Rightarrow> (Failed e, s')
     | (Panicked, s') \<Rightarrow> (Panicked, s') | (Serving, s') \<Rightarrow> (Serving, s'))"

definition cpanic :: "('e, 'a) cx" where "cpanic s = (Panicked, s)"
definition cserve :: "('e, 'a) cx" where "cserve s = (Serving, s)"

definition clift :: "'e + 'a \<Rightarrow> ('e, 'a) cx" where
  "clift r = (case r of Inl e \<Rightarrow> cfail e | Inr a \<Rightarrow> cret a)"

definition cread :: "(cli_state \<Rightarrow> 'a) \<Rightarrow> ('e, 'a) cx" where "cread f s = (Value (f s), s)"

definition cprint :: "printed list \<Rightarrow> ('e, unit) cx" where
  "cprint ls s = (Value (), s\<lparr>cs_printed := cs_printed s @ ls\<rparr>)"

definition ctick :: "('e, nat) cx" where
  "ctick s = (Value (cs_tick s), s\<lparr>cs_tick := cs_tick s + 1\<rparr>)"

text \<open>\<open>map_err\<close>, and the form of it that prints the error and goes on with an exit code.\<close>

definition cmap_err :: "('e \<Rightarrow> 'f) \<Rightarrow> ('e, 'a) cx \<Rightarrow> ('f, 'a) cx" where
  "cmap_err f m s = (case m s of (Value a, s') \<Rightarrow> (Value a, s') | (Failed e, s') \<Rightarrow> (Failed (f e), s')
     | (Panicked, s') \<Rightarrow> (Panicked, s') | (Serving, s') \<Rightarrow> (Serving, s'))"

definition reporting :: "('e \<Rightarrow> ustring) \<Rightarrow> ('e \<Rightarrow> exit_code) \<Rightarrow> ('e, 'a) cx \<Rightarrow> (exit_code, 'a) cx" where
  "reporting display code m s = (case m s of
       (Value a, s') \<Rightarrow> (Value a, s')
     | (Failed e, s') \<Rightarrow> (Failed (code e), s'\<lparr>cs_printed := cs_printed s' @ [Err (lit ''error: '' @ display e)]\<rparr>)
     | (Panicked, s') \<Rightarrow> (Panicked, s') | (Serving, s') \<Rightarrow> (Serving, s'))"

definition print_config_err :: "(config_error, 'a) cx \<Rightarrow> (exit_code, 'a) cx" where
  "print_config_err = reporting config_error_display config_error_exit_code"

text \<open>Operations of the index and of the snapshots run on their part of the state.\<close>

definition cindex :: "'a ix \<Rightarrow> (index_error, 'a) cx" where
  "cindex m s = (case m \<lparr>wd_db = cs_db s, wd_tick = cs_tick s\<rparr> of (r, w) \<Rightarrow>
     (case r of Inl e \<Rightarrow> Failed e | Inr a \<Rightarrow> Value a, s\<lparr>cs_db := wd_db w, cs_tick := wd_tick w\<rparr>))"

definition cdepot :: "'a dx \<Rightarrow> (config_error, 'a) cx" where
  "cdepot m s = (case m \<lparr>dp_db = cs_db s, dp_tree = cs_tree s, dp_tick = cs_tick s\<rparr> of (r, d) \<Rightarrow>
     (case r of Inl e \<Rightarrow> Failed e | Inr a \<Rightarrow> Value a,
      s\<lparr>cs_db := dp_db d, cs_tree := dp_tree d, cs_tick := dp_tick d\<rparr>))"

definition cdisk :: "(disk \<Rightarrow> ('e + 'a) \<times> disk) \<Rightarrow> ('e, 'a) cx" where
  "cdisk f s = (case f (cs_disk s) of (r, disk) \<Rightarrow>
     (case r of Inl e \<Rightarrow> Failed e | Inr a \<Rightarrow> Value a, s\<lparr>cs_disk := disk\<rparr>))"

definition cdb :: "(db \<Rightarrow> 'e + 'a \<times> db) \<Rightarrow> ('e, 'a) cx" where
  "cdb f s = (case f (cs_db s) of Inl e \<Rightarrow> (Failed e, s) | Inr (a, db) \<Rightarrow> (Value a, s\<lparr>cs_db := db\<rparr>))"

subsection \<open>The environment\<close>

record 'g cli_env =
  cl_config :: config_env
  cl_index :: "'g index_env"
  cl_sync :: sync_env
  cl_feature :: "ollama_env option"
  cl_retrieval :: "'g retrieval_env"
  cl_snapshots :: snapshot_env
  cl_suggest :: suggest_env
  cl_eval :: "'g eval_env"
  cl_formats :: formats
  cl_project_dirs :: "(path \<times> path) option" \<comment> \<open>the platform's directories for configuration and data\<close>
  cl_connect_error :: "nat \<Rightarrow> path \<Rightarrow> sql_error option" \<comment> \<open>the failure of connecting, with the PRAGMA and reading the version\<close>
  cl_script_error :: "nat \<Rightarrow> int \<Rightarrow> sql_error option" \<comment> \<open>the failure of a migration's script\<close>
  cl_fts5_works :: bool
  cl_sql_error :: "nat \<Rightarrow> storage_error option" \<comment> \<open>the failure of a read\<close>
  cl_new_root :: uuid
  cl_next_activity :: "db \<Rightarrow> nat" \<comment> \<open>\<open>AUTOINCREMENT\<close>\<close>
  cl_clock :: "nat \<Rightarrow> int"
  cl_current_dir :: "ustring + path"
  cl_database_size :: "path \<Rightarrow> nat"
  cl_bind :: "nat \<Rightarrow> ustring + ustring" \<comment> \<open>the local address bound for this port\<close>
  cl_dev_bundle :: path \<comment> \<open>the bundle of the source tree\<close>
  cl_index_ms :: nat
  cl_json_error :: "json_output \<Rightarrow> ustring option"
  cl_sql_text :: "sql_error \<Rightarrow> ustring"

definition print_json :: "'g cli_env \<Rightarrow> json_output \<Rightarrow> (config_error, unit) cx" where
  "print_json env v = (case cl_json_error env v of
     Some m \<Rightarrow> cfail (ConfigInvalid (lit ''stdout'') m) | None \<Rightarrow> cprint [OutJson v])"

definition print_either :: "'g cli_env \<Rightarrow> bool \<Rightarrow> json_output \<Rightarrow> printed list \<Rightarrow> (config_error, unit) cx" where
  "print_either env json v ls = (if json then print_json env v else cprint ls)"

text \<open>
  \<open>storage::open_database\<close>. The scripts of the migrations only create tables and add columns with defaults, so on the
  rows of the model a migration changes nothing but the recorded version.
\<close>

definition migrate_index :: "(int \<Rightarrow> sql_error option) \<Rightarrow> bool \<Rightarrow> db \<Rightarrow> storage_error option \<times> db" where
  "migrate_index run fts5_works db =
     (case migrate run fts5_works \<lparr>cn_version = db_schema_version db, cn_applied = []\<rparr> of
        (e, c) \<Rightarrow> (e, db\<lparr>db_schema_version := cn_version c\<rparr>))"

definition cmigrate :: "'g cli_env \<Rightarrow> nat \<Rightarrow> (storage_error, unit) cx" where
  "cmigrate env n s = (case migrate_index (cl_script_error env n) (cl_fts5_works env) (cs_db s) of
     (e, db) \<Rightarrow> (case e of None \<Rightarrow> Value () | Some e \<Rightarrow> Failed e, s\<lparr>cs_db := db\<rparr>))"

definition config_as_storage :: "path \<Rightarrow> config_error + 'a \<Rightarrow> storage_error + 'a" where
  "config_as_storage p = map_err (\<lambda>e. case e of ConfigIo q m \<Rightarrow> StorageIo q m | other \<Rightarrow> StorageIo p (config_error_display other))"

definition open_database :: "'g cli_env \<Rightarrow> path \<Rightarrow> (storage_error, unit) cx" where
  "open_database env p =
     cthen (clift (case path_parent p of None \<Rightarrow> Inr ()
       | Some parent \<Rightarrow> (case ce_create_dir_all (cl_config env) parent of
           Some m \<Rightarrow> Inl (StorageIo parent m) | None \<Rightarrow> Inr ()))) (\<lambda>_.
     cthen ctick (\<lambda>n.
     cthen (case cl_connect_error env n p of Some e \<Rightarrow> cfail (Database e) | None \<Rightarrow> cret ()) (\<lambda>_.
     cthen (cmigrate env n) (\<lambda>_.
       clift (config_as_storage p (restrict_permissions (cl_config env) p))))))"

definition reading_db :: "'g cli_env \<Rightarrow> (db \<Rightarrow> 'a) \<Rightarrow> (storage_error, 'a) cx" where
  "reading_db env f = cthen ctick (\<lambda>n. case cl_sql_error env n of Some e \<Rightarrow> cfail e | None \<Rightarrow> cread (f \<circ> cs_db))"

text \<open>The commands that fail with \<open>ConfigError\<close> turn a storage error into an I/O error at the database path.\<close>

definition storage_as_io :: "'g cli_env \<Rightarrow> path \<Rightarrow> (storage_error, 'a) cx \<Rightarrow> (config_error, 'a) cx" where
  "storage_as_io env p = cmap_err (\<lambda>e. ConfigIo p (storage_error_display (cl_sql_text env) e))"

definition storage_err :: "'g cli_env \<Rightarrow> (storage_error, 'a) cx \<Rightarrow> (exit_code, 'a) cx" where
  "storage_err env = reporting (storage_error_display (cl_sql_text env)) (\<lambda>_. ExitDatabase)"

definition retrieval_err :: "'g cli_env \<Rightarrow> (retrieval_error, 'a) cx \<Rightarrow> (exit_code, 'a) cx" where
  "retrieval_err env = reporting (retrieval_error_display (cl_sql_text env)) retrieval_error_exit_code"

definition domain_err :: "exit_code \<Rightarrow> domain_error + 'a \<Rightarrow> (exit_code, 'a) cx" where
  "domain_err code r = reporting domain_error_display (\<lambda>_. code) (clift r)"

definition parse_id :: "'g cli_env \<Rightarrow> ustring \<Rightarrow> domain_error + uuid" where
  "parse_id env s = ok_or InvalidIdentifier (ce_parse_uuid (cl_config env) s)"

text \<open>An optional argument, parsed when it is there.\<close>

fun optional :: "('a \<Rightarrow> 'e + 'b) \<Rightarrow> 'a option \<Rightarrow> 'e + 'b option" where
  "optional parse None = Inr None"
| "optional parse (Some v) = map_sum id Some (parse v)"

subsection \<open>Installation and roots\<close>

definition load_or_init :: "'g cli_env \<Rightarrow> app_paths \<Rightarrow> (config_error, app_config) cx" where
  "load_or_init env paths =
     cdisk (\<lambda>disk. if disk (ap_config_file paths) \<noteq> None
       then (load_config (cl_config env) disk (ap_config_file paths), disk)
       else (case init_installation (cl_config env) paths disk of (r, disk) \<Rightarrow> (map_sum id fst r, disk)))"

definition cmd_init :: "'g cli_env \<Rightarrow> app_paths \<Rightarrow> bool \<Rightarrow> (config_error, exit_code) cx" where
  "cmd_init env paths json =
     cthen (cdisk (init_installation (cl_config env) paths)) (\<lambda>(config, created).
     cthen (clift (database_path (cl_config env) config)) (\<lambda>db_path.
     cthen (storage_as_io env db_path (open_database env db_path)) (\<lambda>_.
     let out = \<lparr>io_created = created, io_config_path = ap_config_file paths, io_database_path = db_path,
           io_roots = length (ac_roots config)\<rparr>
     in cthen (print_either env json (JsonInit out) (init_lines out)) (\<lambda>_. cret ExitSuccess))))"

definition cmd_root_add ::
    "'g cli_env \<Rightarrow> app_paths \<Rightarrow> path \<Rightarrow> ustring option \<Rightarrow> bool \<Rightarrow> (config_error, exit_code) cx" where
  "cmd_root_add env paths path name json =
     cthen (load_or_init env paths) (\<lambda>config.
     case add_root (cl_config env) (cl_new_root env) config path name of
       (Inl e, _) \<Rightarrow> cfail e
     | (Inr entry, config) \<Rightarrow>
         cthen (cdisk (save_config (cl_config env) config (ap_config_file paths))) (\<lambda>_.
         cthen (clift (database_path (cl_config env) config)) (\<lambda>db_path.
         cthen (storage_as_io env db_path (open_database env db_path)) (\<lambda>_.
         cthen (clift (to_domain (cl_config env) entry)) (\<lambda>root.
         cthen (storage_as_io env db_path (cdb (\<lambda>db. map_sum id (Pair ()) (upsert_root db root)))) (\<lambda>_.
         cthen (print_either env json (JsonRoot entry) (root_lines entry)) (\<lambda>_. cret ExitSuccess)))))))"

fun root_rows :: "'g cli_env \<Rightarrow> app_paths \<Rightarrow> root_config list \<Rightarrow> (config_error, root_list_item list) cx" where
  "root_rows env paths [] = cret []"
| "root_rows env paths (r # rs) =
     cthen (clift (ok_or (ConfigInvalid (ap_config_file paths) (lit ''invalid root id '' @ ro_id r))
       (ce_parse_uuid (cl_config env) (ro_id r)))) (\<lambda>i.
     cthen ctick (\<lambda>n.
     cthen (cread (\<lambda>s. case cl_sql_error env n of Some _ \<Rightarrow> 0 | None \<Rightarrow> count_active_sources (cs_db s) i)) (\<lambda>indexed.
     cthen (root_rows env paths rs) (\<lambda>rows.
       cret (\<lparr>rl_id = ro_id r, rl_name = ro_name r, rl_path = ro_path r, rl_enabled = ro_enabled r,
         rl_include = ro_include r, rl_exclude = ro_exclude r, rl_follow_symlinks = ro_follow_symlinks r,
         rl_sensitivity_tag_count = length (ro_sensitivity r), rl_indexed_file_count = indexed\<rparr> # rows)))))"

definition cmd_root_list :: "'g cli_env \<Rightarrow> app_paths \<Rightarrow> bool \<Rightarrow> (config_error, exit_code) cx" where
  "cmd_root_list env paths json =
     cthen (load_or_init env paths) (\<lambda>config.
     cthen (clift (database_path (cl_config env) config)) (\<lambda>db_path.
     cthen (storage_as_io env db_path (open_database env db_path)) (\<lambda>_.
     cthen (root_rows env paths (ac_roots config)) (\<lambda>rows.
     cthen (print_either env json (JsonRoots rows) (root_list_lines rows)) (\<lambda>_. cret ExitSuccess)))))"

definition cmd_root_suggest :: "'g cli_env \<Rightarrow> bool \<Rightarrow> (config_error, exit_code) cx" where
  "cmd_root_suggest env json =
     cthen (clift (map_err (ConfigIo (lit ''.'')) (cl_current_dir env))) (\<lambda>cwd.
     let report = suggest_roots (cl_suggest env) cwd
     in cthen (print_either env json (JsonSuggestions report) (suggestion_lines cwd report)) (\<lambda>_. cret ExitSuccess))"

definition cmd_root_remove :: "'g cli_env \<Rightarrow> app_paths \<Rightarrow> ustring \<Rightarrow> bool \<Rightarrow> (config_error, exit_code) cx" where
  "cmd_root_remove env paths root_id json =
     cthen (load_or_init env paths) (\<lambda>config.
     case remove_root config root_id of
       (Inl e, _) \<Rightarrow> cfail e
     | (Inr removed, config) \<Rightarrow>
         cthen (cdisk (save_config (cl_config env) config (ap_config_file paths))) (\<lambda>_.
         cthen (clift (database_path (cl_config env) config)) (\<lambda>db_path.
         cthen (storage_as_io env db_path (open_database env db_path)) (\<lambda>_.
         cthen (clift (ok_or (RootNotFound root_id) (ce_parse_uuid (cl_config env) root_id))) (\<lambda>i.
         cthen (storage_as_io env db_path (cdb (\<lambda>db. delete_root_derived db i))) (\<lambda>counts.
         let out = \<lparr>rr_root_id = ro_id removed, rr_name = ro_name removed, rr_path = ro_path removed, rr_removed = counts\<rparr>
         in cthen (print_either env json (JsonRootRemoved out) (root_removed_lines out)) (\<lambda>_. cret ExitSuccess)))))))"

definition cmd_root :: "'g cli_env \<Rightarrow> app_paths \<Rightarrow> root_command \<Rightarrow> (exit_code, exit_code) cx" where
  "cmd_root env paths action = print_config_err (case action of
       RootAdd path name json \<Rightarrow> cmd_root_add env paths path name json
     | RootList json \<Rightarrow> cmd_root_list env paths json
     | RootSuggest json \<Rightarrow> cmd_root_suggest env json
     | RootRemove root_id json \<Rightarrow> cmd_root_remove env paths root_id json)"

subsection \<open>Index, status and diagnostics\<close>

text \<open>What the other commands start with.\<close>

definition opened_config :: "'g cli_env \<Rightarrow> app_paths \<Rightarrow> (exit_code, app_config \<times> path) cx" where
  "opened_config env paths =
     cthen (print_config_err (load_or_init env paths)) (\<lambda>config.
     cthen (print_config_err (clift (database_path (cl_config env) config))) (\<lambda>db_path.
     cthen (storage_err env (open_database env db_path)) (\<lambda>_. cret (config, db_path))))"

definition index_exit :: "sync_report index_report \<Rightarrow> exit_code" where
  "index_exit report =
     (if ip_failures report > 0
       \<or> (case ip_embedding report of None \<Rightarrow> False | Some y \<Rightarrow> yr_status y \<in> {lit ''partial'', lit ''failed''})
      then ExitPartialIndexing else ExitSuccess)"

definition cmd_index ::
    "'g cli_env \<Rightarrow> app_paths \<Rightarrow> ustring option \<Rightarrow> ustring option \<Rightarrow> bool \<Rightarrow> (exit_code, exit_code) cx" where
  "cmd_index env paths only since json =
     cthen (opened_config env paths) (\<lambda>(config, _).
     cthen (domain_err ExitInvalidInput (optional (parse_id env) only)) (\<lambda>filter.
     let base = map_option (\<lambda>v. if v = lit ''__LAST__'' then None else Some v) since
     in cthen (reporting (index_error_display (cl_sql_text env)) index_error_exit_code
          (cindex (index_roots_with_options (cl_index env) (domain_roots (cl_config env) config) filter base
            (synchronize_embeddings (cl_sync env) (cl_feature env) (ac_embeddings config)) (cl_index_ms env)))) (\<lambda>report.
        cthen (print_config_err (print_either env json (JsonIndex report) (index_lines (cl_formats env) report))) (\<lambda>_.
          cret (index_exit report)))))"

definition print_status :: "'g cli_env \<Rightarrow> bool \<Rightarrow> status_output \<Rightarrow> (exit_code, unit) cx" where
  "print_status env json out =
     (if json then print_config_err (print_json env (JsonStatus out))
      else case status_lines out of (before, digest, rest) \<Rightarrow>
        cthen (cprint before) (\<lambda>_. case digest of None \<Rightarrow> cpanic | Some l \<Rightarrow> cprint (l # rest)))"

text \<open>
  \<open>serve_status\<close> up to the start of the accept loop, which \<open>Status_Server\<close> models; it gives the address bound.
\<close>

definition serve_status :: "'g cli_env \<Rightarrow> nat \<Rightarrow> config_error + ustring" where
  "serve_status env port = map_err (ConfigIo (lit ''127.0.0.1'')) (cl_bind env port)"

definition cmd_status :: "'g cli_env \<Rightarrow> app_paths \<Rightarrow> bool \<Rightarrow> bool \<Rightarrow> nat \<Rightarrow> (exit_code, exit_code) cx" where
  "cmd_status env paths json serve port =
     cthen (opened_config env paths) (\<lambda>(config, db_path).
     if serve
     then cthen (print_config_err (clift (serve_status env port))) (\<lambda>addr.
          cthen (cprint [Out (lit ''Omni-Sem status listening on http://'' @ addr @ lit ''/''),
            Out (lit ''Read-only local view. Press Ctrl+C to stop.'')]) (\<lambda>_. cserve))
     else cthen (storage_err env (reading_db env (\<lambda>db. status_snapshot_of db (cl_database_size env db_path)))) (\<lambda>snapshot.
          cthen (print_status env json \<lparr>so_config_path = ap_config_file paths, so_database_path = db_path,
            so_snapshot = snapshot,
            so_compatibility = embedding_compatibility (ac_embeddings config) (ss_embedding snapshot)\<rparr>) (\<lambda>_.
          cret ExitSuccess)))"

definition fts_check :: "'g cli_env \<Rightarrow> nat \<Rightarrow> doctor_check" where
  "fts_check env n = (if cl_sql_error env n = None then check_pass ''fts5'' (lit ''FTS5 is available'')
     else check_failure ''fts5'' (lit ''FTS5 is unavailable''))"

definition roots_check :: "'g cli_env \<Rightarrow> app_config \<Rightarrow> doctor_check" where
  "roots_check env config =
     (let inaccessible = length (filter (\<lambda>r. ro_enabled r \<and> \<not> fs_is_dir (ce_fs (cl_config env)) (ro_path r)) (ac_roots config))
      in if inaccessible = 0 then check_pass ''roots'' (lit ''enabled roots are accessible'')
         else check_failure ''roots'' (show_nat inaccessible @ lit '' enabled roots are inaccessible''))"

definition parsers_check :: "'g cli_env \<Rightarrow> doctor_check" where
  "parsers_check env = (case registry_with_defaults (ie_events (cl_index env)) of
       Inr _ \<Rightarrow> check_pass ''parsers'' (lit ''parsers are available'')
     | Inl _ \<Rightarrow> check_failure ''parsers'' (lit ''parser registry is unavailable''))"

definition space_check :: "resolved_model \<Rightarrow> embedding_status \<Rightarrow> doctor_check" where
  "space_check model active =
     (let dimensions_match = (case rm_dimensions model of None \<Rightarrow> True | Some v \<Rightarrow> et_dimensions active = Some v);
          compatible = et_provider active = Some (lit ''ollama'')
            \<and> et_canonical_model active = Some (rm_canonical_name model)
            \<and> et_model_digest active = Some (rm_model_digest model) \<and> dimensions_match
            \<and> (case et_dimensions active of None \<Rightarrow> False | Some v \<Rightarrow> v > 0)
      in if compatible then check_pass ''embedding_space_compatibility''
           (lit ''resolved provider, canonical model, digest, and dimensions agree with the active space'')
         else check_failure ''embedding_space_compatibility''
           (lit ''resolved provider, canonical model, digest, or dimensions do not agree with the active persisted space''))"

definition embedding_checks :: "'g cli_env \<Rightarrow> app_config \<Rightarrow> embedding_status \<Rightarrow> (exit_code, doctor_check list) cx" where
  "embedding_checks env config active =
     (if ec_enabled (ac_embeddings config)
      then cthen ctick (\<lambda>n. case diagnose_provider (cl_feature env) (ac_embeddings config) n of
          Inr (Some model) \<Rightarrow>
            (case short_digest (rm_model_digest model) of
               None \<Rightarrow> cpanic
             | Some d \<Rightarrow> cret [check_pass ''embedding_provider'' (lit ''model '' @ rm_canonical_name model @ lit '' digest '' @ d),
                 space_check model active])
        | Inr None \<Rightarrow> cret [check_disabled ''embedding_provider'' (lit ''embeddings are disabled'')]
        | Inl e \<Rightarrow> cret [check_failure ''embedding_provider'' (embedding_error_code e)])
      else cret [check_disabled ''embedding_provider'' (lit ''embeddings are disabled; no provider request made''),
        check_disabled ''embedding_space_compatibility'' (lit ''embeddings are disabled'')])"

definition coverage_check :: "embedding_status \<Rightarrow> doctor_check" where
  "coverage_check active = \<lparr>dc_name = lit ''embedding_coverage'',
     dc_status = (if et_missing_active_segments active = 0 then lit ''pass'' else lit ''warning''),
     dc_message = show_nat (et_linked_active_segments active) @ lit ''/'' @ show_nat (et_active_segments active)
       @ lit '' active segments linked; '' @ show_nat (et_current_failure_count active) @ lit '' failures''\<rparr>"

definition snapshots_check :: "'g cli_env \<Rightarrow> nat \<Rightarrow> doctor_check" where
  "snapshots_check env n = (if cl_sql_error env n = None then check_pass ''snapshots'' (lit ''snapshot registry is healthy'')
     else check_failure ''snapshots'' (lit ''snapshot registry is unhealthy''))"

definition doctor_report :: "doctor_check list \<Rightarrow> doctor_output" where
  "doctor_report checks = \<lparr>do_overall = (if \<exists>c \<in> set checks. dc_status c = lit ''failure'' then lit ''failure'' else lit ''pass''),
     do_checks = checks\<rparr>"

definition cmd_doctor :: "'g cli_env \<Rightarrow> app_paths \<Rightarrow> bool \<Rightarrow> (exit_code, exit_code) cx" where
  "cmd_doctor env paths json =
     cthen (opened_config env paths) (\<lambda>(config, db_path).
     cthen (storage_err env (reading_db env (\<lambda>db. status_snapshot_of db (cl_database_size env db_path)))) (\<lambda>snapshot.
     cthen ctick (\<lambda>fts.
     cthen (embedding_checks env config (ss_embedding snapshot)) (\<lambda>embedding.
     cthen ctick (\<lambda>listing.
     let checks = [check_pass ''configuration'' (lit ''configuration is valid''),
           check_pass ''database'' (lit ''database is available''),
           check_pass ''schema'' (lit ''schema version '' @ show_int (ss_schema_version snapshot)),
           fts_check env fts, roots_check env config, parsers_check env]
           @ embedding @ [coverage_check (ss_embedding snapshot), snapshots_check env listing];
         out = doctor_report checks
     in cthen (print_config_err (print_either env json (JsonDoctor out) (doctor_lines out))) (\<lambda>_.
        cret (if do_overall out = lit ''failure'' then ExitPartialIndexing else ExitSuccess)))))))"

subsection \<open>Changes and queries\<close>

definition since_millis :: "'g cli_env \<Rightarrow> ustring option \<Rightarrow> (exit_code, int option) cx" where
  "since_millis env since = (case since of
       None \<Rightarrow> cret None
     | Some token \<Rightarrow>
         (case parse_duration_to_millis token of
            None \<Rightarrow> cpanic
          | Some r \<Rightarrow>
              cthen (domain_err ExitInvalidInput r) (\<lambda>duration.
              cthen ctick (\<lambda>n.
              cthen (domain_err ExitInternal (try_from_system_time (cl_clock env n))) (\<lambda>now.
                cret (Some (max i64_min (min i64_max (now - duration)))))))))"

definition cmd_changes ::
    "'g cli_env \<Rightarrow> app_paths \<Rightarrow> ustring option \<Rightarrow> ustring option \<Rightarrow> bool \<Rightarrow> (exit_code, exit_code) cx" where
  "cmd_changes env paths since only json =
     cthen (opened_config env paths) (\<lambda>_.
     cthen (since_millis env since) (\<lambda>since_ms.
     cthen (domain_err ExitInvalidInput (optional (parse_id env) only)) (\<lambda>root_id.
     cthen (storage_err env (reading_db env (\<lambda>db. list_changes db root_id since_ms))) (\<lambda>events.
     cthen (print_config_err (print_either env json (JsonChanges events) (change_lines (cl_formats env) events))) (\<lambda>_.
       cret ExitSuccess)))))"

definition as_vec :: "'a option \<Rightarrow> 'a list" where
  "as_vec v = (case v of None \<Rightarrow> [] | Some a \<Rightarrow> [a])"

definition query_request :: "'g cli_env \<Rightarrow> app_config \<Rightarrow> query_args \<Rightarrow> (exit_code, retrieval_query) cx" where
  "query_request env config a =
     cthen (domain_err ExitInvalidInput (retrieval_mode_from_str (qg_mode a))) (\<lambda>mode.
     cthen (domain_err ExitInvalidInput (optional (parse_id env) (qg_root a))) (\<lambda>only.
     cthen (domain_err ExitInvalidInput (optional file_type_from_str (qg_file_type a))) (\<lambda>file_type.
     cthen (retrieval_err env (clift (resolve_budget_args config (qg_budget a) (qg_limit a) (qg_token_budget a))))
       (\<lambda>(limit, token_budget, preset).
     cret \<lparr>rq_query = qg_query a, rq_root_ids = as_vec only, rq_file_types = as_vec file_type, rq_mode = mode,
       rq_limit = limit, rq_token_budget = token_budget, rq_include_sensitive = qg_include_sensitive a,
       rq_budget_preset = preset\<rparr>))))"

text \<open>The activity of the query is recorded when that succeeds.\<close>

definition note_activity :: "'g cli_env \<Rightarrow> retrieval_response \<Rightarrow> (exit_code, unit) cx" where
  "note_activity env response =
     cthen ctick (\<lambda>n.
     if cl_sql_error env n \<noteq> None then cret ()
     else let now = (case try_from_system_time (cl_clock env n) of Inr t \<Rightarrow> t | Inl _ \<Rightarrow> 0);
              whole = (\<lambda>k. if int k \<le> i64_max then int k else 0)
          in cdb (\<lambda>db. Inr ((), record_query_activity db (cl_next_activity env db) now (retrieval_mode_as_str (rp_mode response))
               (whole (length (rp_results response))) (whole (rp_elapsed_ms response)))))"

definition cmd_query :: "'g cli_env \<Rightarrow> app_paths \<Rightarrow> query_args \<Rightarrow> (exit_code, exit_code) cx" where
  "cmd_query env paths a =
     cthen (opened_config env paths) (\<lambda>(config, _).
     cthen (query_request env config a) (\<lambda>request.
     cthen (cread cs_db) (\<lambda>db.
     cthen (retrieval_err env (clift (retrieve (cl_retrieval env) (cl_feature env) db config request))) (\<lambda>response.
     cthen (note_activity env response) (\<lambda>_.
     cthen (print_config_err (print_either env (qg_json a)
       (JsonQuery \<lparr>qe_schema_version = 2, qe_response = response\<rparr>)
       (query_lines (cl_formats env) (qg_explain a) response))) (\<lambda>_.
       cret ExitSuccess))))))"

subsection \<open>Evaluation\<close>

text \<open>A run of the evaluation, \<open>None\<close> being its panic.\<close>

definition evaluated :: "'g cli_env \<Rightarrow> (retrieval_error + 'a) option \<Rightarrow> (exit_code, 'a) cx" where
  "evaluated env r = (case r of None \<Rightarrow> cpanic | Some r \<Rightarrow> retrieval_err env (clift r))"

definition print_evaluation :: "'g cli_env \<Rightarrow> bool \<Rightarrow> eval_report \<Rightarrow> (exit_code, exit_code) cx" where
  "print_evaluation env json report =
     cthen (print_config_err (print_either env json (JsonEvaluation report) (eval_lines (cl_formats env) report)))
       (\<lambda>_. cret ExitSuccess)"

definition cmd_eval :: "'g cli_env \<Rightarrow> app_paths \<Rightarrow> path option \<Rightarrow> ustring \<Rightarrow> bool \<Rightarrow> bool \<Rightarrow> (exit_code, exit_code) cx" where
  "cmd_eval env paths corpus mode compare json =
     cthen (domain_err ExitInvalidInput (retrieval_mode_from_str mode)) (\<lambda>mode.
     let bundle = (case corpus of Some p \<Rightarrow> p
           | None \<Rightarrow> if fs_exists (ce_fs (cl_config env)) (cl_dev_bundle env) then cl_dev_bundle env else lit ''evals'')
     in if compare \<or> mode \<noteq> Lexical
        then cthen (print_config_err (load_or_init env paths)) (\<lambda>config.
          cthen (reporting embedding_error_display (\<lambda>_. ExitProtocol)
            (clift (configured_provider (cl_feature env) (ac_embeddings config)))) (\<lambda>provider.
          if compare
          then cthen (evaluated env (compare_evaluation_with_provider (cl_eval env) bundle (ac_embeddings config) provider)) (\<lambda>report.
            cthen (print_config_err (print_json env (JsonComparison report))) (\<lambda>_. cret ExitSuccess))
          else cthen (evaluated env (run_evaluation_with_provider (cl_eval env) bundle mode (ac_embeddings config) provider))
            (print_evaluation env json)))
        else cthen (evaluated env (run_evaluation (cl_eval env) bundle mode)) (print_evaluation env json))"

subsection \<open>Snapshots\<close>

definition EXPORT_WARNING :: ustring where
  "EXPORT_WARNING = lit ''warning: snapshot contains derived indexed text and may include substantially all approved corpus content''"

definition listed_snapshots :: "'g cli_env \<Rightarrow> (config_error, snapshot_list_item list) cx" where
  "listed_snapshots env = cthen ctick (\<lambda>n. case cl_sql_error env n of
       Some e \<Rightarrow> cfail (ConfigIo (lit ''db'') (storage_error_display (cl_sql_text env) e))
     | None \<Rightarrow> cread (\<lambda>s. list_snapshots (cl_snapshots env) (cs_tree s) (cs_db s)))"

definition cmd_snapshot :: "'g cli_env \<Rightarrow> app_paths \<Rightarrow> snapshot_command \<Rightarrow> (exit_code, exit_code) cx" where
  "cmd_snapshot env paths action =
     cthen (opened_config env paths) (\<lambda>_. case action of
       SnapshotExport path only json \<Rightarrow>
         cthen (domain_err ExitInvalidInput (optional (parse_id env) only)) (\<lambda>filter.
         cthen (print_config_err (cdepot (export_snapshot (cl_snapshots env) path filter))) (\<lambda>report.
         cthen (cprint [Err EXPORT_WARNING]) (\<lambda>_.
         cthen (print_config_err (print_either env json (JsonExport report) (export_lines report))) (\<lambda>_. cret ExitSuccess))))
     | SnapshotImport path maps json \<Rightarrow>
         cthen (print_config_err (clift (parse_root_maps maps))) (\<lambda>maps.
         cthen (print_config_err (cdepot (import_snapshot (cl_snapshots env) path maps))) (\<lambda>report.
         cthen (print_config_err (print_either env json (JsonImport report) (import_lines report))) (\<lambda>_. cret ExitSuccess)))
     | SnapshotList json \<Rightarrow>
         cthen (print_config_err (listed_snapshots env)) (\<lambda>items.
         cthen (print_config_err (print_either env json (JsonSnapshots items) (snapshot_list_lines items))) (\<lambda>_. cret ExitSuccess))
     | SnapshotInspect i json \<Rightarrow>
         cthen (print_config_err (\<lambda>s. clift (inspect_snapshot (cl_snapshots env) (cs_tree s) (cs_db s) i) s)) (\<lambda>item.
         cthen (print_config_err (print_either env json (JsonInspect item) (inspect_lines item))) (\<lambda>_. cret ExitSuccess))
     | SnapshotRemove i json \<Rightarrow>
         cthen (print_config_err (cdepot (remove_snapshot (cl_snapshots env) i))) (\<lambda>report.
         cthen (print_config_err (print_either env json (JsonSnapshotRemoved report) (snapshot_removed_lines report)))
           (\<lambda>_. cret ExitSuccess)))"

subsection \<open>The program\<close>

definition resolve_paths :: "'g cli_env \<Rightarrow> path option \<Rightarrow> config_error + app_paths" where
  "resolve_paths env data_root = (case data_root of Some p \<Rightarrow> Inr (for_base p) | None \<Rightarrow> discover (cl_project_dirs env))"

definition run_command :: "'g cli_env \<Rightarrow> app_paths \<Rightarrow> command option \<Rightarrow> (exit_code, exit_code) cx" where
  "run_command env paths cmd = (case cmd of
       None \<Rightarrow> cthen (cprint [Out (lit ''Run `omnisem --help` for available commands.'')]) (\<lambda>_. cret ExitSuccess)
     | Some (CmdInit json) \<Rightarrow> print_config_err (cmd_init env paths json)
     | Some (CmdRoot action) \<Rightarrow> cmd_root env paths action
     | Some (CmdIndex only since json) \<Rightarrow> cmd_index env paths only since json
     | Some (CmdStatus json serve port) \<Rightarrow> cmd_status env paths json serve port
     | Some (CmdDoctor json) \<Rightarrow> cmd_doctor env paths json
     | Some (CmdSnapshot action) \<Rightarrow> cmd_snapshot env paths action
     | Some (CmdChanges since only json) \<Rightarrow> cmd_changes env paths since only json
     | Some (CmdQuery a) \<Rightarrow> cmd_query env paths a
     | Some (CmdEval corpus mode compare json) \<Rightarrow> cmd_eval env paths corpus mode compare json)"

definition run_cli :: "'g cli_env \<Rightarrow> cli_args \<Rightarrow> (exit_code, exit_code) cx" where
  "run_cli env cli =
     cthen (print_config_err (clift (resolve_paths env (ci_data_root cli)))) (\<lambda>paths. run_command env paths (ci_command cli))"

text \<open>The status the process ends with: the code of either outcome as a byte, 101 after a panic, none while it serves.\<close>

definition byte_status :: "exit_code \<Rightarrow> int" where
  "byte_status code = (let c = exit_code_code code in if 0 \<le> c \<and> c < 256 then c else 70)"

definition main_status :: "'g cli_env \<Rightarrow> cli_args \<Rightarrow> cli_state \<Rightarrow> int option \<times> cli_state" where
  "main_status env cli s = (case run_cli env cli s of (r, s') \<Rightarrow>
     (case r of Value code \<Rightarrow> Some (byte_status code) | Failed code \<Rightarrow> Some (byte_status code)
        | Panicked \<Rightarrow> Some 101 | Serving \<Rightarrow> None, s'))"

end
