(* ===== verification/Cli_Properties.thy ===== *)
theory Cli_Properties
  imports Cli Snapshot_Roundtrip
begin

text \<open>
  What the command line guarantees: a failure is told on the standard error and by the exit code, the commands that
  only look leave the index and the configuration as they are, and what an interrupted removal of a root leaves.
\<close>

subsection \<open>Failures are told\<close>

text \<open>A failure ends the output with an error line and comes with a code other than success.\<close>

definition told :: "cli_state \<Rightarrow> bool" where
  "told s \<longleftrightarrow> (\<exists>ls m. cs_printed s = ls @ [Err (lit ''error: '' @ m)])"

definition telling :: "(exit_code, 'a) cx \<Rightarrow> bool" where
  "telling m \<longleftrightarrow> (\<forall>s code s'. m s = (Failed code, s') \<longrightarrow> code \<noteq> ExitSuccess \<and> told s')"

text \<open>The values a command can end with.\<close>

definition ends :: "'a set \<Rightarrow> ('e, 'a) cx \<Rightarrow> bool" where
  "ends A m \<longleftrightarrow> (\<forall>s a s'. m s = (Value a, s') \<longrightarrow> a \<in> A)"

lemma telling_reporting: "(\<And>e. code e \<noteq> ExitSuccess) \<Longrightarrow> telling (reporting display code m)"
  by (auto simp: telling_def reporting_def told_def split: prod.splits ending.splits)

lemma telling_cthen: "telling m \<Longrightarrow> (\<And>a. telling (f a)) \<Longrightarrow> telling (cthen m f)"
  unfolding telling_def cthen_def by (fastforce split: prod.splits ending.splits)

lemma telling_simple:
  "telling (cret a)" "telling cpanic" "telling cserve" "telling (cread g)" "telling (cprint ls)" "telling ctick"
  by (simp_all add: telling_def cret_def cpanic_def cserve_def cread_def cprint_def ctick_def)

lemma telling_cdb: "telling (cdb (\<lambda>db. Inr (g db)))"
  by (simp add: telling_def cdb_def split: prod.split)

lemma config_code: "config_error_exit_code e \<noteq> ExitSuccess"
  using error_exit_codes_nonzero(1) [of e] by (cases "config_error_exit_code e") auto

lemma index_code: "index_error_exit_code e \<noteq> ExitSuccess"
  using error_exit_codes_nonzero(2) [of e] by (cases "index_error_exit_code e") auto

lemma retrieval_code: "retrieval_error_exit_code e \<noteq> ExitSuccess"
  using error_exit_codes_nonzero(3) [of e] by (cases "retrieval_error_exit_code e") auto

lemma telling_errors:
  "telling (print_config_err m)" "telling (storage_err env n)" "telling (retrieval_err env q)"
  "c \<noteq> ExitSuccess \<Longrightarrow> telling (domain_err c r)"
  "telling (reporting (index_error_display t) index_error_exit_code x)"
  "telling (reporting embedding_error_display (\<lambda>_. ExitProtocol) y)"
  unfolding print_config_err_def storage_err_def retrieval_err_def domain_err_def
  by (auto intro!: telling_reporting simp: config_code index_code retrieval_code)

lemma ends_cthen: "(\<And>a. ends A (f a)) \<Longrightarrow> ends A (cthen m f)"
  unfolding ends_def cthen_def by (fastforce split: prod.splits ending.splits)

lemma ends_cret: "a \<in> A \<Longrightarrow> ends A (cret a)"
  by (simp add: ends_def cret_def)

lemma ends_reporting: "ends A m \<Longrightarrow> ends A (print_config_err m)"
  by (auto simp: ends_def print_config_err_def reporting_def split: prod.splits ending.splits)

lemma ends_none: "ends A cpanic" "ends A cserve" "ends A (cfail e)"
  by (simp_all add: ends_def cpanic_def cserve_def cfail_def)

lemmas telling_intros = telling_cthen telling_simple telling_errors telling_cdb
lemmas ends_intros = ends_cthen ends_cret ends_none

lemma telling_opened_config: "telling (opened_config env paths)"
  unfolding opened_config_def by (intro telling_intros)

lemma telling_evaluated: "telling (evaluated env r)"
  by (cases r) (simp_all add: evaluated_def telling_simple telling_errors)

lemma telling_since_millis: "telling (since_millis env since)"
  unfolding since_millis_def by (auto intro!: telling_intros split: option.split)

lemma telling_query_request: "telling (query_request env config a)"
  unfolding query_request_def by (auto intro!: telling_intros split: prod.split)

lemma telling_embedding_checks: "telling (embedding_checks env config active)"
  unfolding embedding_checks_def by (auto intro!: telling_intros split: sum.split option.split)

lemma telling_note_activity: "telling (note_activity env response)"
  unfolding note_activity_def Let_def by (auto intro!: telling_intros split del: if_split split: if_split)

lemma telling_print_status: "telling (print_status env json out)"
  unfolding print_status_def by (auto intro!: telling_intros split: prod.split option.split)

lemmas telling_steps = telling_intros telling_opened_config telling_evaluated telling_since_millis telling_query_request
  telling_embedding_checks telling_note_activity telling_print_status

lemma telling_commands:
  "telling (cmd_root env paths action)" "telling (cmd_index env paths only since json)"
  "telling (cmd_status env paths json serve port)" "telling (cmd_doctor env paths json)"
  "telling (cmd_changes env paths since only json)" "telling (cmd_query env paths a)"
  "telling (cmd_eval env paths corpus mode compare json)" "telling (cmd_snapshot env paths snap)"
  unfolding cmd_root_def cmd_index_def cmd_status_def cmd_doctor_def cmd_changes_def cmd_query_def
    cmd_eval_def cmd_snapshot_def print_evaluation_def Let_def
  by (auto intro!: telling_steps split: prod.split snapshot_command.split)

text \<open>What a command that runs returns.\<close>

lemma index_exit_codes: "index_exit report \<in> {ExitSuccess, ExitPartialIndexing}"
  by (simp add: index_exit_def)

lemma ends_commands:
  "ends {ExitSuccess, ExitPartialIndexing} (cmd_root_add env paths path name json)"
  "ends {ExitSuccess, ExitPartialIndexing} (cmd_root_list env paths json)"
  "ends {ExitSuccess, ExitPartialIndexing} (cmd_root_suggest env json)"
  "ends {ExitSuccess, ExitPartialIndexing} (cmd_root_remove env paths i json)"
  "ends {ExitSuccess, ExitPartialIndexing} (cmd_init env paths json)"
  "ends {ExitSuccess, ExitPartialIndexing} (cmd_index env paths only since json)"
  "ends {ExitSuccess, ExitPartialIndexing} (cmd_status env paths json serve port)"
  "ends {ExitSuccess, ExitPartialIndexing} (cmd_doctor env paths json)"
  "ends {ExitSuccess, ExitPartialIndexing} (cmd_changes env paths since only json)"
  "ends {ExitSuccess, ExitPartialIndexing} (cmd_query env paths a)"
  "ends {ExitSuccess, ExitPartialIndexing} (cmd_eval env paths corpus mode compare json)"
  "ends {ExitSuccess, ExitPartialIndexing} (cmd_snapshot env paths snap)"
  unfolding cmd_root_add_def cmd_root_list_def cmd_root_suggest_def cmd_root_remove_def cmd_init_def cmd_index_def
    cmd_status_def cmd_doctor_def cmd_changes_def cmd_query_def cmd_eval_def cmd_snapshot_def print_evaluation_def Let_def
  by (auto intro!: ends_intros index_exit_codes split: prod.split sum.split snapshot_command.split if_splits)

lemma ends_run_command: "ends {ExitSuccess, ExitPartialIndexing} (run_command env paths cmd)"
  unfolding run_command_def cmd_root_def
  by (auto intro!: ends_intros ends_reporting ends_commands split: option.split command.split root_command.split)

lemma telling_run_command: "telling (run_command env paths cmd)"
  unfolding run_command_def
  by (auto intro!: telling_intros telling_commands split: option.split command.split)

lemma save_config_writes:
  "save_config env config p disk = (r, disk') \<Longrightarrow> disk p = None \<Longrightarrow> disk q = None \<or> disk' q = disk q"
  by (auto simp: save_config_def split: sum.splits option.splits if_splits)

subsection \<open>What a command leaves alone\<close>

text \<open>
  The tables of the index but for the log of queries and the schema version (opening an older database migrates it),
  the files that were there (a missing configuration is created), and the tree of the snapshots.
\<close>

definition rows_kept :: "cli_state \<Rightarrow> cli_state \<Rightarrow> bool" where
  "rows_kept s s' \<longleftrightarrow> (cs_db s')\<lparr>db_query_activity := [], db_schema_version := None\<rparr>
     = (cs_db s)\<lparr>db_query_activity := [], db_schema_version := None\<rparr>"

definition files_kept :: "cli_state \<Rightarrow> cli_state \<Rightarrow> bool" where
  "files_kept s s' \<longleftrightarrow> (\<forall>p. cs_disk s p = None \<or> cs_disk s' p = cs_disk s p)"

definition tree_kept :: "cli_state \<Rightarrow> cli_state \<Rightarrow> bool" where
  "tree_kept s s' \<longleftrightarrow> cs_tree s' = cs_tree s"

definition leaves :: "(cli_state \<Rightarrow> cli_state \<Rightarrow> bool) \<Rightarrow> ('e, 'a) cx \<Rightarrow> bool" where
  "leaves R m \<longleftrightarrow> (\<forall>s. R s (snd (m s)))"

lemma leavesI: "(\<And>s. R s (snd (m s))) \<Longrightarrow> leaves R m"
  by (simp add: leaves_def)

lemma leavesD: "leaves R m \<Longrightarrow> R s (snd (m s))"
  by (simp add: leaves_def)

text \<open>
  A part of the state: a relation between two states that composes and that holds when all three stay. Every command
  that only looks leaves every such part alone.
\<close>

locale state_part =
  fixes R :: "cli_state \<Rightarrow> cli_state \<Rightarrow> bool"
  assumes composes: "R s s' \<Longrightarrow> R s' s'' \<Longrightarrow> R s s''"
    and quiet: "rows_kept s s' \<Longrightarrow> files_kept s s' \<Longrightarrow> tree_kept s s' \<Longrightarrow> R s s'"
begin

lemma unchanged: "cs_db s' = cs_db s \<Longrightarrow> cs_disk s' = cs_disk s \<Longrightarrow> cs_tree s' = cs_tree s \<Longrightarrow> R s s'"
  by (rule quiet) (simp_all add: rows_kept_def files_kept_def tree_kept_def)

lemma leaves_cthen:
  assumes m: "leaves R m" and f: "\<And>a. leaves R (f a)"
  shows "leaves R (cthen m f)"
proof (rule leavesI)
  fix s
  obtain r s' where step: "m s = (r, s')" by force
  with leavesD [OF m, of s] have first: "R s s'" by simp
  then have "R s (snd (f a s'))" for a using leavesD [OF f] composes by blast
  with first show "R s (snd (cthen m f s))" by (simp add: cthen_def step split: ending.split)
qed

lemma leaves_simple:
  "leaves R (cret a)" "leaves R (cfail e)" "leaves R cpanic" "leaves R cserve" "leaves R (clift r)" "leaves R (cread g)"
  "leaves R (cprint ls)" "leaves R ctick"
  by (auto intro!: leavesI unchanged simp: cret_def cfail_def cpanic_def cserve_def clift_def cread_def cprint_def
      ctick_def split: sum.split)

lemma leaves_mapped: "leaves R m \<Longrightarrow> leaves R (cmap_err g m)" "leaves R m \<Longrightarrow> leaves R (reporting display code m)"
proof -
  assume m: "leaves R m"
  have step: "R s s'" if "m s = (r, s')" for s r s' using leavesD [OF m, of s] that by simp
  show "leaves R (cmap_err g m)"
    by (rule leavesI) (auto simp: cmap_err_def intro: step split: prod.split ending.split)
  show "leaves R (reporting display code m)"
    by (rule leavesI) (auto simp: reporting_def intro: step intro!: composes [OF step unchanged] split: prod.split ending.split)
qed

lemma leaves_created: "leaves R (cdisk (init_installation env paths))" "leaves R (load_or_init cenv paths)"
proof -
  have new: "disk q = None \<or> disk' q = disk q"
    if "init_installation env paths disk = (r, disk')" for env paths disk r disk' q
    using that save_config_writes [of env "default_for paths" "ap_config_file paths" disk]
    by (auto simp: init_installation_def split: prod.splits sum.splits if_splits)
  show "leaves R (cdisk (init_installation env paths))" "leaves R (load_or_init cenv paths)"
    by (auto intro!: leavesI quiet simp: rows_kept_def files_kept_def tree_kept_def cdisk_def load_or_init_def
        split: prod.split dest: new)
qed

lemma leaves_logged:
  "leaves R (cmigrate env n)" "leaves R (cdb (\<lambda>db. Inr ((), record_query_activity db (next_id db) t mode k ms)))"
  by (auto intro!: leavesI quiet simp: rows_kept_def files_kept_def tree_kept_def cmigrate_def migrate_index_def cdb_def
      record_query_activity_def Let_def split: prod.split)

lemmas leaves_intros = leaves_cthen leaves_simple leaves_mapped leaves_created leaves_logged

lemma leaves_helpers:
  "leaves R (print_json env v)" "leaves R (print_either env json v ls)" "leaves R (open_database env p)"
  "leaves R (reading_db env g)" "leaves R (listed_snapshots env)" "leaves R (note_activity env response)"
  "leaves R (domain_err c r)" "leaves R m \<Longrightarrow> leaves R (storage_as_io env p m)" "leaves R m1 \<Longrightarrow> leaves R (storage_err env m1)"
  "leaves R m2 \<Longrightarrow> leaves R (retrieval_err env m2)" "leaves R m3 \<Longrightarrow> leaves R (print_config_err m3)"
  unfolding print_either_def print_json_def open_database_def reading_db_def storage_as_io_def storage_err_def
    retrieval_err_def domain_err_def print_config_err_def listed_snapshots_def note_activity_def Let_def
  by (auto intro!: leaves_intros split: option.split)

lemmas leaves_basic = leaves_intros leaves_helpers

lemma leaves_parts:
  "leaves R (opened_config env paths)" "leaves R (print_status env json out)" "leaves R (since_millis env since)"
  "leaves R (query_request env config a)" "leaves R (evaluated env x)" "leaves R (print_evaluation env json report)"
  "leaves R (embedding_checks env config active)" "leaves R (\<lambda>s. clift (inspect_snapshot senv (cs_tree s) (cs_db s) i) s)"
  unfolding opened_config_def print_status_def since_millis_def query_request_def evaluated_def print_evaluation_def
    embedding_checks_def
  by (auto intro!: leaves_basic split: option.split prod.split sum.split)
    (auto intro!: leavesI unchanged simp: clift_def cfail_def cret_def split: sum.split)

lemma leaves_root_rows: "leaves R (root_rows env paths rs)"
  by (induction rs) (auto intro!: leaves_basic)

lemmas leaves_all = leaves_basic leaves_parts leaves_root_rows

lemma leaves_looking:
  "leaves R (cmd_init env paths json)" "leaves R (cmd_root_list env paths json)" "leaves R (cmd_root_suggest env json)"
  "leaves R (cmd_status env paths json serve port)" "leaves R (cmd_doctor env paths json)"
  "leaves R (cmd_changes env paths since only json)" "leaves R (cmd_query env paths a)"
  "leaves R (cmd_eval env paths corpus mode compare json)"
  "leaves R (cmd_snapshot env paths (SnapshotList json))" "leaves R (cmd_snapshot env paths (SnapshotInspect i json))"
  unfolding cmd_init_def cmd_root_list_def cmd_root_suggest_def cmd_status_def cmd_doctor_def cmd_changes_def cmd_query_def
    cmd_eval_def cmd_snapshot_def Let_def
  by (auto intro!: leaves_all split: prod.split)

lemma leaves_root_edits:
  assumes "\<And>f. leaves R (cdisk f :: (config_error, unit) cx)" "\<And>f. leaves R (cdb f :: (storage_error, unit) cx)"
    "\<And>f. leaves R (cdb f :: (storage_error, root_removal_counts) cx)"
  shows "leaves R (cmd_root_add env paths path name json)" "leaves R (cmd_root_remove env paths i json)"
  unfolding cmd_root_add_def cmd_root_remove_def Let_def
  by (auto intro!: leaves_all assms split: prod.split sum.split)

lemma leaves_cmd_index:
  "(\<And>m. leaves R (cindex m :: (index_error, sync_report index_report) cx)) \<Longrightarrow> leaves R (cmd_index env paths only since json)"
  unfolding cmd_index_def Let_def by (auto intro!: leaves_all split: prod.split)

lemma leaves_export:
  "(\<And>path only. leaves R (cdepot (export_snapshot (cl_snapshots env) path only)))
     \<Longrightarrow> leaves R (cmd_snapshot env paths (SnapshotExport path only json))"
  unfolding cmd_snapshot_def by (auto intro!: leaves_all split: prod.split)

lemma leaves_registry:
  assumes "\<And>m. leaves R (cdepot m :: (config_error, import_report) cx)"
  shows "leaves R (cmd_snapshot env paths (SnapshotImport path maps json))" "leaves R (cmd_snapshot env paths (SnapshotRemove i json))"
  unfolding cmd_snapshot_def by (auto intro!: leaves_all assms split: prod.split)

end

interpretation rows: state_part rows_kept
  by unfold_locales (auto simp: rows_kept_def)

interpretation files: state_part files_kept
  by unfold_locales (auto simp: files_kept_def, metis)

interpretation snapshot_tree: state_part tree_kept
  by unfold_locales (auto simp: tree_kept_def)

text \<open>The operations that change one part leave the others.\<close>

lemma part_operations:
  "leaves tree_kept (cdisk f)" "leaves tree_kept (cdb g)" "leaves tree_kept (cindex m)" "leaves files_kept (cindex m)"
  "leaves files_kept (cdepot n)"
  by (auto intro!: leavesI simp: tree_kept_def files_kept_def cdisk_def cdb_def cindex_def cdepot_def split: prod.split sum.split)

lemma export_keeps_rows: "leaves rows_kept (cdepot (export_snapshot env path only))"
proof (rule leavesI)
  fix s :: cli_state
  let ?d = "\<lparr>dp_db = cs_db s, dp_tree = cs_tree s, dp_tick = cs_tick s\<rparr>"
  have "same_db ?d (snd (export_snapshot env path only ?d))"
    by (rule keepsD [OF export_same_db]) (rule surjective_pairing)
  then have "dp_db (snd (export_snapshot env path only ?d)) = cs_db s" by (simp add: same_db_def)
  then show "rows_kept s (snd (cdepot (export_snapshot env path only) s))"
    by (auto simp: cdepot_def rows_kept_def split: prod.split)
qed

lemma snapshots_keep_files: "leaves files_kept (cmd_snapshot env paths snap)"
  by (cases snap) (auto intro!: files.leaves_looking files.leaves_export files.leaves_registry part_operations)

text \<open>Which commands edit which part.\<close>

definition edits_files :: "command option \<Rightarrow> bool" where
  "edits_files cmd = (case cmd of Some (CmdRoot (RootAdd _ _ _)) \<Rightarrow> True | Some (CmdRoot (RootRemove _ _)) \<Rightarrow> True | _ \<Rightarrow> False)"

definition edits_tree :: "command option \<Rightarrow> bool" where
  "edits_tree cmd = (case cmd of
       Some (CmdSnapshot (SnapshotExport _ _ _)) \<Rightarrow> True | Some (CmdSnapshot (SnapshotImport _ _ _)) \<Rightarrow> True
     | Some (CmdSnapshot (SnapshotRemove _ _)) \<Rightarrow> True | _ \<Rightarrow> False)"

definition edits_rows :: "command option \<Rightarrow> bool" where
  "edits_rows cmd = (case cmd of
       Some (CmdIndex _ _ _) \<Rightarrow> True | Some (CmdSnapshot (SnapshotImport _ _ _)) \<Rightarrow> True
     | Some (CmdSnapshot (SnapshotRemove _ _)) \<Rightarrow> True | _ \<Rightarrow> edits_files cmd)"

lemma run_command_leaves:
  "\<not> edits_files cmd \<Longrightarrow> leaves files_kept (run_command env paths cmd)"
  "\<not> edits_tree cmd \<Longrightarrow> leaves tree_kept (run_command env paths cmd)"
  "\<not> edits_rows cmd \<Longrightarrow> leaves rows_kept (run_command env paths cmd)"
  unfolding run_command_def cmd_root_def
  by (auto simp: edits_files_def edits_tree_def edits_rows_def
      intro!: files.leaves_all files.leaves_looking files.leaves_cmd_index snapshots_keep_files
        snapshot_tree.leaves_all snapshot_tree.leaves_looking snapshot_tree.leaves_cmd_index snapshot_tree.leaves_root_edits
        rows.leaves_all rows.leaves_looking rows.leaves_export part_operations export_keeps_rows
      split: option.splits command.splits root_command.splits snapshot_command.splits)

subsection \<open>Roots\<close>

lemma load_or_init_present:
  "cs_disk s (ap_config_file paths) \<noteq> None \<Longrightarrow>
     load_or_init env paths s = (case load_config (cl_config env) (cs_disk s) (ap_config_file paths) of
       Inl e \<Rightarrow> (Failed e, s) | Inr config \<Rightarrow> (Value config, s))"
  by (simp add: load_or_init_def cdisk_def split: sum.split)

lemma find_remove_first: "distinct (map ro_id rs) \<Longrightarrow> find (\<lambda>r. ro_id r = i) (remove_first (\<lambda>r. ro_id r = i) rs) = None"
  by (induction rs) (auto simp: find_None_iff, metis imageI)

lemma remove_root_twice:
  "distinct (map ro_id (ac_roots config)) \<Longrightarrow> remove_root config i = (Inr entry, config') \<Longrightarrow>
     remove_root config' i = (Inl (RootNotFound i), config')"
  by (auto simp: remove_root_def find_remove_first split: option.splits)

lemma open_fails:
  assumes "\<And>n. cl_connect_error env n p \<noteq> None"
  shows "\<exists>m s'. storage_as_io env p (open_database env p) s = (Failed (ConfigIo p m), s')
    \<and> cs_db s' = cs_db s \<and> cs_disk s' = cs_disk s"
  using assms [of "cs_tick s"]
  by (auto simp: storage_as_io_def cmap_err_def open_database_def cthen_def clift_def cret_def cfail_def ctick_def
      split: option.split)

subsection \<open>Properties\<close>

text \<open>
  C38. A failure is told. Whatever the arguments and the state of the machine, a run that fails ends its standard
  error with a line \<open>error: ...\<close> and exits with a code that is neither success nor above 255; a run that gives a code
  gives success or, for a partial indexing and for a failed diagnosis, that of a partial indexing.
\<close>

theorem failures_are_told:
  "case run_cli env cli s of
     (Value code, s') \<Rightarrow> code \<in> {ExitSuccess, ExitPartialIndexing} \<and> main_status env cli s = (Some (exit_code_code code), s')
   | (Failed code, s') \<Rightarrow> exit_code_code code \<noteq> 0 \<and> (\<exists>ls m. cs_printed s' = ls @ [Err (lit ''error: '' @ m)])
       \<and> main_status env cli s = (Some (exit_code_code code), s')
   | (Panicked, s') \<Rightarrow> main_status env cli s = (Some 101, s')
   | (Serving, s') \<Rightarrow> main_status env cli s = (None, s')"
proof -
  have tells: "telling (run_cli env cli)"
    unfolding run_cli_def by (intro telling_intros telling_run_command)
  have gives: "ends {ExitSuccess, ExitPartialIndexing} (run_cli env cli)"
    unfolding run_cli_def by (intro ends_cthen ends_run_command)
  have byte: "byte_status code = exit_code_code code" for code
    by (cases code) (simp_all add: byte_status_def Let_def)
  have zero: "exit_code_code code = 0 \<longleftrightarrow> code = ExitSuccess" for code by (cases code) simp_all
  show ?thesis
    using tells gives unfolding telling_def ends_def told_def
    by (fastforce simp: main_status_def byte zero split: prod.split ending.split)
qed


text \<open>
  C40. A removal of a root that fails half-way. The entry leaves the configuration before the database is opened. When
  connecting to the database then fails, the removal fails with a file system error, and its rows stay: the root is
  indexed and searched as before, without its sensitivity patterns. Removing it again, on the saved
  configuration and whatever the database does now, fails as an unknown root and leaves the index alone.
\<close>

theorem root_remove_half_done:
  fixes env :: "'g cli_env"
  assumes loaded: "load_config (cl_config env) (cs_disk s) (ap_config_file paths) = Inr config"
    and unique: "distinct (map ro_id (ac_roots config))"
    and entry: "remove_root config i = (Inr entry, config')"
    and saved: "save_config (cl_config env) config' (ap_config_file paths) (cs_disk s) = (Inr (), disk')"
    and db_path: "database_path (cl_config env) config' = Inr p"
    and fails: "\<And>n. cl_connect_error env n p \<noteq> None"
    and reloads: "load_config (cl_config env) disk' (ap_config_file paths) = Inr config'"
  shows "\<exists>s'. run_command env paths (Some (CmdRoot (RootRemove i json))) s = (Failed ExitFilesystem, s')
      \<and> cs_db s' = cs_db s \<and> cs_disk s' = disk'
      \<and> (\<forall>(env' :: 'g cli_env) s''. cl_config env' = cl_config env \<longrightarrow> cs_disk s'' = disk' \<longrightarrow>
          (\<exists>s3. run_command env' paths (Some (CmdRoot (RootRemove i json))) s'' = (Failed ExitConfiguration, s3)
            \<and> cs_db s3 = cs_db s'' \<and> cs_disk s3 = disk'))"
proof -
  obtain m s2 where opened: "storage_as_io env p (open_database env p) (s\<lparr>cs_disk := disk'\<rparr>) = (Failed (ConfigIo p m), s2)"
      and same: "cs_db s2 = cs_db s" "cs_disk s2 = disk'"
    using open_fails [OF fails, of "s\<lparr>cs_disk := disk'\<rparr>"] by auto
  have present: "cs_disk s (ap_config_file paths) \<noteq> None" "disk' (ap_config_file paths) \<noteq> None"
    using loaded reloads by (auto simp: load_config_def read_to_string_def split: option.splits)
  have first: "cmd_root_remove env paths i json s = (Failed (ConfigIo p m), s2)"
    using present by (simp add: cmd_root_remove_def load_or_init_present loaded entry cdisk_def saved db_path clift_def
        cret_def cthen_def opened)
  have again: "cmd_root_remove env' paths i json s'' = (Failed (RootNotFound i), s'')"
    if "cl_config env' = cl_config env" "cs_disk s'' = disk'" for env' :: "'g cli_env" and s''
    using that present by (simp add: cmd_root_remove_def load_or_init_present reloads cthen_def
        remove_root_twice [OF unique entry] cfail_def)
  from first same again show ?thesis
    by (auto simp: run_command_def cmd_root_def print_config_err_def reporting_def)
qed

text \<open>A configuration with one root, and an environment that saves and reads it back.\<close>

definition one_root :: root_config where
  "one_root = \<lparr>ro_id = lit ''r1'', ro_name = lit ''notes'', ro_path = lit ''/notes'', ro_include = [], ro_exclude = [],
     ro_sensitivity = [], ro_follow_symlinks = False, ro_enabled = True\<rparr>"

definition one_root_config :: app_config where
  "one_root_config = (default_for (for_base (lit ''d'')))\<lparr>ac_roots := [one_root]\<rparr>"

definition writable_env :: "'g cli_env \<Rightarrow> sql_error \<Rightarrow> 'g cli_env" where
  "writable_env env e = env\<lparr>cl_config := (cl_config env)\<lparr>ce_parse_uuid := \<lambda>_. Some 1,
       ce_toml_parse := \<lambda>t. Inr (if t = [1] then one_root_config else default_for (for_base (lit ''d''))),
       ce_toml_print := \<lambda>_. Inr [2], ce_create_dir_all := \<lambda>_. None, ce_write := \<lambda>_. None,
       ce_set_permissions := \<lambda>_. None, ce_read_failure := \<lambda>_. None\<rparr>, cl_connect_error := \<lambda>_ _. Some e\<rparr>"

lemma preset_names: "trim (lit ''small'') \<noteq> []" "trim (lit ''standard'') \<noteq> []" "trim (lit ''large'') \<noteq> []" "trim (lit ''notes'') \<noteq> []"
  by (simp_all add: trim_def trim_matches_def trim_start_matches_def trim_end_matches_def is_whitespace_def lit_def)

lemma sample_valid:
  "validate_config env (default_for paths) = Inr ()"
  "ce_parse_uuid env (lit ''r1'') = Some i \<Longrightarrow> validate_config env one_root_config = Inr ()"
  by (simp_all add: validate_config_def one_root_config_def default_for_def default_embedding_config_def preset_names
      default_retrieval_config_def default_budget_presets_def validate_embeddings_def parse_root_id_def one_root_def)

lemma sample_db_path: "database_path env (default_for (for_base (lit ''d''))) = Inr (ap_default_database_path (for_base (lit ''d'')))"
proof -
  have "strip_prefix (lit ''~/'') (ap_default_database_path (for_base (lit ''d''))) = None"
    "ap_default_database_path (for_base (lit ''d'')) \<noteq> lit ''~''"
    by code_simp+
  then show ?thesis by (simp add: database_path_def default_for_def expand_user_path_def)
qed

theorem root_remove_half_done_witness:
  "\<forall>(env :: 'g cli_env) e (s :: cli_state) json. \<exists>s'. run_command (writable_env env e) (for_base (lit ''d'')) (Some (CmdRoot (RootRemove (lit ''r1'') json)))
        (s\<lparr>cs_disk := [ap_config_file (for_base (lit ''d'')) \<mapsto> [1]]\<rparr>) = (Failed ExitFilesystem, s')
      \<and> cs_db s' = cs_db s \<and> cs_disk s' = [ap_config_file (for_base (lit ''d'')) \<mapsto> [2]]"
proof (intro allI)
  fix env :: "'g cli_env" and e and s :: cli_state and json
  define paths where "paths = for_base (lit ''d'')"
  define cfg where "cfg = cl_config (writable_env env e)"
  define s1 where "s1 = s\<lparr>cs_disk := [ap_config_file paths \<mapsto> [1 :: nat]]\<rparr>"
  have cfg: "ce_parse_uuid cfg j = Some 1" "ce_toml_parse cfg [1] = Inr one_root_config" "ce_toml_parse cfg [2] = Inr (default_for paths)"
    "ce_toml_print cfg c = Inr [2]" "ce_create_dir_all cfg q = None" "ce_write cfg q = None" "ce_set_permissions cfg q = None"
    "ce_read_failure cfg q = None" for j c q
    by (simp_all add: cfg_def writable_env_def paths_def)
  have "load_config cfg (cs_disk s1) (ap_config_file paths) = Inr one_root_config"
    by (simp add: load_config_def read_to_string_def s1_def cfg sample_valid del: One_nat_def)
  moreover have "distinct (map ro_id (ac_roots one_root_config))" by (simp add: one_root_config_def)
  moreover have "remove_root one_root_config (lit ''r1'') = (Inr one_root, default_for paths)"
    by (simp add: remove_root_def one_root_config_def one_root_def default_for_def paths_def)
  moreover have "save_config cfg (default_for paths) (ap_config_file paths) (cs_disk s1) = (Inr (), [ap_config_file paths \<mapsto> [2]])"
    by (simp add: save_config_def sample_valid s1_def cfg restrict_permissions_def sys_def split: option.split)
  moreover have "database_path cfg (default_for paths) = Inr (ap_default_database_path paths)"
    by (simp add: paths_def sample_db_path)
  moreover have "load_config cfg [ap_config_file paths \<mapsto> [2]] (ap_config_file paths) = Inr (default_for paths)"
    by (simp add: load_config_def read_to_string_def cfg sample_valid)
  moreover have "cl_connect_error (writable_env env e) n p \<noteq> None" for n p by (simp add: writable_env_def)
  moreover have "cs_db s1 = cs_db s" by (simp add: s1_def)
  ultimately have "\<exists>s'. run_command (writable_env env e) paths (Some (CmdRoot (RootRemove (lit ''r1'') json))) s1 = (Failed ExitFilesystem, s')
      \<and> cs_db s' = cs_db s \<and> cs_disk s' = [ap_config_file paths \<mapsto> [2]]"
    using root_remove_half_done [of "writable_env env e" s1 paths] unfolding cfg_def by metis
  then show "\<exists>s'. run_command (writable_env env e) (for_base (lit ''d'')) (Some (CmdRoot (RootRemove (lit ''r1'') json)))
        (s\<lparr>cs_disk := [ap_config_file (for_base (lit ''d'')) \<mapsto> [1]]\<rparr>) = (Failed ExitFilesystem, s')
      \<and> cs_db s' = cs_db s \<and> cs_disk s' = [ap_config_file (for_base (lit ''d'')) \<mapsto> [2]]"
    by (simp only: s1_def paths_def)
qed

end
