(* ===== verification/Spec2Isabelle.thy ===== *)
theory Spec2Isabelle
  imports Prelude Text Tokens Domain Query Parsing Markdown Paths Discovery Errors Sources Git Storage
    Storage_Invariants Storage_Properties Effects Index Index_Documents Index_Roots Index_Properties
    Floats Config Embedding Snapshots Retrieval Fusion Semantic Fusion_Properties Retrieval_Properties
    Embedding_Sync Sync_Properties Sync_Guarantees
    Snapshot_Payload Snapshot_Files Snapshot_Store Snapshot_Registry Snapshot_Properties Snapshot_Guarantees
    Snapshot_Roundtrip Snapshot_Witnesses Status_Server Status_Properties Suggest
    End_To_End Evaluation_Metrics Evaluation Evaluation_Bounds Evaluation_Properties
    Cli_Output Cli Cli_Properties
begin

text \<open>
  \<^bold>\<open>omni-sem\<close>, a local, private index of text files with lexical, semantic and snapshot retrieval: a Rust library
  (\<open>crates/omnisem-core/src\<close>) and its command line (\<open>crates/omnisem-cli/src/main.rs\<close>). This development models the
  whole of both but for what the last section names, and proves what makes each part correct.

  \<^bold>\<open>The program.\<close> A configuration names the approved roots. Indexing walks a root (\<open>discovery.rs\<close>) or takes a change
  list from Git (\<open>git.rs\<close>), reads every admitted file under a stability check (\<open>io.rs\<close>), parses it into segments
  (\<open>parsing/\<close>) and promotes the result in the database (\<open>storage.rs\<close>): the file gets an immutable new revision, and the
  full-text table holds the segments of the current revisions only (\<open>index.rs\<close>). Embeddings are synchronised afterwards
  (\<open>embedding.rs\<close>, \<open>embedding_sync.rs\<close>). A query (\<open>query_parse.rs\<close>, \<open>retrieval.rs\<close>) searches the full-text table, the
  vectors of the active embedding space and the mapped snapshots (\<open>snapshot.rs\<close>), fuses the rankings, removes
  duplicates and sensitive hits, and packs the rest into a token budget. The evaluation (\<open>eval.rs\<close>) runs queries over a bundled
  corpus; the status server (\<open>status_server.rs\<close>) shows counts; \<open>suggest.rs\<close> proposes roots.

  \<^bold>\<open>Theories\<close>, each with the source it models; the operations keep their names.

  \<^item> \<open>Prelude\<close>, \<open>Text\<close>: results as sums, saturating integers, Rust's sort over a comparison function (locale \<open>comparator\<close>),
    strings as lists of code points.
  \<^item> \<open>Tokens\<close> (\<open>tokens.rs\<close>), \<open>Domain\<close> (\<open>domain.rs\<close>; the storage tokens satisfy the locale \<open>token_enum\<close>), \<open>Errors\<close>
    (\<open>error.rs\<close>), \<open>Floats\<close> (Rust's \<open>f32\<close> and \<open>f64\<close>, rounding included), \<open>Paths\<close> (\<open>std::path\<close> and the observed file system).
  \<^item> \<open>Query\<close> (\<open>query_parse.rs\<close>): the MATCH expression, with a reader of FTS5 literals as its specification.
  \<^item> \<open>Parsing\<close>, \<open>Markdown\<close> (\<open>parsing/\<close>): both parsers interpret the locale \<open>segment_source\<close>.
  \<^item> \<open>Discovery\<close> (\<open>discovery.rs\<close>), \<open>Sources\<close> (\<open>io.rs\<close>, \<open>freshness.rs\<close>, \<open>hash.rs\<close>), \<open>Git\<close> (\<open>git.rs\<close>).
  \<^item> \<open>Storage\<close> (\<open>storage.rs\<close>): the record \<open>db\<close> has a list of rows for each table; \<open>Storage_Invariants\<close> has the invariant
    \<open>db_ok\<close> and the abstract index \<open>index_view\<close>, from a root and a path to the current revision and its segments;
    \<open>Storage_Properties\<close> its contract.
  \<^item> \<open>Effects\<close>, \<open>Index\<close>, \<open>Index_Documents\<close>, \<open>Index_Roots\<close>, \<open>Index_Properties\<close> (\<open>index.rs\<close>): operations on a world (the
    database and a tick), a small logic of triples for them, and what a document, a scan and a run do to the abstract index.
  \<^item> \<open>Config\<close> (\<open>config.rs\<close>, \<open>paths.rs\<close>).
  \<^item> \<open>Embedding\<close>, \<open>Embedding_Sync\<close>, \<open>Sync_Properties\<close>, \<open>Sync_Guarantees\<close> (\<open>embedding.rs\<close>, \<open>embedding_sync.rs\<close>).
  \<^item> \<open>Retrieval\<close> (lexical search), \<open>Fusion\<close> (rank fusion and packing), \<open>Semantic\<close> (vector scan and the whole request), with
    \<open>Fusion_Properties\<close> and \<open>Retrieval_Properties\<close> (\<open>retrieval.rs\<close>).
  \<^item> \<open>End_To_End\<close>: what a search finds of a root that was scanned; its property stands at the end of this theory.
  \<^item> \<open>Snapshots\<close>, \<open>Snapshot_Payload\<close>, \<open>Snapshot_Files\<close>, \<open>Snapshot_Store\<close>, \<open>Snapshot_Registry\<close> (\<open>snapshot.rs\<close>): operations on a
    depot (database and file tree) of which every file operation may fail; \<open>Snapshot_Properties\<close>, \<open>Snapshot_Guarantees\<close> (locale
    \<open>frame\<close>: what an operation leaves alone), \<open>Snapshot_Roundtrip\<close>, \<open>Snapshot_Witnesses\<close>.
  \<^item> \<open>Status_Server\<close>, \<open>Status_Properties\<close> (\<open>status_server.rs\<close>): one request, and the accept loop as a step relation.
  \<^item> \<open>Suggest\<close> (\<open>suggest.rs\<close>).
  \<^item> \<open>Evaluation_Metrics\<close>, \<open>Evaluation\<close>, \<open>Evaluation_Bounds\<close>, \<open>Evaluation_Properties\<close> (\<open>eval.rs\<close>).
  \<^item> \<open>Cli_Output\<close>, \<open>Cli\<close>, \<open>Cli_Properties\<close> (\<open>main.rs\<close>): every command from its parsed arguments to what is printed, what is
    changed and the exit code; locale \<open>state_part\<close>: the parts of the state a command leaves alone.
\<close>

text \<open>
  \<^bold>\<open>What the lemmas show.\<close> Indexing refines an abstract map: a document is unchanged, added or modified exactly as its
  outcome says, a full scan ends with exactly the files it saw, every reachable database is well-formed, a parser failure
  keeps the previous revision. Search returns the best matching active segments and nothing else, a query cannot leave its
  quoted literals, no sensitive path reaches an answer unasked (for roots spelled canonically), answers respect result, token
  and byte limits. A completed synchronisation has a vector for every active segment; snapshots are imported completely or
  not at all, and an export passes the checks of an import. Evaluations stay in range and their fingerprints
  identify the indexed content. The status pages do not depend on any text, path or query. Failing commands
  say so, and each command changes only its part of the state.

  Some theorems state behaviour that is surprising (in \<open>Index_Properties\<close>, \<open>Retrieval_Properties\<close>,
  \<open>Evaluation_Properties\<close> and \<open>Cli_Properties\<close>): content that returns to an earlier version is not
  indexed again, a public document hidden by a sensitive twin, tags that need the canonical spelling of a root identifier, a
  corpus that can be written outside its directory, and a root removal that stops half-way.

  \<^bold>\<open>Representation.\<close> \<open>Result\<close> is a sum with the error on the left; \<open>None\<close> of an outer option is a panic where one is possible.
  Counters of type \<open>u32\<close>, \<open>u64\<close> and \<open>usize\<close> are naturals, with the saturation or the cast of the source written out where
  it occurs; timestamps are integers. Rows of a table are a list in insertion order. A reading of the clock, a fresh
  identifier, a file read or a call of a provider is a function of a tick, which every such use advances, so that no two
  readings are assumed equal. A failing statement of the registry or of indexing leaves what was written before it,
  and a transaction leaves the database it started from.

  \<^bold>\<open>Loops and bounds.\<close> No definition uses fuel. Recursion is structural but for UTF-8 decoding, the splitting of
  oversized paragraphs, the reader of FTS5 literals and the batches of a synchronisation, whose termination is proved by
  measures; the walk of \<open>Suggest\<close> recurs on its remaining depth, of which the code allows three levels below a seed.
  The limits of the source (result and token limits, 8 KiB for a request to the status server, size limits of snapshots, retained activity and runs)
  are the constants of the model.

  \<^bold>\<open>Parameters\<close>, as records of functions passed to the operations: the file system and the glob and ignore matchers, the event
  stream of \<open>pulldown-cmark\<close>, the output of \<open>git\<close>, BLAKE3, TOML, URL, UUID and JSON codecs, SQLite as far as it matches and
  ranks full text, reads and writes the files of snapshots and fails, the HTTP agent, the mathematical library, sockets, the platform
  directories, and the clock. A property that needs a law of one of them has it as a hypothesis, and its witness an instance.

  \<^bold>\<open>Not modelled.\<close> The module list \<open>lib.rs\<close> and the tests; the parsing of arguments (\<open>clap\<close>) and a broken pipe while
  printing; the \<open>serde\<close> derivations; the language of SQL (each statement is the table operation it denotes, the scripts of
  the migrations the record \<open>db\<close> and its constraints), the decoding of columns back into domain values and opening files of SQLite with
  their PRAGMA statements; real concurrency, of which the status server's shutdown flag is the only instance and is an
  interleaving of steps.
\<close>

subsection \<open>From a file to an answer\<close>

text \<open>
  C3. What is indexed is found, and nothing else. After a full scan of an enabled root in which no document failed, a
  full-text search of that root that does not fill its limit returns only segments of files the scan saw; and for every
  file that discovery admitted, the index has a revision made from a stable read of it, every matching
  segment of which is among the results.
\<close>

theorem indexed_root_is_searchable:
  assumes "db_ok (wd_db w)" "rt_enabled approved"
    and "index_one_root_full env approved registry asked base commit why w = (Inr report, w')"
    and "\<not> ir_failed report" "ir_failures report = 0"
    and "rq_root_ids request = [rt_id approved]" "rq_file_types request = []"
    and "search_fts renv (wd_db w') request parsed limit = Inr cs" "length cs < limit"
  shows "\<exists>n discovery. discover_root (ie_discovery env n) approved default_discovery_options = Inr discovery
    \<and> (\<forall>c \<in> set cs. cd_root_id c = rt_id approved \<and> was_seen (dr_documents discovery) (cd_relative_path c))
    \<and> (\<forall>d \<in> set (dr_documents discovery). \<exists>v gs.
         index_view (wd_db w') (rt_id approved, dd_relative_path d) = Some (v, gs)
         \<and> (\<exists>e \<in> set (dr_documents discovery). dd_relative_path e = dd_relative_path d \<and> indexed_from env registry e v)
         \<and> (\<forall>s \<in> set gs. fx_match (re_fts renv) (pq_fts_match parsed) (sg_text s) \<longrightarrow> (\<exists>c \<in> set cs. cd_segment_id c = sg_id s)))"
proof -
  let ?db = "wd_db w'"
  from triple_use [OF triple_index_one_root_full [OF assms(1)] refl assms(3)] assms(4)
  obtain n discovery where ok: "db_ok ?db" and found: "discover_root (ie_discovery env n) approved default_discovery_options = Inr discovery"
    and scan: "scanned env approved registry (dr_documents discovery) report ?db"
    by (auto simp: full_post_def run_inv_def)
  have allows: "request_allows request i t \<longleftrightarrow> i = rt_id approved" for i t
    using assms(6,7) by (simp add: request_allows_def)
  have complete: "\<exists>c \<in> set cs. cd_segment_id c = sg_id s"
    if "index_view ?db (rt_id approved, p) = Some (v, gs)" "s \<in> set gs" "fx_match (re_fts renv) (pq_fts_match parsed) (sg_text s)" for p v gs s
    using indexed_is_searchable [OF ok full_scan_root_row [OF assms(3)] assms(2) that(1,2)] allows
      search_complete [OF ok assms(8,9) _ that(3)] by blast
  have sound: "cd_root_id c = rt_id approved \<and> was_seen (dr_documents discovery) (cd_relative_path c)" if "c \<in> set cs" for c
    using search_sound [OF ok assms(8) that] allows scan by (auto simp: scanned_def)
  have "covered env approved registry (dr_documents discovery) ?db (doc_key approved d)" if "d \<in> set (dr_documents discovery)" for d
    using scan assms(5) that by (simp add: scanned_def)
  then show ?thesis
    using found sound complete unfolding covered_def doc_key_def by (intro exI [of _ n] exI [of _ discovery]) fastforce
qed

theorem indexed_root_is_searchable_witness:
  "\<exists>report w' cs v gs. index_one_root_full hello_env sample_root hello_registry None None None None
      \<lparr>wd_db = hello_db, wd_tick = 0\<rparr> = (Inr report, w')
    \<and> search_fts plain_env (wd_db w') (plain_request\<lparr>rq_root_ids := [1]\<rparr>) one_parsed (Suc (length (fts_join (wd_db w')))) = Inr cs
    \<and> index_view (wd_db w') (1, lit ''a.md'') = Some (v, gs)
    \<and> (\<forall>s \<in> set gs. 111 \<in> set (sg_text s) \<longrightarrow> (\<exists>c \<in> set cs. cd_segment_id c = sg_id s))"
proof -
  obtain report w' where run: "index_one_root_full hello_env sample_root hello_registry None None None None
      \<lparr>wd_db = hello_db, wd_tick = 0\<rparr> = (Inr report, w')" "\<not> ir_failed report" "ir_failures report = 0"
    using hello_scan by blast
  obtain cs where cs: "search_fts plain_env (wd_db w') (plain_request\<lparr>rq_root_ids := [1]\<rparr>) one_parsed (Suc (length (fts_join (wd_db w')))) = Inr cs"
    "length cs \<le> length (fts_join (wd_db w'))" using plain_search by blast
  have facts: "rt_enabled sample_root" "rt_id sample_root = 1" "dd_relative_path sample_document = lit ''a.md''"
    "rq_file_types (plain_request\<lparr>rq_root_ids := [1]\<rparr>) = []" "fx_match (re_fts plain_env) = (\<lambda>e t. 111 \<in> set t)"
    by (simp_all add: sample_root_def sample_document_def plain_request_def plain_env_def)
  have "db_ok (wd_db \<lparr>wd_db = hello_db, wd_tick = 0\<rparr>)" by (simp add: hello_db_ok)
  from indexed_root_is_searchable [OF this facts(1) run _ facts(4) cs(1)] cs(2) hello_discovery facts
  have "\<exists>v gs. index_view (wd_db w') (1, lit ''a.md'') = Some (v, gs)
    \<and> (\<forall>s \<in> set gs. 111 \<in> set (sg_text s) \<longrightarrow> (\<exists>c \<in> set cs. cd_segment_id c = sg_id s))"
    by auto
  with run(1) cs(1) show ?thesis by blast
qed

end
